(* ===== verification/Go_Prelude.thy ===== *)
theory Go_Prelude
  imports Main "HOL-Library.Char_ord" "HOL-Library.List_Lexorder" "HOL-Library.Multiset"
    "HOL-Library.Sublist" "HOL-Library.Code_Target_Nat"
begin

text \<open>
  What domaintest uses of Go and of Go's standard library, shared by every component.

  A Go \<open>string\<close> is a sequence of bytes; the model's \<^typ>\<open>string\<close> is a list of
  \<^typ>\<open>char\<close>, which is a list of bytes too, so \<open>len\<close> is \<^const>\<open>length\<close>. White
  space and letter case are the ASCII ones: on text outside ASCII, where Go decodes UTF-8 and
  folds Unicode letters, the functions below leave the bytes alone.

  A Go map is an association list (\<open>('k, 'v) go_map\<close>) whose order stands for the iteration
  order, which Go leaves unspecified: what must not depend on it is proved not to.
\<close>

section \<open>Collections of facts\<close>

named_theorems go_string \<open>facts about the string functions of Go\<close>
named_theorems go_defs \<open>definitions of small Go helpers, to unfold together\<close>

type_synonym ('k, 'v) go_map = "('k \<times> 'v) list"

section \<open>Package strings\<close>

definition is_space :: "char \<Rightarrow> bool" where
  "is_space c \<longleftrightarrow> c \<in> {CHR '' '', CHR 0x09, CHR 0x0A, CHR 0x0B, CHR 0x0C, CHR 0x0D}"

text \<open>The class \<open>\s\<close> of package regexp.\<close>

definition re_space :: "char \<Rightarrow> bool" where
  "re_space c \<longleftrightarrow> c \<in> {CHR '' '', CHR 0x09, CHR 0x0A, CHR 0x0C, CHR 0x0D}"

definition TrimLeftFunc :: "(char \<Rightarrow> bool) \<Rightarrow> string \<Rightarrow> string" where
  "TrimLeftFunc p s = dropWhile p s"

definition TrimRightFunc :: "(char \<Rightarrow> bool) \<Rightarrow> string \<Rightarrow> string" where
  "TrimRightFunc p s = rev (dropWhile p (rev s))"

definition TrimFunc :: "(char \<Rightarrow> bool) \<Rightarrow> string \<Rightarrow> string" where
  "TrimFunc p s = TrimRightFunc p (TrimLeftFunc p s)"

definition TrimSpace :: "string \<Rightarrow> string" where
  "TrimSpace s = TrimFunc is_space s"

definition HasPrefix :: "string \<Rightarrow> string \<Rightarrow> bool" where
  "HasPrefix s p \<longleftrightarrow> take (length p) s = p"

definition HasSuffix :: "string \<Rightarrow> string \<Rightarrow> bool" where
  "HasSuffix s p \<longleftrightarrow> length p \<le> length s \<and> drop (length s - length p) s = p"

definition TrimPrefix :: "string \<Rightarrow> string \<Rightarrow> string" where
  "TrimPrefix s p = (if HasPrefix s p then drop (length p) s else s)"

definition TrimSuffix :: "string \<Rightarrow> string \<Rightarrow> string" where
  "TrimSuffix s p = (if HasSuffix s p then take (length s - length p) s else s)"

fun Contains :: "string \<Rightarrow> string \<Rightarrow> bool" where
  "Contains [] p \<longleftrightarrow> p = []"
| "Contains (c # s) p \<longleftrightarrow> HasPrefix (c # s) p \<or> Contains s p"

function Fields :: "string \<Rightarrow> string list" where
  "Fields s =
     (case dropWhile is_space s of
        [] \<Rightarrow> []
      | c # t \<Rightarrow> takeWhile (\<lambda>x. \<not> is_space x) (c # t)
                 # Fields (dropWhile (\<lambda>x. \<not> is_space x) t))"
  by pat_completeness auto
termination
proof (relation "measure length", goal_cases)
  case (2 s c t)
  have "length (dropWhile (\<lambda>x. \<not> is_space x) t) \<le> length t"
    by (rule length_dropWhile_le)
  also have "length t < length (dropWhile is_space s)" using 2 by simp
  also have "\<dots> \<le> length s" by (rule length_dropWhile_le)
  finally show ?case by simp
qed simp

declare Fields.simps [simp del]

text \<open>\<open>strings.Split\<close> on a one-byte separator: always at least one field.\<close>

fun Split :: "char \<Rightarrow> string \<Rightarrow> string list" where
  "Split c [] = [[]]"
| "Split c (x # s) =
     (if x = c then [] # Split c s
      else (case Split c s of [] \<Rightarrow> [[x]] | f # fs \<Rightarrow> (x # f) # fs))"

text \<open>\<open>strings.Cut\<close>, which is also \<open>strings.SplitN\<close> with a limit of two: the text before
  the first separator, and the text after it when there is one.\<close>

definition Cut :: "char \<Rightarrow> string \<Rightarrow> string \<times> string option" where
  "Cut c s =
     (takeWhile (\<lambda>x. x \<noteq> c) s,
      case dropWhile (\<lambda>x. x \<noteq> c) s of [] \<Rightarrow> None | _ # t \<Rightarrow> Some t)"

fun Join :: "string \<Rightarrow> string list \<Rightarrow> string" where
  "Join sep [] = []"
| "Join sep [x] = x"
| "Join sep (x # y # xs) = x @ sep @ Join sep (y # xs)"

definition lower_char :: "char \<Rightarrow> char" where
  "lower_char c =
     (let n = of_char c :: nat in if 65 \<le> n \<and> n \<le> 90 then char_of (n + 32) else c)"

definition ToLower :: "string \<Rightarrow> string" where
  "ToLower s = map lower_char s"

definition EqualFold :: "string \<Rightarrow> string \<Rightarrow> bool" where
  "EqualFold s t \<longleftrightarrow> ToLower s = ToLower t"

text \<open>\<open>strings.ReplaceAll\<close> of one byte by another.\<close>

definition ReplaceByte :: "char \<Rightarrow> char \<Rightarrow> string \<Rightarrow> string" where
  "ReplaceByte a b s = map (\<lambda>c. if c = a then b else c) s"

section \<open>Package strconv\<close>

definition is_digit :: "char \<Rightarrow> bool" where
  "is_digit c \<longleftrightarrow> (let n = of_char c :: nat in 48 \<le> n \<and> n \<le> 57)"

definition digit_val :: "char \<Rightarrow> nat" where
  "digit_val c = of_char c - 48"

definition digits_val :: "string \<Rightarrow> nat" where
  "digits_val s = foldl (\<lambda>n c. 10 * n + digit_val c) 0 s"

text \<open>
  \<open>strconv.ParseInt (s, 10, 64)\<close>, and \<open>strconv.Atoi\<close> on a 64-bit platform: the value and
  whether the error was nil. A syntax error gives 0, a range error the nearest bound.
\<close>

definition max_int64 :: int where "max_int64 = 2 ^ 63 - 1"
definition min_int64 :: int where "min_int64 = - (2 ^ 63)"

definition Atoi :: "string \<Rightarrow> int \<times> bool" where
  "Atoi s =
     (let neg = HasPrefix s ''-'';
          body = (if neg \<or> HasPrefix s ''+'' then drop 1 s else s)
      in if body = [] \<or> \<not> list_all is_digit body then (0, False)
         else let v = (if neg then - int (digits_val body) else int (digits_val body))
              in if v > max_int64 then (max_int64, False)
                 else if v < min_int64 then (min_int64, False)
                 else (v, True))"

definition digit_char :: "nat \<Rightarrow> char" where
  "digit_char d = char_of (48 + d)"

fun nat_text :: "nat \<Rightarrow> string" where
  "nat_text n = (if n < 10 then [digit_char n] else nat_text (n div 10) @ [digit_char (n mod 10)])"

declare nat_text.simps [simp del]

definition Itoa :: "int \<Rightarrow> string" where
  "Itoa i = (if i < 0 then CHR ''-'' # nat_text (nat (- i)) else nat_text (nat i))"

section \<open>Slices and maps\<close>

text \<open>A lookup in a map gives the zero value for a missing key.\<close>

definition map_get :: "'v \<Rightarrow> ('k, 'v) go_map \<Rightarrow> 'k \<Rightarrow> 'v" where
  "map_get z m k = (case map_of m k of None \<Rightarrow> z | Some v \<Rightarrow> v)"

text \<open>An assignment \<open>m[k] = v\<close>: in place when the key is there.\<close>

fun map_put :: "'k \<Rightarrow> 'v \<Rightarrow> ('k, 'v) go_map \<Rightarrow> ('k, 'v) go_map" where
  "map_put k v [] = [(k, v)]"
| "map_put k v ((k', v') # m) = (if k' = k then (k, v) # m else (k', v') # map_put k v m)"

text \<open>The keys of a map, collected and sorted.\<close>

definition sorted_keys :: "('k::linorder, 'v) go_map \<Rightarrow> 'k list" where
  "sorted_keys m = sort (map fst m)"

text \<open>\<open>append\<close> guarded by \<open>slices.Contains\<close>: an element is listed once.\<close>

definition append_once :: "'a \<Rightarrow> 'a list \<Rightarrow> 'a list" where
  "append_once x xs = (if x \<in> set xs then xs else xs @ [x])"

fun firstNonEmpty :: "string list \<Rightarrow> string" where
  "firstNonEmpty [] = []"
| "firstNonEmpty (v # vs) = (if v \<noteq> [] then v else firstNonEmpty vs)"

definition boolPtr :: "bool \<Rightarrow> bool option" where
  "boolPtr b = Some b"

definition maxInt :: "int \<Rightarrow> int \<Rightarrow> int" where
  "maxInt a b = (if a > b then a else b)"

section \<open>Lemmas\<close>

subsection \<open>Prefixes, suffixes and case\<close>

lemma HasPrefix_iff [go_string]: "HasPrefix s p \<longleftrightarrow> (\<exists>t. s = p @ t)"
  unfolding HasPrefix_def by (metis append_eq_conv_conj append_take_drop_id)

lemma HasSuffix_iff [go_string]: "HasSuffix s p \<longleftrightarrow> (\<exists>t. s = t @ p)"
proof
  assume "HasSuffix s p"
  then show "\<exists>t. s = t @ p"
    unfolding HasSuffix_def by (metis append_take_drop_id)
qed (auto simp: HasSuffix_def)

lemma HasPrefix_append [simp]: "HasPrefix (p @ t) p"
  by (simp add: HasPrefix_def)

lemma HasSuffix_append [simp]: "HasSuffix (t @ p) p"
  by (simp add: HasSuffix_def)

lemma HasPrefix_Nil [simp]: "HasPrefix s []"
  by (simp add: HasPrefix_def)

lemma HasPrefix_Nil_Cons [simp]: "\<not> HasPrefix [] (c # p)"
  by (simp add: HasPrefix_def)

lemma HasPrefix_Cons [simp]: "HasPrefix (x # s) (y # p) \<longleftrightarrow> x = y \<and> HasPrefix s p"
  by (auto simp: HasPrefix_def)

lemma HasPrefix_app_imp: "HasPrefix s p \<Longrightarrow> HasPrefix (s @ t) p"
  by (auto simp: HasPrefix_iff)

lemma Contains_iff [go_string]: "Contains s p \<longleftrightarrow> (\<exists>a b. s = a @ p @ b)"
proof (induction s)
  case Nil
  then show ?case by simp
next
  case (Cons c s)
  have "(\<exists>a b. c # s = a @ p @ b) \<longleftrightarrow> HasPrefix (c # s) p \<or> (\<exists>a b. s = a @ p @ b)"
  proof
    assume "\<exists>a b. c # s = a @ p @ b"
    then obtain a b where ab: "c # s = a @ p @ b" by blast
    show "HasPrefix (c # s) p \<or> (\<exists>a b. s = a @ p @ b)"
      using ab by (cases a) (auto simp: HasPrefix_iff)
  next
    assume "HasPrefix (c # s) p \<or> (\<exists>a b. s = a @ p @ b)"
    then show "\<exists>a b. c # s = a @ p @ b"
      by (auto simp: HasPrefix_iff) (metis append.left_neutral, metis append_Cons)
  qed
  then show ?case using Cons.IH by simp
qed

lemma Contains_Nil [simp]: "Contains s []"
  by (cases s) simp_all

lemma Contains_mid: "Contains (a @ p @ b) p"
  by (auto simp: Contains_iff)

lemma lower_char_idem [simp]: "lower_char (lower_char c) = lower_char c"
proof -
  have "of_char (lower_char c) = (if 65 \<le> (of_char c :: nat) \<and> of_char c \<le> (90::nat)
      then of_char c + 32 else (of_char c :: nat))"
    by (simp add: lower_char_def Let_def)
  then show ?thesis
    by (cases "65 \<le> (of_char c :: nat) \<and> of_char c \<le> (90::nat)")
      (simp_all add: lower_char_def [of "lower_char c"] Let_def)
qed

lemma ToLower_idem [simp]: "ToLower (ToLower s) = ToLower s"
  by (simp add: ToLower_def comp_def)

lemma ToLower_append [simp]: "ToLower (s @ t) = ToLower s @ ToLower t"
  by (simp add: ToLower_def)

lemma ToLower_eq_Nil [simp]: "ToLower s = [] \<longleftrightarrow> s = []"
  by (simp add: ToLower_def)

lemma TrimSpace_iff [go_string]:
  "TrimSpace s = s \<longleftrightarrow> s = [] \<or> \<not> is_space (hd s) \<and> \<not> is_space (last s)"
proof (cases s)
  case (Cons c t)
  show ?thesis
  proof (cases "is_space c")
    case True
    have "length (TrimSpace s) \<le> length (dropWhile is_space t)"
      using True Cons length_dropWhile_le [of is_space "rev (dropWhile is_space t)"]
      by (simp add: TrimSpace_def TrimFunc_def TrimLeftFunc_def TrimRightFunc_def)
    also have "\<dots> \<le> length t" by (rule length_dropWhile_le)
    finally have "TrimSpace s \<noteq> s" using Cons by auto
    then show ?thesis using True Cons by simp
  next
    case False
    then have "TrimSpace s = rev (dropWhile is_space (rev s))"
      by (simp add: Cons TrimSpace_def TrimFunc_def TrimLeftFunc_def TrimRightFunc_def)
    moreover have "dropWhile is_space (rev s) = rev s \<longleftrightarrow> \<not> is_space (last s)"
    proof -
      obtain xs x where "s = xs @ [x]" using Cons by (metis list.distinct(1) rev_exhaust)
      moreover have "dropWhile is_space (rev xs) \<noteq> x # rev xs"
        using length_dropWhile_le [of is_space "rev xs"] by auto
      ultimately show ?thesis by auto
    qed
    ultimately show ?thesis using False Cons by (metis list.sel(1) list.distinct(1) rev_rev_ident)
  qed
qed (simp add: TrimSpace_def TrimFunc_def TrimLeftFunc_def TrimRightFunc_def)

lemma TrimSpace_space [simp]: "is_space c \<Longrightarrow> TrimSpace (c # s) = TrimSpace s"
  by (simp add: TrimSpace_def TrimFunc_def TrimLeftFunc_def)

subsection \<open>Fields, Split and Join\<close>

lemma Fields_nonspace:
  "f \<in> set (Fields s) \<Longrightarrow> f \<noteq> [] \<and> (\<forall>c\<in>set f. \<not> is_space c)"
proof (induction s rule: Fields.induct)
  case (1 s)
  show ?case
  proof (cases "dropWhile is_space s")
    case Nil
    with "1.prems" show ?thesis by (simp add: Fields.simps [of s])
  next
    case (Cons c t)
    then have nc: "\<not> is_space c" by (metis hd_dropWhile list.discI list.sel(1))
    have sp: "\<not> is_space x" if "x \<in> set (takeWhile (\<lambda>x. \<not> is_space x) u)" for x u
      using that by (auto dest: set_takeWhileD)
    from "1.prems" Cons have
      "f = takeWhile (\<lambda>x. \<not> is_space x) (c # t) \<or> f \<in> set (Fields (dropWhile (\<lambda>x. \<not> is_space x) t))"
      by (simp add: Fields.simps [of s])
    then show ?thesis
    proof
      assume f: "f = takeWhile (\<lambda>x. \<not> is_space x) (c # t)"
      have "\<forall>x\<in>set f. \<not> is_space x" unfolding f using sp by blast
      moreover have "f \<noteq> []" unfolding f using nc by simp
      ultimately show ?thesis by blast
    qed (rule "1.IH" [OF Cons])
  qed
qed

lemma Split_not_Nil [simp]: "Split c s \<noteq> []"
  by (induction s) (auto split: list.splits)

lemma Join_Split [go_string]: "Join [c] (Split c s) = s"
proof (induction s)
  case (Cons x s)
  obtain f fs where "Split c s = f # fs" by (cases "Split c s") auto
  with Cons.IH show ?case by (cases fs) auto
qed simp

lemma Split_no_sep: "c \<notin> set s \<Longrightarrow> Split c s = [s]"
  by (induction s) auto

lemma Split_sep_append: "c \<notin> set s \<Longrightarrow> Split c (s @ c # t) = s # Split c t"
  by (induction s) auto

lemma Split_Join [go_string]:
  "xs \<noteq> [] \<Longrightarrow> (\<And>x. x \<in> set xs \<Longrightarrow> c \<notin> set x) \<Longrightarrow> Split c (Join [c] xs) = xs"
  by (induction "[c]" xs rule: Join.induct) (auto simp: Split_no_sep Split_sep_append)

lemma Split_parts: "f \<in> set (Split c s) \<Longrightarrow> c \<notin> set f"
proof (induction s arbitrary: f)
  case (Cons x s)
  then show ?case by (cases "Split c s") (auto split: if_splits)
qed simp

lemma Cut_append: "c \<notin> set s \<Longrightarrow> Cut c (s @ c # t) = (s, Some t)"
  by (simp add: Cut_def takeWhile_append dropWhile_append)

lemma Cut_none: "c \<notin> set s \<Longrightarrow> Cut c s = (s, None)"
  by (induction s) (auto simp: Cut_def)

lemma Cut_shorter: "snd (Cut c s) = Some t \<Longrightarrow> length t < length s"
proof -
  assume "snd (Cut c s) = Some t"
  then have "dropWhile (\<lambda>x. x \<noteq> c) s = hd (dropWhile (\<lambda>x. x \<noteq> c) s) # t"
    by (auto simp: Cut_def split: list.splits)
  then have "length (dropWhile (\<lambda>x. x \<noteq> c) s) = Suc (length t)" by (metis length_Cons)
  then show ?thesis using length_dropWhile_le [of "\<lambda>x. x \<noteq> c" s] by simp
qed

lemma Cut_Some_iff: "snd (Cut c s) = Some t \<longleftrightarrow> (\<exists>p. s = p @ c # t \<and> c \<notin> set p)"
proof
  assume "snd (Cut c s) = Some t"
  then have "dropWhile (\<lambda>x. x \<noteq> c) s = hd (dropWhile (\<lambda>x. x \<noteq> c) s) # t"
    by (auto simp: Cut_def split: list.splits)
  moreover from this have "hd (dropWhile (\<lambda>x. x \<noteq> c) s) = c"
    using hd_dropWhile [of "\<lambda>x. x \<noteq> c" s] by (metis list.distinct(1))
  ultimately have "s = takeWhile (\<lambda>x. x \<noteq> c) s @ c # t" using takeWhile_dropWhile_id by metis
  moreover have "c \<notin> set (takeWhile (\<lambda>x. x \<noteq> c) s)" by (auto dest: set_takeWhileD)
  ultimately show "\<exists>p. s = p @ c # t \<and> c \<notin> set p" by blast
next
  assume "\<exists>p. s = p @ c # t \<and> c \<notin> set p"
  then show "snd (Cut c s) = Some t" by (auto simp: Cut_append)
qed

lemma Cut_None_iff: "snd (Cut c s) = None \<longleftrightarrow> c \<notin> set s"
proof
  assume "snd (Cut c s) = None"
  then show "c \<notin> set s" using Cut_Some_iff [of c s] split_list_first [of c s] by fastforce
qed (simp add: Cut_none)

subsection \<open>Numbers\<close>

lemma of_char_digit_char: "d < 10 \<Longrightarrow> (of_char (digit_char d) :: nat) = 48 + d"
  by (simp add: digit_char_def)

lemma digit_char_ok [simp]: "d < 10 \<Longrightarrow> is_digit (digit_char d)" "d < 10 \<Longrightarrow> digit_val (digit_char d) = d"
  by (simp_all add: is_digit_def digit_val_def of_char_digit_char Let_def)

lemma digits_val_snoc: "digits_val (s @ [c]) = 10 * digits_val s + digit_val c"
  by (simp add: digits_val_def)

lemma nat_text_digits: "nat_text n \<noteq> [] \<and> list_all is_digit (nat_text n) \<and> digits_val (nat_text n) = n"
proof (induction n rule: nat_text.induct)
  case (1 n)
  show ?case
  proof (cases "n < 10")
    case True
    then show ?thesis by (simp add: nat_text.simps [of n] digits_val_def)
  next
    case False
    then show ?thesis using "1.IH" by (simp add: nat_text.simps [of n] digits_val_snoc)
  qed
qed

lemma digit_not_sign: "is_digit c \<Longrightarrow> c \<noteq> CHR ''-'' \<and> c \<noteq> CHR ''+''"
  by (auto simp: is_digit_def)

lemma nat_text_no_sign: "\<not> HasPrefix (nat_text n) ''-'' \<and> \<not> HasPrefix (nat_text n) ''+''"
  using nat_text_digits [of n] digit_not_sign by (cases "nat_text n") auto

lemma Atoi_Itoa: "min_int64 \<le> i \<Longrightarrow> i \<le> max_int64 \<Longrightarrow> Atoi (Itoa i) = (i, True)"
  using nat_text_digits [of "nat i"] nat_text_digits [of "nat (- i)"] nat_text_no_sign [of "nat i"]
  by (auto simp: Atoi_def Itoa_def Let_def)

lemma Atoi_range: "min_int64 \<le> fst (Atoi s) \<and> fst (Atoi s) \<le> max_int64"
  by (auto simp: Atoi_def Let_def min_int64_def max_int64_def)

lemma Itoa_not_Nil [simp]: "Itoa i \<noteq> []"
  using nat_text_digits by (auto simp: Itoa_def)

subsection \<open>Slices and maps\<close>

lemma set_append_once [simp]: "set (append_once x xs) = insert x (set xs)"
  by (auto simp: append_once_def)

lemma distinct_append_once [simp, intro]: "distinct xs \<Longrightarrow> distinct (append_once x xs)"
  by (simp add: append_once_def)

lemma append_once_prefix: "prefix xs (append_once x xs)"
  by (simp add: append_once_def)

lemma map_of_map_put [simp]: "map_of (map_put k v m) = (map_of m)(k \<mapsto> v)"
  by (induction m) auto

lemma fst_set_map_put [simp]: "fst ` set (map_put k v m) = insert k (fst ` set m)"
  by (induction k v m rule: map_put.induct) auto

lemma distinct_map_put: "distinct (map fst m) \<Longrightarrow> distinct (map fst (map_put k v m))"
  by (induction m) (auto simp: fst_set_map_put)

lemma map_put_new: "k \<notin> fst ` set m \<Longrightarrow> map_put k v m = m @ [(k, v)]"
  by (induction m) auto

lemma set_map_put: "set (map_put k v m) \<subseteq> insert (k, v) (set m)"
  by (induction m) (auto split: if_splits)

lemma map_get_put [simp]: "map_get z (map_put k v m) k' = (if k' = k then v else map_get z m k')"
  by (simp add: map_get_def)

lemma set_sorted_keys [simp]: "set (sorted_keys m) = fst ` set m"
  by (simp add: sorted_keys_def)

lemma sorted_keys_sorted [simp]: "sorted (sorted_keys m)"
  by (simp add: sorted_keys_def)

lemma sorted_keys_perm: "mset m = mset m' \<Longrightarrow> sorted_keys m = sorted_keys m'"
  by (metis mset_map sorted_keys_def sorted_list_of_multiset_mset)

lemma map_of_perm:
  assumes "distinct (map fst m)" and "mset m = mset m'"
  shows "map_of m = map_of m'"
proof -
  have "distinct (map fst m')"
    using assms(1) mset_eq_imp_distinct_iff [of "map fst m" "map fst m'"] assms(2) by simp
  moreover have "set m = set m'" using assms(2) by (metis set_mset_mset)
  ultimately show ?thesis using assms(1) by (simp add: map_of_inject_set)
qed

lemma firstNonEmpty_eq_Nil [simp]: "firstNonEmpty vs = [] \<longleftrightarrow> (\<forall>v\<in>set vs. v = [])"
  by (induction vs) auto

section \<open>Loops over a Go map\<close>

text \<open>
  Go visits the entries of a map in an order it chooses. A loop whose steps commute gives the
  same result for every order: the contract of the loops that count or accumulate over a map.
\<close>

locale order_free =
  fixes step :: "'a \<Rightarrow> 's \<Rightarrow> 's"
  assumes step_commute: "step x (step y s) = step y (step x s)"
begin

lemma fold_step_remove: "x \<in> set xs \<Longrightarrow> fold step xs s = fold step (remove1 x xs) (step x s)"
proof (induction xs arbitrary: s)
  case (Cons y ys)
  then show ?case by (cases "y = x") (auto simp: step_commute [of x y])
qed simp

lemma fold_order_free: "mset xs = mset ys \<Longrightarrow> fold step xs s = fold step ys s"
proof (induction xs arbitrary: ys s)
  case (Cons x xs)
  then have "x \<in> set ys" by (metis list.set_intros(1) set_mset_mset)
  moreover have "mset xs = mset (remove1 x ys)" using Cons.prems [symmetric] by simp
  ultimately show ?case using Cons.IH [of "remove1 x ys" "step x s"] fold_step_remove by simp
qed simp

end

end
