(* ===== verification/Findings.thy ===== *)
theory Findings
  imports Go_Prelude
begin

text \<open>
  The collector of findings of \<open>src/report.go\<close>: \<open>findings\<close> with \<open>add\<close>, \<open>fail\<close>,
  \<open>warn\<close> and \<open>info\<close>, and the contract that every pass over the report keeps. A pass is a
  function on the collector; a message is the text that \<open>fmt.Sprintf\<close> gives.
\<close>

datatype Severity = SeverityFail | SeverityWarn | SeverityInfo

record Finding =
  fi_Code :: string
  fi_Severity :: Severity
  fi_Host :: string
  fi_Message :: string

record findings =
  fs_errors :: "string list"
  fs_warnings :: "string list"
  fs_list :: "Finding list"

type_synonym pass = "findings \<Rightarrow> findings"

definition no_findings :: findings where
  "no_findings = \<lparr>fs_errors = [], fs_warnings = [], fs_list = []\<rparr>"

definition add :: "Severity \<Rightarrow> string \<Rightarrow> string \<Rightarrow> string \<Rightarrow> pass" where
  "add sev code host msg f =
     (let g = f\<lparr>fs_list := fs_list f @ [\<lparr>fi_Code = code, fi_Severity = sev, fi_Host = host, fi_Message = msg\<rparr>]\<rparr>
      in case sev of
           SeverityFail \<Rightarrow> g\<lparr>fs_errors := fs_errors g @ [msg]\<rparr>
         | SeverityWarn \<Rightarrow> g\<lparr>fs_warnings := fs_warnings g @ [msg]\<rparr>
         | SeverityInfo \<Rightarrow> g)"

definition fail :: "string \<Rightarrow> string \<Rightarrow> string \<Rightarrow> pass" where
  "fail code host msg = add SeverityFail code host msg"

definition warn :: "string \<Rightarrow> string \<Rightarrow> string \<Rightarrow> pass" where
  "warn code host msg = add SeverityWarn code host msg"

definition info :: "string \<Rightarrow> string \<Rightarrow> string \<Rightarrow> pass" where
  "info code host msg = add SeverityInfo code host msg"

text \<open>Statements one after the other, a statement under a condition, and a loop.\<close>

definition seq :: "pass list \<Rightarrow> pass" where
  "seq ps f = fold (\<lambda>p g. p g) ps f"

definition given :: "bool \<Rightarrow> pass \<Rightarrow> pass" where
  "given b p = (if b then p else id)"

definition each :: "('a \<Rightarrow> pass) \<Rightarrow> 'a list \<Rightarrow> pass" where
  "each p xs f = fold p xs f"

text \<open>\<open>%v\<close> of a list of strings, \<open>%t\<close> of a truth value, a counter per key in order of first
  sight, and a list per key likewise.\<close>

definition list_text :: "string list \<Rightarrow> string" where
  "list_text xs = ''['' @ Join '' '' xs @ '']''"

definition bool_text :: "bool \<Rightarrow> string" where
  "bool_text b = (if b then ''true'' else ''false'')"

definition group_add :: "string \<Rightarrow> 'a \<Rightarrow> (string, 'a list) go_map \<Rightarrow> (string, 'a list) go_map" where
  "group_add k v m = map_put k (map_get [] m k @ [v]) m"

definition isTrue :: "bool option \<Rightarrow> bool" where
  "isTrue b \<longleftrightarrow> b = Some True"

section \<open>The contract of a pass\<close>

text \<open>The two arrays mirror the list: \<open>errors\<close> its failures and \<open>warnings\<close> its warnings.\<close>

definition mirrored :: "findings \<Rightarrow> bool" where
  "mirrored f \<longleftrightarrow>
     fs_errors f = map fi_Message (filter (\<lambda>x. fi_Severity x = SeverityFail) (fs_list f)) \<and>
     fs_warnings f = map fi_Message (filter (\<lambda>x. fi_Severity x = SeverityWarn) (fs_list f))"

definition put :: "Finding \<Rightarrow> pass" where
  "put x = add (fi_Severity x) (fi_Code x) (fi_Host x) (fi_Message x)"

text \<open>A pass emits codes of a table when all it does is to add findings, each with a code and
  the severity that the table gives it.\<close>

definition emits :: "(string \<times> Severity) list \<Rightarrow> pass \<Rightarrow> bool" where
  "emits C p \<longleftrightarrow>
     (\<forall>f. \<exists>xs. p f = fold put xs f \<and> (\<forall>x\<in>set xs. (fi_Code x, fi_Severity x) \<in> set C))"

definition reported :: "string \<Rightarrow> findings \<Rightarrow> bool" where
  "reported code f \<longleftrightarrow> code \<in> fi_Code ` set (fs_list f)"

text \<open>A pass is silent about a code when it neither adds nor drops it.\<close>

definition silent :: "string \<Rightarrow> pass \<Rightarrow> bool" where
  "silent code p \<longleftrightarrow> (\<forall>f. reported code (p f) \<longleftrightarrow> reported code f)"

named_theorems emits_rules

lemma emits_id [emits_rules]: "emits C id"
  unfolding emits_def by (intro allI exI [of _ "[]"]) simp

lemma emits_add [emits_rules]: "(code, sev) \<in> set C \<Longrightarrow> emits C (add sev code host msg)"
  unfolding emits_def
  by (intro allI exI [of _ "[\<lparr>fi_Code = code, fi_Severity = sev, fi_Host = host, fi_Message = msg\<rparr>]"])
    (simp add: put_def)

lemma emits_fail [emits_rules]: "(code, SeverityFail) \<in> set C \<Longrightarrow> emits C (fail code host msg)"
  by (simp add: fail_def emits_add)

lemma emits_warn [emits_rules]: "(code, SeverityWarn) \<in> set C \<Longrightarrow> emits C (warn code host msg)"
  by (simp add: warn_def emits_add)

lemma emits_info [emits_rules]: "(code, SeverityInfo) \<in> set C \<Longrightarrow> emits C (info code host msg)"
  by (simp add: info_def emits_add)

lemma emits_then:
  assumes "emits C p" and "emits C q"
  shows "emits C (\<lambda>f. q (p f))"
  unfolding emits_def
proof
  fix f
  obtain xs where "p f = fold put xs f" "\<forall>x\<in>set xs. (fi_Code x, fi_Severity x) \<in> set C"
    using assms(1) unfolding emits_def by blast
  moreover obtain ys where "q (p f) = fold put ys (p f)" "\<forall>x\<in>set ys. (fi_Code x, fi_Severity x) \<in> set C"
    using assms(2) unfolding emits_def by blast
  ultimately show "\<exists>zs. q (p f) = fold put zs f \<and> (\<forall>x\<in>set zs. (fi_Code x, fi_Severity x) \<in> set C)"
    by (intro exI [of _ "xs @ ys"]) auto
qed

lemma emits_each [emits_rules]: "(\<And>x. emits C (p x)) \<Longrightarrow> emits C (each p xs)"
proof (induction xs)
  case Nil
  then show ?case using emits_id by (simp add: each_def [abs_def] id_def)
next
  case (Cons x xs)
  have "emits C (\<lambda>f. each p xs (p x f))" by (rule emits_then [OF Cons.prems Cons.IH [OF Cons.prems]])
  moreover have "each p (x # xs) = (\<lambda>f. each p xs (p x f))" by (rule ext) (simp add: each_def)
  ultimately show ?case by simp
qed

lemma emits_seq_Nil [emits_rules]: "emits C (seq [])"
  using emits_id by (simp add: seq_def [abs_def] id_def)

lemma emits_seq_Cons [emits_rules]: "emits C p \<Longrightarrow> emits C (seq ps) \<Longrightarrow> emits C (seq (p # ps))"
proof -
  assume "emits C p" "emits C (seq ps)"
  moreover have "seq (p # ps) = (\<lambda>f. seq ps (p f))" by (rule ext) (simp add: seq_def)
  ultimately show ?thesis by (simp add: emits_then)
qed

lemma emits_given [emits_rules]: "emits C p \<Longrightarrow> emits C (given b p)"
  by (simp add: given_def emits_id)

lemma emits_if [emits_rules]: "(b \<Longrightarrow> emits C p) \<Longrightarrow> (\<not> b \<Longrightarrow> emits C q) \<Longrightarrow> emits C (if b then p else q)"
  by simp

lemma emits_option [emits_rules]:
  "emits C p \<Longrightarrow> (\<And>x. emits C (q x)) \<Longrightarrow> emits C (case a of None \<Rightarrow> p | Some x \<Rightarrow> q x)"
  by (cases a) simp_all

lemma emits_case_prod [emits_rules]:
  "(\<And>x y. a = (x, y) \<Longrightarrow> emits C (p x y)) \<Longrightarrow> emits C (case a of (x, y) \<Rightarrow> p x y)"
  by (cases a) simp

lemma emits_mono: "emits C p \<Longrightarrow> set C \<subseteq> set D \<Longrightarrow> emits D p"
  unfolding emits_def by blast

lemma fold_put_list: "fs_list (fold put xs f) = fs_list f @ xs"
  by (induction xs arbitrary: f) (simp_all add: put_def add_def Let_def split: Severity.split)

lemma put_mirrored: "mirrored f \<Longrightarrow> mirrored (put x f)"
  by (cases "fi_Severity x") (simp_all add: mirrored_def put_def add_def Let_def)

lemma fold_put_mirrored: "mirrored f \<Longrightarrow> mirrored (fold put xs f)"
  by (induction xs arbitrary: f) (simp_all add: put_mirrored)

text \<open>
  The interface of the passes, with their argument and the table of their codes. A client learns
  from it that a pass only appends, keeps the two arrays in step with the list, adds no code
  outside its table and no severity but the table's.
\<close>

locale findings_pass =
  fixes pass_of :: "'a \<Rightarrow> findings \<Rightarrow> findings" and codes :: "(string \<times> Severity) list"
  assumes pass_emits: "emits codes (pass_of x)"
begin

lemma pass_appends:
  "\<exists>xs. fs_list (pass_of x f) = fs_list f @ xs \<and> (\<forall>y\<in>set xs. (fi_Code y, fi_Severity y) \<in> set codes)"
  using pass_emits [of x] unfolding emits_def by (metis fold_put_list)

lemma pass_mirrored: "mirrored f \<Longrightarrow> mirrored (pass_of x f)"
  using pass_emits [of x] unfolding emits_def by (metis fold_put_mirrored)

lemma pass_other: "code \<notin> fst ` set codes \<Longrightarrow> reported code (pass_of x f) \<longleftrightarrow> reported code f"
  using pass_appends [of x f] by (force simp: reported_def)

lemma pass_silent: "code \<notin> fst ` set codes \<Longrightarrow> silent code (pass_of x)"
  by (simp add: silent_def pass_other)

lemma pass_keeps: "reported code f \<Longrightarrow> reported code (pass_of x f)"
  using pass_appends [of x f] by (auto simp: reported_def)

end

section \<open>Reading the list back\<close>

lemma reported_add [simp]: "reported code (add sev c h msg f) \<longleftrightarrow> code = c \<or> reported code f"
  by (auto simp: reported_def add_def Let_def split: Severity.split)

lemma reported_fail [simp]: "reported code (fail c h msg f) \<longleftrightarrow> code = c \<or> reported code f"
  by (simp add: fail_def)

lemma reported_warn [simp]: "reported code (warn c h msg f) \<longleftrightarrow> code = c \<or> reported code f"
  by (simp add: warn_def)

lemma reported_info [simp]: "reported code (info c h msg f) \<longleftrightarrow> code = c \<or> reported code f"
  by (simp add: info_def)

lemma reported_none [simp]: "\<not> reported code no_findings"
  by (simp add: reported_def no_findings_def)

lemma seq_simps [simp]: "seq [] f = f" "seq (p # ps) f = seq ps (p f)"
  by (simp_all add: seq_def)

lemma given_simps [simp]: "given True p = p" "given False p = id"
  by (simp_all add: given_def)

lemma each_simps [simp]: "each p [] f = f" "each p (x # xs) f = each p xs (p x f)"
  by (simp_all add: each_def)

lemma mirrored_none [simp]: "mirrored no_findings"
  by (simp add: mirrored_def no_findings_def)

lemma reported_each:
  assumes "\<And>x f. reported code (p x f) \<longleftrightarrow> P x \<or> reported code f"
  shows "reported code (each p xs f) \<longleftrightarrow> list_ex P xs \<or> reported code f"
  by (induction xs arbitrary: f) (auto simp: assms)

end
