(* ===== verification/Netip.thy ===== *)
theory Netip
  imports Go_Prelude "HOL-Library.Word" "HOL-Library.Product_Lexorder"
begin

text \<open>
  What domaintest uses of Go's \<open>net/netip\<close>: parsing and printing addresses, unmapping an
  IPv4-mapped IPv6 address, prefixes and containment. An IPv4 address is a 32-bit word, an
  IPv6 address a 128-bit word with its zone (empty for none); the zero \<open>Addr\<close>, which no
  checked parse returns, is not a value of the type.
\<close>

datatype addr = IPv4 "32 word" | IPv6 "128 word" string

datatype ip_prefix = Prefix addr nat

section \<open>Parsing\<close>

definition parse_octet :: "string \<Rightarrow> nat option" where
  "parse_octet f =
     (if f \<noteq> [] \<and> list_all is_digit f \<and> digits_val f \<le> 255 \<and> (length f = 1 \<or> hd f \<noteq> CHR ''0'')
      then Some (digits_val f) else None)"

text \<open>\<open>parseIPv4Fields\<close>: four dotted fields, each with a digit, none over 255 and none with
  a leading zero.\<close>

definition parse_v4_fields :: "string \<Rightarrow> (nat \<times> nat \<times> nat \<times> nat) option" where
  "parse_v4_fields s =
     (case map parse_octet (Split CHR ''.'' s) of
        [Some a, Some b, Some c, Some d] \<Rightarrow> Some (a, b, c, d)
      | _ \<Rightarrow> None)"

definition v4_word :: "nat \<times> nat \<times> nat \<times> nat \<Rightarrow> 32 word" where
  "v4_word q = (case q of (a, b, c, d) \<Rightarrow> word_of_nat (((a * 256 + b) * 256 + c) * 256 + d))"

definition hex_val :: "char \<Rightarrow> nat option" where
  "hex_val c =
     (let n = of_char c :: nat
      in if 48 \<le> n \<and> n \<le> 57 then Some (n - 48)
         else if 97 \<le> n \<and> n \<le> 102 then Some (n - 87)
         else if 65 \<le> n \<and> n \<le> 70 then Some (n - 55) else None)"

definition is_hex :: "char \<Rightarrow> bool" where
  "is_hex c \<longleftrightarrow> hex_val c \<noteq> None"

definition hex_num :: "string \<Rightarrow> nat" where
  "hex_num s = foldl (\<lambda>n c. 16 * n + (case hex_val c of Some d \<Rightarrow> d | None \<Rightarrow> 0)) 0 s"

text \<open>The loop of \<open>parseIPv6\<close>: the 16-bit groups read so far and the position of the
  ellipsis among them.\<close>

function parse_v6_groups ::
    "string \<Rightarrow> nat list \<Rightarrow> nat option \<Rightarrow> (nat list \<times> nat option) option" where
  "parse_v6_groups s gs ell =
     (if length gs \<ge> 8 then (if s = [] then Some (gs, ell) else None)
      else let h = takeWhile is_hex s; rest = dropWhile is_hex s in
        if h = [] \<or> length h > 4 then None
        else if rest \<noteq> [] \<and> hd rest = CHR ''.'' then
          (if (ell = None \<and> length gs \<noteq> 6) \<or> length gs > 6 then None
           else case parse_v4_fields s of
                  None \<Rightarrow> None
                | Some (a, b, c, d) \<Rightarrow> Some (gs @ [a * 256 + b, c * 256 + d], ell))
        else let gs' = gs @ [hex_num h] in
          (case rest of
             [] \<Rightarrow> Some (gs', ell)
           | [x] \<Rightarrow> None
           | x # y # r \<Rightarrow>
               if x \<noteq> CHR '':'' then None
               else if y = CHR '':'' then
                 (if ell \<noteq> None then None
                  else if r = [] then Some (gs', Some (length gs'))
                  else parse_v6_groups r gs' (Some (length gs')))
               else parse_v6_groups (y # r) gs' ell))"
  by pat_completeness auto
termination
proof (relation "measure (\<lambda>(s, gs, ell). length s)", goal_cases)
  case (2 s gs ell h rest gs' x l y r)
  then have "length (x # y # r) \<le> length s" by (metis length_dropWhile_le)
  then show ?case by simp
next
  case (3 s gs ell h rest gs' x l y r)
  then have "length (x # y # r) \<le> length s" by (metis length_dropWhile_le)
  then show ?case by simp
qed simp

declare parse_v6_groups.simps [simp del]

definition v6_word :: "nat list \<Rightarrow> 128 word" where
  "v6_word gs = word_of_nat (foldl (\<lambda>n g. n * 65536 + g) 0 gs)"

definition expand_ellipsis :: "nat list \<times> nat option \<Rightarrow> nat list option" where
  "expand_ellipsis r =
     (case r of (gs, ell) \<Rightarrow>
        if length gs < 8
        then map_option (\<lambda>e. take e gs @ replicate (8 - length gs) 0 @ drop e gs) ell
        else if ell = None then Some gs else None)"

definition parse_v6 :: "string \<Rightarrow> addr option" where
  "parse_v6 str =
     (case Cut CHR ''%'' str of (s, z) \<Rightarrow>
        if z = Some [] then None
        else let zone = (case z of None \<Rightarrow> [] | Some t \<Rightarrow> t);
                 lead = HasPrefix s ''::'';
                 body = (if lead then drop 2 s else s)
             in if lead \<and> body = [] then Some (IPv6 0 zone)
                else (case parse_v6_groups body [] (if lead then Some 0 else None) of
                        None \<Rightarrow> None
                      | Some r \<Rightarrow> map_option (\<lambda>gs. IPv6 (v6_word gs) zone) (expand_ellipsis r)))"

text \<open>\<open>netip.ParseAddr\<close> looks for the first of dot, colon and percent sign.\<close>

definition ParseAddr :: "string \<Rightarrow> addr option" where
  "ParseAddr s =
     (case dropWhile (\<lambda>c. c \<notin> {CHR ''.'', CHR '':'', CHR ''%''}) s of
        [] \<Rightarrow> None
      | c # _ \<Rightarrow> if c = CHR ''.'' then map_option (\<lambda>q. IPv4 (v4_word q)) (parse_v4_fields s)
                 else if c = CHR '':'' then parse_v6 s else None)"

section \<open>Observers\<close>

definition Is4 :: "addr \<Rightarrow> bool" where
  "Is4 a \<longleftrightarrow> (case a of IPv4 _ \<Rightarrow> True | IPv6 _ _ \<Rightarrow> False)"

definition Is6 :: "addr \<Rightarrow> bool" where
  "Is6 a \<longleftrightarrow> (case a of IPv4 _ \<Rightarrow> False | IPv6 _ _ \<Rightarrow> True)"

definition Is4In6 :: "addr \<Rightarrow> bool" where
  "Is4In6 a \<longleftrightarrow> (case a of IPv4 _ \<Rightarrow> False | IPv6 w _ \<Rightarrow> drop_bit 32 w = 0xFFFF)"

definition Unmap :: "addr \<Rightarrow> addr" where
  "Unmap a = (case a of IPv4 _ \<Rightarrow> a | IPv6 w _ \<Rightarrow> if Is4In6 a then IPv4 (ucast w) else a)"

definition BitLen :: "addr \<Rightarrow> nat" where
  "BitLen a = (case a of IPv4 _ \<Rightarrow> 32 | IPv6 _ _ \<Rightarrow> 128)"

definition v6_groups :: "128 word \<Rightarrow> nat list" where
  "v6_groups w = map (\<lambda>i. unat w div 2 ^ (112 - 16 * i) mod 65536) [0, 1, 2, 3, 4, 5, 6, 7]"

definition hex_digit :: "nat \<Rightarrow> char" where
  "hex_digit d = (if d < 10 then char_of (48 + d) else char_of (87 + d))"

fun hex_text :: "nat \<Rightarrow> string" where
  "hex_text n = (if n < 16 then [hex_digit n] else hex_text (n div 16) @ [hex_digit (n mod 16)])"

declare hex_text.simps [simp del]

definition v4_text :: "32 word \<Rightarrow> string" where
  "v4_text w = (let n = unat w in
     nat_text (n div 16777216) @ ''.'' @ nat_text (n div 65536 mod 256) @ ''.'' @
     nat_text (n div 256 mod 256) @ ''.'' @ nat_text (n mod 256))"

text \<open>The leftmost longest run of at least two zero groups, as start and length.\<close>

definition zero_run :: "nat list \<Rightarrow> nat \<Rightarrow> nat" where
  "zero_run gs i = length (takeWhile (\<lambda>g. g = 0) (drop i gs))"

definition best_run :: "nat list \<Rightarrow> (nat \<times> nat) option" where
  "best_run gs =
     fold (\<lambda>i best. let l = zero_run gs i
                    in if l \<ge> 2 \<and> (case best of None \<Rightarrow> True | Some (_, k) \<Rightarrow> l > k)
                       then Some (i, l) else best) [0..<length gs] None"

definition v6_text :: "128 word \<Rightarrow> string" where
  "v6_text w = (let gs = v6_groups w in
     case best_run gs of
       None \<Rightarrow> Join '':'' (map hex_text gs)
     | Some (i, l) \<Rightarrow> Join '':'' (map hex_text (take i gs)) @ ''::'' @
                      Join '':'' (map hex_text (drop (i + l) gs)))"

definition Addr_String :: "addr \<Rightarrow> string" where
  "Addr_String a =
     (case a of
        IPv4 w \<Rightarrow> v4_text w
      | IPv6 w z \<Rightarrow>
          (if Is4In6 a then ''::ffff:'' @ v4_text (ucast w) else v6_text w) @
          (if z = [] then [] else CHR ''%'' # z))"

section \<open>Prefixes\<close>

definition keep_high :: "nat \<Rightarrow> 'a::len word \<Rightarrow> 'a word" where
  "keep_high n w = push_bit (LENGTH('a) - n) (drop_bit (LENGTH('a) - n) w)"

definition mask_addr :: "addr \<Rightarrow> nat \<Rightarrow> addr" where
  "mask_addr a n = (case a of IPv4 w \<Rightarrow> IPv4 (keep_high n w) | IPv6 w _ \<Rightarrow> IPv6 (keep_high n w) [])"

text \<open>\<open>Addr.Prefix\<close>: the address masked to its first bits; an error past its length.\<close>

definition Addr_Prefix :: "addr \<Rightarrow> nat \<Rightarrow> ip_prefix option" where
  "Addr_Prefix a n = (if n \<le> BitLen a then Some (Prefix (mask_addr a n) n) else None)"

definition withoutZone :: "addr \<Rightarrow> addr" where
  "withoutZone a = (case a of IPv4 w \<Rightarrow> IPv4 w | IPv6 w _ \<Rightarrow> IPv6 w [])"

definition Zone :: "addr \<Rightarrow> string" where
  "Zone a = (case a of IPv4 _ \<Rightarrow> [] | IPv6 _ z \<Rightarrow> z)"

fun Prefix_Addr :: "ip_prefix \<Rightarrow> addr" where
  "Prefix_Addr (Prefix a n) = a"

fun Prefix_Bits :: "ip_prefix \<Rightarrow> nat" where
  "Prefix_Bits (Prefix a n) = n"

definition PrefixFrom :: "addr \<Rightarrow> nat \<Rightarrow> ip_prefix" where
  "PrefixFrom a n = Prefix (withoutZone a) n"

definition Masked :: "ip_prefix \<Rightarrow> ip_prefix" where
  "Masked p = Prefix (mask_addr (Prefix_Addr p) (Prefix_Bits p)) (Prefix_Bits p)"

text \<open>\<open>netip.ParsePrefix\<close>: the last slash separates the address from the bit count, which
  takes no sign and no leading zero.\<close>

definition cut_last :: "char \<Rightarrow> string \<Rightarrow> (string \<times> string) option" where
  "cut_last c s =
     (if c \<in> set s
      then let b = rev (takeWhile (\<lambda>x. x \<noteq> c) (rev s))
           in Some (take (length s - length b - 1) s, b)
      else None)"

definition ParsePrefix :: "string \<Rightarrow> ip_prefix option" where
  "ParsePrefix s =
     (case cut_last CHR ''/'' s of
        None \<Rightarrow> None
      | Some (a, b) \<Rightarrow>
          (case ParseAddr a of
             None \<Rightarrow> None
           | Some ip \<Rightarrow>
               if Is6 ip \<and> Zone ip \<noteq> [] then None
               else if length b > 1 \<and> \<not> (is_digit (hd b) \<and> hd b \<noteq> CHR ''0'') then None
               else (case Atoi b of (n, ok) \<Rightarrow>
                       if \<not> ok \<or> n < 0 \<or> n > int (BitLen ip) then None
                       else Some (PrefixFrom ip (nat n)))))"

definition Prefix_Contains :: "ip_prefix \<Rightarrow> addr \<Rightarrow> bool" where
  "Prefix_Contains p ip =
     (Zone ip = [] \<and>
      (case (Prefix_Addr p, ip) of
         (IPv4 v, IPv4 w) \<Rightarrow> keep_high (Prefix_Bits p) v = keep_high (Prefix_Bits p) w
       | (IPv6 v _, IPv6 w _) \<Rightarrow> keep_high (Prefix_Bits p) v = keep_high (Prefix_Bits p) w
       | _ \<Rightarrow> False))"

section \<open>Order\<close>

text \<open>\<open>Addr.Compare\<close>: by length, then by value, then by zone.\<close>

definition addr_key :: "addr \<Rightarrow> nat \<times> nat \<times> string" where
  "addr_key a = (case a of IPv4 w \<Rightarrow> (32, unat w, []) | IPv6 w z \<Rightarrow> (128, unat w, z))"

lemma addr_key_inj: "addr_key a = addr_key b \<Longrightarrow> a = b"
  by (auto simp: addr_key_def word_unat_eq_iff split: addr.splits)

instantiation addr :: linorder
begin

definition less_eq_addr :: "addr \<Rightarrow> addr \<Rightarrow> bool" where
  "less_eq_addr a b \<longleftrightarrow> addr_key a \<le> addr_key b"

definition less_addr :: "addr \<Rightarrow> addr \<Rightarrow> bool" where
  "less_addr a b \<longleftrightarrow> addr_key a < addr_key b"

instance
  by standard (auto simp: less_eq_addr_def less_addr_def intro: addr_key_inj)

end

section \<open>Lemmas\<close>

lemma Is6_iff [simp]: "Is6 a \<longleftrightarrow> \<not> Is4 a"
  by (cases a) (simp_all add: Is4_def Is6_def)

lemma Unmap_IPv4 [simp]: "Unmap (IPv4 w) = IPv4 w"
  by (simp add: Unmap_def)

lemma Unmap_idem [simp]: "Unmap (Unmap a) = Unmap a"
  by (cases a) (auto simp: Unmap_def)

lemma Unmap_not_mapped: "\<not> Is4In6 (Unmap a)"
  by (cases a) (auto simp: Unmap_def Is4In6_def)

lemma keep_high_idem [simp]: "keep_high n (keep_high n w) = keep_high n w"
  unfolding keep_high_def
  by (rule bit_word_eqI) (auto simp: bit_simps)

lemma keep_high_mono:
  assumes "m \<le> n" and "keep_high n v = keep_high n w"
  shows "keep_high m v = keep_high m (w :: 'a::len word)"
proof (rule bit_word_eqI)
  fix k assume k: "k < LENGTH('a)"
  have "bit (keep_high n v) k = bit (keep_high n w) k" by (simp add: assms(2))
  then show "bit (keep_high m v) k = bit (keep_high m w) k"
    using k assms(1) by (auto simp: keep_high_def bit_simps)
qed

lemma Prefix_Contains_self: "Zone ip = [] \<Longrightarrow> Prefix_Contains (Masked (Prefix ip n)) ip"
  by (cases ip) (simp_all add: Prefix_Contains_def Masked_def mask_addr_def)

text \<open>A wider prefix that holds the base address of a narrower one holds all of it.\<close>

lemma Prefix_Contains_trans:
  assumes "Prefix_Bits q \<le> Prefix_Bits p" and "Prefix_Contains q (Prefix_Addr p)"
    and "Prefix_Contains p ip"
  shows "Prefix_Contains q ip"
  using assms
  by (auto simp: Prefix_Contains_def split: addr.splits intro: keep_high_mono trans)

end
