(* ===== verification/Names.thy ===== *)
theory Names
  imports Netip
begin

text \<open>
  Names and addresses: \<open>src/names.go\<close>, \<open>src/addr.go\<close>, \<open>src/publicsuffix.go\<close>
  and \<open>src/reserved.go\<close>.

  Normalisation, the Public Suffix List and the judgement of reserved addresses belong to the
  package dpdomain, which is not part of the repository. The record \<open>dp_lib\<close> holds the
  functions of it that domaintest calls; every definition that reaches one takes the record
  as its argument.
\<close>

section \<open>The package dpdomain, as a parameter\<close>

record dp_options =
  Lenient :: bool
  AllowIP :: bool

text \<open>What is read of a \<open>dpdomain.Name\<close>: both spellings, whether \<open>Kind\<close> is
  \<open>KindIP\<close>, and what its method \<open>FQDN\<close> returns.\<close>

record dp_name =
  ASCII :: string
  Unicode :: string
  KindIP :: bool
  FQDN :: string

record psl_result =
  Suffix :: string
  Registrable :: string
  ICANN :: bool

record dp_lib =
  Normalize :: "string \<Rightarrow> dp_options \<Rightarrow> string + dp_name"
  ipnorm_Reserved :: "addr \<Rightarrow> string"
  psl_Lookup :: "string \<Rightarrow> bool \<Rightarrow> psl_result"
  psl_Registrable :: "string \<Rightarrow> string \<times> bool"
  psl_RDAPServer :: "string \<Rightarrow> string \<times> bool"

section \<open>names.go\<close>

definition dnsName :: "dp_lib \<Rightarrow> string \<Rightarrow> string + dp_name" where
  "dnsName lib s = Normalize lib s \<lparr>Lenient = True, AllowIP = False\<rparr>"

definition hostOrIP :: "dp_lib \<Rightarrow> string \<Rightarrow> string + dp_name" where
  "hostOrIP lib s = Normalize lib s \<lparr>Lenient = True, AllowIP = True\<rparr>"

definition bareName :: "dp_lib \<Rightarrow> string \<Rightarrow> string" where
  "bareName lib s = (case dnsName lib s of Inl err \<Rightarrow> [] | Inr n \<Rightarrow> ASCII n)"

definition fqdnOf :: "dp_lib \<Rightarrow> string \<Rightarrow> string" where
  "fqdnOf lib s = (case dnsName lib s of Inl err \<Rightarrow> [] | Inr n \<Rightarrow> FQDN n)"

section \<open>publicsuffix.go\<close>

definition registrableDomain :: "dp_lib \<Rightarrow> string \<Rightarrow> bool" where
  "registrableDomain lib domain =
     (if domain = [] then False else Registrable (psl_Lookup lib domain True) = domain)"

definition isPublicSuffix :: "dp_lib \<Rightarrow> string \<Rightarrow> bool" where
  "isPublicSuffix lib domain =
     (if domain = [] then False else Suffix (psl_Lookup lib domain True) = domain)"

definition registrySuffix :: "dp_lib \<Rightarrow> string \<Rightarrow> bool" where
  "registrySuffix lib domain =
     (if domain = [] then False
      else let r = psl_Lookup lib domain True in ICANN r \<and> Suffix r = domain)"

section \<open>reserved.go\<close>

definition specialUseSuffixes :: "(string, string) go_map" where
  "specialUseSuffixes =
     [(''invalid'', ''RFC 6761''), (''test'', ''RFC 6761''), (''localhost'', ''RFC 6761''),
      (''example'', ''RFC 6761''), (''local'', ''RFC 6762''), (''onion'', ''RFC 7686''),
      (''home.arpa'', ''RFC 8375'')]"

text \<open>The loop over the map, whose iteration order is the list's.\<close>

fun reserved_scan :: "(string, string) go_map \<Rightarrow> string \<Rightarrow> string" where
  "reserved_scan [] d = []"
| "reserved_scan ((sfx, rfc) # m) d =
     (if d = sfx \<or> HasSuffix d (''.'' @ sfx) then rfc else reserved_scan m d)"

definition reservedName :: "dp_lib \<Rightarrow> string \<Rightarrow> string" where
  "reservedName lib domain =
     (let d = bareName lib domain
      in if d = [] then [] else reserved_scan specialUseSuffixes d)"

section \<open>addr.go\<close>

definition reservedReason :: "dp_lib \<Rightarrow> addr \<Rightarrow> string" where
  "reservedReason lib ip = ipnorm_Reserved lib ip"

fun dedupe_loop :: "string set \<Rightarrow> string list \<Rightarrow> string list" where
  "dedupe_loop seen [] = []"
| "dedupe_loop seen (s # ss) =
     (if s \<in> seen then dedupe_loop seen ss else s # dedupe_loop (insert s seen) ss)"

definition dedupeStrings :: "string list \<Rightarrow> string list" where
  "dedupeStrings ss = dedupe_loop {} ss"

fun splitReserved :: "dp_lib \<Rightarrow> addr list \<Rightarrow> addr list \<times> string list" where
  "splitReserved lib [] = ([], [])"
| "splitReserved lib (ip # ips) =
     (let reason = reservedReason lib ip; (public, reserved) = splitReserved lib ips
      in if reason \<noteq> [] then (public, (Addr_String ip @ '' ('' @ reason @ '')'') # reserved)
         else (ip # public, reserved))"

section \<open>Lemmas\<close>

definition suffix_match :: "string \<Rightarrow> string \<Rightarrow> bool" where
  "suffix_match d sfx \<longleftrightarrow> d = sfx \<or> HasSuffix d (''.'' @ sfx)"

lemma reserved_scan_eq:
  "reserved_scan m d = (case find (\<lambda>e. suffix_match d (fst e)) m of None \<Rightarrow> [] | Some e \<Rightarrow> snd e)"
  by (induction m d rule: reserved_scan.induct) (auto simp: suffix_match_def)

lemma suffix_match_suffix: "suffix_match d sfx \<Longrightarrow> suffix sfx d"
  by (auto simp: suffix_match_def HasSuffix_iff suffix_def)

text \<open>No suffix of the table ends with another, so a name matches at most one.\<close>

lemma specialUse_incomparable:
  "\<forall>e\<in>set specialUseSuffixes. \<forall>f\<in>set specialUseSuffixes. suffix (fst e) (fst f) \<longrightarrow> e = f"
  unfolding specialUseSuffixes_def by (simp add: suffix_def Cons_eq_append_conv)

lemma specialUse_unique:
  assumes "e \<in> set specialUseSuffixes" "f \<in> set specialUseSuffixes"
    and "suffix_match d (fst e)" "suffix_match d (fst f)"
  shows "e = f"
proof -
  have "suffix (fst e) d" "suffix (fst f) d" using assms(3,4) by (auto dest: suffix_match_suffix)
  then have "suffix (fst e) (fst f) \<or> suffix (fst f) (fst e)" by (rule suffix_same_cases)
  then show ?thesis using specialUse_incomparable assms(1,2) by metis
qed

text \<open>A search with at most one hit finds it whatever the order.\<close>

lemma find_unique_perm:
  assumes "mset xs = mset ys" and "\<And>x y. x \<in> set xs \<Longrightarrow> y \<in> set xs \<Longrightarrow> P x \<Longrightarrow> P y \<Longrightarrow> x = y"
  shows "find P xs = find P ys"
proof -
  have s: "set xs = set ys" using assms(1) by (metis set_mset_mset)
  show ?thesis
  proof (cases "find P xs")
    case None
    then have "find P ys = None" using s by (simp add: find_None_iff)
    with None show ?thesis by simp
  next
    case (Some x)
    then have x: "x \<in> set xs" "P x" by (auto simp: find_Some_iff)
    then obtain y where y: "find P ys = Some y" using s by (metis find_None_iff not_None_eq)
    then have "y \<in> set ys" "P y" by (auto simp: find_Some_iff)
    then have "x = y" using assms(2) s x by blast
    with Some y show ?thesis by simp
  qed
qed

lemma dedupe_loop_set: "set (dedupe_loop seen ss) = set ss - seen"
  by (induction seen ss rule: dedupe_loop.induct) auto

lemma dedupe_loop_distinct: "distinct (dedupe_loop seen ss)"
  by (induction seen ss rule: dedupe_loop.induct) (auto simp: dedupe_loop_set)

lemma splitReserved_public: "fst (splitReserved lib ips) = filter (\<lambda>ip. reservedReason lib ip = []) ips"
  by (induction ips) (auto simp: Let_def split: prod.splits)

lemma splitReserved_reserved:
  "snd (splitReserved lib ips) =
     map (\<lambda>ip. Addr_String ip @ '' ('' @ reservedReason lib ip @ '')'')
       (filter (\<lambda>ip. reservedReason lib ip \<noteq> []) ips)"
  by (induction ips) (auto simp: Let_def split: prod.splits)

section \<open>Properties\<close>

text \<open>
  The verdict on a reserved name does not depend on the order in which Go visits the
  table of special-use suffixes, which differs from run to run.
\<close>

theorem reservedName_any_order:
  assumes "mset table = mset specialUseSuffixes"
  shows "reserved_scan table d = reserved_scan specialUseSuffixes d"
proof -
  have "find (\<lambda>e. suffix_match d (fst e)) specialUseSuffixes = find (\<lambda>e. suffix_match d (fst e)) table"
    by (rule find_unique_perm) (use assms specialUse_unique in auto)
  then show ?thesis by (simp add: reserved_scan_eq)
qed

theorem reservedName_any_order_witness:
  "mset (rev specialUseSuffixes) = mset specialUseSuffixes \<and>
   reserved_scan (rev specialUseSuffixes) ''printer.local'' = ''RFC 6762''"
proof -
  have h: "mset (rev specialUseSuffixes) = mset specialUseSuffixes" by simp
  have "reserved_scan specialUseSuffixes ''printer.local'' = ''RFC 6762''" by code_simp
  then show ?thesis using h reservedName_any_order [OF h, of "''printer.local''"] by simp
qed

text \<open>
  Splitting off the reserved addresses loses and reorders nothing: the addresses that will
  be contacted are exactly the ones without a reason, in their order, and each reserved one
  is named with its reason.
\<close>

theorem splitReserved_partition:
  "splitReserved lib ips =
     (filter (\<lambda>ip. reservedReason lib ip = []) ips,
      map (\<lambda>ip. Addr_String ip @ '' ('' @ reservedReason lib ip @ '')'')
        (filter (\<lambda>ip. reservedReason lib ip \<noteq> []) ips))"
  using splitReserved_public splitReserved_reserved by (metis prod.collapse)

section \<open>A small library for the examples\<close>

text \<open>Every name is in normal form, every address public, and every name registrable.\<close>

definition ex_lib :: dp_lib where
  "ex_lib = \<lparr>Normalize = (\<lambda>s opts. Inr \<lparr>ASCII = s, Unicode = s, KindIP = False, FQDN = s @ ''.''\<rparr>),
     ipnorm_Reserved = (\<lambda>a. []), psl_Lookup = (\<lambda>s b. \<lparr>Suffix = [], Registrable = s, ICANN = True\<rparr>),
     psl_Registrable = (\<lambda>s. (s, True)), psl_RDAPServer = (\<lambda>s. ([], False))\<rparr>"

end
