(* ===== verification/Records.thy ===== *)
theory Records
  imports Names
begin

text \<open>
  Resource records and lookups: \<open>src/records.go\<close>. The typed string constants of the
  source are datatypes; the empty string, their zero value, is a constructor of its own.
\<close>

datatype Trust = TrustNone | TrustSecure | TrustInsecure | TrustBogus

datatype LookupStatus =
  StatusNone | StatusOK | StatusNXRRSet | StatusNXDomain | StatusFailure | StatusTimeout

record RR =
  rr_Owner :: string
  rr_TTL :: int
  rr_Type :: string
  rr_RData :: string
  rr_RDLen :: nat

record Lookup =
  lk_Name :: string
  lk_Type :: string
  lk_Status :: LookupStatus
  lk_Trust :: Trust
  lk_Records :: "string list"
  lk_CNAME :: "string list"
  lk_Error :: string
  lk_Retries :: nat
  lk_unqueryable :: bool
  lk_rrs :: "RR list"

text \<open>The zero value \<open>Lookup{}\<close>, which a map lookup gives for a missing key.\<close>

definition zero_Lookup :: Lookup where
  "zero_Lookup = \<lparr>lk_Name = [], lk_Type = [], lk_Status = StatusNone, lk_Trust = TrustNone,
     lk_Records = [], lk_CNAME = [], lk_Error = [], lk_Retries = 0, lk_unqueryable = False,
     lk_rrs = []\<rparr>"

definition zero_RR :: RR where
  "zero_RR = \<lparr>rr_Owner = [], rr_TTL = 0, rr_Type = [], rr_RData = [], rr_RDLen = 0\<rparr>"

type_synonym lookups = "(string, Lookup) go_map"

abbreviation at :: "lookups \<Rightarrow> string \<Rightarrow> Lookup" where
  "at m t \<equiv> map_get zero_Lookup m t"

section \<open>Methods of Lookup\<close>

definition Addrs :: "Lookup \<Rightarrow> addr list" where
  "Addrs l = map Unmap (List.map_filter ParseAddr (lk_Records l))"

definition Answered :: "Lookup \<Rightarrow> bool" where
  "Answered l \<longleftrightarrow>
     lk_Status l = StatusOK \<or> lk_Status l = StatusNXRRSet \<or> lk_Status l = StatusNXDomain"

definition HasRecords :: "Lookup \<Rightarrow> bool" where
  "HasRecords l \<longleftrightarrow> lk_Status l = StatusOK \<and> length (lk_Records l) > 0"

fun soa_owner :: "RR list \<Rightarrow> string" where
  "soa_owner [] = []"
| "soa_owner (rr # rrs) = (if rr_Type rr = ''SOA'' then rr_Owner rr else soa_owner rrs)"

definition SOAOwner :: "Lookup \<Rightarrow> string" where
  "SOAOwner l = soa_owner (lk_rrs l)"

definition IsNullMX :: "Lookup \<Rightarrow> bool" where
  "IsNullMX l =
     (if \<not> HasRecords l then False
      else list_all (\<lambda>rec. Join '' '' (Fields rec) = ''0 .'') (lk_Records l))"

section \<open>Presentation format\<close>

fun unquote_pairs :: "string \<Rightarrow> string" where
  "unquote_pairs (c # d # s) =
     (if c = CHR 0x27 \<and> d = CHR 0x27 then CHR 0x27 # unquote_pairs s
      else c # unquote_pairs (d # s))"
| "unquote_pairs s = s"

definition unquoteYAML :: "string \<Rightarrow> string" where
  "unquoteYAML str =
     (let s = TrimSpace str;
          t = (if length s \<ge> 2 \<and> hd s = CHR 0x27 \<and> last s = CHR 0x27
               then butlast (tl s) else s)
      in unquote_pairs t)"

definition blank :: "char \<Rightarrow> bool" where
  "blank c \<longleftrightarrow> c = CHR '' '' \<or> c = CHR 0x09"

fun after_fields_loop :: "nat \<Rightarrow> string \<Rightarrow> string option" where
  "after_fields_loop 0 rest = Some rest"
| "after_fields_loop (Suc n) rest =
     (case dropWhile (\<lambda>c. \<not> blank c) (TrimLeftFunc blank rest) of
        [] \<Rightarrow> None
      | r \<Rightarrow> after_fields_loop n r)"

definition afterFields :: "string \<Rightarrow> nat \<Rightarrow> string" where
  "afterFields text n =
     (case after_fields_loop n text of None \<Rightarrow> [] | Some rest \<Rightarrow> TrimSpace rest)"

definition isDigits :: "string \<Rightarrow> bool" where
  "isDigits s \<longleftrightarrow> list_all is_digit s \<and> length s > 0"

text \<open>\<open>decodeEscape\<close>, given the text after the backslash: the byte the escape stands for and
  the text after the escape. The conversion to \<open>byte\<close> wraps at 256.\<close>

definition decodeEscape :: "string \<Rightarrow> char \<times> string" where
  "decodeEscape s =
     (if length s \<ge> 3 \<and> isDigits (take 3 s)
      then (char_of (nat (fst (Atoi (take 3 s)))), drop 3 s)
      else case s of c # t \<Rightarrow> (c, t) | [] \<Rightarrow> (CHR 0x5C, []))"

lemma decodeEscape_shorter: "length (snd (decodeEscape s)) \<le> length s"
  by (auto simp: decodeEscape_def split: list.splits)

function txt_loop :: "string \<Rightarrow> bool \<Rightarrow> string \<Rightarrow> string list \<Rightarrow> string list" where
  "txt_loop [] inQuote b out = out"
| "txt_loop (c # s) inQuote b out =
     (if c = CHR 0x22 then
        (if inQuote then txt_loop s False [] (out @ [b]) else txt_loop s True b out)
      else if \<not> inQuote then txt_loop s inQuote b out
      else if c = CHR 0x5C then
        txt_loop (snd (decodeEscape s)) inQuote (b @ [fst (decodeEscape s)]) out
      else txt_loop s inQuote (b @ [c]) out)"
  by pat_completeness auto
termination
  by (relation "measure (\<lambda>(s, _). length s)")
    (auto simp: decodeEscape_shorter le_imp_less_Suc)

definition txtStrings :: "string \<Rightarrow> string list" where
  "txtStrings rdata =
     (if \<not> Contains rdata [CHR 0x22] then [rdata] else txt_loop rdata False [] [])"

definition joinTXT :: "string \<Rightarrow> string" where
  "joinTXT rdata = Join [] (txtStrings rdata)"

definition wireNameLen :: "string \<Rightarrow> nat" where
  "wireNameLen name =
     (let n = TrimSuffix name ''.'' in if n = [] then 1 else length n + 2)"

definition parseRR :: "string \<Rightarrow> RR option" where
  "parseRR text =
     (let f = Fields text in
      if length f < 2 then None
      else let (ttl, isTTL) = Atoi (f ! 1);
               i1 = (if isTTL then 2 else 1 :: nat);
               i2 = (if i1 < length f \<and> f ! i1 = ''IN'' then Suc i1 else i1)
           in if i2 \<ge> length f then None
              else let typ = f ! i2;
                       rdata = afterFields text (Suc i2);
                       rr = \<lparr>rr_Owner = ToLower (hd f), rr_TTL = (if isTTL then ttl else 0),
                              rr_Type = typ, rr_RData = rdata, rr_RDLen = 0\<rparr>
                   in Some (if typ = ''TXT'' then
                              (let strs = txtStrings rdata
                               in rr\<lparr>rr_RData := Join [] strs,
                                     rr_RDLen := sum_list (map (\<lambda>s. 1 + length s) strs)\<rparr>)
                            else if typ = ''CNAME'' then rr\<lparr>rr_RDLen := wireNameLen rdata\<rparr>
                            else rr))"

definition udpAnswerOctets :: "Lookup \<Rightarrow> nat" where
  "udpAnswerOctets l =
     (if lk_Type l \<noteq> ''TXT'' then 0
      else let name = (if lk_Name l = [] \<and> length (lk_rrs l) > 0
                       then rr_Owner (hd (lk_rrs l)) else lk_Name l)
           in 12 + wireNameLen name + 4 +
              sum_list (map (\<lambda>rr. 12 + rr_RDLen rr)
                (filter (\<lambda>rr. rr_Type rr = lk_Type l \<or> rr_Type rr = ''CNAME'') (lk_rrs l))))"

definition firstLine :: "string \<Rightarrow> string" where
  "firstLine s = TrimSpace (takeWhile (\<lambda>c. c \<noteq> CHR 0x0A) s)"

section \<open>Lemmas\<close>

lemma zero_Lookup_simps [simp]:
  "lk_Status zero_Lookup = StatusNone" "lk_Records zero_Lookup = []" "lk_CNAME zero_Lookup = []"
  "lk_Trust zero_Lookup = TrustNone" "lk_rrs zero_Lookup = []" "lk_Type zero_Lookup = []"
  by (simp_all add: zero_Lookup_def)

lemma not_Answered_zero [simp]: "\<not> Answered zero_Lookup" "\<not> HasRecords zero_Lookup"
  by (simp_all add: Answered_def HasRecords_def)

lemma HasRecords_Answered: "HasRecords l \<Longrightarrow> Answered l"
  by (simp add: HasRecords_def Answered_def)

lemma Answered_cases:
  "Answered l \<longleftrightarrow> lk_Status l \<in> {StatusOK, StatusNXRRSet, StatusNXDomain}"
  by (simp add: Answered_def)

lemma Addrs_unmapped: "a \<in> set (Addrs l) \<Longrightarrow> Unmap a = a"
  by (auto simp: Addrs_def List.map_filter_def)

lemma Addrs_Nil: "lk_Records l = [] \<Longrightarrow> Addrs l = []"
  by (simp add: Addrs_def List.map_filter_def)

text \<open>
  The presentation form of a character-string as BIND prints it: in quotes, a quote and a
  backslash escaped by a backslash, a byte outside printable ASCII as three decimal digits.
\<close>

definition digit3 :: "nat \<Rightarrow> string" where
  "digit3 n = [digit_char (n div 100), digit_char (n div 10 mod 10), digit_char (n mod 10)]"

definition present_char :: "char \<Rightarrow> string" where
  "present_char c =
     (if c = CHR 0x22 \<or> c = CHR 0x5C then [CHR 0x5C, c]
      else if 32 \<le> (of_char c :: nat) \<and> of_char c < (127::nat) then [c]
      else CHR 0x5C # digit3 (of_char c))"

definition present_string :: "string \<Rightarrow> string" where
  "present_string s = CHR 0x22 # concat (map present_char s) @ [CHR 0x22]"

lemma digit3_val:
  assumes "n < 256"
  shows "list_all is_digit (digit3 n) \<and> fst (Atoi (digit3 n)) = int n"
proof -
  have d: "n div 100 < 10" "n div 10 mod 10 < 10" "n mod 10 < 10" using assms by auto
  then have ld: "list_all is_digit (digit3 n)" by (simp add: digit3_def)
  have "digits_val (digit3 n) = 100 * (n div 100) + 10 * (n div 10 mod 10) + n mod 10"
    using d by (simp add: digits_val_def digit3_def)
  also have "\<dots> = n"
  proof -
    have "n div 100 = n div 10 div 10" by (simp flip: div_mult2_eq)
    then have "10 * (n div 100) + n div 10 mod 10 = n div 10" by simp
    then show ?thesis using mult_div_mod_eq [of 10 n] by linarith
  qed
  finally have v: "digits_val (digit3 n) = n" .
  have "is_digit (digit_char (n div 100))" using d by simp
  then have "\<not> HasPrefix (digit3 n) ''-''" "\<not> HasPrefix (digit3 n) ''+''"
    using digit_not_sign [of "digit_char (n div 100)"] by (simp_all add: digit3_def)
  then have "Atoi (digit3 n) = (int n, True)"
    using ld v assms by (simp add: Atoi_def Let_def digit3_def max_int64_def min_int64_def)
  then show ?thesis using ld by simp
qed

lemma of_char_lt_256: "(of_char c :: nat) < 256"
  using of_char_mod_256 [of c, where 'a = nat] by (metis mod_less_divisor zero_less_numeral)

lemma not_digit_specials: "\<not> is_digit (CHR 0x22)" "\<not> is_digit (CHR 0x5C)"
  by (simp_all add: is_digit_def)

lemma txt_loop_char:
  "txt_loop (present_char c @ s) True b out = txt_loop s True (b @ [c]) out"
proof -
  consider "c = CHR 0x22 \<or> c = CHR 0x5C"
    | "c \<noteq> CHR 0x22" "c \<noteq> CHR 0x5C" "present_char c = [c]"
    | "present_char c = CHR 0x5C # digit3 (of_char c)"
    by (metis present_char_def)
  then show ?thesis
  proof cases
    case 1
    then have "\<not> isDigits (take 3 (c # s))" by (auto simp: isDigits_def not_digit_specials)
    then have "decodeEscape (c # s) = (c, s)" by (simp add: decodeEscape_def)
    with 1 show ?thesis by (auto simp: present_char_def)
  next
    case 2
    then show ?thesis by simp
  next
    case 3
    let ?d = "digit3 (of_char c)"
    have len: "length ?d = 3" by (simp add: digit3_def)
    have "decodeEscape (?d @ s) = (c, s)"
      using digit3_val [OF of_char_lt_256 [of c]] len by (simp add: decodeEscape_def isDigits_def)
    with 3 show ?thesis by simp
  qed
qed

lemma txt_loop_chars:
  "txt_loop (concat (map present_char cs) @ s) True b out = txt_loop s True (b @ cs) out"
  by (induction cs arbitrary: b) (simp_all add: txt_loop_char)

lemma txt_loop_string:
  "txt_loop (present_string cs @ s) False [] out = txt_loop s False [] (out @ [cs])"
  by (simp add: present_string_def txt_loop_chars)

lemma txt_loop_strings:
  "txt_loop (Join '' '' (map present_string ss)) False [] out = out @ ss"
proof (induction "'' ''" "map present_string ss" arbitrary: ss out rule: Join.induct)
  case 1
  then show ?case by simp
next
  case (2 x)
  then obtain c where "ss = [c]" by (cases ss) auto
  then show ?case using txt_loop_string [of c "[]" out] by simp
next
  case (3 x y xs)
  then obtain c d ds where ss: "ss = c # d # ds" by (metis map_eq_Cons_conv)
  with "3.hyps"(2) have "y # xs = map present_string (d # ds)" by simp
  then have "txt_loop (Join '' '' (map present_string (d # ds))) False [] (out @ [c])
      = (out @ [c]) @ d # ds" by (rule "3.hyps"(1))
  then show ?case using ss by (simp add: txt_loop_string)
qed

lemma udpAnswerOctets_ge: "lk_Type l = ''TXT'' \<Longrightarrow> udpAnswerOctets l \<ge> 17"
  by (simp add: udpAnswerOctets_def wireNameLen_def Let_def)

section \<open>Properties\<close>

text \<open>
  Decoding a TXT rdata inverts its presentation form: whatever bytes the character-strings
  hold (quotes, backslashes, control bytes), \<open>txtStrings\<close> gives back exactly the strings that
  were on the wire, and \<open>joinTXT\<close> their concatenation.
\<close>

theorem txtStrings_roundtrip:
  assumes "ss \<noteq> []"
  shows "txtStrings (Join '' '' (map present_string ss)) = ss"
proof -
  obtain c cs where "ss = c # cs" using assms by (cases ss) auto
  then have "CHR 0x22 \<in> set (Join '' '' (map present_string ss))"
    by (cases cs) (auto simp: present_string_def)
  then have "Contains (Join '' '' (map present_string ss)) [CHR 0x22]"
    by (auto simp: Contains_iff dest: split_list)
  then show ?thesis by (simp add: txtStrings_def txt_loop_strings)
qed

theorem txtStrings_roundtrip_witness:
  "txtStrings (Join '' '' (map present_string [[CHR 0x22, CHR 0x07], ''v=spf1 -all'']))
     = [[CHR 0x22, CHR 0x07], ''v=spf1 -all'']"
  by (rule txtStrings_roundtrip) simp

text \<open>
  A null MX is recognised only on a positive answer, and a lookup that failed, timed out or
  was never made neither has records nor counts as answered.
\<close>

theorem no_answer_no_records:
  assumes "lk_Status l \<in> {StatusNone, StatusFailure, StatusTimeout}"
  shows "\<not> Answered l \<and> \<not> HasRecords l \<and> \<not> IsNullMX l"
  using assms by (auto simp: Answered_def HasRecords_def IsNullMX_def)

theorem no_answer_no_records_witness:
  "\<not> Answered zero_Lookup \<and> \<not> HasRecords zero_Lookup \<and> \<not> IsNullMX zero_Lookup"
  by (rule no_answer_no_records) simp

end
