(* ===== verification/Config.thy ===== *)
theory Config
  imports Records
begin

text \<open>
  The parsed command line and the external tools: the types of \<open>src/main.go\<close> and
  \<open>src/runner.go\<close> that the checks use.
\<close>

definition familyIPv4 :: string where "familyIPv4 = ''ipv4''"
definition familyIPv6 :: string where "familyIPv6 = ''ipv6''"

definition apexTypes :: "string list" where
  "apexTypes = [''A'', ''AAAA'', ''MX'', ''TXT'', ''NS'']"

definition wwwTypes :: "string list" where
  "wwwTypes = [''A'', ''AAAA'']"

record resolver =
  res_Host :: string
  res_Port :: int

definition JoinHostPort :: "string \<Rightarrow> string \<Rightarrow> string" where
  "JoinHostPort host port =
     (if CHR '':'' \<in> set host then ''['' @ host @ '']:'' @ port else host @ '':'' @ port)"

definition resolver_args :: "resolver \<Rightarrow> string list" where
  "resolver_args r =
     (if res_Host r = [] then []
      else [''@'' @ res_Host r] @ (if res_Port r > 0 then [''-p'', Itoa (res_Port r)] else []))"

definition dogServer :: "resolver \<Rightarrow> string" where
  "dogServer r =
     (if res_Host r = [] then []
      else if res_Port r > 0 then JoinHostPort (res_Host r) (Itoa (res_Port r))
      else res_Host r)"

definition resolver_String :: "resolver \<Rightarrow> string" where
  "resolver_String r =
     (if res_Host r = [] then ''system''
      else if res_Port r > 0 then JoinHostPort (res_Host r) (Itoa (res_Port r))
      else res_Host r)"

record config =
  cfg_Domain :: string
  cfg_UnicodeDomain :: string
  cfg_Resolver :: resolver
  cfg_Families :: "string list"
  cfg_TimeoutSec :: int
  cfg_QuicTimeoutSec :: int
  cfg_TCPTimeoutSec :: int
  cfg_MaxTimeSec :: int
  cfg_DNSConcurrency :: int
  cfg_HSTSPreload :: bool
  cfg_HSTSCache :: string
  cfg_WarmHSTSCache :: bool
  cfg_RedirectLog :: bool
  cfg_RDAP :: bool
  cfg_RDAPPath :: string
  cfg_ShowVersion :: bool
  cfg_Pretty :: bool
  cfg_DogPath :: string
  cfg_DigPath :: string
  cfg_QuicPath :: string
  cfg_dnsFamily :: string

text \<open>The zero value of the struct.\<close>

definition zero_config :: config where
  "zero_config = \<lparr>cfg_Domain = [], cfg_UnicodeDomain = [], cfg_Resolver = \<lparr>res_Host = [], res_Port = 0\<rparr>,
     cfg_Families = [], cfg_TimeoutSec = 0, cfg_QuicTimeoutSec = 0, cfg_TCPTimeoutSec = 0, cfg_MaxTimeSec = 0,
     cfg_DNSConcurrency = 0, cfg_HSTSPreload = False, cfg_HSTSCache = [], cfg_WarmHSTSCache = False,
     cfg_RedirectLog = False, cfg_RDAP = False, cfg_RDAPPath = [], cfg_ShowVersion = False, cfg_Pretty = False,
     cfg_DogPath = [], cfg_DigPath = [], cfg_QuicPath = [], cfg_dnsFamily = []\<rparr>"

definition wantsFamily :: "config \<Rightarrow> string \<Rightarrow> bool" where
  "wantsFamily c f \<longleftrightarrow> list_ex (\<lambda>x. x = f) (cfg_Families c)"

definition familyOf :: "addr \<Rightarrow> string" where
  "familyOf ip = (if Is4 (Unmap ip) then familyIPv4 else familyIPv6)"

definition traceFamily :: "config \<Rightarrow> string" where
  "traceFamily cfg = (if \<not> wantsFamily cfg familyIPv4 then familyIPv6 else familyIPv4)"

text \<open>The two functions of package time that the program calls with the layout RFC3339; a time is
  in seconds and printed in UTC.\<close>

record time_fmt =
  RFC3339_Format :: "int \<Rightarrow> string"
  RFC3339_Parse :: "string \<Rightarrow> int option"

text \<open>
  One run of an external tool (\<open>Runner.Run\<close>): its standard output and error, whether the
  deadline cut it off (\<open>isTimeout\<close>), and otherwise its exit status and error text, absent
  when the process exited with 0. The tools themselves (dog, dig) are parameters.
\<close>

record tool_result =
  tool_out :: string
  tool_err :: string
  tool_timeout :: bool
  tool_error :: "(int \<times> string) option"

type_synonym runner = "string \<Rightarrow> string list \<Rightarrow> tool_result"

end
