(* ===== verification/X509.thy ===== *)
theory X509
  imports Config
begin

text \<open>
  What domaintest reads of a certificate, and the functions of package crypto it calls, which are
  parameters: the records \<open>sha_lib\<close> and \<open>x509_lib\<close>. Times are nanoseconds since the epoch.
\<close>

datatype public_key = RSAKey nat | ECDSAKey string | Ed25519Key | OtherKey string

record certificate =
  crt_Raw :: string
  crt_RawSubjectPublicKeyInfo :: string
  crt_RawIssuer :: string
  crt_RawSubject :: string
  crt_NotBefore :: int
  crt_NotAfter :: int
  crt_SubjectCN :: string
  crt_IssuerCN :: string
  crt_IssuerOrgs :: "string list"
  crt_IssuerText :: string
  crt_DNSNames :: "string list"
  crt_IssuingCertificateURL :: "string list"
  crt_PublicKey :: public_key

record sha_lib =
  Sum256 :: "string \<Rightarrow> string"
  Sum512 :: "string \<Rightarrow> string"

text \<open>How \<open>Verify\<close> fails, as \<open>errors.As\<close> tells it apart: another name, an unknown authority, or
  anything else, with the text of the error.\<close>

datatype verify_error = HostnameError string | UnknownAuthorityError string | OtherVerifyError string

fun verify_text :: "verify_error \<Rightarrow> string" where
  "verify_text (HostnameError t) = t"
| "verify_text (UnknownAuthorityError t) = t"
| "verify_text (OtherVerifyError t) = t"

text \<open>\<open>Verify\<close> of a leaf with a pool of intermediates for a name (None: the chain is valid),
  \<open>VerifyHostname\<close>, and the check of a certificate's signature with its own key.\<close>

record x509_lib =
  x509_Verify :: "certificate \<Rightarrow> certificate list \<Rightarrow> string \<Rightarrow> verify_error option"
  x509_VerifyHostname :: "certificate \<Rightarrow> string \<Rightarrow> bool"
  x509_CheckSignature :: "certificate \<Rightarrow> bool"

definition second :: int where "second = 1000000000"

definition ex_crt :: certificate where
  "ex_crt = \<lparr>crt_Raw = ''leaf'', crt_RawSubjectPublicKeyInfo = ''key'', crt_RawIssuer = ''ca'',
     crt_RawSubject = ''d'', crt_NotBefore = 0, crt_NotAfter = 30 * 86400 * second, crt_SubjectCN = ''d'',
     crt_IssuerCN = ''ca'', crt_IssuerOrgs = [''CA Ltd''], crt_IssuerText = ''CN=ca'', crt_DNSNames = [''d'', ''*.d''],
     crt_IssuingCertificateURL = [''http://ca/i''], crt_PublicKey = RSAKey 2048\<rparr>"

end
