(* ===== verification/Scrub.thy ===== *)
theory Scrub
  imports Go_Prelude
begin

text \<open>
  Error texts without the probe's own addresses: \<open>scrubResolver\<close> and
  \<open>scrubProbeError\<close> of \<open>src/mail.go\<close>. The two regular expressions are written out as
  functions that give the length of the match at the beginning of a text, knowing the character
  before it; \<open>delete_all\<close> is \<open>ReplaceAllString\<close> with an empty replacement.
\<close>

type_synonym matcher = "char option \<Rightarrow> string \<Rightarrow> nat option"

function delete_all :: "matcher \<Rightarrow> char option \<Rightarrow> string \<Rightarrow> string" where
  "delete_all m prev [] = []"
| "delete_all m prev (c # s) =
     (case m prev (c # s) of
        Some (Suc n) \<Rightarrow> delete_all m (Some (last (take (Suc n) (c # s)))) (drop n s)
      | _ \<Rightarrow> c # delete_all m (Some c) s)"
  by pat_completeness auto
termination
  by (relation "measure (\<lambda>(m, p, s). length s)") auto

section \<open>The address of the resolver\<close>

definition addr_byte :: "char \<Rightarrow> bool" where
  "addr_byte c \<longleftrightarrow> is_digit c \<or> c \<in> set ''abcdefABCDEF.:[]''"

text \<open>\<open>resolverAddrRe\<close>: the last colon of the run, not its first character, with a digit after
  it, is where the greedy repetition stops.\<close>

definition resolverAddrRe :: matcher where
  "resolverAddrRe prev s =
     (if \<not> HasPrefix s '' on '' then None
      else let run = takeWhile addr_byte (drop 4 s);
               ks = filter (\<lambda>k. run ! k = CHR '':'' \<and> is_digit (run ! Suc k)) [1..<length run - 1]
           in if ks = [] then None
              else let k = last ks
                   in Some (4 + Suc k + length (takeWhile is_digit (drop (Suc k) run))))"

definition scrubResolver :: "string \<Rightarrow> string" where
  "scrubResolver msg = delete_all resolverAddrRe None msg"

section \<open>The preamble of a network error\<close>

definition is_word :: "char \<Rightarrow> bool" where
  "is_word c \<longleftrightarrow> (let n = of_char c :: nat in
     48 \<le> n \<and> n \<le> 57 \<or> 65 \<le> n \<and> n \<le> 90 \<or> 97 \<le> n \<and> n \<le> 122 \<or> n = 95)"

definition net_ops :: "string list" where
  "net_ops = [''read'', ''write'', ''dial'', ''readfrom'', ''writeto'', ''accept'', ''set'']"

definition net_protos :: "string list" where
  "net_protos = [''tcp'', ''udp'', ''ip'']"

text \<open>One piece of the expression: the text after it, when it matches.\<close>

definition skip_spaces :: "string \<Rightarrow> string option" where
  "skip_spaces s = (if s \<noteq> [] \<and> re_space (hd s) then Some (dropWhile re_space s) else None)"

fun skip_word :: "string list \<Rightarrow> string \<Rightarrow> string list" where
  "skip_word [] s = []"
| "skip_word (w # ws) s = (if HasPrefix s w then [drop (length w) s] else []) @ skip_word ws s"

definition skip_46 :: "string \<Rightarrow> string" where
  "skip_46 s = (if s \<noteq> [] \<and> (hd s = CHR ''4'' \<or> hd s = CHR ''6'') then tl s else s)"

definition skip_endpoint :: "string \<Rightarrow> string option" where
  "skip_endpoint s =
     (let run = takeWhile (\<lambda>c. \<not> re_space c) s
      in if length run \<ge> 2 \<and> last run = CHR '':'' then Some (drop (length run) s) else None)"

fun first_some :: "('a \<Rightarrow> 'b option) \<Rightarrow> 'a list \<Rightarrow> 'b option" where
  "first_some f [] = None"
| "first_some f (x # xs) = (case f x of None \<Rightarrow> first_some f xs | Some y \<Rightarrow> Some y)"

definition after_proto :: "string \<Rightarrow> string option" where
  "after_proto s =
     (case skip_spaces (skip_46 s) of
        None \<Rightarrow> None
      | Some t \<Rightarrow> (case skip_endpoint t of None \<Rightarrow> None | Some u \<Rightarrow> skip_spaces u))"

definition after_op :: "string \<Rightarrow> string option" where
  "after_op s =
     (case skip_spaces s of None \<Rightarrow> None | Some t \<Rightarrow> first_some after_proto (skip_word net_protos t))"

definition netOpRe :: matcher where
  "netOpRe prev s =
     (if prev \<noteq> None \<and> is_word (the prev) then None
      else map_option (\<lambda>rest. length s - length rest) (first_some after_op (skip_word net_ops s)))"

definition scrubProbeError :: "string \<Rightarrow> string" where
  "scrubProbeError msg = TrimSpace (delete_all netOpRe None (scrubResolver msg))"

section \<open>Lemmas\<close>

lemma delete_all_id:
  "(\<And>p t. suffix t s \<Longrightarrow> t \<noteq> [] \<Longrightarrow> m p t = None) \<Longrightarrow> delete_all m prev s = s"
  by (induction s arbitrary: prev) (simp_all add: suffix_ConsI)

lemma scrubResolver_id: "\<not> Contains s '' on '' \<Longrightarrow> scrubResolver s = s"
  unfolding scrubResolver_def
proof (rule delete_all_id)
  fix p t assume "\<not> Contains s '' on ''" and "suffix t s"
  then have "\<not> HasPrefix t '' on ''"
    by (auto simp: Contains_iff HasPrefix_iff suffix_def)
  then show "resolverAddrRe p t = None" by (simp add: resolverAddrRe_def)
qed

lemma delete_all_match:
  assumes "m prev (a @ b) = Some (length a)" and "a \<noteq> []"
  shows "delete_all m prev (a @ b) = delete_all m (Some (last a)) b"
proof -
  obtain c a' where a: "a = c # a'" using assms(2) by (cases a) auto
  with assms(1) have "m prev (c # (a' @ b)) = Some (Suc (length a'))" by simp
  then show ?thesis by (simp add: a)
qed

lemma takeWhile_append_stop: "(\<And>x. x \<in> set xs \<Longrightarrow> P x) \<Longrightarrow> \<not> P y \<Longrightarrow> takeWhile P (xs @ y # ys) = xs"
  by (simp add: takeWhile_append)

lemma skip_endpoint_ok:
  assumes "a \<noteq> []" and "\<And>c. c \<in> set a \<Longrightarrow> \<not> re_space c"
  shows "skip_endpoint (a @ '': '' @ s) = Some ('' '' @ s)"
proof -
  have "takeWhile (\<lambda>c. \<not> re_space c) ((a @ '':'') @ CHR '' '' # s) = a @ '':''"
    using assms(2) by (intro takeWhile_append_stop) (auto simp: re_space_def)
  then show ?thesis using assms(1) by (cases a) (simp_all add: skip_endpoint_def)
qed

lemma after_proto_ok:
  assumes "v = [] \<or> v = ''4'' \<or> v = ''6''" and "a \<noteq> []"
    and a: "\<And>c. c \<in> set a \<Longrightarrow> \<not> re_space c" and s: "s \<noteq> []" "\<not> re_space (hd s)"
  shows "after_proto (v @ '' '' @ a @ '': '' @ s) = Some s"
proof -
  have sp: "re_space CHR '' ''" by (simp add: re_space_def)
  have hd: "\<not> re_space (hd (a @ '': '' @ s))" using a \<open>a \<noteq> []\<close> by simp
  have d: "dropWhile re_space t = t" if "t \<noteq> []" "\<not> re_space (hd t)" for t
    using that by (cases t) auto
  have "skip_46 (v @ '' '' @ a @ '': '' @ s) = '' '' @ a @ '': '' @ s"
    using assms(1) by (auto simp: skip_46_def)
  moreover have "skip_spaces ('' '' @ a @ '': '' @ s) = Some (a @ '': '' @ s)"
    using d [of "a @ '': '' @ s"] hd \<open>a \<noteq> []\<close> by (simp add: skip_spaces_def sp)
  moreover have "skip_spaces ('' '' @ s) = Some s"
    using d [OF s] by (simp add: skip_spaces_def sp)
  ultimately show ?thesis
    using skip_endpoint_ok [OF \<open>a \<noteq> []\<close> a, of s] by (simp add: after_proto_def)
qed

lemma after_op_ok:
  assumes p: "proto \<in> set net_protos" and r: "after_proto rest = Some s"
  shows "after_op ('' '' @ proto @ rest) = Some s"
proof -
  have "re_space CHR '' ''" "\<not> re_space CHR ''t''" "\<not> re_space CHR ''u''" "\<not> re_space CHR ''i''"
    by (simp_all add: re_space_def)
  then show ?thesis
    using p r by (auto simp: after_op_def skip_spaces_def net_protos_def)
qed

lemma netOpRe_ok:
  assumes "op \<in> set net_ops" and "after_op ('' '' @ rest) = Some s"
  shows "netOpRe None (op @ '' '' @ rest) = Some (length (op @ '' '' @ rest) - length s)"
proof -
  have none: "after_op (CHR ''f'' # t) = None" "after_op (CHR ''t'' # t) = None" for t
    by (simp_all add: after_op_def skip_spaces_def re_space_def)
  have some: "after_op (CHR '' '' # rest) = Some s" using assms(2) by simp
  have "first_some after_op (skip_word net_ops (op @ '' '' @ rest)) = Some s"
    using assms(1) unfolding net_ops_def
    by (simp only: list.set insert_iff empty_iff simp_thms, elim disjE) (simp_all add: none some)
  then show ?thesis by (simp add: netOpRe_def)
qed

section \<open>Properties\<close>

text \<open>
  The preamble of a Go network error, which names the probe's own address and port, is cut
  from the error text, and the cause it introduces is kept.
\<close>
theorem scrub_preamble:
  assumes "op \<in> set net_ops" and "proto \<in> set net_protos" and "v = [] \<or> v = ''4'' \<or> v = ''6''"
    and "a \<noteq> []" and "\<And>c. c \<in> set a \<Longrightarrow> \<not> re_space c"
    and "cause \<noteq> []" and "\<not> re_space (hd cause)"
    and "\<And>p t. suffix t cause \<Longrightarrow> t \<noteq> [] \<Longrightarrow> netOpRe p t = None"
    and "\<not> Contains (op @ '' '' @ proto @ v @ '' '' @ a @ '': '' @ cause) '' on ''"
  shows "scrubProbeError (op @ '' '' @ proto @ v @ '' '' @ a @ '': '' @ cause) = TrimSpace cause"
proof -
  let ?pre = "op @ '' '' @ proto @ v @ '' '' @ a @ '': ''"
  have "after_op ('' '' @ proto @ v @ '' '' @ a @ '': '' @ cause) = Some cause"
    using after_op_ok [OF assms(2) after_proto_ok [OF assms(3-7)]] by simp
  from netOpRe_ok [OF assms(1), of "proto @ v @ '' '' @ a @ '': '' @ cause", OF this]
  have m: "netOpRe None (?pre @ cause) = Some (length ?pre)" by simp
  have "delete_all netOpRe None (?pre @ cause) = delete_all netOpRe (Some (last ?pre)) cause"
    using m by (intro delete_all_match) simp_all
  also have "\<dots> = cause" using assms(8) by (rule delete_all_id)
  finally show ?thesis
    using scrubResolver_id [OF assms(9)] by (simp add: scrubProbeError_def)
qed

theorem scrub_preamble_witness:
  "scrubProbeError ''read tcp4 10.0.0.5:46962->93.184.216.34:443: connection reset''
     = ''connection reset''"
proof -
  let ?c = "''connection reset''"
  have none: "netOpRe p t = None" if "suffix t ?c" "t \<noteq> []" for p t
  proof -
    have "t \<in> set (suffixes ?c)" using that(1) by (simp only: in_set_suffixes)
    moreover have "list_all (\<lambda>t. first_some after_op (skip_word net_ops t) = None) (suffixes ?c)"
      by code_simp
    ultimately have "first_some after_op (skip_word net_ops t) = None" by (simp only: list_all_iff)
    then show ?thesis by (simp add: netOpRe_def)
  qed
  have "scrubProbeError (''read'' @ '' '' @ ''tcp'' @ ''4'' @ '' '' @
      ''10.0.0.5:46962->93.184.216.34:443'' @ '': '' @ ?c) = TrimSpace ?c"
  proof (rule scrub_preamble [OF _ _ _ _ _ _ _ none])
    have "list_all (\<lambda>c. \<not> re_space c) ''10.0.0.5:46962->93.184.216.34:443''" by code_simp
    then show "\<not> re_space c" if "c \<in> set ''10.0.0.5:46962->93.184.216.34:443''" for c
      using that unfolding list_all_iff by blast
  qed (simp_all add: net_ops_def net_protos_def re_space_def)
  also have "TrimSpace ?c = ?c" by code_simp
  finally show ?thesis by simp
qed

end
