(* ===== verification/Url.thy ===== *)
theory Url
  imports Go_Prelude
begin

text \<open>
  Package \<open>net/url\<close>, as far as domaintest uses it: parsing, printing, resolving a reference,
  and the parts of a URL the redirect follower and the response comparison read. An error is
  \<^const>\<open>None\<close>; its text reaches no result.
\<close>

datatype encoding = encodePath | encodeHost | encodeZone | encodeUserPassword | encodeFragment

record Userinfo =
  ui_username :: string
  ui_password :: "string option"

record URL =
  url_Scheme :: string
  url_Opaque :: string
  url_User :: "Userinfo option"
  url_Host :: string
  url_Path :: string
  url_RawPath :: string
  url_OmitHost :: bool
  url_ForceQuery :: bool
  url_RawQuery :: string
  url_Fragment :: string
  url_RawFragment :: string

definition zero_URL :: URL where
  "zero_URL = \<lparr>url_Scheme = [], url_Opaque = [], url_User = None, url_Host = [], url_Path = [],
     url_RawPath = [], url_OmitHost = False, url_ForceQuery = False, url_RawQuery = [],
     url_Fragment = [], url_RawFragment = []\<rparr>"

section \<open>Escaping\<close>

definition is_letter :: "char \<Rightarrow> bool" where
  "is_letter c \<longleftrightarrow> (let n = of_char c :: nat in 65 \<le> n \<and> n \<le> 90 \<or> 97 \<le> n \<and> n \<le> 122)"

definition shouldEscape :: "char \<Rightarrow> encoding \<Rightarrow> bool" where
  "shouldEscape c mode =
     (if is_letter c \<or> is_digit c then False
      else if (mode = encodeHost \<or> mode = encodeZone) \<and>
              c \<in> set (''!$&'' @ [CHR 0x27] @ ''()*+,;=:[]<>'' @ [CHR 0x22]) then False
      else if c \<in> set ''-_.~'' then False
      else if c \<in> set ''$&+,/:;=?@'' then
        (case mode of
           encodePath \<Rightarrow> c = CHR ''?''
         | encodeUserPassword \<Rightarrow> c \<in> set ''@/?:''
         | encodeFragment \<Rightarrow> False
         | _ \<Rightarrow> True)
      else if mode = encodeFragment \<and> c \<in> set ''!()*'' then False
      else True)"

definition unhex :: "char \<Rightarrow> nat option" where
  "unhex c =
     (let n = of_char c :: nat in
      if 48 \<le> n \<and> n \<le> 57 then Some (n - 48)
      else if 97 \<le> n \<and> n \<le> 102 then Some (n - 87)
      else if 65 \<le> n \<and> n \<le> 70 then Some (n - 55) else None)"

definition upperhex :: "nat \<Rightarrow> char" where
  "upperhex d = (if d < 10 then char_of (48 + d) else char_of (55 + d))"

definition escape :: "encoding \<Rightarrow> string \<Rightarrow> string" where
  "escape mode s =
     concat (map (\<lambda>c. if shouldEscape c mode
       then [CHR ''%'', upperhex (of_char c div 16), upperhex (of_char c mod 16)] else [c]) s)"

definition host_byte_ok :: "encoding \<Rightarrow> char \<Rightarrow> bool" where
  "host_byte_ok mode c \<longleftrightarrow>
     \<not> ((mode = encodeHost \<or> mode = encodeZone) \<and> (of_char c :: nat) < 128 \<and> shouldEscape c mode)"

text \<open>In a host only non-ASCII bytes and the percent sign itself may be escaped; in a zone the
  unescaped byte must be one a zone may hold.\<close>

definition escape_allowed :: "encoding \<Rightarrow> nat \<Rightarrow> nat \<Rightarrow> bool" where
  "escape_allowed mode a b =
     (if mode = encodeHost then \<not> (a < 8 \<and> 16 * a + b \<noteq> 37)
      else if mode = encodeZone then
        16 * a + b = 37 \<or> 16 * a + b = 32 \<or> \<not> shouldEscape (char_of (16 * a + b)) encodeHost
      else True)"

fun unescape :: "encoding \<Rightarrow> string \<Rightarrow> string option" where
  "unescape mode [] = Some []"
| "unescape mode [c] = (if c \<noteq> CHR ''%'' \<and> host_byte_ok mode c then Some [c] else None)"
| "unescape mode [c, d] =
     (if c \<noteq> CHR ''%'' \<and> host_byte_ok mode c then map_option (Cons c) (unescape mode [d]) else None)"
| "unescape mode (c # d # e # s) =
     (if c = CHR ''%'' then
        (case (unhex d, unhex e) of
           (Some a, Some b) \<Rightarrow>
             (if escape_allowed mode a b then map_option (Cons (char_of (16 * a + b))) (unescape mode s)
              else None)
         | _ \<Rightarrow> None)
      else if host_byte_ok mode c then map_option (Cons c) (unescape mode (d # e # s)) else None)"

definition validEncoded :: "string \<Rightarrow> encoding \<Rightarrow> bool" where
  "validEncoded s mode =
     list_all (\<lambda>c. c \<in> set (''!$&'' @ [CHR 0x27] @ ''()*+,;=:@[]%'') \<or> \<not> shouldEscape c mode) s"

section \<open>Parsing\<close>

text \<open>\<open>getScheme\<close>: an error, or the scheme and the rest.\<close>

definition getScheme :: "string \<Rightarrow> (string \<times> string) option" where
  "getScheme raw =
     (let s = takeWhile (\<lambda>c. is_letter c \<or> is_digit c \<or> c \<in> set ''+-.'') raw;
          rest = drop (length s) raw
      in if s \<noteq> [] \<and> \<not> is_letter (hd s) then Some ([], raw)
         else if HasPrefix rest '':'' then (if s = [] then None else Some (s, tl rest))
         else Some ([], raw))"

definition validOptionalPort :: "string \<Rightarrow> bool" where
  "validOptionalPort port =
     (case port of [] \<Rightarrow> True | c # ds \<Rightarrow> c = CHR '':'' \<and> list_all is_digit ds)"

text \<open>The text from the last occurrence of a byte on, and the text before it.\<close>

definition split_last :: "char \<Rightarrow> string \<Rightarrow> (string \<times> string) option" where
  "split_last c s =
     (if c \<notin> set s then None
      else let tail = rev (takeWhile (\<lambda>x. x \<noteq> c) (rev s))
           in Some (take (length s - length tail - 1) s, tail))"

fun split_sub :: "string \<Rightarrow> string \<Rightarrow> (string \<times> string) option" where
  "split_sub p [] = (if p = [] then Some ([], []) else None)"
| "split_sub p (c # s) =
     (if HasPrefix (c # s) p then Some ([], drop (length p) (c # s))
      else map_option (\<lambda>(a, b). (c # a, b)) (split_sub p s))"

definition parseHost :: "string \<Rightarrow> string option" where
  "parseHost host =
     (if HasPrefix host ''['' then
        (case split_last CHR '']'' host of
           None \<Rightarrow> None
         | Some (inside, colonPort) \<Rightarrow>
             if \<not> validOptionalPort colonPort then None
             else (case split_sub ''%25'' inside of
                     Some (h1, zone) \<Rightarrow>
                       (case (unescape encodeHost h1, unescape encodeZone (''%25'' @ zone),
                              unescape encodeHost ('']'' @ colonPort)) of
                          (Some a, Some b, Some c) \<Rightarrow> Some (a @ b @ c)
                        | _ \<Rightarrow> None)
                   | None \<Rightarrow> unescape encodeHost host))
      else case split_last CHR '':'' host of
        Some (_, port) \<Rightarrow> if validOptionalPort ('':'' @ port) then unescape encodeHost host else None
      | None \<Rightarrow> unescape encodeHost host)"

definition validUserinfo :: "string \<Rightarrow> bool" where
  "validUserinfo s =
     list_all (\<lambda>c. is_letter c \<or> is_digit c \<or> c \<in> set (''-._:~!$&'' @ [CHR 0x27] @ ''()*+,;=%@'')) s"

definition parse_userinfo :: "string \<Rightarrow> Userinfo option" where
  "parse_userinfo s =
     (if \<not> validUserinfo s then None
      else case Cut CHR '':'' s of
        (u, None) \<Rightarrow> map_option (\<lambda>x. \<lparr>ui_username = x, ui_password = None\<rparr>) (unescape encodeUserPassword u)
      | (u, Some p) \<Rightarrow>
          (case (unescape encodeUserPassword u, unescape encodeUserPassword p) of
             (Some x, Some y) \<Rightarrow> Some \<lparr>ui_username = x, ui_password = Some y\<rparr>
           | _ \<Rightarrow> None))"

definition parseAuthority :: "string \<Rightarrow> (Userinfo option \<times> string) option" where
  "parseAuthority authority =
     (case split_last CHR ''@'' authority of
        None \<Rightarrow> map_option (Pair None) (parseHost authority)
      | Some (userinfo, host) \<Rightarrow>
          (case (parseHost host, parse_userinfo userinfo) of
             (Some h, Some u) \<Rightarrow> Some (Some u, h)
           | _ \<Rightarrow> None))"

definition setPath :: "string \<Rightarrow> URL \<Rightarrow> URL option" where
  "setPath p u =
     map_option (\<lambda>path. u\<lparr>url_Path := path,
        url_RawPath := (if p = escape encodePath path then [] else p)\<rparr>) (unescape encodePath p)"

definition setFragment :: "string \<Rightarrow> URL \<Rightarrow> URL option" where
  "setFragment f u =
     map_option (\<lambda>frag. u\<lparr>url_Fragment := frag,
        url_RawFragment := (if f = escape encodeFragment frag then [] else f)\<rparr>) (unescape encodeFragment f)"

definition is_ctl :: "char \<Rightarrow> bool" where
  "is_ctl c \<longleftrightarrow> (of_char c :: nat) < 32 \<or> (of_char c :: nat) = 127"

definition split_query :: "string \<Rightarrow> string \<times> bool \<times> string" where
  "split_query rest =
     (if HasSuffix rest ''?'' \<and> length (filter (\<lambda>c. c = CHR ''?'') rest) = 1
      then (butlast rest, True, [])
      else case Cut CHR ''?'' rest of (a, q) \<Rightarrow> (a, False, case q of None \<Rightarrow> [] | Some r \<Rightarrow> r))"

definition parse_rest :: "URL \<Rightarrow> string \<Rightarrow> URL option" where
  "parse_rest u rest =
     (if \<not> HasPrefix rest ''/'' \<and> url_Scheme u \<noteq> [] then Some (u\<lparr>url_Opaque := rest\<rparr>)
      else if \<not> HasPrefix rest ''/'' \<and> CHR '':'' \<in> set (fst (Cut CHR ''/'' rest)) then None
      else if (url_Scheme u \<noteq> [] \<or> \<not> HasPrefix rest ''///'') \<and> HasPrefix rest ''//'' then
        (let a = drop 2 rest; authority = takeWhile (\<lambda>c. c \<noteq> CHR ''/'') a
         in case parseAuthority authority of
              None \<Rightarrow> None
            | Some (usr, h) \<Rightarrow> setPath (drop (length authority) a) (u\<lparr>url_User := usr, url_Host := h\<rparr>))
      else setPath rest (u\<lparr>url_OmitHost := url_Scheme u \<noteq> [] \<and> HasPrefix rest ''/''\<rparr>))"

definition parse_url :: "string \<Rightarrow> URL option" where
  "parse_url raw =
     (if list_ex is_ctl raw then None
      else if raw = ''*'' then Some (zero_URL\<lparr>url_Path := ''*''\<rparr>)
      else case getScheme raw of
        None \<Rightarrow> None
      | Some (scheme, rest0) \<Rightarrow>
          (case split_query rest0 of (rest, force, query) \<Rightarrow>
             parse_rest (zero_URL\<lparr>url_Scheme := ToLower scheme, url_ForceQuery := force,
                                  url_RawQuery := query\<rparr>) rest))"

definition url_Parse :: "string \<Rightarrow> URL option" where
  "url_Parse raw =
     (case Cut CHR ''#'' raw of (u, frag) \<Rightarrow>
        (case parse_url u of
           None \<Rightarrow> None
         | Some url \<Rightarrow>
             (case frag of None \<Rightarrow> Some url | Some f \<Rightarrow> if f = [] then Some url else setFragment f url)))"

section \<open>Parts and printing\<close>

definition EscapedPath :: "URL \<Rightarrow> string" where
  "EscapedPath u =
     (if url_RawPath u \<noteq> [] \<and> validEncoded (url_RawPath u) encodePath \<and>
         unescape encodePath (url_RawPath u) = Some (url_Path u) then url_RawPath u
      else if url_Path u = ''*'' then ''*'' else escape encodePath (url_Path u))"

definition EscapedFragment :: "URL \<Rightarrow> string" where
  "EscapedFragment u =
     (if url_RawFragment u \<noteq> [] \<and> validEncoded (url_RawFragment u) encodeFragment \<and>
         unescape encodeFragment (url_RawFragment u) = Some (url_Fragment u) then url_RawFragment u
      else escape encodeFragment (url_Fragment u))"

definition splitHostPort :: "string \<Rightarrow> string \<times> string" where
  "splitHostPort hostPort =
     (let (host, port) =
            (case split_last CHR '':'' hostPort of
               Some (h, p) \<Rightarrow> if validOptionalPort ('':'' @ p) then (h, p) else (hostPort, [])
             | None \<Rightarrow> (hostPort, []))
      in (if HasPrefix host ''['' \<and> HasSuffix host '']'' then butlast (tl host) else host, port))"

definition Hostname :: "URL \<Rightarrow> string" where
  "Hostname u = fst (splitHostPort (url_Host u))"

definition Port :: "URL \<Rightarrow> string" where
  "Port u = snd (splitHostPort (url_Host u))"

definition RequestURI :: "URL \<Rightarrow> string" where
  "RequestURI u =
     (let result = (if url_Opaque u = [] then (let p = EscapedPath u in if p = [] then ''/'' else p)
                    else if HasPrefix (url_Opaque u) ''//'' then url_Scheme u @ '':'' @ url_Opaque u
                    else url_Opaque u)
      in if url_ForceQuery u \<or> url_RawQuery u \<noteq> [] then result @ ''?'' @ url_RawQuery u else result)"

definition Userinfo_String :: "Userinfo \<Rightarrow> string" where
  "Userinfo_String u =
     escape encodeUserPassword (ui_username u) @
     (case ui_password u of None \<Rightarrow> [] | Some p \<Rightarrow> '':'' @ escape encodeUserPassword p)"

definition authority_text :: "URL \<Rightarrow> string" where
  "authority_text u =
     (if url_Scheme u = [] \<and> url_Host u = [] \<and> url_User u = None then []
      else if url_OmitHost u \<and> url_Host u = [] \<and> url_User u = None then []
      else (if url_Host u \<noteq> [] \<or> url_Path u \<noteq> [] \<or> url_User u \<noteq> None then ''//'' else []) @
           (case url_User u of None \<Rightarrow> [] | Some ui \<Rightarrow> Userinfo_String ui @ ''@'') @
           escape encodeHost (url_Host u))"

definition URL_String :: "URL \<Rightarrow> string" where
  "URL_String u =
     (let head = (if url_Scheme u \<noteq> [] then url_Scheme u @ '':'' else []);
          body = (if url_Opaque u \<noteq> [] then url_Opaque u
                  else let a = authority_text u; path = EscapedPath u;
                           slash = (if path \<noteq> [] \<and> hd path \<noteq> CHR ''/'' \<and> url_Host u \<noteq> [] then ''/'' else []);
                           dot = (if head @ a @ slash = [] \<and> CHR '':'' \<in> set (fst (Cut CHR ''/'' path))
                                  then ''./'' else [])
                       in a @ slash @ dot @ path)
      in head @ body @
         (if url_ForceQuery u \<or> url_RawQuery u \<noteq> [] then ''?'' @ url_RawQuery u else []) @
         (if url_Fragment u \<noteq> [] then ''#'' @ EscapedFragment u else []))"

section \<open>References\<close>

text \<open>The loop of \<open>resolvePath\<close> over the elements: the text written so far and \<open>first\<close>.\<close>

definition path_step :: "string \<Rightarrow> string \<times> bool \<Rightarrow> string \<times> bool" where
  "path_step elem st =
     (case st of (dst, fst') \<Rightarrow>
        if elem = ''.'' then (dst, False)
        else if elem = ''..'' then
          (case split_last CHR ''/'' (tl dst) of
             None \<Rightarrow> (''/'', True)
           | Some (before, _) \<Rightarrow> (''/'' @ before, fst'))
        else (dst @ (if fst' then [] else ''/'') @ elem, False))"

definition resolvePath :: "string \<Rightarrow> string \<Rightarrow> string" where
  "resolvePath base ref =
     (let full = (if ref = [] then base
                  else if hd ref \<noteq> CHR ''/'' then
                    (case split_last CHR ''/'' base of None \<Rightarrow> ref | Some (b, _) \<Rightarrow> b @ ''/'' @ ref)
                  else ref)
      in if full = [] then []
         else let elems = Split CHR ''/'' full;
                  dst = fst (fold path_step elems (''/'', True));
                  r = (if last elems = ''.'' \<or> last elems = ''..'' then dst @ ''/'' else dst)
              in if length r > 1 \<and> r ! 1 = CHR ''/'' then tl r else r)"

text \<open>\<open>setPath\<close> on a path printed by \<open>EscapedPath\<close> cannot fail; should it, the source
  ignores the error and leaves the path.\<close>

definition set_path_ignoring :: "string \<Rightarrow> URL \<Rightarrow> URL" where
  "set_path_ignoring p u = (case setPath p u of Some u' \<Rightarrow> u' | None \<Rightarrow> u)"

definition ResolveReference :: "URL \<Rightarrow> URL \<Rightarrow> URL" where
  "ResolveReference u ref =
     (let url = (if url_Scheme ref = [] then ref\<lparr>url_Scheme := url_Scheme u\<rparr> else ref)
      in if url_Scheme ref \<noteq> [] \<or> url_Host ref \<noteq> [] \<or> url_User ref \<noteq> None then
           set_path_ignoring (resolvePath (EscapedPath ref) []) url
         else if url_Opaque ref \<noteq> [] then url\<lparr>url_User := None, url_Host := [], url_Path := []\<rparr>
         else
           let bare = url_Path ref = [] \<and> \<not> url_ForceQuery ref \<and> url_RawQuery ref = [];
               url1 = (if bare then url\<lparr>url_RawQuery := url_RawQuery u\<rparr> else url);
               url2 = (if bare \<and> url_Fragment ref = []
                       then url1\<lparr>url_Fragment := url_Fragment u, url_RawFragment := url_RawFragment u\<rparr>
                       else url1)
           in if url_Path ref = [] \<and> url_Opaque u \<noteq> [] then
                url2\<lparr>url_Opaque := url_Opaque u, url_User := None, url_Host := [], url_Path := []\<rparr>
              else set_path_ignoring (resolvePath (EscapedPath u) (EscapedPath ref))
                     (url2\<lparr>url_Host := url_Host u, url_User := url_User u\<rparr>))"

definition parse_ref :: "URL \<Rightarrow> string \<Rightarrow> URL option" where
  "parse_ref u ref = map_option (ResolveReference u) (url_Parse ref)"

section \<open>Lemmas\<close>

text \<open>Every escaped text reads back.\<close>

lemma unhex_upperhex: "d < 16 \<Longrightarrow> unhex (upperhex d) = Some d"
  by (auto simp: unhex_def upperhex_def)

lemma percent_escaped: "shouldEscape CHR ''%'' mode"
  by (cases mode) (simp_all add: shouldEscape_def is_letter_def is_digit_def)

lemma unescape_escape:
  assumes "mode \<noteq> encodeHost" and "mode \<noteq> encodeZone"
  shows "unescape mode (escape mode s) = Some s"
proof (induction s)
  case (Cons c s)
  show ?case
  proof (cases "shouldEscape c mode")
    case True
    have "(of_char c :: nat) < 16 * 16" by simp
    then have n: "unhex (upperhex (of_char c div 16)) = Some (of_char c div 16)"
        "unhex (upperhex (of_char c mod 16)) = Some (of_char c mod 16)"
      by (auto intro!: unhex_upperhex less_mult_imp_div_less)
    have "escape mode (c # s) =
        CHR ''%'' # upperhex (of_char c div 16) # upperhex (of_char c mod 16) # escape mode s"
      using True by (simp add: escape_def)
    moreover have "16 * (of_char c div 16) + of_char c mod 16 = (of_char c :: nat)" by simp
    ultimately show ?thesis
      using Cons.IH assms by (simp add: n escape_allowed_def)
  next
    case False
    then have "c \<noteq> CHR ''%''" using percent_escaped by auto
    moreover have "host_byte_ok mode c" using assms by (simp add: host_byte_ok_def)
    moreover have "unescape mode (c # t) = map_option (Cons c) (unescape mode t)"
      if "c \<noteq> CHR ''%''" "host_byte_ok mode c" for t
      using that by (cases t rule: remdups_adj.cases) (auto split: list.split)
    ultimately show ?thesis using False Cons.IH by (simp add: escape_def)
  qed
qed (simp add: escape_def)

end
