(* ===== verification/Go_Text.thy ===== *)
theory Go_Text
  imports Go_Prelude
begin

text \<open>
  The functions of Go's standard library that look at UTF-8: \<open>strings.ToValidUTF8\<close> with an
  empty replacement and \<open>strconv.Quote\<close> (the verb \<open>%q\<close>). A sequence outside ASCII that
  is valid counts as printable.
\<close>

abbreviation byte :: "char \<Rightarrow> nat" where
  "byte c \<equiv> of_char c"

definition is_cont :: "char \<Rightarrow> bool" where
  "is_cont c \<longleftrightarrow> 128 \<le> byte c \<and> byte c \<le> 191"

text \<open>The length of the well-formed UTF-8 sequence a text begins with, 0 when there is none.\<close>

definition rune_len :: "string \<Rightarrow> nat" where
  "rune_len s =
     (case s of
        [] \<Rightarrow> 0
      | c # t \<Rightarrow>
          let b = byte c; second = (if t = [] then 0 else byte (hd t))
          in if b < 128 then 1
             else if 194 \<le> b \<and> b \<le> 223 then (if length t \<ge> 1 \<and> is_cont (t ! 0) then 2 else 0)
             else if 224 \<le> b \<and> b \<le> 239 then
               (if length t \<ge> 2 \<and> is_cont (t ! 0) \<and> is_cont (t ! 1) \<and>
                   (b = 224 \<longrightarrow> 160 \<le> second) \<and> (b = 237 \<longrightarrow> second \<le> 159) then 3 else 0)
             else if 240 \<le> b \<and> b \<le> 244 then
               (if length t \<ge> 3 \<and> is_cont (t ! 0) \<and> is_cont (t ! 1) \<and> is_cont (t ! 2) \<and>
                   (b = 240 \<longrightarrow> 144 \<le> second) \<and> (b = 244 \<longrightarrow> second \<le> 143) then 4 else 0)
             else 0)"

function ToValidUTF8 :: "string \<Rightarrow> string" where
  "ToValidUTF8 s =
     (if s = [] then []
      else let n = rune_len s
           in if n = 0 then ToValidUTF8 (tl s) else take n s @ ToValidUTF8 (drop n s))"
  by pat_completeness auto
termination by (relation "measure length") auto

declare ToValidUTF8.simps [simp del]

definition hex_lower :: "nat \<Rightarrow> char" where
  "hex_lower d = (if d < 10 then char_of (48 + d) else char_of (87 + d))"

definition quote_ascii :: "char \<Rightarrow> string" where
  "quote_ascii c =
     (let b = byte c in
      if b = 34 \<or> b = 92 then [CHR 0x5C, c]
      else if 32 \<le> b \<and> b \<le> 126 then [c]
      else if b = 7 then [CHR 0x5C, CHR ''a''] else if b = 8 then [CHR 0x5C, CHR ''b'']
      else if b = 12 then [CHR 0x5C, CHR ''f''] else if b = 10 then [CHR 0x5C, CHR ''n'']
      else if b = 13 then [CHR 0x5C, CHR ''r''] else if b = 9 then [CHR 0x5C, CHR ''t'']
      else if b = 11 then [CHR 0x5C, CHR ''v'']
      else [CHR 0x5C, CHR ''x'', hex_lower (b div 16), hex_lower (b mod 16)])"

function quote_body :: "string \<Rightarrow> string" where
  "quote_body s =
     (if s = [] then []
      else let n = rune_len s
           in if n \<le> 1 then quote_ascii (hd s) @ quote_body (tl s)
              else take n s @ quote_body (drop n s))"
  by pat_completeness auto
termination by (relation "measure length") auto

declare quote_body.simps [simp del]

definition Quote :: "string \<Rightarrow> string" where
  "Quote s = [CHR 0x22] @ quote_body s @ [CHR 0x22]"

end
