(* ===== verification/Web.thy ===== *)
theory Web
  imports X509 Scrub Url Go_Text
begin

text \<open>
  One address of a web host: the results of \<open>src/tcp.go\<close>, \<open>src/httpprobe.go\<close>,
  \<open>src/tlsprobe.go\<close>, \<open>src/quic.go\<close> and \<open>src/httpversions.go\<close>, and the redirect
  follower.

  A request is an argument: \<open>connect\<close> gives the response head for a contact, which records
  the address and port dialled, whether TLS is spoken and for which name, and the Host and
  path sent. The follower also returns the contacts it made, in order.
\<close>

datatype PortState = PortOpen | PortRefused | PortTimeout | PortUnreachable | PortError | PortSkipped

fun PortState_text :: "PortState \<Rightarrow> string" where
  "PortState_text PortOpen = ''open''"
| "PortState_text PortRefused = ''refused''"
| "PortState_text PortTimeout = ''timeout''"
| "PortState_text PortUnreachable = ''unreachable''"
| "PortState_text PortError = ''error''"
| "PortState_text PortSkipped = ''skipped''"

datatype ChainState =
  ChainValid | ChainExpired | ChainNotYetValid | ChainHostnameMismatch | ChainSelfSigned |
  ChainIncomplete | ChainUntrustedRoot | ChainInvalid | ChainHandshakeFailed

fun chain_text :: "ChainState \<Rightarrow> string" where
  "chain_text ChainValid = ''valid''"
| "chain_text ChainExpired = ''expired''"
| "chain_text ChainNotYetValid = ''not_yet_valid''"
| "chain_text ChainHostnameMismatch = ''hostname_mismatch''"
| "chain_text ChainSelfSigned = ''self_signed''"
| "chain_text ChainIncomplete = ''incomplete_chain''"
| "chain_text ChainUntrustedRoot = ''untrusted_root''"
| "chain_text ChainInvalid = ''invalid''"
| "chain_text ChainHandshakeFailed = ''handshake_failed''"

record HSTS =
  hs_MaxAge :: int
  hs_IncludeSubdomains :: bool
  hs_Preload :: bool

record HTTPResult =
  ht_Status :: int
  ht_Location :: string
  ht_Server :: string
  ht_HSTS :: "HSTS option"
  ht_AltSvc :: string
  ht_Error :: string

definition zero_HTTPResult :: HTTPResult where
  "zero_HTTPResult = \<lparr>ht_Status = 0, ht_Location = [], ht_Server = [], ht_HSTS = None, ht_AltSvc = [],
     ht_Error = []\<rparr>"

record CertInfo =
  ci_Subject :: string
  ci_Issuer :: string
  ci_NotBefore :: string
  ci_NotAfter :: string
  ci_DaysRemaining :: int
  ci_SANs :: "string list"
  ci_CoversApex :: bool
  ci_CoversWWW :: bool
  ci_Wildcard :: bool
  ci_Key :: string
  ci_Fingerprint :: string

record TLSResult =
  tl_Chain :: ChainState
  tl_Problems :: "ChainState list"
  tl_Version :: string
  tl_Cipher :: string
  tl_TLS10 :: "bool option"
  tl_TLS11 :: "bool option"
  tl_Cert :: "CertInfo option"
  tl_ChainLength :: nat
  tl_Error :: string
  tl_chain :: "certificate list"
  tl_pkixValid :: bool
  tl_noALPN :: bool

record QUICResult =
  qu_Supported :: bool
  qu_ALPN :: string
  qu_TLSVersion :: string
  qu_ServerAddr :: string
  qu_Family :: string
  qu_TargetIP :: string
  qu_HandshakeMs :: int
  qu_Reason :: string
  qu_TLSAlert :: string
  qu_TLSAlertCode :: int
  qu_Error :: string

record HTTPVersions =
  hv_HTTP1_1 :: "bool option"
  hv_HTTP2 :: "bool option"
  hv_HTTP3 :: "bool option"
  hv_H3Advertised :: "bool option"

section \<open>Dialling\<close>

text \<open>What \<open>classifyDialError\<close> asks of an error.\<close>

record dial_error =
  err_DeadlineExceeded :: bool
  err_IsTimeout :: bool
  err_ECONNREFUSED :: bool
  err_unreachable :: bool
  err_netTimeout :: bool
  err_text :: string

definition classifyDialError :: "dial_error \<Rightarrow> PortState" where
  "classifyDialError err =
     (if err_DeadlineExceeded err \<or> err_IsTimeout err then PortTimeout
      else if err_ECONNREFUSED err then PortRefused
      else if err_unreachable err then PortUnreachable
      else if err_netTimeout err then PortTimeout
      else PortError)"

definition classifyDialErrorText :: "dial_error \<Rightarrow> string" where
  "classifyDialErrorText err = PortState_text (classifyDialError err) @ '': '' @ scrubProbeError (err_text err)"

definition uniquePortKeys :: "addr list \<Rightarrow> int list \<Rightarrow> (addr \<times> int) list" where
  "uniquePortKeys addrs ports =
     sort_key (\<lambda>k. (addr_key (fst k), snd k))
       (fold (\<lambda>a keys. fold (\<lambda>p. append_once (Unmap a, p)) ports keys) addrs [])"

definition parsePort :: "string \<Rightarrow> string + nat" where
  "parsePort p =
     (case Atoi p of (n, ok) \<Rightarrow>
        if \<not> ok \<or> n < 1 \<or> n > 65535 then Inl (''invalid port '' @ Quote p) else Inr (nat n))"

section \<open>Response heads\<close>

definition stageError :: "string \<Rightarrow> string \<Rightarrow> string" where
  "stageError stage err =
     (let msg = scrubProbeError err
      in if HasPrefix msg (stage @ '': '') then msg else stage @ '': '' @ msg)"

definition maxInterimResponses :: nat where "maxInterimResponses = 8"

text \<open>\<open>readFinalResponse\<close> on the successive results of reading a response: an error or a
  status. The result is the number of responses read and the outcome.\<close>

fun read_loop :: "nat \<Rightarrow> (nat \<Rightarrow> string + int) \<Rightarrow> nat \<Rightarrow> nat \<times> (string + int)" where
  "read_loop 0 resp i = (i, Inl (''more than '' @ nat_text maxInterimResponses @ '' interim responses''))"
| "read_loop (Suc n) resp i =
     (case resp i of
        Inl err \<Rightarrow> (Suc i, Inl err)
      | Inr code \<Rightarrow>
          if code \<ge> 200 \<or> code < 100 \<or> code = 101 then (Suc i, Inr code) else read_loop n resp (Suc i))"

definition readFinalResponse :: "(nat \<Rightarrow> string + int) \<Rightarrow> nat \<times> (string + int)" where
  "readFinalResponse resp = read_loop maxInterimResponses resp 0"

definition hsts_step :: "string \<Rightarrow> HSTS \<Rightarrow> HSTS" where
  "hsts_step part h =
     (case Cut CHR ''='' (TrimSpace part) of (k0, v) \<Rightarrow>
        let k = ToLower (TrimSpace k0)
        in if k = ''max-age'' then
             (case v of
                Some x \<Rightarrow> h\<lparr>hs_MaxAge := fst (Atoi (TrimFunc (\<lambda>c. c = CHR 0x22) (TrimSpace x)))\<rparr>
              | None \<Rightarrow> h)
           else if k = ''includesubdomains'' then h\<lparr>hs_IncludeSubdomains := True\<rparr>
           else if k = ''preload'' then h\<lparr>hs_Preload := True\<rparr>
           else h)"

definition parseHSTS :: "string \<Rightarrow> HSTS" where
  "parseHSTS header =
     fold hsts_step (Split CHR '';'' header)
       \<lparr>hs_MaxAge = 0, hs_IncludeSubdomains = False, hs_Preload = False\<rparr>"

definition isRedirect :: "int \<Rightarrow> bool" where
  "isRedirect status \<longleftrightarrow> status = 301 \<or> status = 302 \<or> status = 303 \<or> status = 307 \<or> status = 308"

definition maxRedirectHops :: nat where "maxRedirectHops = 10"
definition maxLocationBytes :: nat where "maxLocationBytes = 4096"

definition clipLocation :: "string \<Rightarrow> string" where
  "clipLocation loc =
     (if length loc \<le> maxLocationBytes then loc
      else ToValidUTF8 (take maxLocationBytes loc) @ ''... (clipped, '' @ nat_text (length loc) @ '' bytes)'')"

section \<open>Request keys\<close>

definition defaultPort :: "string \<Rightarrow> string" where
  "defaultPort scheme = (if scheme = ''http'' then ''80'' else if scheme = ''https'' then ''443'' else [])"

definition requestKey :: "dp_lib \<Rightarrow> URL \<Rightarrow> bool \<Rightarrow> string option" where
  "requestKey lib u withQuery =
     (let host = bareName lib (Hostname u)
      in if host = [] \<or> (url_Scheme u \<noteq> ''http'' \<and> url_Scheme u \<noteq> ''https'') then None
         else let path = (if EscapedPath u = [] then ''/'' else EscapedPath u);
                  p = Port u
              in Some (url_Scheme u @ ''://'' @ host @
                   (if p \<noteq> [] \<and> p \<noteq> defaultPort (url_Scheme u) then '':'' @ p else []) @ path @
                   (if withQuery \<and> url_RawQuery u \<noteq> [] then ''?'' @ url_RawQuery u else [])))"

definition urlKey :: "dp_lib \<Rightarrow> string \<Rightarrow> string option" where
  "urlKey lib raw = (case url_Parse raw of None \<Rightarrow> None | Some u \<Rightarrow> requestKey lib u True)"

section \<open>The redirect follower\<close>

datatype RedirectEnd =
  RedirectOngoing | RedirectFinal | RedirectExternal | RedirectLoop | RedirectHopLimit | RedirectFailed

record RedirectHop =
  hop_URL :: string
  hop_Status :: int
  hop_Location :: string

record RedirectChain =
  rc_Hops :: "RedirectHop list"
  rc_Ended :: RedirectEnd
  rc_FinalURL :: string
  rc_External :: string
  rc_Loop :: bool
  rc_Error :: string

definition new_chain :: RedirectChain where
  "new_chain = \<lparr>rc_Hops = [], rc_Ended = RedirectOngoing, rc_FinalURL = [], rc_External = [],
     rc_Loop = False, rc_Error = []\<rparr>"

record contact =
  ct_ip :: addr
  ct_port :: nat
  ct_tls :: "string option"
  ct_host :: string
  ct_path :: string

type_synonym connector = "contact \<Rightarrow> HTTPResult"
type_synonym hostAddrs = "(string, addr) go_map"

text \<open>\<open>fetchHead\<close>: the contact it makes, absent when the port of the URL is not a port, and
  the response.\<close>

definition fetch_port :: "URL \<Rightarrow> string + nat" where
  "fetch_port u =
     (if Port u \<noteq> [] then parsePort (Port u) else Inr (if url_Scheme u = ''https'' then 443 else 80))"

definition fetchHead :: "connector \<Rightarrow> URL \<Rightarrow> addr \<Rightarrow> contact list \<times> HTTPResult" where
  "fetchHead connect u ip =
     (case fetch_port u of
        Inl err \<Rightarrow> ([], zero_HTTPResult\<lparr>ht_Error := err\<rparr>)
      | Inr port \<Rightarrow>
          let c = \<lparr>ct_ip = ip, ct_port = port,
                   ct_tls = (if url_Scheme u = ''https'' then Some (Hostname u) else None),
                   ct_host = url_Host u,
                   ct_path = (if RequestURI u = [] then ''/'' else RequestURI u)\<rparr>
          in ([c], connect c))"

text \<open>\<open>admit\<close>: the chain and the keys seen, and the URL and address to go on to, if any.\<close>

definition visit_key :: "dp_lib \<Rightarrow> string \<Rightarrow> string" where
  "visit_key lib current = (case urlKey lib current of Some k \<Rightarrow> k | None \<Rightarrow> current)"

definition admit ::
    "dp_lib \<Rightarrow> hostAddrs \<Rightarrow> string \<Rightarrow> string list \<Rightarrow> RedirectChain \<Rightarrow>
     RedirectChain \<times> string list \<times> (URL \<times> addr) option" where
  "admit lib hosts current seen c =
     (let key = visit_key lib current; seen' = key # seen
      in if key \<in> set seen then (c\<lparr>rc_Loop := True, rc_Ended := RedirectLoop\<rparr>, seen, None)
         else case url_Parse current of
           None \<Rightarrow> (c\<lparr>rc_Error := ''bad URL '' @ current, rc_Ended := RedirectFailed\<rparr>, seen', None)
         | Some u \<Rightarrow>
             if url_Scheme u \<noteq> ''http'' \<and> url_Scheme u \<noteq> ''https'' then
               (c\<lparr>rc_Error := ''redirect to a non-HTTP URL '' @ current, rc_Ended := RedirectFailed\<rparr>, seen', None)
             else case map_of hosts (bareName lib (Hostname u)) of
               None \<Rightarrow> (c\<lparr>rc_External := current, rc_Ended := RedirectExternal\<rparr>, seen', None)
             | Some ip \<Rightarrow> (c, seen', Some (u, ip)))"

text \<open>\<open>next\<close>: the chain, and the URL it goes on to, if any.\<close>

definition next_hop :: "URL \<Rightarrow> HTTPResult \<Rightarrow> RedirectChain \<Rightarrow> RedirectChain \<times> string option" where
  "next_hop u res c =
     (if \<not> isRedirect (ht_Status res) \<or> ht_Location res = [] then
        (c\<lparr>rc_FinalURL := hop_URL (last (rc_Hops c)), rc_Ended := RedirectFinal\<rparr>, None)
      else if length (ht_Location res) > maxLocationBytes then
        (c\<lparr>rc_Error := ''Location header is '' @ nat_text (length (ht_Location res)) @ '' bytes, over the '' @
             nat_text maxLocationBytes @ ''-byte limit'', rc_Ended := RedirectFailed\<rparr>, None)
      else case parse_ref u (ht_Location res) of
        None \<Rightarrow> (c\<lparr>rc_Error := ''bad Location '' @ ht_Location res, rc_Ended := RedirectFailed\<rparr>, None)
      | Some n \<Rightarrow> (c, Some (URL_String n)))"

fun follow_loop ::
    "dp_lib \<Rightarrow> connector \<Rightarrow> hostAddrs \<Rightarrow> nat \<Rightarrow> string \<Rightarrow> string list \<Rightarrow> contact list \<Rightarrow> RedirectChain \<Rightarrow>
     RedirectChain \<times> string list \<times> contact list" where
  "follow_loop lib connect hosts 0 current seen log c =
     (c\<lparr>rc_Error := ''more than '' @ nat_text maxRedirectHops @ '' redirects'',
        rc_Ended := RedirectHopLimit\<rparr>, seen, log)"
| "follow_loop lib connect hosts (Suc n) current seen log c =
     (case admit lib hosts current seen c of
        (c1, seen1, None) \<Rightarrow> (c1, seen1, log)
      | (c1, seen1, Some (u, ip)) \<Rightarrow>
          (case fetchHead connect u ip of (made, res) \<Rightarrow>
             if ht_Error res \<noteq> [] then
               (c1\<lparr>rc_Error := current @ '': '' @ ht_Error res, rc_Ended := RedirectFailed\<rparr>, seen1, log @ made)
             else
               let c2 = c1\<lparr>rc_Hops := rc_Hops c1 @ [\<lparr>hop_URL = current, hop_Status = ht_Status res,
                                hop_Location = clipLocation (ht_Location res)\<rparr>]\<rparr>
               in case next_hop u res c2 of
                    (c3, None) \<Rightarrow> (c3, seen1, log @ made)
                  | (c3, Some next) \<Rightarrow> follow_loop lib connect hosts n next seen1 (log @ made) c3))"

definition follow_run ::
    "dp_lib \<Rightarrow> connector \<Rightarrow> string \<Rightarrow> string \<Rightarrow> hostAddrs \<Rightarrow> RedirectChain \<times> string list \<times> contact list" where
  "follow_run lib connect scheme host hosts =
     follow_loop lib connect hosts (Suc maxRedirectHops) (scheme @ ''://'' @ host @ ''/'') [] [] new_chain"

definition followRedirects :: "dp_lib \<Rightarrow> connector \<Rightarrow> string \<Rightarrow> string \<Rightarrow> hostAddrs \<Rightarrow> RedirectChain" where
  "followRedirects lib connect scheme host hosts = fst (follow_run lib connect scheme host hosts)"

section \<open>HTTP versions\<close>

definition http11Verdict :: "PortState \<Rightarrow> TLSResult option \<Rightarrow> HTTPResult option \<Rightarrow> bool option" where
  "http11Verdict st tlsRes res =
     (if st = PortRefused then boolPtr False
      else case tlsRes of
        None \<Rightarrow> None
      | Some t \<Rightarrow>
          if tl_noALPN t then boolPtr False
          else if tl_Chain t = ChainHandshakeFailed then None
          else case res of
            None \<Rightarrow> None
          | Some r \<Rightarrow>
              if ht_Status r > 0 then boolPtr True
              else if Contains (ht_Error r) ''malformed HTTP'' then boolPtr False
              else None)"

definition h3Advertised :: "HTTPResult option \<Rightarrow> bool option" where
  "h3Advertised res =
     (case res of
        None \<Rightarrow> None
      | Some r \<Rightarrow>
          if ht_Status r = 0 then None
          else boolPtr (list_ex (\<lambda>entry. let i = fst (Cut CHR ''='' (TrimSpace entry))
                                         in i = ''h3'' \<or> HasPrefix i ''h3-'')
                         (Split CHR '','' (ht_AltSvc r))))"

definition http3Verdict :: "QUICResult option \<Rightarrow> bool option \<Rightarrow> bool option" where
  "http3Verdict q advertised =
     (case q of
        None \<Rightarrow> None
      | Some r \<Rightarrow>
          if qu_Supported r then boolPtr True
          else if qu_Reason r \<in> {''tls_rejected'', ''version_negotiation'', ''stateless_reset'',
                                 ''transport_error'', ''application_error''} then boolPtr False
          else if qu_Reason r = ''timeout'' \<and> advertised = Some False then boolPtr False
          else None)"

record addrProbe =
  ap_IP :: addr
  ap_HTTP :: PortState
  ap_HTTPS :: PortState
  ap_HTTPRes :: "HTTPResult option"
  ap_HTTPSRes :: "HTTPResult option"
  ap_TLS :: "TLSResult option"
  ap_http2 :: "bool option"

definition httpVersionsFor :: "addrProbe \<Rightarrow> QUICResult option \<Rightarrow> HTTPVersions" where
  "httpVersionsFor p q =
     (let adv = h3Advertised (ap_HTTPSRes p)
      in \<lparr>hv_HTTP1_1 = http11Verdict (ap_HTTPS p) (ap_TLS p) (ap_HTTPSRes p), hv_HTTP2 = ap_http2 p,
          hv_HTTP3 = http3Verdict q adv, hv_H3Advertised = adv\<rparr>)"

section \<open>Lemmas\<close>

lemma admit_cases:
  assumes "admit lib hosts current seen c = (c1, seen1, nxt)"
  shows "rc_Hops c1 = rc_Hops c \<and>
    (nxt = None \<or> c1 = c) \<and>
    (seen1 = seen \<or> visit_key lib current \<notin> set seen \<and> seen1 = visit_key lib current # seen) \<and>
    (\<forall>u ip. nxt = Some (u, ip) \<longrightarrow>
       seen1 = visit_key lib current # seen \<and> visit_key lib current \<notin> set seen \<and>
       map_of hosts (bareName lib (Hostname u)) = Some ip)"
  using assms by (auto simp: admit_def Let_def split: if_splits option.splits)

lemma fetchHead_contacts:
  assumes "fetchHead connect u ip = (made, res)"
  shows "length made \<le> 1 \<and> (\<forall>x\<in>set made. ct_ip x = ip)"
  using assms by (auto simp: fetchHead_def Let_def split: sum.splits)

lemma next_hop_hops [simp]: "rc_Hops (fst (next_hop u res c)) = rc_Hops c"
  by (simp add: next_hop_def split: option.split)

text \<open>What the follower keeps: nothing is visited twice, the bounds on its work, and that it
  connects only to the addresses of the known hosts.\<close>

definition follow_ok :: "dp_lib \<Rightarrow> hostAddrs \<Rightarrow> nat \<Rightarrow> RedirectChain \<times> string list \<times> contact list \<Rightarrow> bool" where
  "follow_ok lib hosts n st =
     (case st of (c, seen, log) \<Rightarrow>
        distinct (map (\<lambda>h. visit_key lib (hop_URL h)) (rc_Hops c)) \<and>
        (\<lambda>h. visit_key lib (hop_URL h)) ` set (rc_Hops c) \<subseteq> set seen \<and>
        length (rc_Hops c) \<le> n \<and> length log \<le> n \<and>
        (\<forall>x\<in>set log. ct_ip x \<in> ran (map_of hosts)))"

lemma follow_loop_ok:
  "follow_ok lib hosts k (c, seen, log) \<Longrightarrow>
   follow_ok lib hosts (k + n) (follow_loop lib connect hosts n current seen log c)"
proof (induction n arbitrary: k current seen log c)
  case 0
  then show ?case by (simp add: follow_ok_def)
next
  case (Suc n)
  obtain c1 seen1 nxt where a: "admit lib hosts current seen c = (c1, seen1, nxt)" by (metis prod_cases3)
  note adm = admit_cases [OF a]
  show ?case
  proof (cases nxt)
    case None
    have "set seen \<subseteq> set seen1" using adm by auto
    then show ?thesis using Suc.prems adm None a by (auto simp: follow_ok_def)
  next
    case (Some uip)
    obtain u ip where uip: "uip = (u, ip)" by force
    obtain made res where f: "fetchHead connect u ip = (made, res)" by force
    have c1: "c1 = c" and s1: "seen1 = visit_key lib current # seen" "visit_key lib current \<notin> set seen"
      and ip: "ip \<in> ran (map_of hosts)"
      using adm Some uip by (auto intro: ranI)
    have log: "length (log @ made) \<le> Suc k" "\<forall>x\<in>set (log @ made). ct_ip x \<in> ran (map_of hosts)"
      using Suc.prems fetchHead_contacts [OF f] ip by (auto simp: follow_ok_def)
    define c2 where "c2 = c\<lparr>rc_Hops := rc_Hops c @ [\<lparr>hop_URL = current, hop_Status = ht_Status res,
        hop_Location = clipLocation (ht_Location res)\<rparr>]\<rparr>"
    obtain c3 onward where nx: "next_hop u res c2 = (c3, onward)" by force
    have hops: "rc_Hops c3 = rc_Hops c2" using next_hop_hops [of u res c2] nx by simp
    have ok3: "follow_ok lib hosts (Suc k) (c3, seen1, log @ made)"
      using Suc.prems log s1 by (auto simp: follow_ok_def hops c2_def)
    have "follow_ok lib hosts (k + Suc n) (c\<lparr>rc_Error := e, rc_Ended := r\<rparr>, seen1, log @ made)" for e r
      using Suc.prems log s1 by (auto simp: follow_ok_def)
    moreover have "follow_ok lib hosts (k + Suc n) (c3, seen1, log @ made)"
      using ok3 by (auto simp: follow_ok_def)
    moreover have "follow_ok lib hosts (k + Suc n) (follow_loop lib connect hosts n x seen1 (log @ made) c3)" for x
      using Suc.IH [OF ok3, of x] by simp
    ultimately show ?thesis
      using a Some uip f c1 nx by (simp add: Let_def c2_def [symmetric] split: option.split)
  qed
qed

text \<open>The fields that say how a chain ended agree with one another.\<close>

definition chain_ended :: "RedirectChain \<Rightarrow> bool" where
  "chain_ended c \<longleftrightarrow>
     rc_Ended c \<noteq> RedirectOngoing \<and>
     (rc_Loop c \<longleftrightarrow> rc_Ended c = RedirectLoop) \<and>
     (rc_Error c \<noteq> [] \<longleftrightarrow> rc_Ended c \<in> {RedirectFailed, RedirectHopLimit}) \<and>
     (rc_External c \<noteq> [] \<longrightarrow> rc_Ended c = RedirectExternal) \<and>
     (rc_FinalURL c \<noteq> [] \<longrightarrow> rc_Ended c = RedirectFinal) \<and>
     (rc_Ended c = RedirectFinal \<longrightarrow> rc_Hops c \<noteq> [] \<and> rc_FinalURL c = hop_URL (last (rc_Hops c)))"

definition chain_open :: "RedirectChain \<Rightarrow> bool" where
  "chain_open c \<longleftrightarrow> rc_Ended c = RedirectOngoing \<and> \<not> rc_Loop c \<and> rc_Error c = [] \<and> rc_External c = [] \<and>
     rc_FinalURL c = []"

lemma admit_ended:
  assumes "chain_open c" and "admit lib hosts current seen c = (c1, seen1, None)"
  shows "chain_ended c1"
  using assms by (auto simp: admit_def Let_def chain_open_def chain_ended_def split: if_splits option.splits)

lemma next_hop_ended:
  assumes "chain_open c" and "rc_Hops c \<noteq> []" and "next_hop u res c = (c1, onward)"
  shows "(onward = None \<longrightarrow> chain_ended c1) \<and> (onward \<noteq> None \<longrightarrow> c1 = c)"
  using assms by (auto simp: next_hop_def chain_open_def chain_ended_def split: if_splits option.splits)

lemma follow_loop_ended:
  "chain_open c \<Longrightarrow> chain_ended (fst (follow_loop lib connect hosts n current seen log c))"
proof (induction n arbitrary: current seen log c)
  case 0
  then show ?case by (simp add: chain_open_def chain_ended_def)
next
  case (Suc n)
  obtain c1 seen1 nxt where a: "admit lib hosts current seen c = (c1, seen1, nxt)" by (metis prod_cases3)
  show ?case
  proof (cases nxt)
    case None
    then show ?thesis using a admit_ended [OF Suc.prems] by simp
  next
    case (Some uip)
    obtain u ip where uip: "uip = (u, ip)" by force
    obtain made res where f: "fetchHead connect u ip = (made, res)" by force
    have c1: "c1 = c" using admit_cases [OF a] Some by auto
    define c2 where "c2 = c\<lparr>rc_Hops := rc_Hops c @ [\<lparr>hop_URL = current, hop_Status = ht_Status res,
        hop_Location = clipLocation (ht_Location res)\<rparr>]\<rparr>"
    have o2: "chain_open c2" "rc_Hops c2 \<noteq> []" using Suc.prems by (simp_all add: c2_def chain_open_def)
    obtain c3 onward where nx: "next_hop u res c2 = (c3, onward)" by force
    note step = next_hop_ended [OF o2 nx]
    have "chain_ended (c\<lparr>rc_Error := current @ '': '' @ ht_Error res, rc_Ended := RedirectFailed\<rparr>)"
      using Suc.prems by (simp add: chain_open_def chain_ended_def)
    moreover have "onward \<noteq> None \<Longrightarrow> c3 = c2" "onward = None \<Longrightarrow> chain_ended c3" using step by auto
    ultimately show ?thesis
      using a Some uip f c1 nx Suc.IH [OF o2(1)]
      by (simp add: Let_def c2_def [symmetric] split: option.split)
  qed
qed

lemma read_loop_spec:
  "read_loop n resp i = (k, r) \<Longrightarrow> k \<le> i + n \<and>
     (\<forall>code. r = Inr code \<longrightarrow> (code \<ge> 200 \<or> code < 100 \<or> code = 101) \<and> i < k \<and> resp (k - 1) = Inr code \<and>
        (\<forall>j. i \<le> j \<and> j < k - 1 \<longrightarrow> (\<exists>c. resp j = Inr c \<and> 100 \<le> c \<and> c < 200)))"
proof (induction n arbitrary: i)
  case (Suc n)
  show ?case
  proof (cases "resp i")
    case (Inl err)
    then show ?thesis using Suc.prems by auto
  next
    case (Inr c)
    show ?thesis
    proof (cases "c \<ge> 200 \<or> c < 100 \<or> c = 101")
      case True
      then show ?thesis using Suc.prems Inr by auto
    next
      case False
      then have "read_loop n resp (Suc i) = (k, r)" using Suc.prems Inr by simp
      note IH = Suc.IH [OF this]
      have "\<exists>c. resp i = Inr c \<and> 100 \<le> c \<and> c < 200" using Inr False by auto
      then have "\<forall>j. i \<le> j \<and> j < k - 1 \<longrightarrow> (\<exists>c. resp j = Inr c \<and> 100 \<le> c \<and> c < 200)"
        if "\<forall>j. Suc i \<le> j \<and> j < k - 1 \<longrightarrow> (\<exists>c. resp j = Inr c \<and> 100 \<le> c \<and> c < 200)"
        using that by (metis Suc_leI le_neq_implies_less)
      then show ?thesis using IH by auto
    qed
  qed
qed auto

text \<open>The header as a server prints it.\<close>

definition print_hsts :: "HSTS \<Rightarrow> string" where
  "print_hsts h = Join '';'' ([''max-age='' @ Itoa (hs_MaxAge h)] @
     (if hs_IncludeSubdomains h then ['' includeSubDomains''] else []) @
     (if hs_Preload h then ['' preload''] else []))"

lemma Itoa_bytes: "i \<ge> 0 \<Longrightarrow> c \<in> set (Itoa i) \<Longrightarrow> is_digit c"
  using nat_text_digits [of "nat i"] by (auto simp: Itoa_def list_all_iff)

lemma digit_plain: "is_digit c \<Longrightarrow> \<not> is_space c \<and> c \<noteq> CHR '';'' \<and> c \<noteq> CHR ''='' \<and> c \<noteq> CHR 0x22"
  by (auto simp: is_digit_def is_space_def)

lemma hsts_age_step:
  assumes "0 \<le> age" and "age \<le> max_int64"
  shows "hsts_step (''max-age='' @ Itoa age) h = h\<lparr>hs_MaxAge := age\<rparr>"
proof -
  have d: "is_digit c" if "c \<in> set (Itoa age)" for c using Itoa_bytes [OF assms(1) that] .
  have nz: "Itoa age \<noteq> []" by simp
  have hl: "\<not> is_space (hd (Itoa age))" "\<not> is_space (last (Itoa age))"
    using d digit_plain nz by (meson hd_in_set last_in_set)+
  have t1: "TrimSpace (''max-age='' @ Itoa age) = ''max-age='' @ Itoa age"
    using hl nz by (simp add: TrimSpace_iff is_space_def)
  have cut: "Cut CHR ''='' (''max-age='' @ Itoa age) = (''max-age'', Some (Itoa age))"
    using Cut_append [of "CHR ''=''" "''max-age''" "Itoa age"] by simp
  have t2: "TrimSpace (Itoa age) = Itoa age" using hl by (simp add: TrimSpace_iff)
  have q: "TrimFunc (\<lambda>c. c = CHR 0x22) (Itoa age) = Itoa age"
  proof -
    have "hd (Itoa age) \<noteq> CHR 0x22" "last (Itoa age) \<noteq> CHR 0x22"
      using d digit_plain nz by (meson hd_in_set last_in_set)+
    then have "dropWhile (\<lambda>c. c = CHR 0x22) (Itoa age) = Itoa age"
        "dropWhile (\<lambda>c. c = CHR 0x22) (rev (Itoa age)) = rev (Itoa age)"
      using nz by (simp_all add: dropWhile_eq_self_iff hd_rev)
    then show ?thesis by (simp add: TrimFunc_def TrimLeftFunc_def TrimRightFunc_def)
  qed
  have k: "ToLower (TrimSpace ''max-age'') = ''max-age''" by code_simp
  have "min_int64 \<le> age" using assms(1) by (simp add: min_int64_def)
  then have "fst (Atoi (Itoa age)) = age" using Atoi_Itoa assms(2) by simp
  then show ?thesis unfolding hsts_step_def t1 cut by (simp add: k t2 q)
qed

lemma hsts_flag_steps:
  "hsts_step '' includeSubDomains'' h = h\<lparr>hs_IncludeSubdomains := True\<rparr>"
  "hsts_step '' preload'' h = h\<lparr>hs_Preload := True\<rparr>"
proof -
  have "Cut CHR ''='' (TrimSpace '' includeSubDomains'') = (''includeSubDomains'', None)"
    "ToLower (TrimSpace ''includeSubDomains'') = ''includesubdomains''"
    "Cut CHR ''='' (TrimSpace '' preload'') = (''preload'', None)"
    "ToLower (TrimSpace ''preload'') = ''preload''"
    by code_simp+
  then show "hsts_step '' includeSubDomains'' h = h\<lparr>hs_IncludeSubdomains := True\<rparr>"
    "hsts_step '' preload'' h = h\<lparr>hs_Preload := True\<rparr>"
    by (simp_all add: hsts_step_def)
qed

section \<open>Properties\<close>

text \<open>
  C28. Whatever the servers answer, following the redirects of a host makes at most eleven requests,
  connects to nothing but the addresses of the known hosts, and requests no URL twice (URLs being
  compared as requests).
\<close>
theorem followRedirects_bounded:
  fixes lib :: dp_lib and connect :: connector and scheme host :: string and hosts :: hostAddrs
  defines "c \<equiv> followRedirects lib connect scheme host hosts"
    and "log \<equiv> snd (snd (follow_run lib connect scheme host hosts))"
  shows "length log \<le> Suc maxRedirectHops \<and> length (rc_Hops c) \<le> Suc maxRedirectHops \<and>
    list_all (\<lambda>x. ct_ip x \<in> ran (map_of hosts)) log \<and>
    distinct (map (\<lambda>h. visit_key lib (hop_URL h)) (rc_Hops c))"
proof -
  have "follow_ok lib hosts 0 (new_chain, [], [])" by (simp add: follow_ok_def new_chain_def)
  from follow_loop_ok [OF this, of "Suc maxRedirectHops" connect]
  have "follow_ok lib hosts (Suc maxRedirectHops) (follow_run lib connect scheme host hosts)"
    by (simp add: follow_run_def)
  then show ?thesis
    by (simp add: c_def log_def followRedirects_def follow_ok_def case_prod_beta list_all_iff)
qed

text \<open>
  A followed chain always says why it stopped, and its fields agree with that: the loop flag
  with the loop, an error text with a failed hop or the hop limit, a target outside with a chain
  that left the known hosts, and the final URL with the URL of the last hop.
\<close>
theorem followRedirects_ended: "chain_ended (followRedirects lib connect scheme host hosts)"
  unfolding followRedirects_def follow_run_def
  by (rule follow_loop_ended) (simp add: chain_open_def new_chain_def)

text \<open>
  Reading a response skips interim responses only: at most eight are read, what is returned
  is not an interim status, and every status before it was one.
\<close>
theorem readFinalResponse_final:
  assumes "readFinalResponse resp = (k, r)"
  shows "k \<le> maxInterimResponses \<and>
    (\<forall>code. r = Inr code \<longrightarrow> (code \<ge> 200 \<or> code < 100 \<or> code = 101) \<and> resp (k - 1) = Inr code \<and>
       (\<forall>j < k - 1. \<exists>c. resp j = Inr c \<and> 100 \<le> c \<and> c < 200))"
  using read_loop_spec [OF assms [unfolded readFinalResponse_def]] by simp

theorem readFinalResponse_final_witness:
  "\<exists>c. (\<lambda>i. if i = 0 then Inr 103 else Inr 200 :: string + int) 0 = Inr c \<and> 100 \<le> c \<and> c < 200"
proof -
  let ?resp = "\<lambda>i::nat. if i = 0 then Inr 103 else Inr 200 :: string + int"
  have "readFinalResponse ?resp = (2, Inr 200)" by code_simp
  from readFinalResponse_final [OF this] show ?thesis by simp
qed

text \<open>
  The port of a redirect target is used as written: what is accepted is a number from 1 to
  65535 and never a wrapped one.
\<close>
theorem parsePort_range:
  "parsePort p = Inr n \<longleftrightarrow> snd (Atoi p) \<and> int n = fst (Atoi p) \<and> 1 \<le> n \<and> n \<le> 65535"
  by (auto simp: parsePort_def case_prod_beta split: if_splits)

text \<open>
  A Strict-Transport-Security header is read back as it was meant.
\<close>
theorem parseHSTS_roundtrip:
  assumes "0 \<le> hs_MaxAge h" and "hs_MaxAge h \<le> max_int64"
  shows "parseHSTS (print_hsts h) = h"
proof -
  let ?parts = "[''max-age='' @ Itoa (hs_MaxAge h)] @
     (if hs_IncludeSubdomains h then ['' includeSubDomains''] else []) @
     (if hs_Preload h then ['' preload''] else [])"
  have "CHR '';'' \<notin> set (Itoa (hs_MaxAge h))"
    using Itoa_bytes [OF assms(1)] digit_plain by blast
  then have "Split CHR '';'' (print_hsts h) = ?parts"
    unfolding print_hsts_def by (intro Split_Join) (auto split: if_splits)
  then show ?thesis
    using hsts_age_step [OF assms]
    by (cases h) (simp add: parseHSTS_def hsts_flag_steps del: append_Cons)
qed

theorem parseHSTS_roundtrip_witness:
  "parseHSTS ''max-age=31536000; includeSubDomains'' =
     \<lparr>hs_MaxAge = 31536000, hs_IncludeSubdomains = True, hs_Preload = False\<rparr>"
proof -
  let ?h = "\<lparr>hs_MaxAge = 31536000, hs_IncludeSubdomains = True, hs_Preload = False\<rparr>"
  have "print_hsts ?h = ''max-age=31536000; includeSubDomains''" by code_simp
  moreover have "parseHSTS (print_hsts ?h) = ?h"
    by (rule parseHSTS_roundtrip) (simp_all add: max_int64_def)
  ultimately show ?thesis by simp
qed

text \<open>
  HTTP/3 is reported absent only on evidence: the endpoint answered and refused, or it kept
  silent and a response without an offer of HTTP/3 was seen. An address that offers it and does
  not answer is never called without it, and it is called present only when the handshake
  succeeded.
\<close>
theorem http3Verdict_evidence:
  "(http3Verdict q adv = Some True \<longleftrightarrow> (\<exists>r. q = Some r \<and> qu_Supported r)) \<and>
   (http3Verdict q adv = Some False \<and> adv \<noteq> Some False \<longrightarrow> (\<exists>r. q = Some r \<and> qu_Reason r \<noteq> ''timeout'')) \<and>
   (http3Verdict q adv = Some False \<longrightarrow> q \<noteq> None)"
  by (auto simp: http3Verdict_def boolPtr_def split: option.splits if_splits)

theorem http3Verdict_evidence_witness:
  "\<exists>r. Some (\<lparr>qu_Supported = False, qu_ALPN = [], qu_TLSVersion = [], qu_ServerAddr = [], qu_Family = [],
     qu_TargetIP = [], qu_HandshakeMs = 0, qu_Reason = ''tls_rejected'', qu_TLSAlert = [], qu_TLSAlertCode = 120,
     qu_Error = []\<rparr>) = Some r \<and> qu_Reason r \<noteq> ''timeout''"
proof -
  let ?q = "Some (\<lparr>qu_Supported = False, qu_ALPN = [], qu_TLSVersion = [], qu_ServerAddr = [], qu_Family = [],
     qu_TargetIP = [], qu_HandshakeMs = 0, qu_Reason = ''tls_rejected'', qu_TLSAlert = [], qu_TLSAlertCode = 120,
     qu_Error = []\<rparr>)"
  have "http3Verdict ?q (Some True) = Some False" by (simp add: http3Verdict_def boolPtr_def)
  then show ?thesis using http3Verdict_evidence [of ?q "Some True"] by blast
qed

end
