(* ===== verification/Tlsa.thy ===== *)
theory Tlsa
  imports X509
begin

text \<open>
  DANE: \<open>src/tlsa.go\<close>. The SHA-2 functions of package crypto are the parameter \<open>sha_lib\<close>. The
  outcome \<open>unverified\<close> is given by \<open>tlsaResult\<close> of \<open>src/run.go\<close>.
\<close>

datatype TLSAOutcome = TLSANone | TLSAUnknown | TLSAMatch | TLSAMismatch | TLSAUnverified

record tlsaRecord =
  ts_Usage :: int
  ts_Selector :: int
  ts_Matching :: int
  ts_Data :: string

text \<open>\<open>hex.DecodeString\<close>: digits of both cases, in pairs.\<close>

definition hex_val :: "char \<Rightarrow> nat option" where
  "hex_val c =
     (let n = of_char c :: nat in
      if 48 \<le> n \<and> n \<le> 57 then Some (n - 48)
      else if 97 \<le> n \<and> n \<le> 102 then Some (n - 87)
      else if 65 \<le> n \<and> n \<le> 70 then Some (n - 55) else None)"

fun hex_decode :: "string \<Rightarrow> string option" where
  "hex_decode [] = Some []"
| "hex_decode [c] = None"
| "hex_decode (c # d # s) =
     (case (hex_val c, hex_val d, hex_decode s) of
        (Some a, Some b, Some t) \<Rightarrow> Some (char_of (16 * a + b) # t)
      | _ \<Rightarrow> None)"

text \<open>One of the three numbers: no error and not above its maximum.\<close>

definition small_field :: "string \<Rightarrow> int \<Rightarrow> int option" where
  "small_field f mx = (case Atoi f of (n, ok) \<Rightarrow> if \<not> ok \<or> n > mx then None else Some n)"

definition parseTLSA :: "string \<Rightarrow> tlsaRecord option" where
  "parseTLSA rdata =
     (case Fields rdata of
        u # s # m # d # ds \<Rightarrow>
          (case small_field u 3 of None \<Rightarrow> None | Some usage \<Rightarrow>
          (case small_field s 1 of None \<Rightarrow> None | Some selector \<Rightarrow>
          (case small_field m 2 of None \<Rightarrow> None | Some matching \<Rightarrow>
          (case hex_decode (Join [] (d # ds)) of
             None \<Rightarrow> None
           | Some data \<Rightarrow>
               if data = [] then None
               else Some \<lparr>ts_Usage = usage, ts_Selector = selector, ts_Matching = matching,
                          ts_Data = data\<rparr>))))
      | _ \<Rightarrow> None)"

definition parseTLSARecords :: "string list \<Rightarrow> tlsaRecord list" where
  "parseTLSARecords records = List.map_filter parseTLSA records"

definition tlsaDigest :: "sha_lib \<Rightarrow> certificate \<Rightarrow> int \<Rightarrow> int \<Rightarrow> string" where
  "tlsaDigest sha c selector matching =
     (let data = (if selector = 1 then crt_RawSubjectPublicKeyInfo c else crt_Raw c)
      in if matching = 1 then Sum256 sha data
         else if matching = 2 then Sum512 sha data else data)"

definition tlsaMatches :: "sha_lib \<Rightarrow> tlsaRecord \<Rightarrow> certificate list \<Rightarrow> bool \<Rightarrow> bool" where
  "tlsaMatches sha rec chain pkixValid =
     (if chain = [] then False
      else if (ts_Usage rec = 0 \<or> ts_Usage rec = 1) \<and> \<not> pkixValid then False
      else let candidates = (if ts_Usage rec = 0 \<or> ts_Usage rec = 2 then chain else take 1 chain)
           in list_ex (\<lambda>c. tlsaDigest sha c (ts_Selector rec) (ts_Matching rec) = ts_Data rec) candidates)"

definition matchTLSA :: "sha_lib \<Rightarrow> tlsaRecord list \<Rightarrow> certificate list \<Rightarrow> bool \<Rightarrow> TLSAOutcome" where
  "matchTLSA sha records chain pkixValid =
     (if records = [] then TLSANone
      else if list_ex (\<lambda>rec. tlsaMatches sha rec chain pkixValid) records then TLSAMatch
      else TLSAMismatch)"

section \<open>Properties\<close>

text \<open>
  The records match a served chain exactly when one of them names a certificate that its usage
  lets it name: the leaf, or any certificate of the chain for a trust-anchor usage, with a
  validated chain for the two usages of PKIX.
\<close>
theorem matchTLSA_iff:
  "matchTLSA sha records chain pkixValid = TLSAMatch \<longleftrightarrow>
     (\<exists>rec\<in>set records. \<exists>c\<in>set chain.
        tlsaDigest sha c (ts_Selector rec) (ts_Matching rec) = ts_Data rec \<and>
        (ts_Usage rec \<in> {0, 2} \<or> c = hd chain) \<and>
        (ts_Usage rec \<in> {0, 1} \<longrightarrow> pkixValid))"
proof -
  have "tlsaMatches sha rec chain pkixValid \<longleftrightarrow> (\<exists>c\<in>set chain.
      tlsaDigest sha c (ts_Selector rec) (ts_Matching rec) = ts_Data rec \<and>
      (ts_Usage rec \<in> {0, 2} \<or> c = hd chain) \<and> (ts_Usage rec \<in> {0, 1} \<longrightarrow> pkixValid))" for rec
    by (cases chain) (auto simp: tlsaMatches_def Let_def list_ex_iff)
  then show ?thesis by (auto simp: matchTLSA_def list_ex_iff)
qed

theorem matchTLSA_iff_witness:
  "matchTLSA \<lparr>Sum256 = id, Sum512 = id\<rparr> (parseTLSARecords [''3 1 1 ab CD''])
     [ex_crt\<lparr>crt_RawSubjectPublicKeyInfo := [CHR 0xAB, CHR 0xCD]\<rparr>] False = TLSAMatch"
proof -
  have "parseTLSARecords [''3 1 1 ab CD''] =
      [\<lparr>ts_Usage = 3, ts_Selector = 1, ts_Matching = 1, ts_Data = [CHR 0xAB, CHR 0xCD]\<rparr>]" by code_simp
  then show ?thesis unfolding matchTLSA_iff by (simp add: tlsaDigest_def)
qed

text \<open>
  Only the upper bounds of the three numbers are checked: a record with a negative usage is
  parsed, and is then matched as an end-entity usage that needs no PKIX validation.
\<close>
theorem parseTLSA_negative_usage:
  "parseTLSA ''-1 1 1 ab'' =
     Some \<lparr>ts_Usage = -1, ts_Selector = 1, ts_Matching = 1, ts_Data = [CHR 0xAB]\<rparr>"
  by code_simp

end
