(* ===== verification/Hosts.thy ===== *)
theory Hosts
  imports Web Tlsa
begin

text \<open>
  The web section of the report: the host types of \<open>src/report.go\<close>, the names of the
  certificates moved to the report, and the comparison of the responses of one run,
  \<open>src/webconsistency.go\<close>.
\<close>

record AddrWeb =
  aw_IP :: string
  aw_HTTP :: PortState
  aw_HTTPS :: PortState
  aw_HTTPRes :: "HTTPResult option"
  aw_HTTPSRes :: "HTTPResult option"
  aw_TLS :: "TLSResult option"
  aw_TLSA :: "TLSAOutcome option"
  aw_QUIC :: "QUICResult option"
  aw_HTTPVersions :: "HTTPVersions option"

record HostWeb =
  hw_SameAsApex :: bool
  hw_ViaWildcard :: bool
  hw_IPv4 :: "AddrWeb list"
  hw_IPv6 :: "AddrWeb list"
  hw_Redirects :: "(string, RedirectChain) go_map"
  hw_CertConsistent :: "bool option"

record WebSection =
  web_Apex :: "HostWeb option"
  web_WWW :: "HostWeb option"

definition add_addr :: "HostWeb \<Rightarrow> AddrWeb \<Rightarrow> HostWeb" where
  "add_addr h a =
     (case ParseAddr (aw_IP a) of
        Some ip \<Rightarrow> if Is6 ip then h\<lparr>hw_IPv6 := hw_IPv6 h @ [a]\<rparr> else h\<lparr>hw_IPv4 := hw_IPv4 h @ [a]\<rparr>
      | None \<Rightarrow> h\<lparr>hw_IPv4 := hw_IPv4 h @ [a]\<rparr>)"

definition addrs :: "HostWeb option \<Rightarrow> AddrWeb list" where
  "addrs h = (case h of None \<Rightarrow> [] | Some w \<Rightarrow> hw_IPv4 w @ hw_IPv6 w)"

section \<open>Names of certificates\<close>

text \<open>\<open>hoistCertNames\<close> writes through the pointers to the certificates: an address gives up
  its list of names, and the report keeps the first list seen for a fingerprint.\<close>

type_synonym certs = "(string, string list) go_map"

definition hoist_addr :: "AddrWeb \<Rightarrow> certs \<Rightarrow> AddrWeb \<times> certs" where
  "hoist_addr a m =
     (case aw_TLS a of
        None \<Rightarrow> (a, m)
      | Some t \<Rightarrow>
          (case tl_Cert t of
             None \<Rightarrow> (a, m)
           | Some c \<Rightarrow>
               if ci_Fingerprint c = [] then (a, m)
               else (a\<lparr>aw_TLS := Some (t\<lparr>tl_Cert := Some (c\<lparr>ci_SANs := []\<rparr>)\<rparr>)\<rparr>,
                     if map_of m (ci_Fingerprint c) = None then map_put (ci_Fingerprint c) (ci_SANs c) m else m)))"

fun hoist_addrs :: "AddrWeb list \<Rightarrow> certs \<Rightarrow> AddrWeb list \<times> certs" where
  "hoist_addrs [] m = ([], m)"
| "hoist_addrs (a # as) m =
     (let (a', m1) = hoist_addr a m; (as', m2) = hoist_addrs as m1 in (a' # as', m2))"

definition hoist_host :: "HostWeb option \<Rightarrow> certs \<Rightarrow> HostWeb option \<times> certs" where
  "hoist_host h m =
     (case h of
        None \<Rightarrow> (None, m)
      | Some w \<Rightarrow>
          let (v4, m1) = hoist_addrs (hw_IPv4 w) m; (v6, m2) = hoist_addrs (hw_IPv6 w) m1
          in (Some (w\<lparr>hw_IPv4 := v4, hw_IPv6 := v6\<rparr>), m2))"

definition hoistCertNames :: "WebSection \<Rightarrow> certs \<Rightarrow> WebSection \<times> certs" where
  "hoistCertNames web m =
     (let (apex, m1) = hoist_host (web_Apex web) m; (www, m2) = hoist_host (web_WWW web) m1
      in (\<lparr>web_Apex = apex, web_WWW = www\<rparr>, m2))"

section \<open>Comparing the responses of a run\<close>

definition probeRefused :: "int \<Rightarrow> bool" where
  "probeRefused status \<longleftrightarrow> status = 401 \<or> status = 403 \<or> status = 407 \<or> status = 417 \<or> status = 429"

definition comparable_answer :: "int \<Rightarrow> string \<Rightarrow> bool" where
  "comparable_answer status location =
     (if status = 0 \<or> probeRefused status then False
      else if isRedirect status \<and> location = [] then False else True)"

record webObservation =
  ob_answer :: string
  ob_self :: bool
  ob_probe :: bool
  ob_source :: string

record urlObservations =
  uo_url :: string
  uo_host :: string
  uo_obs :: "webObservation list"

definition describeAnswer :: "dp_lib \<Rightarrow> string \<Rightarrow> string \<Rightarrow> int \<Rightarrow> string \<Rightarrow> string \<times> bool" where
  "describeAnswer lib raw key status location =
     (if \<not> isRedirect status \<or> location = [] then (Itoa status, False)
      else case url_Parse raw of
        None \<Rightarrow> (Itoa status, False)
      | Some base \<Rightarrow>
          (case url_Parse location of
             None \<Rightarrow> (Itoa status @ '' -> (bad Location)'', False)
           | Some ref \<Rightarrow>
               let target = ResolveReference base ref
               in case requestKey lib target True of
                    None \<Rightarrow> (Itoa status @ '' -> '' @ clipLocation location, False)
                  | Some full \<Rightarrow>
                      (Itoa status @ '' -> '' @
                         (case requestKey lib target False of Some short \<Rightarrow> short | None \<Rightarrow> []),
                       full = key)))"

definition hostLabel :: "dp_lib \<Rightarrow> string \<Rightarrow> string \<Rightarrow> string" where
  "hostLabel lib domain raw =
     (case url_Parse raw of
        Some u \<Rightarrow> if bareName lib (Hostname u) = bareName lib domain then ''apex'' else ''www''
      | None \<Rightarrow> ''www'')"

text \<open>One call of the closure \<open>note\<close>: the arguments, and the step on the groups by key.\<close>

record noted =
  no_raw :: string
  no_status :: int
  no_location :: string
  no_source :: string
  no_probe :: bool

definition note_step ::
    "dp_lib \<Rightarrow> string \<Rightarrow> noted \<Rightarrow> (string, urlObservations) go_map \<Rightarrow> (string, urlObservations) go_map" where
  "note_step lib domain n m =
     (case urlKey lib (no_raw n) of
        None \<Rightarrow> m
      | Some key \<Rightarrow>
          if \<not> comparable_answer (no_status n) (no_location n) then m
          else let g = (case map_of m key of
                          Some g \<Rightarrow> g
                        | None \<Rightarrow> \<lparr>uo_url = no_raw n, uo_host = hostLabel lib domain (no_raw n), uo_obs = []\<rparr>);
                   (answer, self) = describeAnswer lib (no_raw n) key (no_status n) (no_location n)
               in map_put key (g\<lparr>uo_obs := uo_obs g @ [\<lparr>ob_answer = answer, ob_self = self,
                                   ob_probe = no_probe n, ob_source = no_source n\<rparr>]\<rparr>) m)"

definition notePerAddress :: "string \<Rightarrow> HostWeb option \<Rightarrow> noted list" where
  "notePerAddress host h =
     concat (map (\<lambda>a.
       (case aw_HTTPRes a of
          Some r \<Rightarrow> [\<lparr>no_raw = ''http://'' @ host @ ''/'', no_status = ht_Status r,
                      no_location = ht_Location r, no_source = aw_IP a, no_probe = True\<rparr>]
        | None \<Rightarrow> []) @
       (case aw_HTTPSRes a of
          Some r \<Rightarrow> [\<lparr>no_raw = ''https://'' @ host @ ''/'', no_status = ht_Status r,
                      no_location = ht_Location r, no_source = aw_IP a, no_probe = True\<rparr>]
        | None \<Rightarrow> [])) (addrs h))"

definition noteChains :: "HostWeb option \<Rightarrow> noted list" where
  "noteChains h =
     (case h of
        None \<Rightarrow> []
      | Some w \<Rightarrow>
          concat (map (\<lambda>fam. map (\<lambda>hop. \<lparr>no_raw = hop_URL hop, no_status = hop_Status hop,
              no_location = hop_Location hop, no_source = ''redirect chain ('' @ fam @ '')'', no_probe = False\<rparr>)
              (rc_Hops (map_get new_chain (hw_Redirects w) fam)))
            (sorted_keys (hw_Redirects w))))"

definition observations :: "string \<Rightarrow> WebSection \<Rightarrow> noted list" where
  "observations domain web =
     notePerAddress domain (web_Apex web) @ notePerAddress (''www.'' @ domain) (web_WWW web) @
     noteChains (web_Apex web) @ noteChains (web_WWW web)"

definition collectWebObservations :: "dp_lib \<Rightarrow> string \<Rightarrow> WebSection \<Rightarrow> urlObservations list" where
  "collectWebObservations lib domain web =
     (let m = fold (note_step lib domain) (observations domain web) []
      in map (\<lambda>k. the (map_of m k)) (sorted_keys m))"

definition answer_count :: "webObservation list \<Rightarrow> string \<Rightarrow> nat" where
  "answer_count obs a = length (filter (\<lambda>o'. ob_answer o' = a) obs)"

definition answerTally :: "webObservation list \<Rightarrow> string list" where
  "answerTally obs =
     map (\<lambda>a. a @ '' ('' @ nat_text (answer_count obs a) @ '' of '' @ nat_text (length obs) @ '')'')
       (sort_key (\<lambda>a. (- int (answer_count obs a), a)) (remdups (map ob_answer obs)))"

definition selfRedirects :: "webObservation list \<Rightarrow> string list \<times> nat" where
  "selfRedirects obs =
     (map ob_source (filter (\<lambda>o'. ob_probe o' \<and> ob_self o') obs), length (filter ob_probe obs))"

definition maxListedSources :: nat where "maxListedSources = 4"

definition describeSources :: "string list \<Rightarrow> nat \<Rightarrow> string" where
  "describeSources s n =
     (if n = 1 \<and> length s = 1 then ''its only address ('' @ hd s @ '')''
      else if length s = n then ''all '' @ nat_text n @ '' addresses''
      else if length s \<le> maxListedSources then
        nat_text (length s) @ '' of '' @ nat_text n @ '' addresses ('' @ Join '', '' s @ '')''
      else nat_text (length s) @ '' of '' @ nat_text n @ '' addresses ('' @
           Join '', '' (take maxListedSources s) @ '', ...)'')"

section \<open>Lemmas\<close>

lemma hoist_addr_map:
  assumes "hoist_addr a m = (a', m')"
  shows "(\<forall>k v. map_of m k = Some v \<longrightarrow> map_of m' k = Some v) \<and>
    (\<forall>t c. aw_TLS a = Some t \<and> tl_Cert t = Some c \<and> ci_Fingerprint c \<noteq> [] \<longrightarrow>
       map_of m' (ci_Fingerprint c) =
         Some (case map_of m (ci_Fingerprint c) of Some v \<Rightarrow> v | None \<Rightarrow> ci_SANs c))"
  using assms by (auto simp: hoist_addr_def split: option.splits if_splits)

lemma hoist_addrs_keep: "map_of m k = Some v \<Longrightarrow> map_of (snd (hoist_addrs as m)) k = Some v"
proof (induction as arbitrary: m)
  case (Cons a as)
  obtain a' m1 where a: "hoist_addr a m = (a', m1)" by force
  then have "map_of m1 k = Some v" using hoist_addr_map [OF a] Cons.prems by blast
  then show ?case using Cons.IH [of m1] a by (simp add: case_prod_beta)
qed simp

text \<open>A certificate that an address served with a fingerprint.\<close>

definition served :: "AddrWeb \<Rightarrow> string \<Rightarrow> string list \<Rightarrow> bool" where
  "served a fp sans \<longleftrightarrow>
     (\<exists>t c. aw_TLS a = Some t \<and> tl_Cert t = Some c \<and> ci_Fingerprint c = fp \<and> fp \<noteq> [] \<and> ci_SANs c = sans)"

lemma hoist_addrs_served:
  assumes "\<And>a sans'. a \<in> set as \<Longrightarrow> served a fp sans' \<Longrightarrow> sans' = sans"
    and "map_of m fp \<in> {None, Some sans}" and "a \<in> set as" and "served a fp sans"
  shows "map_of (snd (hoist_addrs as m)) fp = Some sans"
  using assms
proof (induction as arbitrary: m)
  case (Cons b as)
  obtain b' m1 where b: "hoist_addr b m = (b', m1)" by force
  note step = hoist_addr_map [OF b]
  show ?case
  proof (cases "served b fp sans")
    case True
    then have "map_of m1 fp = Some sans"
      using step Cons.prems(2) by (auto simp: served_def split: option.splits)
    then show ?thesis using b hoist_addrs_keep [of m1 fp sans as] by (simp add: case_prod_beta)
  next
    case False
    have "map_of m1 fp \<in> {None, Some sans}"
      using b Cons.prems(1) [of b] Cons.prems(2) False
      by (auto simp: hoist_addr_def served_def split: option.splits if_splits)
    moreover have "a \<in> set as" using Cons.prems(3,4) False by auto
    moreover have "sans' = sans" if "c \<in> set as" and "served c fp sans'" for c sans'
      using that Cons.prems(1) [of c sans'] by simp
    ultimately have "map_of (snd (hoist_addrs as m1)) fp = Some sans"
      using Cons.IH [of m1] Cons.prems(4) by blast
    then show ?thesis using b by (simp add: case_prod_beta)
  qed
qed simp

lemma note_step_keys: "distinct (map fst m) \<Longrightarrow> distinct (map fst (note_step lib domain n m))"
  by (simp add: note_step_def Let_def case_prod_beta distinct_map_put split: option.split)

lemma fold_note_step_keys: "distinct (map fst m) \<Longrightarrow> distinct (map fst (fold (note_step lib domain) ns m))"
  by (induction ns arbitrary: m) (simp_all add: note_step_keys)

definition noted_key :: "dp_lib \<Rightarrow> noted \<Rightarrow> string option" where
  "noted_key lib n = (if comparable_answer (no_status n) (no_location n) then urlKey lib (no_raw n) else None)"

definition group_size :: "(string, urlObservations) go_map \<Rightarrow> string \<Rightarrow> nat" where
  "group_size m k = (case map_of m k of None \<Rightarrow> 0 | Some g \<Rightarrow> length (uo_obs g))"

lemma note_step_size:
  "group_size (note_step lib domain n m) k = group_size m k + (if noted_key lib n = Some k then 1 else 0)"
  by (auto simp: note_step_def noted_key_def group_size_def Let_def case_prod_beta split: option.splits)

lemma fold_note_step_size:
  "group_size (fold (note_step lib domain) ns m) k =
     group_size m k + length (filter (\<lambda>n. noted_key lib n = Some k) ns)"
  by (induction ns arbitrary: m) (simp_all add: note_step_size)

lemma hoist_addrs_append: "snd (hoist_addrs (as @ bs) m) = snd (hoist_addrs bs (snd (hoist_addrs as m)))"
  by (induction as arbitrary: m) (simp_all add: case_prod_beta)

lemma hoist_host_addrs: "snd (hoist_host h m) = snd (hoist_addrs (addrs h) m)"
  by (simp add: hoist_host_def addrs_def hoist_addrs_append case_prod_beta Let_def split: option.split)

lemma note_step_fst:
  "fst ` set (note_step lib domain n m) =
     fst ` set m \<union> (case noted_key lib n of None \<Rightarrow> {} | Some k \<Rightarrow> {k})"
  by (auto simp: note_step_def noted_key_def Let_def case_prod_beta split: option.splits)

lemma fold_note_step_fst:
  "fst ` set (fold (note_step lib domain) ns m) =
     fst ` set m \<union> {k. \<exists>n\<in>set ns. noted_key lib n = Some k}"
  by (induction ns arbitrary: m) (auto simp: note_step_fst split: option.splits)

lemma sorted_keys_set: "distinct (map fst m) \<Longrightarrow> sorted_keys m = sorted_list_of_set (fst ` set m)"
  by (simp add: sorted_keys_def sorted_list_of_set_sort_remdups distinct_remdups_id flip: set_map)

section \<open>Properties\<close>

text \<open>
  Two or more different answers to one URL are always told apart: the tally has one entry for
  each distinct answer observed, so an inconsistency is reported exactly when the run saw one.
\<close>
theorem answerTally_distinct: "length (answerTally obs) = card (ob_answer ` set obs)"
proof -
  have "length (remdups (map ob_answer obs)) = card (ob_answer ` set obs)"
    by (simp add: length_remdups_card_conv)
  then show ?thesis by (simp add: answerTally_def)
qed

text \<open>
  Moving the names of the certificates loses none: for every certificate that a host served
  with a fingerprint, the report holds its names under that fingerprint, provided that equal
  fingerprints mean equal names.
\<close>
theorem hoistCertNames_keeps:
  assumes "\<And>a sans'. a \<in> set (addrs (web_Apex web)) \<union> set (addrs (web_WWW web)) \<Longrightarrow> served a fp sans' \<Longrightarrow> sans' = sans"
    and "a \<in> set (addrs (web_Apex web)) \<union> set (addrs (web_WWW web))" and "served a fp sans"
  shows "map_of (snd (hoistCertNames web [])) fp = Some sans"
proof -
  have "snd (hoistCertNames web []) = snd (hoist_addrs (addrs (web_Apex web) @ addrs (web_WWW web)) [])"
    by (simp add: hoistCertNames_def case_prod_beta Let_def hoist_host_addrs hoist_addrs_append)
  moreover have "map_of (snd (hoist_addrs (addrs (web_Apex web) @ addrs (web_WWW web)) [])) fp = Some sans"
  proof (rule hoist_addrs_served [where a = a])
    fix c sans' assume "c \<in> set (addrs (web_Apex web) @ addrs (web_WWW web))" "served c fp sans'"
    then show "sans' = sans" using assms(1) [of c sans'] unfolding set_append by blast
  next
    show "a \<in> set (addrs (web_Apex web) @ addrs (web_WWW web))" using assms(2) unfolding set_append .
  qed (simp, fact assms(3))
  ultimately show ?thesis by simp
qed

definition ex_cert :: CertInfo where
  "ex_cert = \<lparr>ci_Subject = ''d'', ci_Issuer = ''ca'', ci_NotBefore = [], ci_NotAfter = [],
     ci_DaysRemaining = 90, ci_SANs = [''d'', ''www.d''], ci_CoversApex = True, ci_CoversWWW = True,
     ci_Wildcard = False, ci_Key = ''RSA 2048'', ci_Fingerprint = ''ab''\<rparr>"

definition ex_addr :: AddrWeb where
  "ex_addr = \<lparr>aw_IP = ''192.0.2.1'', aw_HTTP = PortOpen, aw_HTTPS = PortOpen, aw_HTTPRes = None,
     aw_HTTPSRes = None,
     aw_TLS = Some \<lparr>tl_Chain = ChainValid, tl_Problems = [], tl_Version = ''TLS 1.3'', tl_Cipher = [],
       tl_TLS10 = None, tl_TLS11 = None, tl_Cert = Some ex_cert, tl_ChainLength = 2, tl_Error = [],
       tl_chain = [ex_crt], tl_pkixValid = True, tl_noALPN = False\<rparr>,
     aw_TLSA = None, aw_QUIC = None, aw_HTTPVersions = None\<rparr>"

definition ex_web :: WebSection where
  "ex_web = \<lparr>web_Apex = Some \<lparr>hw_SameAsApex = False, hw_ViaWildcard = False, hw_IPv4 = [ex_addr, ex_addr],
     hw_IPv6 = [], hw_Redirects = [], hw_CertConsistent = None\<rparr>, web_WWW = None\<rparr>"

theorem hoistCertNames_keeps_witness:
  "map_of (snd (hoistCertNames ex_web [])) ''ab'' = Some [''d'', ''www.d'']"
  by (rule hoistCertNames_keeps [of _ _ _ ex_addr])
    (auto simp: ex_web_def addrs_def served_def ex_addr_def ex_cert_def)

text \<open>
  Every comparable response of the run is counted once, in the group of its URL.
\<close>
theorem collectWebObservations_complete:
  "map (\<lambda>g. length (uo_obs g)) (collectWebObservations lib domain web) =
     map (\<lambda>k. length (filter (\<lambda>n. noted_key lib n = Some k) (observations domain web)))
       (sorted_list_of_set {k. \<exists>n\<in>set (observations domain web). noted_key lib n = Some k})"
proof -
  define m where "m = fold (note_step lib domain) (observations domain web) []"
  have d: "distinct (map fst m)" unfolding m_def by (rule fold_note_step_keys) simp
  have f: "fst ` set m = {k. \<exists>n\<in>set (observations domain web). noted_key lib n = Some k}"
    by (simp add: m_def fold_note_step_fst)
  have "length (uo_obs (the (map_of m k))) =
      length (filter (\<lambda>n. noted_key lib n = Some k) (observations domain web))" if "k \<in> fst ` set m" for k
  proof -
    obtain g where g: "map_of m k = Some g" using \<open>k \<in> fst ` set m\<close> by (metis map_of_eq_None_iff not_None_eq)
    then show ?thesis
      using fold_note_step_size [of lib domain "observations domain web" "[]" k]
      by (simp add: m_def [symmetric] group_size_def)
  qed
  then show ?thesis
    unfolding collectWebObservations_def Let_def m_def [symmetric] f [symmetric] sorted_keys_set [OF d]
    by simp
qed

end
