(* ===== verification/Rdap.thy ===== *)
theory Rdap
  imports Config
begin

text \<open>
  Registration status: \<open>src/rdap.go\<close>. The rdap process and the decoding of its JSON are not
  modelled here; the definitions start from the decoded domain object.
\<close>

record RDAPRegistry =
  rg_URL :: string
  rg_Status :: "string list option"
  rg_Error :: string

record RDAPRegistrar =
  rgr_Name :: string
  rgr_IANAID :: string

record RDAPReport =
  rd_Domain :: string
  rd_Server :: string
  rd_Registered :: "bool option"
  rd_Registry :: RDAPRegistry
  rd_Registrar :: "RDAPRegistrar option"

record rdapLink =
  link_Rel :: string
  link_Href :: string

record rdapPublicID =
  pid_Type :: string
  pid_Identifier :: string

definition rdapNotFound :: string where
  "rdapNotFound = ''object does not exist''"

definition rdapTarget :: "dp_lib \<Rightarrow> string \<Rightarrow> (string \<times> string) option" where
  "rdapTarget lib domain =
     (if reservedName lib domain \<noteq> [] then None
      else let (base, routed) = psl_RDAPServer lib domain;
               private = Registrable (psl_Lookup lib domain True);
               public = Registrable (psl_Lookup lib domain False)
           in if routed \<and> private \<noteq> [] then Some (private, base)
              else if public = [] then None else Some (public, []))"

definition rdapArgs :: "string \<Rightarrow> string \<Rightarrow> int \<Rightarrow> string list" where
  "rdapArgs query server timeoutSec =
     [''--json'', ''--timeout'', Itoa (maxInt 1 timeoutSec)] @
     (if server \<noteq> [] then [''-s'', server] else []) @ [''--'', query]"

fun first_message :: "string list \<Rightarrow> string option" where
  "first_message [] = None"
| "first_message (line # lines) =
     (let msg = TrimSpace (TrimPrefix (TrimSpace line) ''# Error:'')
      in if msg \<noteq> [] then Some msg else first_message lines)"

definition rdapMessage :: "string \<Rightarrow> string \<Rightarrow> string" where
  "rdapMessage stderr err =
     (case first_message (Split CHR 0x0A stderr) of Some msg \<Rightarrow> msg | None \<Rightarrow> err)"

fun linkHref :: "rdapLink list \<Rightarrow> string \<Rightarrow> string" where
  "linkHref [] rel = []"
| "linkHref (l # ls) rel =
     (if EqualFold (link_Rel l) rel \<and> link_Href l \<noteq> [] then link_Href l else linkHref ls rel)"

fun ianaID :: "rdapPublicID list \<Rightarrow> string" where
  "ianaID [] = []"
| "ianaID (i # is) =
     (if EqualFold (pid_Type i) ''IANA Registrar ID'' then TrimSpace (pid_Identifier i) else ianaID is)"

definition statusKey :: "string \<Rightarrow> string" where
  "statusKey s =
     filter (\<lambda>c. c \<noteq> CHR '' '' \<and> c \<noteq> CHR ''_'' \<and> c \<noteq> CHR ''-'') (ToLower (TrimSpace s))"

definition rdapHoldStatus :: "string list" where
  "rdapHoldStatus = [''clienthold'', ''serverhold'']"

definition rdapDeletionStatus :: "string list" where
  "rdapDeletionStatus = [''redemptionperiod'', ''pendingdelete'', ''pendingrestore'']"

definition matchedStatuses :: "RDAPReport \<Rightarrow> string list \<Rightarrow> string list" where
  "matchedStatuses rep set_of_keys =
     filter (\<lambda>s. statusKey s \<in> set set_of_keys)
       (case rg_Status (rd_Registry rep) of None \<Rightarrow> [] | Some ss \<Rightarrow> ss)"

section \<open>Lemmas\<close>

text \<open>The two spellings of a status, RDAP's \<open>client hold\<close> and EPP's \<open>clientHold\<close>, are one key.\<close>

lemma statusKey_spellings:
  "statusKey ''client hold'' = ''clienthold''" "statusKey ''clientHold'' = ''clienthold''"
  "statusKey ''Server-Hold'' = ''serverhold''" "statusKey ''pending_delete'' = ''pendingdelete''"
  by code_simp+

end
