(* ===== verification/Preload.thy ===== *)
theory Preload
  imports Config Go_Text
begin

text \<open>
  Chromium's HSTS preload list: \<open>src/preloadlist.go\<close>. The status of a name, the cache file and
  the decision to fetch. The download, its JSON and the file system are parameters: a fetch is
  its result, the cache file its contents. The header of the cache
  file goes through two functions of package time, in the record \<open>time_fmt\<close>.
\<close>

section \<open>The list\<close>

datatype PreloadStatus = PreloadNone | PreloadPreloaded | PreloadAbsent | PreloadUnknown

record preloadRecord =
  pl_includeSubdomains :: bool
  pl_policy :: string

type_synonym preload_entries = "(string, preloadRecord) go_map"

text \<open>\<open>fetched\<close> is in seconds; None is the zero time.\<close>

record preloadList =
  pl_entries :: preload_entries
  pl_fetched :: "int option"
  pl_note :: string

definition preloadCacheMaxAge :: int where "preloadCacheMaxAge = 7 * 24 * 3600"

definition fresh :: "preloadList \<Rightarrow> int \<Rightarrow> bool" where
  "fresh l now = (case pl_fetched l of None \<Rightarrow> False | Some t \<Rightarrow> now - t < preloadCacheMaxAge)"

definition bulkPolicyPrefix :: string where "bulkPolicyPrefix = ''bulk-''"

definition headerRequired :: "string \<Rightarrow> bool" where
  "headerRequired policy \<longleftrightarrow> policy = [] \<or> HasPrefix policy bulkPolicyPrefix"

function ancestor_scan :: "preload_entries \<Rightarrow> string \<Rightarrow> (string \<times> string) option" where
  "ancestor_scan m rest =
     (case snd (Cut CHR ''.'' rest) of
        None \<Rightarrow> None
      | Some parent \<Rightarrow>
          (case map_of m parent of
             Some rec \<Rightarrow> if pl_includeSubdomains rec then Some (parent, pl_policy rec) else ancestor_scan m parent
           | None \<Rightarrow> ancestor_scan m parent))"
  by pat_completeness auto

termination
  by (relation "measure (\<lambda>(_, s). length s)") (auto simp: Cut_shorter)

definition status :: "dp_lib \<Rightarrow> preloadList option \<Rightarrow> string \<Rightarrow> PreloadStatus \<times> string \<times> string" where
  "status lib l domain =
     (case l of
        None \<Rightarrow> (PreloadUnknown, [], [])
      | Some l \<Rightarrow>
          if pl_entries l = [] then (PreloadUnknown, [], [])
          else let name = bareName lib domain
               in if name = [] then (PreloadUnknown, [], [])
                  else case map_of (pl_entries l) name of
                         Some rec \<Rightarrow> (PreloadPreloaded, [], pl_policy rec)
                       | None \<Rightarrow>
                           (case ancestor_scan (pl_entries l) name of
                              Some (by, policy) \<Rightarrow> (PreloadPreloaded, by, policy)
                            | None \<Rightarrow> (PreloadAbsent, [], [])))"

section \<open>Chromium's file\<close>

record preloadEntry =
  pe_Name :: string
  pe_Mode :: string
  pe_IncludeSubdomains :: bool
  pe_Policy :: string

definition cachePolicy :: "string \<Rightarrow> string" where
  "cachePolicy policy =
     (if list_ex (\<lambda>c. c = CHR 0x09 \<or> c = CHR 0x0D \<or> c = CHR 0x0A) policy then [] else policy)"

definition stripLineComments :: "string \<Rightarrow> string" where
  "stripLineComments body =
     Join [CHR 0x0A] (filter (\<lambda>line. \<not> HasPrefix (TrimSpace line) ''//'') (Split CHR 0x0A body))"

text \<open>The rest of \<open>parsePreloadJSON\<close>, from the decoded entries on.\<close>

definition entry_step :: "preloadEntry \<Rightarrow> preload_entries \<Rightarrow> preload_entries" where
  "entry_step e m =
     (if pe_Mode e \<noteq> ''force-https'' \<or> pe_Name e = [] then m
      else map_put (ToLower (pe_Name e))
             \<lparr>pl_includeSubdomains = pe_IncludeSubdomains e, pl_policy = cachePolicy (pe_Policy e)\<rparr> m)"

definition derive_list :: "preloadEntry list \<Rightarrow> int \<Rightarrow> string + preloadList" where
  "derive_list es now =
     (let m = fold entry_step es []
      in if m = [] then Inl ''the preload list contained no force-https entries''
         else Inr \<lparr>pl_entries = m, pl_fetched = Some now, pl_note = []\<rparr>)"

section \<open>The cache file\<close>

definition cacheHeaderPrefix :: string where
  "cacheHeaderPrefix = ''#domaintest-hsts-preload v2''"

definition cache_line :: "preload_entries \<Rightarrow> string \<Rightarrow> string" where
  "cache_line m name =
     (let rec = map_get \<lparr>pl_includeSubdomains = False, pl_policy = []\<rparr> m name
      in name @ (if pl_includeSubdomains rec then [CHR 0x09, CHR ''1'', CHR 0x09] else [CHR 0x09, CHR ''0'', CHR 0x09]) @
         pl_policy rec @ [CHR 0x0A])"

definition marshalCache :: "time_fmt \<Rightarrow> preloadList \<Rightarrow> int \<Rightarrow> string" where
  "marshalCache tf l now =
     cacheHeaderPrefix @ '' '' @ RFC3339_Format tf now @ [CHR 0x0A] @
     concat (map (cache_line (pl_entries l)) (sorted_keys (pl_entries l)))"

definition ParseBool :: "string \<Rightarrow> bool option" where
  "ParseBool s =
     (if s \<in> {''1'', ''t'', ''T'', ''true'', ''TRUE'', ''True''} then Some True
      else if s \<in> {''0'', ''f'', ''F'', ''false'', ''FALSE'', ''False''} then Some False else None)"

definition parseCacheLine :: "string \<Rightarrow> string + (string \<times> preloadRecord)" where
  "parseCacheLine line =
     (let bad = Inl (''malformed cache line '' @ Quote line)
      in case Split CHR 0x09 line of
           [name, sub, policy] \<Rightarrow>
             (if name = [] then bad
              else case ParseBool sub of
                     Some b \<Rightarrow> Inr (name, \<lparr>pl_includeSubdomains = b, pl_policy = policy\<rparr>)
                   | None \<Rightarrow> bad)
         | _ \<Rightarrow> bad)"

definition cacheTime :: "time_fmt \<Rightarrow> string \<Rightarrow> int option" where
  "cacheTime tf header = RFC3339_Parse tf (TrimSpace (TrimPrefix header cacheHeaderPrefix))"

fun read_lines :: "string list \<Rightarrow> preload_entries \<Rightarrow> string + preload_entries" where
  "read_lines [] m = Inr m"
| "read_lines (line # lines) m =
     (if line = [] then read_lines lines m
      else case parseCacheLine line of
             Inl err \<Rightarrow> Inl err
           | Inr (name, rec) \<Rightarrow> read_lines lines (map_put name rec m))"

definition unmarshalCache :: "time_fmt \<Rightarrow> string \<Rightarrow> string + preloadList" where
  "unmarshalCache tf body =
     (case Cut CHR 0x0A body of
        (header, Some rest) \<Rightarrow>
          if \<not> HasPrefix body cacheHeaderPrefix then Inl ''not a domaintest preload cache of this version''
          else (case read_lines (Split CHR 0x0A rest) [] of
                  Inl err \<Rightarrow> Inl err
                | Inr m \<Rightarrow>
                    if m = [] then Inl ''the preload cache holds no entries''
                    else Inr \<lparr>pl_entries = m, pl_fetched = cacheTime tf header, pl_note = []\<rparr>)
      | _ \<Rightarrow> Inl ''not a domaintest preload cache of this version'')"

section \<open>Population\<close>

text \<open>
  The world a load reads and changes: the contents of the cache file (None: unreadable), the
  clock, what waiting for the lock gives (an error, or the cache file and the time found once
  the lock is held: another process may have written the file meanwhile), what the next fetch
  returns, how writing the cache ends (None: written), and how many fetches were made.
\<close>

text \<open>An error of package os: an operation on one path or on two, or any other.\<close>

datatype os_error = PathError string string string | LinkError string string string string | OtherError string

fun os_Error :: "os_error \<Rightarrow> string" where
  "os_Error (PathError opn path err) = opn @ '' '' @ path @ '': '' @ err"
| "os_Error (LinkError opn old new err) = opn @ '' '' @ old @ '' '' @ new @ '': '' @ err"
| "os_Error (OtherError err) = err"

fun fsCause :: "os_error \<Rightarrow> string" where
  "fsCause (PathError opn path err) = opn @ '': '' @ err"
| "fsCause (LinkError opn old new err) = opn @ '': '' @ err"
| "fsCause (OtherError err) = err"

record preload_world =
  pw_cache :: "string option"
  pw_now :: int
  pw_lock :: "string + (string option \<times> int)"
  pw_fetch :: "string + preloadList"
  pw_write :: "os_error option"
  pw_fetches :: nat

text \<open>Taking the lock and writing the file as a load sees them, each one step: \<open>acquireLock\<close> and
  \<open>writePreloadCache\<close> on a file system are in the theory Preload_Share.\<close>

definition lock_world :: "preload_world \<Rightarrow> string + preload_world" where
  "lock_world w =
     (case pw_lock w of Inl err \<Rightarrow> Inl err | Inr (body, t) \<Rightarrow> Inr (w\<lparr>pw_cache := body, pw_now := t\<rparr>))"

definition cachedList :: "time_fmt \<Rightarrow> preload_world \<Rightarrow> preloadList option" where
  "cachedList tf w =
     (case pw_cache w of
        None \<Rightarrow> None
      | Some body \<Rightarrow> (case unmarshalCache tf body of Inl _ \<Rightarrow> None | Inr l \<Rightarrow> Some l))"

definition do_fetch :: "preload_world \<Rightarrow> (string + preloadList) \<times> preload_world" where
  "do_fetch w = (pw_fetch w, w\<lparr>pw_fetches := pw_fetches w + 1\<rparr>)"

definition write_cache :: "time_fmt \<Rightarrow> preloadList \<Rightarrow> preload_world \<Rightarrow> os_error option \<times> preload_world" where
  "write_cache tf l w =
     (case pw_write w of
        Some err \<Rightarrow> (Some err, w)
      | None \<Rightarrow> (None, w\<lparr>pw_cache := Some (marshalCache tf l (pw_now w))\<rparr>))"

definition store_fetched :: "time_fmt \<Rightarrow> preloadList \<Rightarrow> preload_world \<Rightarrow> preloadList \<times> preload_world" where
  "store_fetched tf l w =
     (case write_cache tf l w of
        (Some err, w1) \<Rightarrow> (l\<lparr>pl_note := ''the preload cache could not be written: '' @ fsCause err\<rparr>, w1)
      | (None, w1) \<Rightarrow> (l, w1))"

definition stale_note :: "time_fmt \<Rightarrow> preloadList \<Rightarrow> string \<Rightarrow> string" where
  "stale_note tf l err =
     ''the preload list could not be refreshed, so a copy from '' @
     (case pl_fetched l of Some t \<Rightarrow> RFC3339_Format tf t | None \<Rightarrow> ''0001-01-01T00:00:00Z'') @
     '' answered: '' @ err"

definition refreshPreloadList :: "time_fmt \<Rightarrow> preload_world \<Rightarrow> (string + preloadList) \<times> preload_world" where
  "refreshPreloadList tf w =
     (let stale = cachedList tf w
      in if (case stale of Some l \<Rightarrow> fresh l (pw_now w) | None \<Rightarrow> False) then (Inr (the stale), w)
         else case do_fetch w of
                (Inl err, w1) \<Rightarrow>
                  (case stale of Some l \<Rightarrow> (Inr (l\<lparr>pl_note := stale_note tf l err\<rparr>), w1) | None \<Rightarrow> (Inl err, w1))
              | (Inr l, w1) \<Rightarrow> (let (l', w2) = store_fetched tf l w1 in (Inr l', w2)))"

definition noCachePath :: string where "noCachePath = ''-''"

definition loadPreloadList :: "time_fmt \<Rightarrow> string \<Rightarrow> preload_world \<Rightarrow> (string + preloadList) \<times> preload_world" where
  "loadPreloadList tf cachePath w =
     (if cachePath = [] \<or> cachePath = noCachePath then do_fetch w
      else if (case cachedList tf w of Some l \<Rightarrow> fresh l (pw_now w) | None \<Rightarrow> False)
      then (Inr (the (cachedList tf w)), w)
      else case lock_world w of
             Inl err \<Rightarrow> (Inl (''waiting for the preload cache lock: '' @ err), w)
           | Inr w1 \<Rightarrow> refreshPreloadList tf w1)"

section \<open>Lemmas\<close>

declare ancestor_scan.simps [simp del]

text \<open>A name covered through an ancestor of \<open>s\<close>, a suffix of it after a dot.\<close>

definition covered_above :: "preload_entries \<Rightarrow> string \<Rightarrow> bool" where
  "covered_above m s \<longleftrightarrow>
     (\<exists>p t rec. s = p @ CHR ''.'' # t \<and> map_of m t = Some rec \<and> pl_includeSubdomains rec)"

lemma covered_above_Cut:
  assumes "snd (Cut CHR ''.'' s) = Some parent"
  shows "covered_above m s \<longleftrightarrow>
    (\<exists>rec. map_of m parent = Some rec \<and> pl_includeSubdomains rec) \<or> covered_above m parent"
proof -
  obtain q where s: "s = q @ CHR ''.'' # parent" and q: "CHR ''.'' \<notin> set q"
    using assms unfolding Cut_Some_iff by blast
  have "(\<exists>p. s = p @ CHR ''.'' # t) \<longleftrightarrow> t = parent \<or> (\<exists>p. parent = p @ CHR ''.'' # t)" for t
  proof
    assume "\<exists>p. s = p @ CHR ''.'' # t"
    then obtain p where "q @ CHR ''.'' # parent = p @ CHR ''.'' # t" using s by metis
    then show "t = parent \<or> (\<exists>p. parent = p @ CHR ''.'' # t)"
      using q by (auto simp: append_eq_append_conv2 Cons_eq_append_conv append_eq_Cons_conv)
  next
    assume "t = parent \<or> (\<exists>p. parent = p @ CHR ''.'' # t)"
    then show "\<exists>p. s = p @ CHR ''.'' # t"
    proof
      assume "\<exists>p. parent = p @ CHR ''.'' # t"
      then obtain p where "s = (q @ CHR ''.'' # p) @ CHR ''.'' # t" using s by auto
      then show ?thesis by blast
    qed (use s in blast)
  qed
  then show ?thesis unfolding covered_above_def by metis
qed

lemma ancestor_scan_iff: "ancestor_scan m s \<noteq> None \<longleftrightarrow> covered_above m s"
proof (induction m s rule: ancestor_scan.induct)
  case (1 m s)
  show ?case
  proof (cases "snd (Cut CHR ''.'' s)")
    case None
    then have "\<not> covered_above m s" by (auto simp: Cut_None_iff covered_above_def)
    then show ?thesis using None by (simp add: ancestor_scan.simps [of m s])
  next
    case (Some parent)
    show ?thesis
    proof (cases "map_of m parent")
      case None
      then show ?thesis using 1(1) [OF Some None] Some
        by (simp add: ancestor_scan.simps [of m s] covered_above_Cut [OF Some])
    next
      case (Some rec)
      then show ?thesis using 1(2) [OF \<open>snd (Cut CHR ''.'' s) = Some parent\<close> Some] \<open>snd (Cut CHR ''.'' s) = Some parent\<close>
        by (simp add: ancestor_scan.simps [of m s] covered_above_Cut [OF \<open>snd (Cut CHR ''.'' s) = Some parent\<close>])
    qed
  qed
qed

lemma Split_lines:
  "(\<And>l. l \<in> set ls \<Longrightarrow> c \<notin> set l) \<Longrightarrow> Split c (concat (map (\<lambda>l. l @ [c]) ls)) = ls @ [[]]"
  by (induction ls) (simp_all add: Split_sep_append)

text \<open>Entries that the file format can hold.\<close>

definition storable :: "preload_entries \<Rightarrow> bool" where
  "storable m \<longleftrightarrow>
     m \<noteq> [] \<and> distinct (map fst m) \<and>
     list_all (\<lambda>(name, rec). name \<noteq> [] \<and> CHR 0x09 \<notin> set name \<and> CHR 0x0A \<notin> set name \<and>
       CHR 0x09 \<notin> set (pl_policy rec) \<and> CHR 0x0A \<notin> set (pl_policy rec)) m"

definition cache_body :: "string \<times> preloadRecord \<Rightarrow> string" where
  "cache_body e =
     fst e @ CHR 0x09 # (if pl_includeSubdomains (snd e) then CHR ''1'' else CHR ''0'') # CHR 0x09 # pl_policy (snd e)"

lemma cache_line_body:
  "map_of m k = Some rec \<Longrightarrow> cache_line m k = cache_body (k, rec) @ [CHR 0x0A]"
  by (simp add: cache_line_def cache_body_def map_get_def)

lemma parseCacheLine_body:
  assumes "fst e \<noteq> []" "CHR 0x09 \<notin> set (fst e)" "CHR 0x09 \<notin> set (pl_policy (snd e))"
  shows "parseCacheLine (cache_body e) = Inr e"
proof -
  have "Split CHR 0x09 (cache_body e) =
      [fst e, [if pl_includeSubdomains (snd e) then CHR ''1'' else CHR ''0''], pl_policy (snd e)]"
    using assms by (simp add: cache_body_def Split_sep_append Split_no_sep)
  then show ?thesis using assms(1)
    by (cases e) (simp add: parseCacheLine_def ParseBool_def)
qed

lemma read_lines_bodies:
  assumes "distinct (map fst (m @ es))"
    and "\<And>e. e \<in> set es \<Longrightarrow> fst e \<noteq> [] \<and> CHR 0x09 \<notin> set (fst e) \<and> CHR 0x09 \<notin> set (pl_policy (snd e))"
  shows "read_lines (map cache_body es @ [[]]) m = Inr (m @ es)"
  using assms
proof (induction es arbitrary: m)
  case (Cons e es)
  have "parseCacheLine (cache_body e) = Inr e" using Cons.prems(2) [of e] by (simp add: parseCacheLine_body)
  moreover have "cache_body e \<noteq> []" by (simp add: cache_body_def)
  moreover have "map_put (fst e) (snd e) m = m @ [e]" using Cons.prems(1) by (simp add: map_put_new)
  moreover have "read_lines (map cache_body es @ [[]]) (m @ [e]) = Inr ((m @ [e]) @ es)"
    using Cons.prems by (intro Cons.IH) auto
  ultimately show ?case by (simp add: case_prod_beta)
qed simp

definition sorted_entries :: "preload_entries \<Rightarrow> preload_entries" where
  "sorted_entries m = map (\<lambda>k. (k, the (map_of m k))) (sorted_keys m)"

lemma sorted_entries_in: "e \<in> set (sorted_entries m) \<Longrightarrow> distinct (map fst m) \<Longrightarrow> e \<in> set m"
  by (auto simp: sorted_entries_def)

lemma map_of_sorted_entries: "distinct (map fst m) \<Longrightarrow> map_of (sorted_entries m) = map_of m"
proof (rule ext)
  fix k assume "distinct (map fst m)"
  show "map_of (sorted_entries m) k = map_of m k"
  proof (cases "map_of m k")
    case None
    then have "k \<notin> set (sorted_keys m)" by (simp add: map_of_eq_None_iff)
    then show ?thesis using None by (simp add: sorted_entries_def map_of_map_restrict restrict_map_def)
  next
    case (Some v)
    then have "k \<in> set (sorted_keys m)" by (force dest: map_of_SomeD)
    then show ?thesis using Some by (simp add: sorted_entries_def map_of_map_restrict restrict_map_def)
  qed
qed

lemma marshal_lines:
  "concat (map (cache_line m) (sorted_keys m)) =
     concat (map (\<lambda>l. l @ [CHR 0x0A]) (map cache_body (sorted_entries m)))"
proof -
  have "cache_line m k = cache_body (k, the (map_of m k)) @ [CHR 0x0A]" if "k \<in> set (sorted_keys m)" for k
    using that by (cases "map_of m k") (auto simp: cache_line_body map_of_eq_None_iff)
  then have "map (cache_line m) (sorted_keys m) =
      map (\<lambda>k. cache_body (k, the (map_of m k)) @ [CHR 0x0A]) (sorted_keys m)" by (rule map_cong [OF refl])
  then show ?thesis unfolding sorted_entries_def map_map comp_def by (rule arg_cong)
qed

text \<open>What the header of the file needs of the two functions of package time.\<close>

definition time_ok :: "time_fmt \<Rightarrow> int \<Rightarrow> bool" where
  "time_ok tf t \<longleftrightarrow>
     RFC3339_Format tf t \<noteq> [] \<and> list_all (\<lambda>c. \<not> is_space c) (RFC3339_Format tf t) \<and>
     RFC3339_Parse tf (RFC3339_Format tf t) = Some t"

lemma time_ok_line:
  assumes "time_ok tf t"
  shows "CHR 0x0A \<notin> set (RFC3339_Format tf t)"
    and "TrimSpace (CHR '' '' # RFC3339_Format tf t) = RFC3339_Format tf t"
proof -
  have *: "\<not> is_space c" if "c \<in> set (RFC3339_Format tf t)" for c
    using assms that by (auto simp: time_ok_def list_all_iff)
  then show "CHR 0x0A \<notin> set (RFC3339_Format tf t)" by (auto simp: is_space_def)
  show "TrimSpace (CHR '' '' # RFC3339_Format tf t) = RFC3339_Format tf t"
    using * [OF hd_in_set] * [OF last_in_set] assms
    by (simp add: time_ok_def TrimSpace_iff is_space_def [of "CHR '' ''"])
qed

text \<open>The written file reads back as the entries in order, dated at the write.\<close>

lemma unmarshal_marshal:
  assumes "storable (pl_entries l)" and "time_ok tf now"
  shows "unmarshalCache tf (marshalCache tf l now) =
    Inr \<lparr>pl_entries = sorted_entries (pl_entries l), pl_fetched = Some now, pl_note = []\<rparr>"
proof -
  define m where "m = pl_entries l"
  define header where "header = cacheHeaderPrefix @ '' '' @ RFC3339_Format tf now"
  have ok: "m \<noteq> []" "distinct (map fst m)"
    "\<And>e. e \<in> set m \<Longrightarrow> fst e \<noteq> [] \<and> CHR 0x09 \<notin> set (fst e) \<and> CHR 0x0A \<notin> set (fst e) \<and>
       CHR 0x09 \<notin> set (pl_policy (snd e)) \<and> CHR 0x0A \<notin> set (pl_policy (snd e))"
    using assms(1) by (auto simp: storable_def list_all_iff m_def)
  have "CHR 0x0A \<notin> set header" using time_ok_line(1) [OF assms(2)] by (simp add: header_def cacheHeaderPrefix_def)
  then have "Cut CHR 0x0A (marshalCache tf l now) = (header, Some (concat (map (cache_line m) (sorted_keys m))))"
    using Cut_append [of "CHR 0x0A" header "concat (map (cache_line m) (sorted_keys m))"]
    by (simp add: marshalCache_def m_def [symmetric] header_def)
  moreover have "Split CHR 0x0A (concat (map (cache_line m) (sorted_keys m))) = map cache_body (sorted_entries m) @ [[]]"
    unfolding marshal_lines
  proof (rule Split_lines)
    fix x assume "x \<in> set (map cache_body (sorted_entries m))"
    then obtain e where e: "x = cache_body e" "e \<in> set m" using sorted_entries_in [OF _ ok(2)] by auto
    then show "CHR 0x0A \<notin> set x" using ok(3) [OF e(2)] by (simp add: cache_body_def)
  qed
  moreover have "read_lines (map cache_body (sorted_entries m) @ [[]]) [] = Inr ([] @ sorted_entries m)"
  proof (rule read_lines_bodies)
    show "distinct (map fst ([] @ sorted_entries m))"
      using ok(2) by (simp add: sorted_entries_def sorted_keys_def comp_def)
    fix e assume "e \<in> set (sorted_entries m)"
    then show "fst e \<noteq> [] \<and> CHR 0x09 \<notin> set (fst e) \<and> CHR 0x09 \<notin> set (pl_policy (snd e))"
      using ok(3) sorted_entries_in [OF _ ok(2)] by blast
  qed
  moreover have "sorted_entries m \<noteq> []"
    using ok(1) by (simp add: sorted_entries_def sorted_keys_def flip: length_greater_0_conv)
  moreover have "cacheTime tf header = Some now"
    using time_ok_line(2) [OF assms(2)] assms(2) by (simp add: cacheTime_def header_def TrimPrefix_def time_ok_def)
  moreover have "HasPrefix (marshalCache tf l now) cacheHeaderPrefix" by (simp add: marshalCache_def)
  ultimately show ?thesis by (simp add: unmarshalCache_def m_def)
qed

section \<open>Properties\<close>

text \<open>
  A name is preloaded exactly when the list has an entry for it, or an entry with
  include_subdomains for one of its ancestors, its parent or any name above.
\<close>
theorem status_preloaded_iff:
  "fst (status lib (Some l) domain) = PreloadPreloaded \<longleftrightarrow>
     bareName lib domain \<noteq> [] \<and>
     ((\<exists>rec. map_of (pl_entries l) (bareName lib domain) = Some rec) \<or>
      (\<exists>p t rec. bareName lib domain = p @ CHR ''.'' # t \<and> map_of (pl_entries l) t = Some rec \<and>
         pl_includeSubdomains rec))"
proof -
  have "ancestor_scan (pl_entries l) (bareName lib domain) \<noteq> None \<longleftrightarrow>
      (\<exists>p t rec. bareName lib domain = p @ CHR ''.'' # t \<and> map_of (pl_entries l) t = Some rec \<and>
         pl_includeSubdomains rec)"
    by (simp only: ancestor_scan_iff covered_above_def)
  then show ?thesis
    by (cases "ancestor_scan (pl_entries l) (bareName lib domain)"; cases "map_of (pl_entries l) (bareName lib domain)")
      (auto simp: status_def Let_def)
qed

text \<open>
  C39. The cache file is faithful: what \<open>marshalCache\<close> writes, \<open>unmarshalCache\<close> reads back
  with the same record for every name and the time of the write, for entries without the file's
  separators and a time that package time prints and parses back.
\<close>
theorem cache_roundtrip:
  assumes "storable (pl_entries l)" and "time_ok tf now"
  shows "\<exists>l'. unmarshalCache tf (marshalCache tf l now) = Inr l' \<and>
    map_of (pl_entries l') = map_of (pl_entries l) \<and> pl_fetched l' = Some now"
  using unmarshal_marshal [OF assms] assms(1)
  by (auto simp: map_of_sorted_entries storable_def)

definition ex_time :: time_fmt where
  "ex_time = \<lparr>RFC3339_Format = Itoa, RFC3339_Parse = (\<lambda>s. let (n, ok) = Atoi s in if ok then Some n else None)\<rparr>"

definition ex_list :: preloadList where
  "ex_list = \<lparr>pl_entries = [(''dev'', \<lparr>pl_includeSubdomains = True, pl_policy = ''google''\<rparr>),
     (''app'', \<lparr>pl_includeSubdomains = False, pl_policy = []\<rparr>)], pl_fetched = Some 5, pl_note = []\<rparr>"

theorem cache_roundtrip_witness:
  "\<exists>l'. unmarshalCache ex_time (marshalCache ex_time ex_list 7) = Inr l' \<and>
     map_of (pl_entries l') = map_of (pl_entries ex_list) \<and> pl_fetched l' = Some 7"
proof (rule cache_roundtrip)
  show "storable (pl_entries ex_list)" by code_simp
  show "time_ok ex_time 7" by code_simp
qed

text \<open>
  A load that fetched made one fetch, and when it has nothing to note about it (the list is new
  and its cache was written) the loads of the next seven days answer with the same records from
  the cache, without a fetch.
\<close>
theorem load_then_cached:
  assumes "path \<noteq> []" and "path \<noteq> noCachePath"
    and "loadPreloadList tf path w = (Inr l, w1)" and "pw_fetches w1 \<noteq> pw_fetches w" and "pl_note l = []"
    and "storable (pl_entries l)" and "time_ok tf (pw_now w1)"
    and "pw_now w1 \<le> t" and "t < pw_now w1 + preloadCacheMaxAge"
  shows "pw_fetches w1 = pw_fetches w + 1 \<and>
    (\<exists>l'. loadPreloadList tf path (w1\<lparr>pw_now := t\<rparr>) = (Inr l', w1\<lparr>pw_now := t\<rparr>) \<and>
       map_of (pl_entries l') = map_of (pl_entries l))"
proof -
  have stale: "stale_note tf x err \<noteq> []" for x err by (simp add: stale_note_def)
  obtain v where v: "lock_world w = Inr v" "refreshPreloadList tf v = (Inr l, w1)"
    using assms(1-4) by (auto simp: loadPreloadList_def split: if_splits sum.splits)
  have vw: "pw_fetches v = pw_fetches w" "pw_write v = pw_write w"
    using v(1) by (auto simp: lock_world_def split: sum.splits)
  have w1: "w1 = (snd (do_fetch v))\<lparr>pw_cache := Some (marshalCache tf l (pw_now w1))\<rparr>"
    and f: "pw_fetches w1 = pw_fetches w + 1"
    using v(2) assms(4,5) vw
    by (auto simp: refreshPreloadList_def store_fetched_def write_cache_def do_fetch_def stale_note_def Let_def
      split: if_splits sum.splits option.splits prod.splits)
  have "cachedList tf (w1\<lparr>pw_now := t\<rparr>) =
      Some \<lparr>pl_entries = sorted_entries (pl_entries l), pl_fetched = Some (pw_now w1), pl_note = []\<rparr>"
    using unmarshal_marshal [OF assms(6,7)] by (subst w1) (simp add: cachedList_def)
  then show ?thesis
    using assms(1,2,6,8,9) f by (simp add: loadPreloadList_def fresh_def map_of_sorted_entries storable_def)
qed

definition ex_world :: preload_world where
  "ex_world = \<lparr>pw_cache = None, pw_now = 7, pw_lock = Inr (None, 7), pw_fetch = Inr ex_list, pw_write = None,
     pw_fetches = 0\<rparr>"

theorem load_then_cached_witness:
  "pw_fetches (snd (loadPreloadList ex_time ''hsts.tsv'' ex_world)) = pw_fetches ex_world + 1 \<and>
   (\<exists>l'. loadPreloadList ex_time ''hsts.tsv'' ((snd (loadPreloadList ex_time ''hsts.tsv'' ex_world))\<lparr>pw_now := 99\<rparr>) =
       (Inr l', (snd (loadPreloadList ex_time ''hsts.tsv'' ex_world))\<lparr>pw_now := 99\<rparr>) \<and>
      map_of (pl_entries l') = map_of (pl_entries ex_list))"
proof (rule load_then_cached)
  have *: "loadPreloadList ex_time ''hsts.tsv'' ex_world =
      (Inr ex_list, ex_world\<lparr>pw_fetches := 1, pw_cache := Some (marshalCache ex_time ex_list 7)\<rparr>)"
    by (simp add: loadPreloadList_def noCachePath_def cachedList_def lock_world_def refreshPreloadList_def
      do_fetch_def store_fetched_def write_cache_def ex_world_def)
  show "loadPreloadList ex_time ''hsts.tsv'' ex_world =
      (Inr ex_list, snd (loadPreloadList ex_time ''hsts.tsv'' ex_world))" by (simp add: *)
  show "pw_fetches (snd (loadPreloadList ex_time ''hsts.tsv'' ex_world)) \<noteq> pw_fetches ex_world"
    by (simp add: *) (simp add: ex_world_def)
  show "time_ok ex_time (pw_now (snd (loadPreloadList ex_time ''hsts.tsv'' ex_world)))"
    by (simp add: *) code_simp
  show "pw_now (snd (loadPreloadList ex_time ''hsts.tsv'' ex_world)) \<le> 99" by (simp add: *) (simp add: ex_world_def)
  show "99 < pw_now (snd (loadPreloadList ex_time ''hsts.tsv'' ex_world)) + preloadCacheMaxAge"
    by (simp add: *) (simp add: ex_world_def preloadCacheMaxAge_def)
  show "storable (pl_entries ex_list)" by code_simp
qed (simp_all add: noCachePath_def ex_list_def)

end
