(* ===== verification/Dnssec.thy ===== *)
theory Dnssec
  imports Config
begin

text \<open>
  The DNSSEC verdict: \<open>src/dnssec.go\<close>. The probe run on a failed lookup (dig with and
  without checking) is an argument of the classification, as it is in the source; the
  production probe, which reads dig's output, is at the end.
\<close>

datatype DNSSECState =
  DNSSECNone | DNSSECSecure | DNSSECInsecure | DNSSECIsland | DNSSECBogus | DNSSECServfail
  | DNSSECUnknown | DNSSECNonexistent

record DNSSECReport =
  ds_State :: DNSSECState
  ds_DS :: bool
  ds_DNSKEY :: bool
  ds_EDE :: string
  ds_Detail :: string

type_synonym bogusProbe = "string \<Rightarrow> string \<Rightarrow> bool \<times> string"

section \<open>Classification\<close>

definition nonexistentState :: "DNSSECReport \<Rightarrow> Lookup \<Rightarrow> DNSSECReport" where
  "nonexistentState rep ds =
     rep\<lparr>ds_State := DNSSECNonexistent,
         ds_Detail :=
           (if lk_Trust ds = TrustSecure
            then ''the name does not exist (NXDOMAIN); the parent's denial of existence was DNSSEC-validated''
            else ''the name does not exist (NXDOMAIN); the parent's denial of existence was not validated'')\<rparr>"

definition nameDoesNotExist :: "lookups \<Rightarrow> bool" where
  "nameDoesNotExist apex \<longleftrightarrow>
     lk_Status (at apex ''NS'') = StatusNXDomain \<or> lk_Status (at apex ''A'') = StatusNXDomain"

definition signedState :: "DNSSECReport \<Rightarrow> Trust \<Rightarrow> DNSSECReport" where
  "signedState rep trust =
     (case trust of
        TrustSecure \<Rightarrow> rep\<lparr>ds_State := DNSSECSecure\<rparr>
      | TrustInsecure \<Rightarrow> rep\<lparr>ds_State := DNSSECInsecure,
          ds_Detail := ''DS and DNSKEY are published, but the validator treated the zone as unsigned''\<rparr>
      | _ \<Rightarrow> rep\<lparr>ds_State := DNSSECUnknown,
          ds_Detail := ''DS and DNSKEY are published, but the validator reported no validation status for the DNSKEY answer''\<rparr>)"

text \<open>The loop of \<open>classifyByTrust\<close>: how many answers are secure and insecure.\<close>

definition trust_step :: "string \<times> Lookup \<Rightarrow> nat \<times> nat \<Rightarrow> nat \<times> nat" where
  "trust_step e n =
     (case (e, n) of ((_, l), (secure, insecure)) \<Rightarrow>
        if \<not> Answered l then (secure, insecure)
        else if lk_Trust l = TrustSecure then (Suc secure, insecure)
        else if lk_Trust l = TrustInsecure then (secure, Suc insecure)
        else (secure, insecure))"

definition classifyByTrust :: "lookups \<Rightarrow> DNSSECReport" where
  "classifyByTrust apex =
     (case fold trust_step apex (0, 0) of (secure, insecure) \<Rightarrow>
        \<lparr>ds_State = (if insecure > 0 then DNSSECInsecure
                     else if secure > 0 then DNSSECSecure else DNSSECUnknown),
         ds_DS = False, ds_DNSKEY = False, ds_EDE = [],
         ds_Detail = ''not a zone apex; state taken from answer validation''\<rparr>)"

fun first_failed_type :: "string list \<Rightarrow> lookups \<Rightarrow> Lookup option" where
  "first_failed_type [] apex = None"
| "first_failed_type (t # ts) apex =
     (case map_of apex t of
        Some l \<Rightarrow> if lk_Status l = StatusFailure then Some l else first_failed_type ts apex
      | None \<Rightarrow> first_failed_type ts apex)"

definition firstFailed :: "Lookup \<Rightarrow> Lookup \<Rightarrow> lookups \<Rightarrow> Lookup option" where
  "firstFailed ds dnskey apex =
     (case first_failed_type apexTypes apex of
        Some l \<Rightarrow> Some l
      | None \<Rightarrow> find (\<lambda>l. lk_Status l = StatusFailure) [ds, dnskey])"

definition unsignedDelegation :: "Lookup \<Rightarrow> bool" where
  "unsignedDelegation ds \<longleftrightarrow> lk_Status ds = StatusNXRRSet"

definition classifyFailure ::
    "DNSSECReport \<Rightarrow> Lookup \<Rightarrow> bogusProbe option \<Rightarrow> bool \<Rightarrow> DNSSECReport" where
  "classifyFailure rep failed probe uns =
     (case probe of
        None \<Rightarrow> rep\<lparr>ds_State := DNSSECServfail, ds_Detail := lk_Error failed\<rparr>
      | Some p \<Rightarrow>
          (case p (lk_Name failed) (lk_Type failed) of (hasData, ede) \<Rightarrow>
             let rep = rep\<lparr>ds_EDE := ede\<rparr> in
             if hasData \<and> uns then
               rep\<lparr>ds_State := DNSSECServfail,
                   ds_Detail := ''resolver failed, then answered with checking disabled; the zone is unsigned, so this is not a validation failure''\<rparr>
             else if hasData then
               rep\<lparr>ds_State := DNSSECBogus,
                   ds_Detail := ''resolver fails validation but data exists with checking disabled''\<rparr>
             else
               rep\<lparr>ds_State := DNSSECServfail,
                   ds_Detail := ''resolver failed and returned no data even with checking disabled''\<rparr>))"

definition classifyDNSSEC ::
    "Lookup \<Rightarrow> Lookup \<Rightarrow> lookups \<Rightarrow> bogusProbe option \<Rightarrow> DNSSECReport" where
  "classifyDNSSEC ds dnskey apex probe =
     (let rep = \<lparr>ds_State = DNSSECNone, ds_DS = HasRecords ds, ds_DNSKEY = HasRecords dnskey,
                 ds_EDE = [], ds_Detail = []\<rparr> in
      case firstFailed ds dnskey apex of
        Some failed \<Rightarrow>
          if lk_unqueryable failed
          then rep\<lparr>ds_State := DNSSECUnknown, ds_Detail := lk_Error failed\<rparr>
          else classifyFailure rep failed probe (unsignedDelegation ds)
      | None \<Rightarrow>
          if \<not> Answered ds \<or> \<not> Answered dnskey then
            rep\<lparr>ds_State := DNSSECUnknown, ds_Detail := ''DS or DNSKEY lookup did not complete''\<rparr>
          else if nameDoesNotExist apex then nonexistentState rep ds
          else if ds_DS rep \<and> ds_DNSKEY rep then signedState rep (lk_Trust dnskey)
          else if ds_DNSKEY rep then
            rep\<lparr>ds_State := DNSSECIsland, ds_Detail := ''zone publishes DNSKEY but parent has no DS''\<rparr>
          else if ds_DS rep then
            rep\<lparr>ds_State := DNSSECBogus, ds_Detail := ''parent has DS but zone publishes no DNSKEY''\<rparr>
          else rep\<lparr>ds_State := DNSSECInsecure\<rparr>)"

section \<open>Reading dig's output\<close>

text \<open>
  The regular expressions are anchored at line starts (\<open>(?m)^\<close>): \<open>at_lines f\<close> tries a
  match at the start of the text and after every newline and keeps the first. The white space
  of a regular expression (\<open>\s\<close>) has no vertical tab.
\<close>

fun line_starts :: "string \<Rightarrow> string list" where
  "line_starts [] = []"
| "line_starts (c # s) = (if c = CHR 0x0A then s # line_starts s else line_starts s)"

definition at_lines :: "(string \<Rightarrow> string option) \<Rightarrow> string \<Rightarrow> string option" where
  "at_lines f out =
     (case List.map_filter f (out # line_starts out) of [] \<Rightarrow> None | m # _ \<Rightarrow> Some m)"

definition after_key :: "string \<Rightarrow> string \<Rightarrow> string option" where
  "after_key key s =
     (let t = dropWhile re_space s
      in if HasPrefix t key then Some (drop (length key) t) else None)"

definition nonempty :: "string \<Rightarrow> string option" where
  "nonempty s = (if s = [] then None else Some s)"

definition digStatus :: "string \<Rightarrow> string option" where
  "digStatus out = at_lines (\<lambda>s. Option.bind (after_key ''status:'' s)
     (\<lambda>r. nonempty (takeWhile (\<lambda>c. \<not> re_space c) (dropWhile re_space r)))) out"

definition digAnswer :: "string \<Rightarrow> string option" where
  "digAnswer out = at_lines (\<lambda>s. Option.bind (after_key ''ANSWER:'' s)
     (\<lambda>r. nonempty (takeWhile is_digit (dropWhile re_space r)))) out"

text \<open>\<open>INFO-CODE:\s*(.+?)\s*$\<close> captures the rest of the line without the white space around
  it. With nothing but white space after the key, backtracking leaves the group the last
  character that is not a newline.\<close>

definition digInfoCode :: "string \<Rightarrow> string option" where
  "digInfoCode out = at_lines (\<lambda>s. Option.bind (after_key ''INFO-CODE:'' s)
     (\<lambda>r. case dropWhile re_space r of
            [] \<Rightarrow> (case filter (\<lambda>c. c \<noteq> CHR 0x0A) r of [] \<Rightarrow> None | xs \<Rightarrow> Some [last xs])
          | t \<Rightarrow> Some (TrimRightFunc re_space (takeWhile (\<lambda>c. c \<noteq> CHR 0x0A) t)))) out"

text \<open>\<open>EXTRA-TEXT:\s*"(.*)"\s*$\<close> captures up to the last quote of the line.\<close>

definition digExtraText :: "string \<Rightarrow> string option" where
  "digExtraText out = at_lines (\<lambda>s. Option.bind (after_key ''EXTRA-TEXT:'' s)
     (\<lambda>r. case dropWhile re_space r of
            [] \<Rightarrow> None
          | q # t \<Rightarrow>
              let line = TrimRightFunc re_space (takeWhile (\<lambda>c. c \<noteq> CHR 0x0A) t)
              in if q = CHR 0x22 \<and> line \<noteq> [] \<and> last line = CHR 0x22
                 then Some (butlast line) else None)) out"

definition digHasData :: "string \<Rightarrow> bool" where
  "digHasData out =
     (case (digStatus out, digAnswer out) of
        (Some st, Some an) \<Rightarrow>
          if st \<noteq> ''NOERROR'' then False else (case Atoi an of (n, ok) \<Rightarrow> ok \<and> n > 0)
      | _ \<Rightarrow> False)"

definition digEDE :: "string \<Rightarrow> string" where
  "digEDE out =
     (case digInfoCode out of
        None \<Rightarrow> []
      | Some code \<Rightarrow>
          (case digExtraText out of
             Some text \<Rightarrow> if text \<noteq> [] then code @ '': '' @ text else code
           | None \<Rightarrow> code))"

definition digArgs :: "resolver \<Rightarrow> bool \<Rightarrow> int \<Rightarrow> string \<Rightarrow> string \<Rightarrow> string list" where
  "digArgs res cd timeoutSec name qtype =
     [''+yaml'', ''+tries=1'', ''+time='' @ Itoa (maxInt 1 timeoutSec)] @
     (if cd then [''+cd''] else []) @ resolver_args res @ [name, qtype]"

definition newBogusProbe :: "runner \<Rightarrow> string \<Rightarrow> resolver \<Rightarrow> int \<Rightarrow> bogusProbe" where
  "newBogusProbe run digPath res timeoutSec name qtype =
     (let cdOut = tool_out (run digPath (digArgs res True timeoutSec name qtype));
          plainOut = tool_out (run digPath (digArgs res False timeoutSec name qtype))
      in (digHasData cdOut, TrimSpace (digEDE plainOut)))"

section \<open>Lemmas\<close>

interpretation trust_count: order_free trust_step
  by unfold_locales (auto simp: trust_step_def split: prod.splits)

lemma trust_fold:
  "fold trust_step apex n =
     (fst n + length (filter (\<lambda>e. Answered (snd e) \<and> lk_Trust (snd e) = TrustSecure) apex),
      snd n + length (filter (\<lambda>e. Answered (snd e) \<and> lk_Trust (snd e) = TrustInsecure) apex))"
  by (induction apex arbitrary: n) (auto simp: trust_step_def split: prod.splits)

lemma first_failed_type_status:
  "first_failed_type ts apex = Some l \<Longrightarrow> lk_Status l = StatusFailure"
  by (induction ts) (auto split: option.splits if_splits)

lemma firstFailed_status: "firstFailed ds dnskey apex = Some l \<Longrightarrow> lk_Status l = StatusFailure"
  by (auto simp: firstFailed_def dest: first_failed_type_status split: option.splits if_splits)

lemma firstFailed_None:
  "firstFailed ds dnskey apex = None \<Longrightarrow>
     lk_Status ds \<noteq> StatusFailure \<and> lk_Status dnskey \<noteq> StatusFailure"
  by (auto simp: firstFailed_def split: option.splits if_splits)

lemma classifyFailure_state:
  "ds_State (classifyFailure rep failed probe uns) =
     (case probe of
        Some p \<Rightarrow> if fst (p (lk_Name failed) (lk_Type failed)) \<and> \<not> uns
                  then DNSSECBogus else DNSSECServfail
      | None \<Rightarrow> DNSSECServfail)"
  by (auto simp: classifyFailure_def Let_def split: option.splits prod.splits)

lemma signedState_state:
  "ds_State (signedState rep trust) =
     (case trust of TrustSecure \<Rightarrow> DNSSECSecure | TrustInsecure \<Rightarrow> DNSSECInsecure
      | _ \<Rightarrow> DNSSECUnknown)"
  by (simp add: signedState_def split: Trust.splits)

lemma nonexistentState_state [simp]: "ds_State (nonexistentState rep ds) = DNSSECNonexistent"
  by (simp add: nonexistentState_def)

text \<open>The state of the verdict, branch by branch.\<close>

lemma classifyDNSSEC_state:
  "ds_State (classifyDNSSEC ds dnskey apex probe) =
     (case firstFailed ds dnskey apex of
        Some failed \<Rightarrow>
          if lk_unqueryable failed then DNSSECUnknown
          else (case probe of
                  Some p \<Rightarrow> if fst (p (lk_Name failed) (lk_Type failed)) \<and> \<not> unsignedDelegation ds
                            then DNSSECBogus else DNSSECServfail
                | None \<Rightarrow> DNSSECServfail)
      | None \<Rightarrow>
          if \<not> Answered ds \<or> \<not> Answered dnskey then DNSSECUnknown
          else if nameDoesNotExist apex then DNSSECNonexistent
          else if HasRecords ds \<and> HasRecords dnskey then
            (case lk_Trust dnskey of TrustSecure \<Rightarrow> DNSSECSecure | TrustInsecure \<Rightarrow> DNSSECInsecure
             | _ \<Rightarrow> DNSSECUnknown)
          else if HasRecords dnskey then DNSSECIsland
          else if HasRecords ds then DNSSECBogus
          else DNSSECInsecure)"
  by (cases "firstFailed ds dnskey apex")
    (auto simp: classifyDNSSEC_def Let_def classifyFailure_state signedState_state)

lemmas classifyDNSSEC_splits = option.splits if_splits Trust.splits

section \<open>Properties\<close>

text \<open>
  C30. A zone is called secure only on positive evidence: DS at the parent and DNSKEY in the
  zone were both answered with records, the resolver authenticated the DNSKEY answer, no
  lookup of the zone failed and the name exists.
\<close>

theorem secure_needs_validated_keys:
  "ds_State (classifyDNSSEC ds dnskey apex probe) = DNSSECSecure \<longleftrightarrow>
     firstFailed ds dnskey apex = None \<and> \<not> nameDoesNotExist apex \<and>
     HasRecords ds \<and> HasRecords dnskey \<and> lk_Trust dnskey = TrustSecure"
  by (auto simp: classifyDNSSEC_state HasRecords_Answered split: classifyDNSSEC_splits)

text \<open>
  C29. What is called bogus, and that an unsigned delegation never is: the state is bogus exactly when the
  parent did not answer that it publishes no DS and either a lookup failed (other than for a name that
  cannot be asked) and then had data with checking disabled, or nothing failed, the name exists and the
  parent has DS where the zone answered that it has no DNSKEY. When the parent answered that it
  publishes no DS, a lookup that fails is a server failure, whatever the probe saw.
\<close>

theorem unsigned_never_bogus:
  fixes ds dnskey :: Lookup and apex :: lookups and probe :: "bogusProbe option"
  defines "st \<equiv> ds_State (classifyDNSSEC ds dnskey apex probe)"
  shows "(st = DNSSECBogus \<longleftrightarrow> lk_Status ds \<noteq> StatusNXRRSet \<and>
      (case firstFailed ds dnskey apex of
         Some l \<Rightarrow> \<not> lk_unqueryable l \<and> (case probe of Some p \<Rightarrow> fst (p (lk_Name l) (lk_Type l)) | None \<Rightarrow> False)
       | None \<Rightarrow> HasRecords ds \<and> Answered dnskey \<and> \<not> HasRecords dnskey \<and> \<not> nameDoesNotExist apex)) \<and>
    (if lk_Status ds = StatusNXRRSet
     then case firstFailed ds dnskey apex of
            Some l \<Rightarrow> st = (if lk_unqueryable l then DNSSECUnknown else DNSSECServfail)
          | None \<Rightarrow> st \<notin> {DNSSECBogus, DNSSECServfail, DNSSECSecure}
     else True)"
  by (auto simp: st_def classifyDNSSEC_state unsignedDelegation_def HasRecords_def HasRecords_Answered Answered_def
      split: classifyDNSSEC_splits)

definition ex_lookup :: "LookupStatus \<Rightarrow> Lookup" where
  "ex_lookup st = zero_Lookup\<lparr>lk_Status := st\<rparr>"

text \<open>
  A verdict on the zone's signatures needs every lookup it rests on to have answered: when
  the DS or DNSKEY lookup timed out and nothing failed, the state is unknown; a failed lookup
  never ends as secure, insecure or island.
\<close>

theorem unanswered_never_verdict:
  "(firstFailed ds dnskey apex = None \<and> \<not> (Answered ds \<and> Answered dnskey) \<longrightarrow>
      ds_State (classifyDNSSEC ds dnskey apex probe) = DNSSECUnknown) \<and>
   (firstFailed ds dnskey apex \<noteq> None \<longrightarrow>
      ds_State (classifyDNSSEC ds dnskey apex probe) \<in> {DNSSECUnknown, DNSSECBogus, DNSSECServfail})"
  by (auto simp: classifyDNSSEC_state split: classifyDNSSEC_splits)

theorem unanswered_never_verdict_witness:
  "ds_State (classifyDNSSEC (ex_lookup StatusTimeout) (ex_lookup StatusOK) [] None) = DNSSECUnknown"
proof -
  have "firstFailed (ex_lookup StatusTimeout) (ex_lookup StatusOK) [] = None"
    by (simp add: firstFailed_def apexTypes_def ex_lookup_def)
  moreover have "\<not> Answered (ex_lookup StatusTimeout)" by (simp add: ex_lookup_def Answered_def)
  ultimately show ?thesis using unanswered_never_verdict by blast
qed

text \<open>
  For a name that is no zone apex the verdict is the weakest trust seen: insecure as soon
  as one answered lookup is insecure, secure when some answered lookup validated and none is
  insecure, unknown otherwise; and it is the same for every order in which Go visits the map.
\<close>

theorem classifyByTrust_verdict:
  "ds_State (classifyByTrust apex) =
     (if \<exists>e\<in>set apex. Answered (snd e) \<and> lk_Trust (snd e) = TrustInsecure then DNSSECInsecure
      else if \<exists>e\<in>set apex. Answered (snd e) \<and> lk_Trust (snd e) = TrustSecure then DNSSECSecure
      else DNSSECUnknown) \<and>
   (\<forall>apex'. mset apex = mset apex' \<longrightarrow> classifyByTrust apex = classifyByTrust apex')"
proof (intro conjI allI impI)
  fix apex' assume "mset apex = mset apex'"
  then show "classifyByTrust apex = classifyByTrust apex'"
    by (simp add: classifyByTrust_def trust_count.fold_order_free [of apex apex'])
qed (auto simp: classifyByTrust_def trust_fold filter_empty_conv)

theorem classifyByTrust_verdict_witness:
  "classifyByTrust [(''A'', ex_lookup StatusOK), (''NS'', (ex_lookup StatusOK)\<lparr>lk_Trust := TrustSecure\<rparr>)]
   = classifyByTrust [(''NS'', (ex_lookup StatusOK)\<lparr>lk_Trust := TrustSecure\<rparr>), (''A'', ex_lookup StatusOK)]"
  using classifyByTrust_verdict by simp

end
