(* ===== verification/Dig.thy ===== *)
theory Dig
  imports Config
begin

text \<open>
  The parser of \<open>dig +yaml\<close>: \<open>src/dig.go\<close>. The pointer \<open>cur\<close> always points at
  the last message of the slice, so the state keeps that message apart from the ones before it.
\<close>

record digMessage =
  dg_Status :: string
  dg_Flags :: "string list"
  dg_Protocol :: string
  dg_Answer :: "RR list"
  dg_Authority :: "RR list"
  dg_Additional :: "RR list"
  dg_OPT :: bool
  dg_EDNSFlags :: "string list"
  dg_Error :: string

definition zero_digMessage :: digMessage where
  "zero_digMessage = \<lparr>dg_Status = [], dg_Flags = [], dg_Protocol = [], dg_Answer = [], dg_Authority = [],
     dg_Additional = [], dg_OPT = False, dg_EDNSFlags = [], dg_Error = []\<rparr>"

definition hasFlag :: "digMessage \<Rightarrow> string \<Rightarrow> bool" where
  "hasFlag m f = list_ex (\<lambda>x. x = f) (dg_Flags m)"

definition dig_records :: "digMessage \<Rightarrow> string \<Rightarrow> RR list" where
  "dig_records m rtype = filter (\<lambda>rr. rr_Type rr = rtype) (dg_Answer m)"

definition appendSection :: "digMessage \<Rightarrow> string \<Rightarrow> RR \<Rightarrow> digMessage" where
  "appendSection m section rr =
     (if section = ''ANSWER'' then m\<lparr>dg_Answer := dg_Answer m @ [rr]\<rparr>
      else if section = ''AUTHORITY'' then m\<lparr>dg_Authority := dg_Authority m @ [rr]\<rparr>
      else if section = ''ADDITIONAL'' then m\<lparr>dg_Additional := dg_Additional m @ [rr]\<rparr>
      else m)"

text \<open>\<open>parseDigLine\<close>, with the section and the EDNS flag it points at.\<close>

definition parseDigLine :: "digMessage \<Rightarrow> string \<Rightarrow> string \<Rightarrow> bool \<Rightarrow> digMessage \<times> string \<times> bool" where
  "parseDigLine m line section inEDNS =
     (if HasPrefix line ''socket_protocol:'' then
        (m\<lparr>dg_Protocol := TrimSpace (TrimPrefix line ''socket_protocol:'')\<rparr>, section, inEDNS)
      else if HasPrefix line ''status:'' then
        (m\<lparr>dg_Status := TrimSpace (TrimPrefix line ''status:'')\<rparr>, section, inEDNS)
      else if line = ''OPT_PSEUDOSECTION:'' then (m, section, True)
      else if line = ''EDNS:'' then (m\<lparr>dg_OPT := True\<rparr>, section, inEDNS)
      else if HasPrefix line ''flags:'' then
        (let fields = Fields (TrimPrefix line ''flags:'')
         in (if inEDNS then m\<lparr>dg_EDNSFlags := fields\<rparr> else m\<lparr>dg_Flags := fields\<rparr>, section, inEDNS))
      else if HasSuffix line ''_SECTION:'' then (m, TrimSuffix line ''_SECTION:'', False)
      else if HasPrefix line (''- '' @ [CHR 0x27]) then
        (case parseRR (unquoteYAML (drop 2 line)) of
           Some rr \<Rightarrow> (appendSection m section rr, section, inEDNS)
         | None \<Rightarrow> (m, section, inEDNS))
      else (m, section, inEDNS))"

record dig_state =
  dy_done :: "digMessage list"
  dy_cur :: "digMessage option"
  dy_section :: string
  dy_inEDNS :: bool
  dy_inError :: bool

definition dy_msgs :: "dig_state \<Rightarrow> digMessage list" where
  "dy_msgs st = dy_done st @ (case dy_cur st of None \<Rightarrow> [] | Some m \<Rightarrow> [m])"

definition new_message :: "bool \<Rightarrow> dig_state \<Rightarrow> dig_state" where
  "new_message err st =
     \<lparr>dy_done = dy_msgs st, dy_cur = Some zero_digMessage, dy_section = [], dy_inEDNS = False,
      dy_inError = err\<rparr>"

definition dig_step :: "string \<Rightarrow> dig_state \<Rightarrow> dig_state" where
  "dig_step raw st =
     (let line = TrimSpace raw
      in if line = ''- type: MESSAGE'' then new_message False st
         else if line = ''- type: DIG_ERROR'' then new_message True st
         else case dy_cur st of
           None \<Rightarrow> st
         | Some m \<Rightarrow>
             if dy_inError st then
               (if \<not> HasPrefix line ''message:'' \<and> line \<noteq> []
                then st\<lparr>dy_cur := Some (m\<lparr>dg_Error := TrimSpace (dg_Error m @ '' '' @ line)\<rparr>)\<rparr> else st)
             else (case parseDigLine m line (dy_section st) (dy_inEDNS st) of (m', section, inEDNS) \<Rightarrow>
                     st\<lparr>dy_cur := Some m', dy_section := section, dy_inEDNS := inEDNS\<rparr>))"

definition parseDigYAML :: "string \<Rightarrow> digMessage list" where
  "parseDigYAML out =
     dy_msgs (fold dig_step (Split CHR 0x0A out)
       \<lparr>dy_done = [], dy_cur = None, dy_section = [], dy_inEDNS = False, dy_inError = False\<rparr>)"

definition runDig :: "runner \<Rightarrow> string \<Rightarrow> string list \<Rightarrow> digMessage list" where
  "runDig run digPath args =
     (let r = run digPath args
      in if tool_timeout r then [zero_digMessage\<lparr>dg_Error := ''dig timed out''\<rparr>]
         else let msgs = parseDigYAML (tool_out r)
              in if msgs = [] then
                   (let detail = TrimSpace (tool_err r);
                        detail = (case tool_error r of
                                    Some (_, e) \<Rightarrow> if detail = [] then e else detail
                                  | None \<Rightarrow> detail)
                    in [zero_digMessage\<lparr>dg_Error := firstNonEmpty [detail, ''dig produced no output'']\<rparr>])
                 else msgs)"

section \<open>Lemmas\<close>

definition is_marker :: "string \<Rightarrow> bool" where
  "is_marker raw \<longleftrightarrow> TrimSpace raw = ''- type: MESSAGE'' \<or> TrimSpace raw = ''- type: DIG_ERROR''"

lemma dig_step_count: "length (dy_msgs (dig_step raw st)) = length (dy_msgs st) + (if is_marker raw then 1 else 0)"
proof (cases "is_marker raw")
  case True
  then show ?thesis by (auto simp: dig_step_def is_marker_def new_message_def dy_msgs_def)
next
  case False
  then show ?thesis
    by (cases "dy_cur st")
      (simp_all add: dig_step_def Let_def is_marker_def dy_msgs_def case_prod_beta)
qed

lemma fold_dig_step_count:
  "length (dy_msgs (fold dig_step ls st)) = length (dy_msgs st) + length (filter is_marker ls)"
  by (induction ls arbitrary: st) (auto simp: dig_step_count)

text \<open>A run of dig gives at least one message.\<close>

lemma runDig_not_Nil: "runDig run digPath args \<noteq> []"
  by (simp add: runDig_def Let_def)

section \<open>Properties\<close>

text \<open>
  Every message of the output is kept, in whatever state the parser is when it begins: there
  are as many messages as lines that open one.
\<close>
theorem parseDigYAML_count:
  "length (parseDigYAML out) = length (filter is_marker (Split CHR 0x0A out))"
  by (simp add: parseDigYAML_def fold_dig_step_count) (simp add: dy_msgs_def)

end
