(* ===== verification/Trace.thy ===== *)
theory Trace
  imports Dnssec Dig
begin

text \<open>
  The delegation trace: \<open>src/trace.go\<close>. \<open>alive\<close> says whether the context is still alive
  (\<open>ctx.Err() == nil\<close>) once the trace has ended.
\<close>

datatype DelegationStatus =
  DelegationNone | DelegationMatch | DelegationMismatch | DelegationNotDelegated |
  DelegationNoChildAnswer | DelegationSameServers | DelegationChildNoNS | DelegationNotAZone |
  DelegationReservedName | DelegationError

record Delegation =
  de_Status :: DelegationStatus
  de_ParentNS :: "string list"
  de_ParentServer :: string
  de_ChildNS :: "string list"
  de_ChildServer :: string
  de_ParentOnly :: "string list"
  de_ChildOnly :: "string list"
  de_Error :: string

definition zero_Delegation :: Delegation where
  "zero_Delegation = \<lparr>de_Status = DelegationNone, de_ParentNS = [], de_ParentServer = [], de_ChildNS = [],
     de_ChildServer = [], de_ParentOnly = [], de_ChildOnly = [], de_Error = []\<rparr>"

record traceBlock =
  tb_RRs :: "RR list"
  tb_Server :: string
  tb_IP :: string

definition zero_traceBlock :: traceBlock where
  "zero_traceBlock = \<lparr>tb_RRs = [], tb_Server = [], tb_IP = []\<rparr>"

definition nsFor :: "dp_lib \<Rightarrow> traceBlock \<Rightarrow> string \<Rightarrow> string list" where
  "nsFor lib b fqdn =
     sort (List.map_filter
       (\<lambda>rr. if rr_Type rr = ''NS'' \<and> rr_Owner rr = fqdn
             then let f = fqdnOf lib (rr_RData rr) in if f \<noteq> [] then Some f else None
             else None) (tb_RRs b))"

definition hasSOA :: "traceBlock \<Rightarrow> bool" where
  "hasSOA b = list_ex (\<lambda>rr. rr_Type rr = ''SOA'') (tb_RRs b)"

definition hasSOAFor :: "traceBlock \<Rightarrow> string \<Rightarrow> bool" where
  "hasSOAFor b fqdn = list_ex (\<lambda>rr. rr_Type rr = ''SOA'' \<and> rr_Owner rr = fqdn) (tb_RRs b)"

section \<open>Reading the trace\<close>

text \<open>\<open>receivedRe\<close>: the address is the shortest text before a \<open>#port(\<close>, the name the
  longest text up to a closing parenthesis, both without white space.\<close>

definition server_name :: "string \<Rightarrow> string option" where
  "server_name s =
     (let run = takeWhile (\<lambda>c. \<not> re_space c) s;
          ks = filter (\<lambda>k. run ! k = CHR '')'') [1..<length run]
      in if ks = [] then None else Some (take (last ks) run))"

definition after_port :: "string \<Rightarrow> string option" where
  "after_port s =
     (let digits = takeWhile is_digit s; rest = drop (length digits) s
      in if digits \<noteq> [] \<and> HasPrefix rest ''('' then server_name (tl rest) else None)"

definition ip_and_server :: "string \<Rightarrow> (string \<times> string) option" where
  "ip_and_server s =
     (let run = takeWhile (\<lambda>c. \<not> re_space c) s
      in case filter (\<lambda>i. run ! i = CHR ''#'' \<and> after_port (drop (Suc i) s) \<noteq> None) [1..<length run] of
           [] \<Rightarrow> None
         | i # _ \<Rightarrow> Some (take i run, the (after_port (drop (Suc i) s))))"

definition receivedRe :: "string \<Rightarrow> (string \<times> string) option" where
  "receivedRe line =
     (if \<not> HasPrefix line '';; Received '' then None
      else let t = drop 12 line; digits = takeWhile is_digit t; rest = drop (length digits) t
           in if digits \<noteq> [] \<and> HasPrefix rest '' bytes from '' then ip_and_server (drop 12 rest) else None)"

record trace_state =
  tr_blocks :: "traceBlock list"
  tr_diags :: "string list"
  tr_cur :: traceBlock

definition trace_step :: "string \<Rightarrow> trace_state \<Rightarrow> trace_state" where
  "trace_step raw st =
     (let line = TrimSpace raw
      in if line = [] then st
         else if HasPrefix line '';; Received'' then
           (let cur = (case receivedRe line of
                         Some (ip, server) \<Rightarrow> (tr_cur st)\<lparr>tb_IP := ip, tb_Server := server\<rparr>
                       | None \<Rightarrow> tr_cur st)
            in st\<lparr>tr_blocks := tr_blocks st @ [cur], tr_cur := zero_traceBlock\<rparr>)
         else if HasPrefix line '';; communications error'' \<or> HasPrefix line '';; connection timed out'' \<or>
                 HasPrefix line '';; no servers could be reached'' then
           st\<lparr>tr_diags := tr_diags st @ [TrimPrefix line '';; '']\<rparr>
         else if HasPrefix line '';'' then st
         else case parseRR line of
           Some rr \<Rightarrow> st\<lparr>tr_cur := (tr_cur st)\<lparr>tb_RRs := tb_RRs (tr_cur st) @ [rr]\<rparr>\<rparr>
         | None \<Rightarrow> st)"

definition parseTrace :: "string \<Rightarrow> traceBlock list \<times> string list" where
  "parseTrace out =
     (let st = fold trace_step (Split CHR 0x0A out)
                 \<lparr>tr_blocks = [], tr_diags = [], tr_cur = zero_traceBlock\<rparr>
      in (if tb_RRs (tr_cur st) \<noteq> [] then tr_blocks st @ [tr_cur st] else tr_blocks st, tr_diags st))"

section \<open>Parent and child\<close>

definition setDiff :: "string list \<Rightarrow> string list \<Rightarrow> string list" where
  "setDiff a b = sort (filter (\<lambda>s. s \<notin> set b) a)"

definition soaOnlyChild :: "traceBlock list \<Rightarrow> string \<Rightarrow> traceBlock option" where
  "soaOnlyChild after fqdn = find (\<lambda>b. hasSOAFor b fqdn) after"

definition classifyChildNoNS ::
    "dp_lib \<Rightarrow> Delegation \<Rightarrow> traceBlock \<Rightarrow> traceBlock \<Rightarrow> string \<Rightarrow> Delegation" where
  "classifyChildNoNS lib d parent child fqdn =
     d\<lparr>de_Status := DelegationChildNoNS, de_ParentNS := nsFor lib parent fqdn,
       de_ParentServer := tb_Server parent, de_ChildServer := tb_Server child,
       de_ParentOnly := nsFor lib parent fqdn,
       de_Error := (if de_Error d = []
                    then ''zone at '' @ tb_Server child @ '' has a SOA but no NS records'' else de_Error d)\<rparr>"

definition classifySingleBlock :: "dp_lib \<Rightarrow> Delegation \<Rightarrow> traceBlock \<Rightarrow> string \<Rightarrow> Delegation" where
  "classifySingleBlock lib d b fqdn =
     (let ns = nsFor lib b fqdn; server = fqdnOf lib (tb_Server b)
      in if list_ex (\<lambda>n. n = server) ns then
           d\<lparr>de_Status := DelegationSameServers, de_ParentNS := ns, de_ParentServer := tb_Server b,
             de_ChildNS := ns, de_ChildServer := tb_Server b\<rparr>
         else d\<lparr>de_Status := DelegationNoChildAnswer, de_ParentNS := ns, de_ParentServer := tb_Server b\<rparr>)"

definition classifyNoNS :: "Delegation \<Rightarrow> traceBlock list \<Rightarrow> Delegation" where
  "classifyNoNS d blocks =
     (if blocks = [] then
        d\<lparr>de_Status := DelegationError,
          de_Error := (if de_Error d = [] then ''dig +trace produced no responses'' else de_Error d)\<rparr>
      else if hasSOA (last blocks) then
        d\<lparr>de_Status := DelegationNotDelegated, de_ParentServer := tb_Server (last blocks)\<rparr>
      else d\<lparr>de_Status := DelegationError,
             de_Error := (if de_Error d = []
                          then ''trace ended at '' @ tb_Server (last blocks) @ '' without an NS answer for the domain''
                          else de_Error d)\<rparr>)"

text \<open>The blocks from the last one with an NS answer on, which \<open>blocks[lastNS+1:]\<close> follows.\<close>

definition after_last_ns :: "dp_lib \<Rightarrow> string \<Rightarrow> traceBlock list \<Rightarrow> traceBlock list" where
  "after_last_ns lib fqdn blocks = rev (takeWhile (\<lambda>b. nsFor lib b fqdn = []) (rev blocks))"

definition compareDelegation :: "dp_lib \<Rightarrow> traceBlock list \<Rightarrow> string list \<Rightarrow> string \<Rightarrow> Delegation" where
  "compareDelegation lib blocks diags domain =
     (let fqdn = fqdnOf lib domain;
          withNS = filter (\<lambda>b. nsFor lib b fqdn \<noteq> []) blocks;
          d = (if diags \<noteq> [] then zero_Delegation\<lparr>de_Error := Join ''; '' diags\<rparr> else zero_Delegation)
      in case withNS of
           [] \<Rightarrow> classifyNoNS d blocks
         | [b] \<Rightarrow>
             (case soaOnlyChild (after_last_ns lib fqdn blocks) fqdn of
                Some child \<Rightarrow> classifyChildNoNS lib d b child fqdn
              | None \<Rightarrow> classifySingleBlock lib d b fqdn)
         | parent # b # bs \<Rightarrow>
             (let child = last (b # bs); p = nsFor lib parent fqdn; c = nsFor lib child fqdn;
                  po = setDiff p c; co = setDiff c p
              in d\<lparr>de_ParentNS := p, de_ParentServer := tb_Server parent, de_ChildNS := c,
                   de_ChildServer := tb_Server child, de_ParentOnly := po, de_ChildOnly := co,
                   de_Status := (if po = [] \<and> co = [] then DelegationMatch else DelegationMismatch)\<rparr>))"

section \<open>Running the trace\<close>

definition rootServer :: string where "rootServer = ''a.root-servers.net''"

text \<open>Go's integer division truncates towards zero, which for a timeout below 1 the
  \<^const>\<open>maxInt\<close> hides.\<close>

definition half_timeout :: "int \<Rightarrow> int" where
  "half_timeout t = maxInt 1 (if t < 0 then - ((- t) div 2) else t div 2)"

definition family_flag :: "string \<Rightarrow> string" where
  "family_flag family = (if family = familyIPv6 then ''-6'' else ''-4'')"

definition traceArgs :: "string \<Rightarrow> int \<Rightarrow> string \<Rightarrow> string list" where
  "traceArgs family timeoutSec domain =
     [''+trace'', ''+nodnssec'', ''+tries=1'', ''+time='' @ Itoa (half_timeout timeoutSec),
      family_flag family, ''@'' @ rootServer, domain, ''NS'']"

definition authArgs :: "string \<Rightarrow> string \<Rightarrow> int \<Rightarrow> string \<Rightarrow> string list" where
  "authArgs server family timeoutSec domain =
     [''+norecurse'', ''+yaml'', ''+tries=1'', ''+time='' @ Itoa (half_timeout timeoutSec),
      family_flag family, ''@'' @ server, domain, ''NS'']"

definition next_line :: "string \<Rightarrow> string option" where
  "next_line s = (case dropWhile (\<lambda>c. c \<noteq> CHR 0x0A) s of [] \<Rightarrow> None | _ # t \<Rightarrow> Some t)"

lemma next_line_shorter: "next_line s = Some t \<Longrightarrow> length t < length s"
  using length_dropWhile_le [of "\<lambda>c. c \<noteq> CHR 0x0A" s]
  by (auto simp: next_line_def split: list.splits)

lemma after_key_shorter: "after_key key s = Some r \<Longrightarrow> length r \<le> length s"
  using length_dropWhile_le [of re_space s] by (auto simp: after_key_def Let_def split: if_splits)

lemma flags_shorter:
  assumes "after_key key s = Some r" and "next_line (dropWhile re_space r) = Some u"
  shows "length u < length s"
  using after_key_shorter [OF assms(1)] next_line_shorter [OF assms(2)]
    length_dropWhile_le [of re_space r] by simp

text \<open>\<open>digFlagsRe.FindAllStringSubmatch\<close>: the text captured by each match, from a line start
  on; a match may reach over line breaks into the next line that holds a text.\<close>

function flags_lines :: "string \<Rightarrow> string list" where
  "flags_lines s =
     (case after_key ''flags:'' s of
        Some r \<Rightarrow>
          (let t = dropWhile re_space r
           in takeWhile (\<lambda>c. c \<noteq> CHR 0x0A) t #
              (case next_line t of None \<Rightarrow> [] | Some u \<Rightarrow> flags_lines u))
      | None \<Rightarrow> (case next_line s of None \<Rightarrow> [] | Some u \<Rightarrow> flags_lines u))"
  by pat_completeness auto
termination
  by (relation "measure length") (auto dest: next_line_shorter flags_shorter)

declare flags_lines.simps [simp del]

definition digAuthoritative :: "string \<Rightarrow> bool" where
  "digAuthoritative out = list_ex (\<lambda>m. list_ex (\<lambda>f. f = ''aa'') (Fields m)) (flags_lines out)"

definition trace_diags :: "tool_result \<Rightarrow> traceBlock list \<Rightarrow> string list \<Rightarrow> string list" where
  "trace_diags r blocks diags =
     (if tool_timeout r then diags @ [''dig +trace timed out'']
      else case tool_error r of
        Some (_, err) \<Rightarrow>
          if blocks = [] then diags @ [''dig: '' @ err @ '' '' @ TrimSpace (tool_err r)] else diags
      | None \<Rightarrow> diags)"

definition traceDelegation ::
    "dp_lib \<Rightarrow> runner \<Rightarrow> bool \<Rightarrow> string \<Rightarrow> string \<Rightarrow> int \<Rightarrow> string \<Rightarrow> Delegation" where
  "traceDelegation lib run alive digPath family timeoutSec domain =
     (let r = run digPath (traceArgs family timeoutSec domain);
          (blocks, diags) = parseTrace (tool_out r);
          d = compareDelegation lib blocks (trace_diags r blocks diags) domain
      in if de_Status d = DelegationNoChildAnswer \<and> de_ParentServer d \<noteq> [] \<and> alive \<and>
            digAuthoritative (tool_out (run digPath (authArgs (de_ParentServer d) family timeoutSec domain)))
         then d\<lparr>de_Status := DelegationSameServers, de_ChildNS := de_ParentNS d,
                de_ChildServer := de_ParentServer d\<rparr>
         else d)"

section \<open>Lemmas\<close>

lemma setDiff_spec: "sorted (setDiff a b) \<and> set (setDiff a b) = set a - set b"
  by (auto simp: setDiff_def)

lemma setDiff_empty: "setDiff a b = [] \<longleftrightarrow> set a \<subseteq> set b"
  using setDiff_spec [of a b] by (metis Diff_eq_empty_iff set_empty)

lemma classifyNoNS_status:
  "de_Status (classifyNoNS d blocks) \<in> {DelegationError, DelegationNotDelegated}"
  by (simp add: classifyNoNS_def)

section \<open>Properties\<close>

text \<open>
  The delegation is reported as matching exactly when at least two responses carried NS
  records of the domain and the first and the last of them, the parent's referral and the
  child's answer, name the same set of servers; as a mismatch exactly when they differ.
\<close>
theorem compareDelegation_match:
  fixes lib :: dp_lib and blocks :: "traceBlock list" and domain :: string
  defines "ns \<equiv> filter (\<lambda>b. nsFor lib b (fqdnOf lib domain) \<noteq> []) blocks"
  shows "(de_Status (compareDelegation lib blocks diags domain) = DelegationMatch \<longleftrightarrow>
      length ns \<ge> 2 \<and> set (nsFor lib (hd ns) (fqdnOf lib domain)) = set (nsFor lib (last ns) (fqdnOf lib domain))) \<and>
    (de_Status (compareDelegation lib blocks diags domain) = DelegationMismatch \<longleftrightarrow>
      length ns \<ge> 2 \<and> set (nsFor lib (hd ns) (fqdnOf lib domain)) \<noteq> set (nsFor lib (last ns) (fqdnOf lib domain)))"
proof (cases ns)
  case Nil
  then show ?thesis unfolding ns_def by (simp add: compareDelegation_def classifyNoNS_def Let_def)
next
  case (Cons p rest)
  show ?thesis
  proof (cases rest)
    case Nil
    then show ?thesis using Cons unfolding ns_def
      by (simp add: compareDelegation_def classifyChildNoNS_def classifySingleBlock_def Let_def
          split: option.split)
  next
    case (Cons b bs)
    have f: "filter (\<lambda>b. nsFor lib b (fqdnOf lib domain) \<noteq> []) blocks = p # b # bs"
      using \<open>ns = p # rest\<close> Cons unfolding ns_def by simp
    have l: "length ns \<ge> 2" "hd ns = p" "last ns = last (b # bs)" unfolding ns_def f by simp_all
    define P where "P = nsFor lib p (fqdnOf lib domain)"
    define C where "C = nsFor lib (last (b # bs)) (fqdnOf lib domain)"
    have "de_Status (compareDelegation lib blocks diags domain) =
        (if setDiff P C = [] \<and> setDiff C P = [] then DelegationMatch else DelegationMismatch)"
      unfolding compareDelegation_def Let_def f P_def C_def by simp
    then show ?thesis using l by (auto simp: setDiff_empty P_def C_def)
  qed
qed

text \<open>
  A delegation on which the two sides differ names the difference: the servers only the
  parent lists, those only the child lists, both sorted, and at least one of the lists is not
  empty.
\<close>
theorem compareDelegation_mismatch:
  assumes "de_Status (compareDelegation lib blocks diags domain) = DelegationMismatch"
  shows "let d = compareDelegation lib blocks diags domain
    in set (de_ParentOnly d) = set (de_ParentNS d) - set (de_ChildNS d) \<and>
       set (de_ChildOnly d) = set (de_ChildNS d) - set (de_ParentNS d) \<and>
       sorted (de_ParentOnly d) \<and> sorted (de_ChildOnly d) \<and> de_ParentOnly d @ de_ChildOnly d \<noteq> []"
proof -
  define F where "F = filter (\<lambda>b. nsFor lib b (fqdnOf lib domain) \<noteq> []) blocks"
  have "\<exists>p b bs. F = p # b # bs"
    using assms compareDelegation_match [of lib blocks diags domain]
    by (metis F_def Suc_le_length_iff numeral_2_eq_2)
  then obtain p b bs where f: "F = p # b # bs" by blast
  define P where "P = nsFor lib p (fqdnOf lib domain)"
  define C where "C = nsFor lib (last (b # bs)) (fqdnOf lib domain)"
  have d: "de_ParentNS (compareDelegation lib blocks diags domain) = P \<and>
      de_ChildNS (compareDelegation lib blocks diags domain) = C \<and>
      de_ParentOnly (compareDelegation lib blocks diags domain) = setDiff P C \<and>
      de_ChildOnly (compareDelegation lib blocks diags domain) = setDiff C P \<and>
      de_Status (compareDelegation lib blocks diags domain) =
        (if setDiff P C = [] \<and> setDiff C P = [] then DelegationMatch else DelegationMismatch)"
    unfolding compareDelegation_def Let_def F_def [symmetric] f P_def C_def by simp
  then show ?thesis using assms setDiff_spec by (auto simp: Let_def split: if_splits)
qed

text \<open>A parent and a child that list one server more.\<close>

definition ex_trace :: "traceBlock list" where
  "ex_trace =
     [\<lparr>tb_RRs = [\<lparr>rr_Owner = ''d.'', rr_TTL = 60, rr_Type = ''NS'', rr_RData = ''a'', rr_RDLen = 0\<rparr>],
       tb_Server = ''p'', tb_IP = []\<rparr>,
      \<lparr>tb_RRs = [\<lparr>rr_Owner = ''d.'', rr_TTL = 60, rr_Type = ''NS'', rr_RData = ''a'', rr_RDLen = 0\<rparr>,
                 \<lparr>rr_Owner = ''d.'', rr_TTL = 60, rr_Type = ''NS'', rr_RData = ''b'', rr_RDLen = 0\<rparr>],
       tb_Server = ''a'', tb_IP = []\<rparr>]"

definition trace_lib :: dp_lib where
  "trace_lib = \<lparr>Normalize = (\<lambda>s opts. Inr \<lparr>ASCII = s, Unicode = s, KindIP = False, FQDN = s @ ''.''\<rparr>),
     ipnorm_Reserved = (\<lambda>a. []), psl_Lookup = (\<lambda>s b. \<lparr>Suffix = [], Registrable = s, ICANN = True\<rparr>),
     psl_Registrable = (\<lambda>s. (s, True)), psl_RDAPServer = (\<lambda>s. ([], False))\<rparr>"

theorem compareDelegation_mismatch_witness:
  "de_ChildOnly (compareDelegation trace_lib ex_trace [] ''d'') \<noteq> []"
proof -
  have m: "de_Status (compareDelegation trace_lib ex_trace [] ''d'') = DelegationMismatch"
    and p: "de_ParentNS (compareDelegation trace_lib ex_trace [] ''d'') = [''a.'']"
    and c: "de_ChildNS (compareDelegation trace_lib ex_trace [] ''d'') = [''a.'', ''b.'']"
    by code_simp+
  from compareDelegation_mismatch [OF m] show ?thesis unfolding Let_def p c by auto
qed

end
