(* ===== verification/Spf.thy ===== *)
theory Spf
  imports Config
begin

text \<open>
  The SPF evaluator: the SPF part of \<open>src/mail.go\<close>.

  The evaluator walks the include and redirect tree of a policy, counting the terms that cost a
  DNS query. Its state is threaded through every step; besides the fields of the source it
  carries \<open>ev_asked\<close>, the queries put to the resolver so far, newest last, so that the
  number of queries can be stated. \<open>lookup\<close> is the lookup function the source is given.

  \<open>spf_mechanism\<close>, \<open>spf_redirect\<close> and \<open>spf_walk\<close> call the method
  \<open>descend\<close>, which calls \<open>walk\<close> again; they take it as the argument \<open>desc\<close>, and
  \<open>descend\<close> passes itself. It recurses on a longer path each time and refuses a path of more
  than 20 names, which is why it terminates.
\<close>

type_synonym lookupFn = "string \<Rightarrow> string \<Rightarrow> Lookup"

definition section_sign :: string where "section_sign = [CHR 0xC2, CHR 0xA7]"

definition spfLookupLimit :: nat where "spfLookupLimit = 10"
definition spfVoidLimit :: nat where "spfVoidLimit = 2"
definition spfAnswerLimit :: nat where "spfAnswerLimit = 512"
definition spfAnswerWarn :: nat where "spfAnswerWarn = 450"
definition ednsBuffer :: nat where "ednsBuffer = 1232"

definition ednsNote :: "nat \<Rightarrow> string" where
  "ednsNote octets =
     (if octets \<le> ednsBuffer then []
      else ''; it also exceeds the '' @ nat_text ednsBuffer @
           ''-octet EDNS buffer resolvers commonly use, so nearly every lookup needs TCP'')"

record SPFResult =
  spf_Records :: nat
  spf_Lookups :: nat
  spf_VoidLookups :: nat
  spf_AnswerOctets :: nat
  spf_All :: string
  spf_Includes :: "string list"
  spf_Problems :: "string list"

record spfEvaluator =
  ev_lookups :: nat
  ev_void :: nat
  ev_includes :: "string list"
  ev_problems :: "string list"
  ev_asked :: "(string \<times> string) list"

definition new_evaluator :: spfEvaluator where
  "new_evaluator = \<lparr>ev_lookups = 0, ev_void = 0, ev_includes = [], ev_problems = [], ev_asked = []\<rparr>"

section \<open>Records and terms\<close>

definition isSPFRecord :: "string \<Rightarrow> bool" where
  "isSPFRecord r =
     (let s = ToLower (TrimSpace r) in s = ''v=spf1'' \<or> HasPrefix s ''v=spf1 '')"

definition spfRecords :: "string list \<Rightarrow> string list" where
  "spfRecords txt = map TrimSpace (filter isSPFRecord txt)"

record spfTerm =
  tm_qualifier :: string
  tm_name :: string
  tm_arg :: string
  tm_modifier :: bool

text \<open>One field of a record: an optional qualifier, then \<open>name=value\<close>, \<open>name:value\<close>,
  \<open>name/length\<close> or a bare name.\<close>

definition parse_term :: "string \<Rightarrow> spfTerm" where
  "parse_term f0 =
     (let qualified = f0 \<noteq> [] \<and> hd f0 \<in> {CHR ''+'', CHR ''-'', CHR ''~'', CHR ''?''};
          q = (if qualified then [hd f0] else ''+'');
          f = (if qualified then tl f0 else f0);
          eq = takeWhile (\<lambda>c. c \<noteq> CHR ''='') f;
          sep = takeWhile (\<lambda>c. c \<noteq> CHR '':'' \<and> c \<noteq> CHR ''/'') f
      in if eq \<noteq> [] \<and> length eq < length f \<and> CHR '':'' \<notin> set eq then
           \<lparr>tm_qualifier = q, tm_name = ToLower eq, tm_arg = drop (Suc (length eq)) f, tm_modifier = True\<rparr>
         else if sep \<noteq> [] \<and> length sep < length f then
           \<lparr>tm_qualifier = q, tm_name = ToLower sep, tm_arg = drop (length sep) f, tm_modifier = False\<rparr>
         else \<lparr>tm_qualifier = q, tm_name = ToLower f, tm_arg = [], tm_modifier = False\<rparr>)"

text \<open>The slice \<open>[1:]\<close> needs a first field, which every record that \<open>spfRecords\<close>
  selects has (lemma \<open>spfRecords_Fields\<close>).\<close>

definition parseSPFTerms :: "string \<Rightarrow> spfTerm list" where
  "parseSPFTerms record = map parse_term (tl (Fields record))"

fun recordAll :: "spfTerm list \<Rightarrow> string" where
  "recordAll [] = []"
| "recordAll (t # ts) =
     (if tm_name t = ''all'' \<and> \<not> tm_modifier t then tm_qualifier t @ ''all'' else recordAll ts)"

definition spfTarget :: "spfTerm \<Rightarrow> string" where
  "spfTarget t = TrimPrefix (tm_arg t) '':''"

section \<open>Redundant addresses\<close>

record spfPrefix =
  px_text :: string
  px_qualifier :: string
  px_prefix :: ip_prefix

definition spf_prefix :: "spfTerm \<Rightarrow> spfPrefix option" where
  "spf_prefix t =
     (if tm_modifier t \<or> (tm_name t \<noteq> ''ip4'' \<and> tm_name t \<noteq> ''ip6'') then None
      else let arg = TrimPrefix (tm_arg t) '':'';
               p = (case ParsePrefix arg of
                      Some p \<Rightarrow> Some p
                    | None \<Rightarrow> map_option (\<lambda>a. PrefixFrom a (BitLen a)) (ParseAddr arg))
           in map_option (\<lambda>p. \<lparr>px_text = tm_name t @ '':'' @ arg,
                                px_qualifier = firstNonEmpty [tm_qualifier t, ''+''],
                                px_prefix = Masked p\<rparr>) p)"

definition spfPrefixes :: "spfTerm list \<Rightarrow> spfPrefix list" where
  "spfPrefixes terms = List.map_filter spf_prefix terms"

text \<open>Whether the \<open>j\<close>-th prefix makes the \<open>i\<close>-th one redundant: the condition under
  which the inner loop does not \<open>continue\<close>.\<close>

definition px_covers :: "spfPrefix list \<Rightarrow> nat \<Rightarrow> nat \<Rightarrow> bool" where
  "px_covers ps i j \<longleftrightarrow>
     (let p = ps ! i; q = ps ! j in
      i \<noteq> j \<and> px_qualifier p = px_qualifier q \<and>
      Prefix_Bits (px_prefix q) \<le> Prefix_Bits (px_prefix p) \<and>
      Prefix_Contains (px_prefix q) (Prefix_Addr (px_prefix p)) \<and>
      \<not> (px_prefix q = px_prefix p \<and> j > i))"

definition covering :: "spfPrefix list \<Rightarrow> nat \<Rightarrow> nat option" where
  "covering ps i = find (px_covers ps i) [0..<length ps]"

definition redundantIPs :: "spfTerm list \<Rightarrow> string \<Rightarrow> string list" where
  "redundantIPs terms domain =
     (let ps = spfPrefixes terms in
      List.map_filter
        (\<lambda>i. map_option (\<lambda>j. px_text (ps ! i) @ '' is already covered by '' @ px_text (ps ! j) @
                             '' in '' @ domain) (covering ps i))
        [0..<length ps])"

section \<open>The evaluator\<close>

definition problem :: "string \<Rightarrow> spfEvaluator \<Rightarrow> spfEvaluator" where
  "problem p e = e\<lparr>ev_problems := append_once p (ev_problems e)\<rparr>"

definition noteInclude :: "string \<Rightarrow> spfEvaluator \<Rightarrow> spfEvaluator" where
  "noteInclude target e = e\<lparr>ev_includes := append_once target (ev_includes e)\<rparr>"

text \<open>\<open>e.lookups++\<close>, \<open>e.void++\<close> and a call of \<open>e.lookup\<close>.\<close>

definition count_lookup :: "spfEvaluator \<Rightarrow> spfEvaluator" where
  "count_lookup e = e\<lparr>ev_lookups := Suc (ev_lookups e)\<rparr>"

definition count_void :: "spfEvaluator \<Rightarrow> spfEvaluator" where
  "count_void e = e\<lparr>ev_void := Suc (ev_void e)\<rparr>"

definition ask :: "string \<Rightarrow> string \<Rightarrow> spfEvaluator \<Rightarrow> spfEvaluator" where
  "ask name qtype e = e\<lparr>ev_asked := ev_asked e @ [(name, qtype)]\<rparr>"

text \<open>Code equations on a state in constructor form, with which evaluation keeps one copy of
  the state.\<close>

lemma step_code [code]:
  "problem p \<lparr>ev_lookups = n, ev_void = v, ev_includes = is, ev_problems = ps, ev_asked = qs\<rparr> =
    \<lparr>ev_lookups = n, ev_void = v, ev_includes = is, ev_problems = append_once p ps, ev_asked = qs\<rparr>"
  "noteInclude t \<lparr>ev_lookups = n, ev_void = v, ev_includes = is, ev_problems = ps, ev_asked = qs\<rparr> =
    \<lparr>ev_lookups = n, ev_void = v, ev_includes = append_once t is, ev_problems = ps, ev_asked = qs\<rparr>"
  "count_lookup \<lparr>ev_lookups = n, ev_void = v, ev_includes = is, ev_problems = ps, ev_asked = qs\<rparr> =
    \<lparr>ev_lookups = Suc n, ev_void = v, ev_includes = is, ev_problems = ps, ev_asked = qs\<rparr>"
  "count_void \<lparr>ev_lookups = n, ev_void = v, ev_includes = is, ev_problems = ps, ev_asked = qs\<rparr> =
    \<lparr>ev_lookups = n, ev_void = Suc v, ev_includes = is, ev_problems = ps, ev_asked = qs\<rparr>"
  "ask m q \<lparr>ev_lookups = n, ev_void = v, ev_includes = is, ev_problems = ps, ev_asked = qs\<rparr> =
    \<lparr>ev_lookups = n, ev_void = v, ev_includes = is, ev_problems = ps, ev_asked = qs @ [(m, q)]\<rparr>"
  by (simp_all add: problem_def noteInclude_def count_lookup_def count_void_def ask_def)

definition noteAll :: "string \<Rightarrow> string \<Rightarrow> spfEvaluator \<Rightarrow> spfEvaluator" where
  "noteAll qualifier via e =
     (let sfx = (if via \<noteq> [] then '', reached through '' @ via else [])
      in if qualifier = ''+'' then problem (''+all authorises every sender (no protection)'' @ sfx) e
         else if qualifier = ''?'' then problem (''?all is neutral (no protection)'' @ sfx) e
         else e)"

definition spf_term :: "spfTerm \<Rightarrow> string \<Rightarrow> spfEvaluator \<Rightarrow> spfEvaluator" where
  "spf_term t domain e =
     (if tm_name t = ''a'' \<or> tm_name t = ''mx'' \<or> tm_name t = ''exists'' then count_lookup e
      else if tm_name t = ''ptr'' then
        problem (''ptr mechanism is deprecated (RFC 7208 '' @ section_sign @ ''5.5)'') (count_lookup e)
      else if tm_name t = ''ip4'' \<or> tm_name t = ''ip6'' \<or> tm_modifier t then e
      else problem (''unknown mechanism '' @ tm_name t @ '' in '' @ domain) e)"

definition apexSize :: "nat \<Rightarrow> spfEvaluator \<Rightarrow> spfEvaluator" where
  "apexSize octets e =
     (if octets > spfAnswerLimit then
        problem (''apex TXT answer is '' @ nat_text octets @ '' octets, over the '' @
          nat_text spfAnswerLimit @ ''-octet UDP limit (RFC 7208 '' @ section_sign @
          ''3.4): resolvers without EDNS get a truncated reply and must retry over TCP'' @
          ednsNote octets) e
      else if octets > spfAnswerWarn then
        problem (''apex TXT answer is '' @ nat_text octets @ '' octets, close to the '' @
          nat_text spfAnswerLimit @ ''-octet UDP limit (RFC 7208 '' @ section_sign @
          ''3.4): one more TXT record may push it over'') e
      else e)"

definition includeSize :: "string \<Rightarrow> Lookup \<Rightarrow> spfEvaluator \<Rightarrow> spfEvaluator" where
  "includeSize target l e =
     (let octets = udpAnswerOctets l in
      if octets > spfAnswerLimit then
        problem (''include:'' @ target @ '' TXT answer is '' @ nat_text octets @
          '' octets, over the '' @ nat_text spfAnswerLimit @ ''-octet UDP limit (RFC 7208 '' @
          section_sign @ ''3.4)'' @ ednsNote octets) e
      else e)"

type_synonym descender = "string \<Rightarrow> spfEvaluator \<Rightarrow> string \<times> spfEvaluator"

definition spf_redirect :: "descender \<Rightarrow> spfTerm \<Rightarrow> spfEvaluator \<Rightarrow> (string \<times> string) \<times> spfEvaluator" where
  "spf_redirect desc t e =
     (let target = spfTarget t; (a, e') = desc target (count_lookup e)
      in (if a \<noteq> [] then (a, ''redirect='' @ target) else ([], []), e'))"

definition spf_mechanism :: "descender \<Rightarrow> spfTerm \<Rightarrow> string list \<Rightarrow> spfEvaluator \<Rightarrow> spfEvaluator" where
  "spf_mechanism desc t path e =
     (if tm_name t = ''include'' \<and> \<not> tm_modifier t then
        (let target = spfTarget t; (a, e') = desc target (count_lookup e)
         in if a = ''+all'' then noteAll ''+'' (''include:'' @ target) e' else e')
      else if tm_name t = ''all'' \<and> \<not> tm_modifier t then e
      else spf_term t (last path) e)"

text \<open>The loop of \<open>walk\<close> over the terms: the pair of results, whether a redirect was seen,
  and the state.\<close>

definition walk_step ::
    "descender \<Rightarrow> string \<Rightarrow> string list \<Rightarrow> spfTerm \<Rightarrow> (string \<times> string) \<times> bool \<times> spfEvaluator
     \<Rightarrow> (string \<times> string) \<times> bool \<times> spfEvaluator" where
  "walk_step desc own path t st =
     (case st of (r, hasRedirect, e) \<Rightarrow>
        if tm_name t \<noteq> ''redirect'' \<or> \<not> tm_modifier t
        then (r, hasRedirect, spf_mechanism desc t path e)
        else if own = [] then (case spf_redirect desc t e of (r', e') \<Rightarrow> (r', True, e'))
        else (r, True, e))"

definition spf_walk ::
    "descender \<Rightarrow> string \<Rightarrow> string list \<Rightarrow> spfEvaluator \<Rightarrow> (string \<times> string) \<times> spfEvaluator" where
  "spf_walk desc record path e =
     (let terms = parseSPFTerms record;
          e1 = fold problem (redundantIPs terms (last path)) e;
          own = recordAll terms;
          (r, hasRedirect, e2) = fold (walk_step desc own path) terms ((own, []), False, e1)
      in (r, if length path = 1 \<and> own = [] \<and> \<not> hasRedirect
             then problem ''record has no all mechanism or redirect (default neutral)'' e2 else e2))"

function descend ::
    "dp_lib \<Rightarrow> lookupFn \<Rightarrow> string list \<Rightarrow> string \<Rightarrow> spfEvaluator \<Rightarrow> string \<times> spfEvaluator" where
  "descend lib lookup path target0 e =
     (if Contains target0 ''%'' \<or> target0 = [] then ([], e)
      else case dnsName lib target0 of
        Inl err \<Rightarrow>
          ([], problem (''include:'' @ target0 @ '' is not a valid domain name ('' @ err @ '')'') e)
      | Inr n \<Rightarrow>
          let target = ASCII n in
          if target \<in> set path then
            ([], problem (''include loop '' @ Join '' -> '' path @ '' -> '' @ target @
                          '' (permerror: SPF fails entirely)'') e)
          else let e1 = noteInclude target e in
            if ev_lookups e1 > spfLookupLimit * 3 \<or> length path > 20 then ([], e1)
            else let l = lookup target ''TXT'';
                     e2 = ask target ''TXT'' e1;
                     recs = spfRecords (lk_Records l)
                 in if \<not> Answered l then
                      ([], problem (''include:'' @ target @
                        '' could not be checked: its TXT lookup did not complete'') e2)
                    else if \<not> HasRecords l then
                      ([], problem (''include:'' @ target @ '' has no SPF record'') (count_void e2))
                    else (case recs of
                      [] \<Rightarrow> ([], problem (''include:'' @ target @ '' has no SPF record'') e2)
                    | rec # _ \<Rightarrow>
                        (case spf_walk (descend lib lookup (path @ [target])) rec (path @ [target])
                                (includeSize target l e2) of
                           ((all, via), e3) \<Rightarrow> (all, e3))))"
  by pat_completeness auto
termination
  by (relation "measure (\<lambda>(lib, lookup, path, target, e). 22 - length path)") auto

declare descend.simps [simp del]

definition walk ::
    "dp_lib \<Rightarrow> lookupFn \<Rightarrow> string \<Rightarrow> string list \<Rightarrow> spfEvaluator \<Rightarrow> (string \<times> string) \<times> spfEvaluator" where
  "walk lib lookup record path e = spf_walk (descend lib lookup path) record path e"

text \<open>The two limits, checked at the end of an evaluation.\<close>

definition check_limits :: "spfEvaluator \<Rightarrow> spfEvaluator" where
  "check_limits e =
     (let e1 = (if ev_lookups e > spfLookupLimit then
                  problem (nat_text (ev_lookups e) @ '' DNS lookups exceed the limit of '' @
                    nat_text spfLookupLimit @ '' (permerror: SPF fails entirely)'') e
                else e)
      in if ev_void e1 > spfVoidLimit then
           problem (nat_text (ev_void e1) @ '' void lookups exceed the limit of '' @
             nat_text spfVoidLimit) e1
         else e1)"

definition spf_run :: "dp_lib \<Rightarrow> string \<Rightarrow> Lookup \<Rightarrow> lookupFn \<Rightarrow> string \<Rightarrow> string list \<Rightarrow> string \<times> spfEvaluator" where
  "spf_run lib domain txt lookup rec others =
     (let e0 = (if others \<noteq> [] then
                  problem ''multiple SPF records (permerror: SPF fails entirely)'' new_evaluator
                else new_evaluator);
          e1 = apexSize (udpAnswerOctets txt) e0;
          ((all, via), e2) = walk lib lookup rec [bareName lib domain] e1;
          e3 = (if all \<noteq> [] then noteAll (take 1 all) via e2 else e2)
      in (all, check_limits e3))"

definition evaluateSPF :: "dp_lib \<Rightarrow> string \<Rightarrow> Lookup \<Rightarrow> lookupFn \<Rightarrow> SPFResult" where
  "evaluateSPF lib domain txt lookup =
     (case spfRecords (lk_Records txt) of
        [] \<Rightarrow> \<lparr>spf_Records = 0, spf_Lookups = 0, spf_VoidLookups = 0, spf_AnswerOctets = 0,
               spf_All = [], spf_Includes = [], spf_Problems = []\<rparr>
      | rec # others \<Rightarrow>
          (case spf_run lib domain txt lookup rec others of (all, e) \<Rightarrow>
             \<lparr>spf_Records = Suc (length others), spf_Lookups = ev_lookups e,
              spf_VoidLookups = ev_void e, spf_AnswerOctets = udpAnswerOctets txt, spf_All = all,
              spf_Includes = ev_includes e, spf_Problems = ev_problems e\<rparr>))"

text \<open>The queries the evaluation of the policy puts to the resolver.\<close>

definition spf_queries :: "dp_lib \<Rightarrow> string \<Rightarrow> Lookup \<Rightarrow> lookupFn \<Rightarrow> (string \<times> string) list" where
  "spf_queries lib domain txt lookup =
     (case spfRecords (lk_Records txt) of
        [] \<Rightarrow> []
      | rec # others \<Rightarrow> ev_asked (snd (spf_run lib domain txt lookup rec others)))"

section \<open>The problems an evaluation can report\<close>

text \<open>The catalogue of the texts passed to \<^const>\<open>problem\<close>, one rule for each call.\<close>

inductive spf_text :: "string \<Rightarrow> bool" where
  text_multiple: "spf_text ''multiple SPF records (permerror: SPF fails entirely)''"
| text_lookups: "spf_text (nat_text n @ '' DNS lookups exceed the limit of '' @ s)"
| text_void: "spf_text (nat_text n @ '' void lookups exceed the limit of '' @ s)"
| text_no_all: "spf_text ''record has no all mechanism or redirect (default neutral)''"
| text_ptr: "spf_text (''ptr mechanism is deprecated (RFC 7208 '' @ s)"
| text_unknown: "spf_text (''unknown mechanism '' @ s)"
| text_pass_all: "spf_text (''+all authorises every sender (no protection)'' @ s)"
| text_neutral_all: "spf_text (''?all is neutral (no protection)'' @ s)"
| text_apex: "spf_text (''apex TXT answer is '' @ s)"
| text_include_size: "spf_text (''include:'' @ t @ '' TXT answer is '' @ s)"
| text_include_invalid: "spf_text (''include:'' @ t @ '' is not a valid domain name ('' @ s)"
| text_include_missing: "spf_text (''include:'' @ t @ '' has no SPF record'')"
| text_include_unchecked: "spf_text (''include:'' @ t @ '' could not be checked: its TXT lookup did not complete'')"
| text_loop: "spf_text (''include loop '' @ s)"
| text_redundant: "spf_text (t @ '' is already covered by '' @ s)"

lemmas spf_texts [simp] = spf_text.intros [simplified]

lemma redundantIPs_text: "p \<in> set (redundantIPs terms domain) \<Longrightarrow> spf_text p"
  by (auto simp: redundantIPs_def Let_def map_filter_def)

section \<open>Invariants of an evaluation\<close>

text \<open>
  What every step of the evaluator keeps, the walk keeps. \<open>inv\<close> holds between steps;
  \<open>paid\<close> holds once a term has been counted and its query not been put yet, which is the
  only moment at which the walk may ask the resolver.
\<close>

locale spf_invariant =
  fixes inv paid :: "spfEvaluator \<Rightarrow> bool"
  assumes paid_inv: "paid e \<Longrightarrow> inv e"
    and inv_problem: "inv e \<Longrightarrow> spf_text p \<Longrightarrow> inv (problem p e)"
    and count_paid: "inv e \<Longrightarrow> paid (count_lookup e)"
    and paid_noteInclude: "paid e \<Longrightarrow> paid (noteInclude t e)"
    and inv_ask: "paid e \<Longrightarrow> ev_lookups e \<le> 3 * spfLookupLimit \<Longrightarrow> inv (ask t ''TXT'' e)"
    and inv_count_void: "inv e \<Longrightarrow> inv (count_void e)"
begin

lemma inv_noteAll: "inv e \<Longrightarrow> inv (noteAll q via e)"
  by (simp add: noteAll_def Let_def inv_problem)

lemma inv_term: "inv e \<Longrightarrow> inv (spf_term t domain e)"
  by (simp add: spf_term_def inv_problem count_paid paid_inv)

lemma inv_apexSize: "inv e \<Longrightarrow> inv (apexSize n e)"
  by (simp add: apexSize_def inv_problem)

lemma inv_includeSize: "inv e \<Longrightarrow> inv (includeSize t l e)"
  by (simp add: includeSize_def Let_def inv_problem)

lemma inv_redirect:
  assumes "\<And>t e. paid e \<Longrightarrow> inv (snd (desc t e))" and "inv e"
  shows "inv (snd (spf_redirect desc t e))"
  using assms(1) [OF count_paid [OF assms(2)], of "spfTarget t"]
  by (simp add: spf_redirect_def Let_def case_prod_beta)

lemma inv_mechanism:
  assumes desc: "\<And>t e. paid e \<Longrightarrow> inv (snd (desc t e))" and "inv e"
  shows "inv (spf_mechanism desc t path e)"
proof -
  obtain a e' where d: "desc (spfTarget t) (count_lookup e) = (a, e')" by force
  have "inv e'" using desc [OF count_paid [OF \<open>inv e\<close>], of "spfTarget t"] d by simp
  then show ?thesis using \<open>inv e\<close> by (simp add: spf_mechanism_def d inv_noteAll inv_term)
qed

lemma inv_walk_step:
  assumes "\<And>t e. paid e \<Longrightarrow> inv (snd (desc t e))" and "inv (snd (snd st))"
  shows "inv (snd (snd (walk_step desc own path t st)))"
proof -
  obtain r h e where st: "st = (r, h, e)" by (metis prod_cases3)
  with assms(2) have "inv e" by simp
  then show ?thesis
    using inv_mechanism [OF assms(1)] inv_redirect [OF assms(1)]
    by (simp add: st walk_step_def case_prod_beta)
qed

lemma inv_spf_walk:
  assumes desc: "\<And>t e. paid e \<Longrightarrow> inv (snd (desc t e))" and "inv e"
  shows "inv (snd (spf_walk desc record path e))"
proof -
  have 1: "inv (fold problem ps e)" if "\<And>p. p \<in> set ps \<Longrightarrow> spf_text p" for ps
    using that \<open>inv e\<close> by (induction ps arbitrary: e) (auto simp: inv_problem)
  have 2: "inv (snd (snd (fold (walk_step desc own path) ts st)))" if "inv (snd (snd st))" for own ts st
    using that
  proof (induction ts arbitrary: st)
    case (Cons t ts)
    show ?case using Cons.IH [OF inv_walk_step [OF desc Cons.prems]] by simp
  qed simp
  define terms where "terms = parseSPFTerms record"
  obtain r h e2 where f: "fold (walk_step desc (recordAll terms) path) terms
      ((recordAll terms, []), False, fold problem (redundantIPs terms (last path)) e) = (r, h, e2)"
    by (metis prod_cases3)
  have "inv (snd (snd ((recordAll terms, []), False, fold problem (redundantIPs terms (last path)) e)))"
    using 1 [OF redundantIPs_text] by simp
  from 2 [OF this, of "recordAll terms" terms] have "inv e2" by (simp only: f snd_conv)
  then show ?thesis
    by (simp add: spf_walk_def terms_def [symmetric] f inv_problem)
qed

lemma inv_descend: "paid e \<Longrightarrow> inv (snd (descend lib lookup path target e))"
proof (induction lib lookup path target e rule: descend.induct)
  case (1 lib lookup path target e)
  note IH = "1.IH" and paid = "1.prems"
  show ?case
  proof (cases "dnsName lib target")
    case (Inl err)
    then show ?thesis using paid
      by (simp add: descend.simps [of lib lookup path target e] inv_problem paid_inv)
  next
    case (Inr n)
    define e1 where "e1 = noteInclude (ASCII n) e"
    define e2 where "e2 = ask (ASCII n) ''TXT'' e1"
    define l where "l = lookup (ASCII n) ''TXT''"
    have "paid e1" by (simp add: e1_def paid paid_noteInclude)
    then have e1: "inv e1" by (rule paid_inv)
    have e2: "inv e2" if "\<not> ev_lookups e1 > spfLookupLimit * 3"
      using that \<open>paid e1\<close> by (simp add: e2_def inv_ask)
    have walk: "inv (snd (spf_walk (descend lib lookup (path @ [ASCII n])) rec (path @ [ASCII n])
        (includeSize (ASCII n) l e2)))"
      if "\<not> (Contains target ''%'' \<or> target = [])" "ASCII n \<notin> set path"
         "\<not> (ev_lookups e1 > spfLookupLimit * 3 \<or> length path > 20)" "Answered l" "HasRecords l"
         "spfRecords (lk_Records l) = rec # recs" for rec recs
      using that e2 by (intro inv_spf_walk inv_includeSize IH) (auto simp: Inr e1_def l_def)
    show ?thesis
      using paid_inv [OF paid] e1 e2 walk
      by (simp add: descend.simps [of lib lookup path target e] Inr Let_def inv_problem
          inv_count_void case_prod_beta split: list.split
          flip: e1_def e2_def l_def)
  qed
qed

lemma inv_walk: "inv e \<Longrightarrow> inv (snd (walk lib lookup record path e))"
  by (simp add: walk_def inv_spf_walk inv_descend)

lemma inv_check_limits: "inv e \<Longrightarrow> inv (check_limits e)"
  by (simp add: check_limits_def Let_def inv_problem)

lemma inv_run: "inv new_evaluator \<Longrightarrow> inv (snd (spf_run lib domain txt lookup rec others))"
  using inv_problem inv_noteAll inv_apexSize inv_walk inv_check_limits
  by (simp add: spf_run_def Let_def case_prod_beta)

end

text \<open>The budget of queries: one per counted term, none once thirty terms have been counted.\<close>

definition within_budget :: "spfEvaluator \<Rightarrow> bool" where
  "within_budget e \<longleftrightarrow>
     length (ev_asked e) \<le> min (ev_lookups e) 30 \<and> (\<forall>q\<in>set (ev_asked e). snd q = ''TXT'')"

definition query_paid :: "spfEvaluator \<Rightarrow> bool" where
  "query_paid e \<longleftrightarrow> within_budget e \<and> length (ev_asked e) < ev_lookups e"

lemmas step_defs = problem_def noteInclude_def count_lookup_def count_void_def ask_def

interpretation budget: spf_invariant within_budget query_paid
  by unfold_locales (auto simp: within_budget_def query_paid_def step_defs spfLookupLimit_def)

text \<open>Nothing is listed twice, and every problem is a text of the catalogue.\<close>

definition once_each :: "spfEvaluator \<Rightarrow> bool" where
  "once_each e \<longleftrightarrow>
     distinct (ev_includes e) \<and> distinct (ev_problems e) \<and> list_all spf_text (ev_problems e)"

interpretation once: spf_invariant once_each once_each
  by unfold_locales (auto simp: once_each_def step_defs list_all_iff append_once_def)

lemma new_evaluator_inv [simp]: "within_budget new_evaluator" "once_each new_evaluator"
  by (simp_all add: within_budget_def once_each_def new_evaluator_def)

lemma evaluateSPF_texts: "list_all spf_text (spf_Problems (evaluateSPF lib domain txt lookup))"
proof (cases "spfRecords (lk_Records txt)")
  case (Cons rec others)
  then show ?thesis
    using once.inv_run [OF new_evaluator_inv(2), of lib domain "txt" lookup rec others]
    by (simp add: evaluateSPF_def once_each_def case_prod_beta)
qed (simp add: evaluateSPF_def)

lemma problem_fields [simp]:
  "ev_lookups (problem p e) = ev_lookups e" "ev_void (problem p e) = ev_void e"
  "set (ev_problems (problem p e)) = insert p (set (ev_problems e))"
  by (simp_all add: problem_def)

lemma check_limits_reports:
  fixes e0 :: spfEvaluator defines "e \<equiv> check_limits e0"
  shows "spfLookupLimit < ev_lookups e \<Longrightarrow>
    nat_text (ev_lookups e) @ '' DNS lookups exceed the limit of '' @ nat_text spfLookupLimit @
      '' (permerror: SPF fails entirely)'' \<in> set (ev_problems e)"
    and "spfVoidLimit < ev_void e \<Longrightarrow>
    nat_text (ev_void e) @ '' void lookups exceed the limit of '' @ nat_text spfVoidLimit
      \<in> set (ev_problems e)"
  by (auto simp: e_def check_limits_def Let_def)

section \<open>Records\<close>

lemma Fields_not_Nil: "s \<noteq> [] \<Longrightarrow> \<not> is_space (hd s) \<Longrightarrow> Fields s \<noteq> []"
  by (cases s) (simp_all add: Fields.simps)

lemma spfRecords_Fields: "r \<in> set (spfRecords txt) \<Longrightarrow> Fields r \<noteq> []"
proof -
  assume "r \<in> set (spfRecords txt)"
  then obtain r0 where r: "r = TrimSpace r0" and "isSPFRecord r0"
    by (auto simp: spfRecords_def)
  then have "HasPrefix (map lower_char r) ''v''"
    by (auto simp: isSPFRecord_def Let_def ToLower_def HasPrefix_iff)
  then obtain c t where ct: "r = c # t" and "lower_char c = CHR ''v''"
    by (cases r) auto
  then have "\<not> is_space c" by (auto simp: is_space_def lower_char_def)
  then show ?thesis by (simp add: ct Fields_not_Nil)
qed

lemma recordAll_shape: "recordAll ts = [] \<or> (\<exists>t\<in>set ts. recordAll ts = tm_qualifier t @ ''all'')"
  by (induction ts) auto

text \<open>With an \<open>all\<close> of its own, a record is evaluated as if it had no redirect.\<close>

lemma walk_own_all:
  assumes "own \<noteq> []"
  shows "fold (walk_step desc own path) ts (r, h, e) =
    (r, h \<or> (\<exists>t\<in>set ts. tm_name t = ''redirect'' \<and> tm_modifier t),
     fold (\<lambda>t. spf_mechanism desc t path)
       (filter (\<lambda>t. \<not> (tm_name t = ''redirect'' \<and> tm_modifier t)) ts) e)"
  using assms by (induction ts arbitrary: h e) (auto simp: walk_step_def)

section \<open>Coverage of the redundant addresses\<close>

lemma keep_high_eq_masked: "keep_high n v = keep_high n w \<Longrightarrow> keep_high n v = v \<Longrightarrow> keep_high n w = w \<Longrightarrow> v = w"
  by simp

definition px_masked :: "spfPrefix \<Rightarrow> bool" where
  "px_masked p \<longleftrightarrow> Masked (px_prefix p) = px_prefix p"

lemma spfPrefixes_masked: "p \<in> set (spfPrefixes ts) \<Longrightarrow> px_masked p"
proof -
  have "Masked (Masked q) = Masked q" for q
    by (cases q rule: Prefix_Addr.cases)
      (auto simp: Masked_def mask_addr_def split: addr.splits)
  then show "p \<in> set (spfPrefixes ts) \<Longrightarrow> px_masked p"
    by (auto simp: spfPrefixes_def map_filter_def spf_prefix_def Let_def px_masked_def
        split: if_splits)
qed

lemma masked_same_bits:
  assumes "Masked p = p" and "Masked q = q" and "Prefix_Bits q = Prefix_Bits p"
    and "Prefix_Contains q (Prefix_Addr p)"
  shows "q = p"
  using assms
  by (cases p rule: Prefix_Addr.cases; cases q rule: Prefix_Addr.cases)
    (auto simp: Masked_def mask_addr_def Prefix_Contains_def Zone_def split: addr.splits)

lemma covering_Some:
  "covering ps i = Some j \<Longrightarrow> j < length ps \<and> px_covers ps i j"
  by (auto simp: covering_def find_Some_iff)

text \<open>The prefix that covers another comes before it in the order of length, then position.\<close>

lemma covering_smaller:
  assumes "list_all px_masked ps" and "i < length ps" and "covering ps i = Some j"
  shows "Prefix_Bits (px_prefix (ps ! j)) < Prefix_Bits (px_prefix (ps ! i)) \<or>
    Prefix_Bits (px_prefix (ps ! j)) = Prefix_Bits (px_prefix (ps ! i)) \<and> j < i"
proof -
  from covering_Some [OF assms(3)] have j: "j < length ps" and c: "px_covers ps i j" by auto
  have m: "Masked (px_prefix (ps ! k)) = px_prefix (ps ! k)" if "k < length ps" for k
    using assms(1) that by (auto simp: list_all_length px_masked_def)
  show ?thesis
    using c masked_same_bits [OF m [OF assms(2)] m [OF j]]
    by (fastforce simp: px_covers_def Let_def)
qed

lemma uncovered_exists:
  assumes "list_all px_masked ps" and "i < length ps" and "Prefix_Contains (px_prefix (ps ! i)) ip"
  shows "\<exists>k < length ps. covering ps k = None \<and> px_qualifier (ps ! k) = px_qualifier (ps ! i) \<and>
    Prefix_Contains (px_prefix (ps ! k)) ip"
  using assms(2,3)
proof (induction "(Prefix_Bits (px_prefix (ps ! i)), i)" arbitrary: i
    rule: wf_induct_rule [OF wf_lex_prod [OF wf_less wf_less]])
  case 1
  show ?case
  proof (cases "covering ps i")
    case None
    with "1.prems" show ?thesis by blast
  next
    case (Some j)
    from covering_Some [OF Some] have j: "j < length ps" and c: "px_covers ps i j" by auto
    have "Prefix_Contains (px_prefix (ps ! j)) ip"
      using c "1.prems"(2) by (auto simp: px_covers_def Let_def intro: Prefix_Contains_trans)
    from "1.hyps" [OF _ j this] covering_smaller [OF assms(1) "1.prems"(1) Some]
    show ?thesis using c by (auto simp: px_covers_def Let_def)
  qed
qed

section \<open>Properties\<close>

text \<open>
  C27. However the include and redirect tree of a policy is built, and whatever the resolver
  answers, its evaluation ends with at most thirty queries, all of them TXT, and never more
  than the lookups it reports.
\<close>
theorem spf_query_bound:
  "length (spf_queries lib domain txt lookup) \<le> 3 * spfLookupLimit \<and>
   length (spf_queries lib domain txt lookup) \<le> spf_Lookups (evaluateSPF lib domain txt lookup) \<and>
   list_all (\<lambda>q. snd q = ''TXT'') (spf_queries lib domain txt lookup)"
proof (cases "spfRecords (lk_Records txt)")
  case (Cons rec others)
  then show ?thesis
    using budget.inv_run [OF new_evaluator_inv(1), of lib domain "txt" lookup rec others]
    by (simp add: spf_queries_def evaluateSPF_def within_budget_def case_prod_beta
        spfLookupLimit_def list_all_iff)
qed (simp add: spf_queries_def evaluateSPF_def spfLookupLimit_def)

text \<open>
  A problem or an included domain is listed once, however often the tree reaches it.
\<close>
theorem spf_listed_once:
  "distinct (spf_Problems (evaluateSPF lib domain txt lookup)) \<and>
   distinct (spf_Includes (evaluateSPF lib domain txt lookup))"
proof (cases "spfRecords (lk_Records txt)")
  case (Cons rec others)
  then show ?thesis
    using once.inv_run [OF new_evaluator_inv(2), of lib domain "txt" lookup rec others]
    by (simp add: evaluateSPF_def once_each_def case_prod_beta)
qed (simp add: evaluateSPF_def)

text \<open>
  A policy of more than ten terms that cost a lookup is reported as exceeding the limit, and
  one of more than two void lookups as exceeding that one, with the counts of the result.
\<close>
theorem spf_limits_reported:
  fixes lib :: dp_lib and domain :: string and "txt" :: Lookup and lookup :: lookupFn
  defines "r \<equiv> evaluateSPF lib domain txt lookup"
  shows "(spfLookupLimit < spf_Lookups r \<longrightarrow>
      nat_text (spf_Lookups r) @ '' DNS lookups exceed the limit of '' @ nat_text spfLookupLimit @
        '' (permerror: SPF fails entirely)'' \<in> set (spf_Problems r)) \<and>
    (spfVoidLimit < spf_VoidLookups r \<longrightarrow>
      nat_text (spf_VoidLookups r) @ '' void lookups exceed the limit of '' @ nat_text spfVoidLimit
        \<in> set (spf_Problems r))"
proof (cases "spfRecords (lk_Records txt)")
  case (Cons rec others)
  obtain all e0 where "spf_run lib domain txt lookup rec others = (all, check_limits e0)"
    by (auto simp: spf_run_def Let_def case_prod_beta)
  with Cons show ?thesis
    using check_limits_reports [of e0] by (simp add: r_def evaluateSPF_def)
qed (simp add: r_def evaluateSPF_def)

text \<open>A library that takes every name as it is, and a resolver that answers the records of a
  table, for the examples.\<close>

definition ex_txt :: "(string, string list) go_map \<Rightarrow> lookupFn" where
  "ex_txt m name qtype =
     (case map_of m name of
        None \<Rightarrow> zero_Lookup\<lparr>lk_Status := StatusNXDomain\<rparr>
      | Some rs \<Rightarrow> zero_Lookup\<lparr>lk_Status := StatusOK, lk_Records := rs\<rparr>)"

theorem spf_limits_reported_witness:
  "''12 DNS lookups exceed the limit of 10 (permerror: SPF fails entirely)'' \<in>
     set (spf_Problems (evaluateSPF ex_lib ''d''
       (ex_txt [(''d'', [''v=spf1 a a a a a a a a a a include:e -all''])] ''d'' ''TXT'')
       (ex_txt [(''e'', [''v=spf1 mx ~all''])])))"
proof -
  define r where "r = evaluateSPF ex_lib ''d''
    (ex_txt [(''d'', [''v=spf1 a a a a a a a a a a include:e -all''])] ''d'' ''TXT'')
    (ex_txt [(''e'', [''v=spf1 mx ~all''])])"
  have l: "spf_Lookups r = 12" unfolding r_def by code_simp
  have t: "nat_text 12 @ '' DNS lookups exceed the limit of '' @ nat_text spfLookupLimit @
    '' (permerror: SPF fails entirely)'' =
    ''12 DNS lookups exceed the limit of 10 (permerror: SPF fails entirely)''" by code_simp
  have "spfLookupLimit < spf_Lookups r" by (simp add: l spfLookupLimit_def)
  then show ?thesis using spf_limits_reported [where lib = ex_lib] l t unfolding r_def by metis
qed

text \<open>
  A record with an \<open>all\<close> mechanism ends with it: its redirect is ignored, as RFC 7208
  section 6.1 asks, and the rest of the record is evaluated as if the redirect were not there.
\<close>
theorem spf_own_all_wins:
  assumes "recordAll (parseSPFTerms record) \<noteq> []"
  shows "walk lib lookup record path e =
    ((recordAll (parseSPFTerms record), []),
     fold (\<lambda>t. spf_mechanism (descend lib lookup path) t path)
       (filter (\<lambda>t. \<not> (tm_name t = ''redirect'' \<and> tm_modifier t)) (parseSPFTerms record))
       (fold problem (redundantIPs (parseSPFTerms record) (last path)) e))"
  using assms by (simp add: walk_def spf_walk_def Let_def walk_own_all)

theorem spf_own_all_wins_witness:
  "fst (walk ex_lib (ex_txt []) ''v=spf1 redirect=e -all'' [''d''] new_evaluator) = (''-all'', [])"
proof -
  have "recordAll (parseSPFTerms ''v=spf1 redirect=e -all'') = ''-all''" by code_simp
  then show ?thesis using spf_own_all_wins [of "''v=spf1 redirect=e -all''"] by simp
qed

text \<open>
  Taking out at once every \<open>ip4\<close> and \<open>ip6\<close> mechanism that is reported as
  redundant changes nothing: an address that a mechanism of the record matched is still matched
  by one that is kept, with the same qualifier.
\<close>
theorem redundantIPs_sound:
  assumes "p \<in> set (spfPrefixes terms)" and "Prefix_Contains (px_prefix p) ip"
  shows "\<exists>k < length (spfPrefixes terms). covering (spfPrefixes terms) k = None \<and>
    px_qualifier (spfPrefixes terms ! k) = px_qualifier p \<and>
    Prefix_Contains (px_prefix (spfPrefixes terms ! k)) ip"
proof -
  obtain i where i: "i < length (spfPrefixes terms)" "spfPrefixes terms ! i = p"
    using assms(1) by (auto simp: in_set_conv_nth)
  have "list_all px_masked (spfPrefixes terms)"
    by (auto simp: list_all_iff intro: spfPrefixes_masked)
  from uncovered_exists [OF this i(1), of ip] show ?thesis
    using assms(2) i(2) by simp
qed


theorem redundantIPs_sound_witness:
  "\<exists>k < 3. covering (spfPrefixes (parseSPFTerms ''v=spf1 ip4:10.0.0.1 ip4:10.0.0.0/8 ip4:10.0.0.0/8'')) k = None \<and>
     px_qualifier (spfPrefixes (parseSPFTerms ''v=spf1 ip4:10.0.0.1 ip4:10.0.0.0/8 ip4:10.0.0.0/8'') ! k) = ''+'' \<and>
     Prefix_Contains
       (px_prefix (spfPrefixes (parseSPFTerms ''v=spf1 ip4:10.0.0.1 ip4:10.0.0.0/8 ip4:10.0.0.0/8'') ! k))
       (IPv4 0x0A000001)"
proof -
  define ps where "ps = spfPrefixes (parseSPFTerms ''v=spf1 ip4:10.0.0.1 ip4:10.0.0.0/8 ip4:10.0.0.0/8'')"
  have len: "length ps = 3" and p: "Prefix_Contains (px_prefix (ps ! 0)) (IPv4 0x0A000001)"
    and q: "px_qualifier (ps ! 0) = ''+''"
    unfolding ps_def by code_simp+
  have "ps ! 0 \<in> set ps" using len by (intro nth_mem) simp
  from redundantIPs_sound [OF this [unfolded ps_def] p [unfolded ps_def]] show ?thesis
    using q len unfolding ps_def by simp
qed

end
