(* ===== verification/Mail.thy ===== *)
theory Mail
  imports Spf Scrub
begin

text \<open>
  Mail posture: the DMARC, MX, DKIM, MTA-STS and TLS-RPT parts of \<open>src/mail.go\<close>.

  Key parsing of package \<open>crypto/x509\<close> is the parameter \<open>x509_keys\<close>; the random
  selector is an argument of \<open>probeDKIM\<close>; the HTTP client of the policy fetch is the
  argument \<open>client\<close>. Lookups that the source runs in parallel write to places of their own,
  so their order does not matter and the model runs them in the order of the list.
\<close>

section \<open>Tags\<close>

definition tag_step :: "string \<Rightarrow> (string, string) go_map \<Rightarrow> (string, string) go_map" where
  "tag_step part tags =
     (case Cut CHR ''='' (TrimSpace part) of
        (k, Some v) \<Rightarrow> map_put (ToLower (TrimSpace k)) (TrimSpace v) tags
      | (k, None) \<Rightarrow> tags)"

definition parseTags :: "string \<Rightarrow> (string, string) go_map" where
  "parseTags record = fold tag_step (Split CHR '';'' record) []"

abbreviation tag :: "(string, string) go_map \<Rightarrow> string \<Rightarrow> string" where
  "tag tags k \<equiv> map_get [] tags k"

section \<open>DMARC\<close>

record DMARC =
  dm_Present :: bool
  dm_Unresolved :: bool
  dm_Policy :: string
  dm_SubdomainPolicy :: string
  dm_Pct :: int
  dm_RUA :: bool
  dm_Records :: nat
  dm_Problems :: "string list"

definition validDMARCPolicy :: "string \<Rightarrow> bool" where
  "validDMARCPolicy p \<longleftrightarrow> p = ''none'' \<or> p = ''quarantine'' \<or> p = ''reject''"

definition parsePct :: "string \<Rightarrow> int \<times> bool" where
  "parsePct v =
     (case Atoi v of (n, ok) \<Rightarrow> if \<not> ok \<or> n < 0 \<or> n > 100 then (100, False) else (n, True))"

definition dmarc_pct :: "(string, string) go_map \<Rightarrow> DMARC \<Rightarrow> DMARC" where
  "dmarc_pct tags d =
     (case map_of tags ''pct'' of
        None \<Rightarrow> d
      | Some v \<Rightarrow>
          (case parsePct v of (n, ok) \<Rightarrow>
             d\<lparr>dm_Pct := n,
               dm_Problems := dm_Problems d @
                 (if ok then [] else [''invalid pct='' @ v @ '' (not a whole number from 0 to 100)''])\<rparr>))"

definition applyDMARCTags :: "DMARC \<Rightarrow> (string, string) go_map \<Rightarrow> DMARC" where
  "applyDMARCTags d tags =
     (let d1 = d\<lparr>dm_Policy := ToLower (tag tags ''p''), dm_SubdomainPolicy := ToLower (tag tags ''sp''),
                 dm_RUA := tag tags ''rua'' \<noteq> []\<rparr>;
          d2 = dmarc_pct tags d1;
          p = dm_Policy d2;
          sp = dm_SubdomainPolicy d2;
          d3 = d2\<lparr>dm_Problems := dm_Problems d2 @
                    (if p = ''none'' \<or> p = ''quarantine'' \<or> p = ''reject'' then []
                     else if p = [] then [''missing p= tag'']
                     else [''unknown policy p='' @ p])\<rparr>
      in d3\<lparr>dm_Problems := dm_Problems d3 @
              (if sp \<noteq> [] \<and> \<not> validDMARCPolicy sp
               then [''unknown subdomain policy sp='' @ sp] else [])\<rparr>)"

definition dmarc_records :: "string list \<Rightarrow> string list" where
  "dmarc_records rs = filter (\<lambda>r. HasPrefix (ToLower (TrimSpace r)) ''v=dmarc1'') rs"

definition parseDMARC :: "Lookup \<Rightarrow> DMARC" where
  "parseDMARC l =
     (let d = \<lparr>dm_Present = False, dm_Unresolved = lk_Status l \<noteq> StatusNone \<and> \<not> Answered l,
               dm_Policy = [], dm_SubdomainPolicy = [], dm_Pct = 100, dm_RUA = False,
               dm_Records = length (dmarc_records (lk_Records l)), dm_Problems = []\<rparr>
      in case dmarc_records (lk_Records l) of
           [] \<Rightarrow> d
         | r # rs \<Rightarrow>
             applyDMARCTags
               (d\<lparr>dm_Present := True,
                  dm_Problems := (if rs \<noteq> [] then [''multiple DMARC records (invalid, receivers ignore all)'']
                                  else [])\<rparr>)
               (parseTags r))"

section \<open>MX\<close>

record MXCheck =
  mxc_Host :: string
  mxc_Pref :: int
  mxc_Addresses :: nat
  mxc_CNAME :: bool
  mxc_IPLiteral :: bool
  mxc_Unresolved :: bool
  mxc_Problems :: "string list"

definition mxUnresolvedProblem :: string where
  "mxUnresolvedProblem = ''MX target lookup did not complete, so the target was not checked''"

definition mx_problem :: "string \<Rightarrow> MXCheck \<Rightarrow> MXCheck" where
  "mx_problem p c = c\<lparr>mxc_Problems := mxc_Problems c @ [p]\<rparr>"

definition checkMXTarget :: "dp_lib \<Rightarrow> MXCheck \<Rightarrow> lookupFn \<Rightarrow> MXCheck" where
  "checkMXTarget lib c lookup =
     (case hostOrIP lib (mxc_Host c) of
        Inl err \<Rightarrow> mx_problem (''MX target is not a valid hostname: '' @ err) c
      | Inr n \<Rightarrow>
          if KindIP n then
            mx_problem (''MX target is an IP literal (invalid, RFC 2181 '' @ section_sign @ ''10.3)'')
              (c\<lparr>mxc_IPLiteral := True\<rparr>)
          else
            let a = lookup (mxc_Host c) ''A''; aaaa = lookup (mxc_Host c) ''AAAA'';
                c1 = c\<lparr>mxc_Addresses := length (Addrs a) + length (Addrs aaaa)\<rparr>;
                c2 = (if lk_CNAME a \<noteq> [] \<or> lk_CNAME aaaa \<noteq> []
                      then mx_problem (''MX target is a CNAME (RFC 2181 '' @ section_sign @ ''10.3)'')
                             (c1\<lparr>mxc_CNAME := True\<rparr>)
                      else c1)
            in if \<not> Answered a \<or> \<not> Answered aaaa
               then mx_problem mxUnresolvedProblem (c2\<lparr>mxc_Unresolved := True\<rparr>)
               else if lk_Status a = StatusNXDomain then mx_problem ''MX target does not exist'' c2
               else if mxc_Addresses c2 = 0 then mx_problem ''MX target has no address'' c2
               else c2)"

definition new_MXCheck :: "nat \<Rightarrow> string \<Rightarrow> MXCheck option" where
  "new_MXCheck n rec =
     (case Fields rec of
        [pref, host] \<Rightarrow>
          Some \<lparr>mxc_Host = ToLower host, mxc_Pref = fst (Atoi pref), mxc_Addresses = 0,
                mxc_CNAME = False, mxc_IPLiteral = False, mxc_Unresolved = False,
                mxc_Problems = (if ToLower host = ''.'' \<and> n > 1
                                then [''null MX mixed with real MX records''] else [])\<rparr>
      | _ \<Rightarrow> None)"

definition checkMX :: "dp_lib \<Rightarrow> Lookup \<Rightarrow> lookupFn \<Rightarrow> MXCheck list" where
  "checkMX lib mx lookup =
     map (\<lambda>c. if mxc_Host c = ''.'' then c else checkMXTarget lib c lookup)
       (List.map_filter (new_MXCheck (length (lk_Records mx))) (lk_Records mx))"

definition mxHosts :: "Lookup \<Rightarrow> string list" where
  "mxHosts mx =
     sort (List.map_filter
       (\<lambda>rec. case Fields rec of [pref, host] \<Rightarrow> if host \<noteq> ''.'' then Some (ToLower host) else None
              | _ \<Rightarrow> None) (lk_Records mx))"

section \<open>DKIM\<close>

text \<open>\<open>x509.ParsePKIXPublicKey\<close>: nothing on an error, else the bits of the modulus when the
  key is an RSA one; \<open>x509.ParsePKCS1PublicKey\<close>: the bits of the modulus.\<close>

record x509_keys =
  ParsePKIXPublicKey :: "string \<Rightarrow> nat option option"
  ParsePKCS1PublicKey :: "string \<Rightarrow> nat option"

record DKIMKey =
  dk_Selector :: string
  dk_Type :: string
  dk_Bits :: nat
  dk_Error :: string

record DKIMResult =
  dkim_Wildcard :: bool
  dkim_SelectorsProbed :: "string list"
  dkim_SelectorsFound :: "string list"
  dkim_Revoked :: "string list"
  dkim_Keys :: "DKIMKey list"
  dkim_Dangling :: "string list"

definition dkimSelectors :: "string list" where
  "dkimSelectors = [''google'', ''selector1'', ''selector2'', ''default'', ''k1'', ''s1'', ''mail'', ''dkim'']"

text \<open>\<open>base64.StdEncoding.DecodeString\<close>: line breaks are skipped, padding is required, and
  the unused bits of the last group are ignored.\<close>

definition base64_val :: "char \<Rightarrow> nat option" where
  "base64_val c =
     (let n = of_char c :: nat in
      if 65 \<le> n \<and> n \<le> 90 then Some (n - 65)
      else if 97 \<le> n \<and> n \<le> 122 then Some (n - 71)
      else if 48 \<le> n \<and> n \<le> 57 then Some (n + 4)
      else if n = 43 then Some 62 else if n = 47 then Some 63 else None)"

definition base64_quad :: "nat \<Rightarrow> nat \<Rightarrow> nat \<Rightarrow> nat \<Rightarrow> string" where
  "base64_quad a b c d =
     (let n = 262144 * a + 4096 * b + 64 * c + d
      in [char_of (n div 65536), char_of (n div 256 mod 256), char_of (n mod 256)])"

fun base64_groups :: "string \<Rightarrow> string option" where
  "base64_groups [] = Some []"
| "base64_groups (p # q # r # s # rest) =
     (case (base64_val p, base64_val q) of
        (Some a, Some b) \<Rightarrow>
          (if r = CHR ''='' then
             (if s = CHR ''='' \<and> rest = [] then Some (take 1 (base64_quad a b 0 0)) else None)
           else case base64_val r of
             None \<Rightarrow> None
           | Some c \<Rightarrow>
               (if s = CHR ''='' then
                  (if rest = [] then Some (take 2 (base64_quad a b c 0)) else None)
                else case base64_val s of
                  None \<Rightarrow> None
                | Some d \<Rightarrow> map_option (\<lambda>t. base64_quad a b c d @ t) (base64_groups rest)))
      | _ \<Rightarrow> None)"
| "base64_groups _ = None"

definition base64_decode :: "string \<Rightarrow> string option" where
  "base64_decode s = base64_groups (filter (\<lambda>c. c \<noteq> CHR 0x0A \<and> c \<noteq> CHR 0x0D) s)"

definition rsaKeyBits :: "x509_keys \<Rightarrow> string \<Rightarrow> nat \<times> string" where
  "rsaKeyBits x der =
     (case ParsePKIXPublicKey x der of
        Some (Some bits) \<Rightarrow> (bits, [])
      | Some None \<Rightarrow> (0, ''p= is not an RSA key'')
      | None \<Rightarrow>
          (case ParsePKCS1PublicKey x der of
             Some bits \<Rightarrow> (bits, [])
           | None \<Rightarrow> (0, ''p= is not a parsable RSA key'')))"

definition dkimKeyInfo :: "x509_keys \<Rightarrow> string \<Rightarrow> (string, string) go_map \<Rightarrow> DKIMKey" where
  "dkimKeyInfo x sel tags =
     (let typ = ToLower (firstNonEmpty [tag tags ''k'', ''rsa''])
      in case base64_decode (Join [] (Fields (tag tags ''p''))) of
           None \<Rightarrow> \<lparr>dk_Selector = sel, dk_Type = typ, dk_Bits = 0, dk_Error = ''p= is not base64''\<rparr>
         | Some der \<Rightarrow>
             (if typ = ''ed25519'' then
                \<lparr>dk_Selector = sel, dk_Type = typ, dk_Bits = 0,
                 dk_Error = (if length der \<noteq> 32 then ''p= is not a 32-byte Ed25519 key'' else [])\<rparr>
              else if typ = ''rsa'' then
                (case rsaKeyBits x der of (bits, err) \<Rightarrow>
                   \<lparr>dk_Selector = sel, dk_Type = typ, dk_Bits = bits, dk_Error = err\<rparr>)
              else \<lparr>dk_Selector = sel, dk_Type = typ, dk_Bits = 0, dk_Error = []\<rparr>))"

fun dkim_scan :: "string list \<Rightarrow> (bool \<times> string) option" where
  "dkim_scan [] = None"
| "dkim_scan (r # rs) =
     (let p = map_of (parseTags r) ''p''
      in if p = None \<and> \<not> HasPrefix (ToLower r) ''v=dkim1'' then dkim_scan rs
         else Some (p = Some [], r))"

text \<open>The result \<open>ok = false\<close> is \<^const>\<open>None\<close>.\<close>

definition dkimKey :: "Lookup \<Rightarrow> (bool \<times> string) option" where
  "dkimKey l = dkim_scan (lk_Records l)"

definition addSelector :: "x509_keys \<Rightarrow> (string \<times> Lookup) \<Rightarrow> DKIMResult \<Rightarrow> DKIMResult" where
  "addSelector x sl res =
     (case sl of (sel, l) \<Rightarrow>
        (case dkimKey l of
           None \<Rightarrow>
             (if lk_CNAME l \<noteq> [] \<and> lk_Status l = StatusNXDomain
              then res\<lparr>dkim_Dangling := dkim_Dangling res @ [sel]\<rparr> else res)
         | Some (True, record) \<Rightarrow>
             res\<lparr>dkim_SelectorsFound := dkim_SelectorsFound res @ [sel],
                 dkim_Revoked := dkim_Revoked res @ [sel]\<rparr>
         | Some (False, record) \<Rightarrow>
             res\<lparr>dkim_SelectorsFound := dkim_SelectorsFound res @ [sel],
                 dkim_Keys := dkim_Keys res @ [dkimKeyInfo x sel (parseTags record)]\<rparr>))"

definition probeDKIM :: "x509_keys \<Rightarrow> string \<Rightarrow> string \<Rightarrow> lookupFn \<Rightarrow> DKIMResult" where
  "probeDKIM x label domain lookup =
     (let res = \<lparr>dkim_Wildcard = False, dkim_SelectorsProbed = dkimSelectors, dkim_SelectorsFound = [],
                 dkim_Revoked = [], dkim_Keys = [], dkim_Dangling = []\<rparr>;
          answer = (\<lambda>sel. lookup (sel @ ''._domainkey.'' @ domain) ''TXT'')
      in if dkimKey (answer label) \<noteq> None then res\<lparr>dkim_Wildcard := True\<rparr>
         else fold (addSelector x) (map (\<lambda>sel. (sel, answer sel)) dkimSelectors) res)"

section \<open>MTA-STS and TLS-RPT\<close>

record MTASTS =
  sts_Record :: bool
  sts_ID :: string
  sts_Mode :: string
  sts_MaxAge :: int
  sts_MXPattern :: "string list"
  sts_PolicyOK :: bool
  sts_MXCovered :: bool
  sts_Error :: string

definition zero_MTASTS :: MTASTS where
  "zero_MTASTS = \<lparr>sts_Record = False, sts_ID = [], sts_Mode = [], sts_MaxAge = 0, sts_MXPattern = [],
     sts_PolicyOK = False, sts_MXCovered = False, sts_Error = []\<rparr>"

fun mtasts_scan :: "string list \<Rightarrow> MTASTS" where
  "mtasts_scan [] = zero_MTASTS"
| "mtasts_scan (r # rs) =
     (let tags = parseTags r
      in if EqualFold (tag tags ''v'') ''STSv1''
         then zero_MTASTS\<lparr>sts_Record := True, sts_ID := tag tags ''id''\<rparr> else mtasts_scan rs)"

definition parseMTASTSRecord :: "Lookup \<Rightarrow> MTASTS" where
  "parseMTASTSRecord l = mtasts_scan (lk_Records l)"

definition policy_line :: "string \<Rightarrow> MTASTS \<Rightarrow> MTASTS" where
  "policy_line line m =
     (case Cut CHR '':'' (TrimSpace line) of
        (k0, None) \<Rightarrow> m
      | (k0, Some v0) \<Rightarrow>
          (let v = TrimSpace v0; k = ToLower (TrimSpace k0)
           in if k = ''version'' then m\<lparr>sts_PolicyOK := EqualFold v ''STSv1''\<rparr>
              else if k = ''mode'' then m\<lparr>sts_Mode := ToLower v\<rparr>
              else if k = ''max_age'' then m\<lparr>sts_MaxAge := fst (Atoi v)\<rparr>
              else if k = ''mx'' then m\<lparr>sts_MXPattern := sts_MXPattern m @ [ToLower v]\<rparr>
              else m))"

definition parseMTASTSPolicy :: "string \<Rightarrow> MTASTS \<Rightarrow> MTASTS" where
  "parseMTASTSPolicy body m0 =
     (let m = fold policy_line (Split CHR 0x0A body) m0
      in if sts_Mode m \<noteq> ''enforce'' \<and> sts_Mode m \<noteq> ''testing'' \<and> sts_Mode m \<noteq> ''none''
         then m\<lparr>sts_PolicyOK := False\<rparr> else m)"

definition first_label :: "string \<Rightarrow> string" where
  "first_label host = takeWhile (\<lambda>c. c \<noteq> CHR ''.'') host"

definition pattern_matches :: "dp_lib \<Rightarrow> string \<Rightarrow> string \<Rightarrow> bool" where
  "pattern_matches lib host p =
     (let wild = HasPrefix p ''*.''
      in case dnsName lib (TrimPrefix p ''*.'') of
           Inl err \<Rightarrow> False
         | Inr n \<Rightarrow>
             (\<not> wild \<and> ASCII n = host) \<or>
             (wild \<and> HasPrefix host (first_label host @ ''.'') \<and>
              drop (length (first_label host) + 1) host = ASCII n))"

definition matchesAny :: "dp_lib \<Rightarrow> string list \<Rightarrow> string \<Rightarrow> bool" where
  "matchesAny lib patterns host = list_ex (pattern_matches lib host) patterns"

definition mtaSTSCovers :: "dp_lib \<Rightarrow> string list \<Rightarrow> string list \<Rightarrow> bool" where
  "mtaSTSCovers lib patterns hosts =
     list_all (\<lambda>h. h = [] \<or> h = ''.'' \<or>
       (case dnsName lib h of Inl err \<Rightarrow> False | Inr n \<Rightarrow> matchesAny lib patterns (ASCII n))) hosts"

definition hasTLSRPT :: "Lookup \<Rightarrow> bool" where
  "hasTLSRPT l = list_ex (\<lambda>r. EqualFold (tag (parseTags r) ''v'') ''TLSRPTv1'') (lk_Records l)"

section \<open>The policy fetch\<close>

text \<open>
  \<open>dialFirst\<close>: the connection attempts report in an order of their own, so the model takes
  the results in the order in which they arrive. A connection is a value of type \<open>'c\<close>;
  \<open>dl_closed\<close> lists the ones closed.
\<close>

record 'c dial_state =
  dl_won :: "'c option"
  dl_lastErr :: "string option"
  dl_cancelled :: bool
  dl_closed :: "'c list"

definition dial_step :: "string + 'c \<Rightarrow> 'c dial_state \<Rightarrow> 'c dial_state" where
  "dial_step r st =
     (case r of
        Inl err \<Rightarrow> st\<lparr>dl_lastErr := Some err\<rparr>
      | Inr conn \<Rightarrow>
          (if dl_won st = None then st\<lparr>dl_won := Some conn, dl_cancelled := True\<rparr>
           else st\<lparr>dl_closed := dl_closed st @ [conn]\<rparr>))"

definition dial_run :: "(string + 'c) list \<Rightarrow> 'c dial_state" where
  "dial_run results =
     fold dial_step results
       \<lparr>dl_won = None, dl_lastErr = None, dl_cancelled = False, dl_closed = []\<rparr>"

definition dialFirst :: "(string + 'c) list \<Rightarrow> string option + 'c" where
  "dialFirst results =
     (let st = dial_run results
      in case dl_won st of Some conn \<Rightarrow> Inr conn | None \<Rightarrow> Inl (dl_lastErr st))"

text \<open>The HTTP client, given the addresses it may dial and the URL: an error, or the status, the
  body and the error that reading the body ended with.\<close>

type_synonym policy_client = "addr list \<Rightarrow> string \<Rightarrow> string + int \<times> string \<times> string option"

definition fetchMTASTSPolicy :: "dp_lib \<Rightarrow> policy_client \<Rightarrow> string \<Rightarrow> lookupFn \<Rightarrow> string + string" where
  "fetchMTASTSPolicy lib client domain lookup =
     (let host = ''mta-sts.'' @ domain;
          (addrs, reserved) = splitReserved lib (Addrs (lookup host ''A'') @ Addrs (lookup host ''AAAA''))
      in if addrs = [] \<and> reserved \<noteq> [] then
           Inl (host @ '' has only reserved addresses ('' @ Join '', '' reserved @ '')'')
         else if addrs = [] then Inl (host @ '' has no address'')
         else case client addrs (''https://'' @ host @ ''/.well-known/mta-sts.txt'') of
           Inl err \<Rightarrow> Inl err
         | Inr (code, body, err) \<Rightarrow>
             if code \<noteq> 200 then Inl (''HTTP '' @ Itoa code)
             else (case err of Some e \<Rightarrow> Inl e | None \<Rightarrow> Inr (take 65536 body)))"

text \<open>\<open>checkMTASTS\<close>, with the policy fetcher as the argument \<open>fetch\<close>.\<close>

definition checkMTASTS ::
    "dp_lib \<Rightarrow> (string \<Rightarrow> lookupFn \<Rightarrow> string + string) \<Rightarrow> string \<Rightarrow> Lookup \<Rightarrow> string list \<Rightarrow> lookupFn \<Rightarrow> MTASTS" where
  "checkMTASTS lib fetch domain rec hosts lookup =
     (let m = (parseMTASTSRecord rec)\<lparr>sts_MXPattern := []\<rparr>
      in if \<not> sts_Record m then m
         else case fetch domain lookup of
           Inl err \<Rightarrow> m\<lparr>sts_Error := ''policy fetch failed: '' @ scrubProbeError err\<rparr>
         | Inr body \<Rightarrow>
             let m1 = parseMTASTSPolicy body m
             in if \<not> sts_PolicyOK m1
                then m1\<lparr>sts_Error := firstNonEmpty [sts_Error m1, ''policy file is not a valid STSv1 policy'']\<rparr>
                else m1\<lparr>sts_MXCovered := mtaSTSCovers lib (sts_MXPattern m1) hosts\<rparr>)"

record MailReport =
  mail_DMARC :: DMARC
  mail_SPF :: SPFResult
  mail_MX :: "MXCheck list"
  mail_DKIM :: DKIMResult
  mail_MTASTS :: "MTASTS option"
  mail_TLSRPT :: bool
  mail_mtaSTSAbsent :: bool
  mail_tlsRPTAbsent :: bool

section \<open>Lemmas\<close>

lemma parsePct_range: "0 \<le> fst (parsePct v) \<and> fst (parsePct v) \<le> 100"
  by (simp add: parsePct_def case_prod_beta)

lemma dmarc_pct_fields [simp]:
  "dm_Policy (dmarc_pct tags d) = dm_Policy d"
  "dm_SubdomainPolicy (dmarc_pct tags d) = dm_SubdomainPolicy d"
  "dm_Present (dmarc_pct tags d) = dm_Present d"
  "dm_Unresolved (dmarc_pct tags d) = dm_Unresolved d"
  by (simp_all add: dmarc_pct_def case_prod_beta split: option.split)

lemma dmarc_pct_range: "0 \<le> dm_Pct d \<Longrightarrow> dm_Pct d \<le> 100 \<Longrightarrow>
    0 \<le> dm_Pct (dmarc_pct tags d) \<and> dm_Pct (dmarc_pct tags d) \<le> 100"
  using parsePct_range by (simp add: dmarc_pct_def case_prod_beta split: option.split)

text \<open>A tag in the form \<open>k=v\<close> that the parser reads back.\<close>

definition plain_tag :: "string \<times> string \<Rightarrow> bool" where
  "plain_tag kv =
     (case kv of (k, v) \<Rightarrow> ToLower k = k \<and> TrimSpace k = k \<and> TrimSpace v = v \<and>
        CHR ''='' \<notin> set k \<and> CHR '';'' \<notin> set k \<and> CHR '';'' \<notin> set v)"

definition print_tag :: "string \<times> string \<Rightarrow> string" where
  "print_tag kv = '' '' @ fst kv @ ''='' @ snd kv"

definition print_tags :: "(string, string) go_map \<Rightarrow> string" where
  "print_tags tags = Join '';'' (map print_tag tags)"

lemma TrimSpace_tag:
  assumes "TrimSpace k = k" and "TrimSpace v = v"
  shows "TrimSpace ('' '' @ k @ ''='' @ v) = k @ ''='' @ v"
  using assms by (cases k; cases v rule: rev_cases) (auto simp: TrimSpace_iff TrimSpace_space is_space_def)

lemma tag_step_plain: "plain_tag kv \<Longrightarrow> tag_step (print_tag kv) tags = map_put (fst kv) (snd kv) tags"
  using TrimSpace_tag [of "fst kv" "snd kv"] Cut_append [of "CHR ''=''" "fst kv" "snd kv"]
  by (auto simp: plain_tag_def tag_step_def print_tag_def case_prod_beta)

lemma fold_tag_step_plain:
  "list_all plain_tag ts \<Longrightarrow> distinct (map fst (m @ ts)) \<Longrightarrow>
   fold tag_step (map print_tag ts) m = m @ ts"
proof (induction ts arbitrary: m)
  case (Cons kv ts)
  then have "fold tag_step (map print_tag ts) (m @ [kv]) = (m @ [kv]) @ ts" by (intro Cons.IH) auto
  moreover have "map_put (fst kv) (snd kv) m = m @ [kv]" using Cons.prems(2) by (auto simp: map_put_new)
  ultimately show ?case using Cons.prems(1) by (simp add: tag_step_plain)
qed simp

text \<open>What \<^const>\<open>addSelector\<close> keeps: every selector found is either revoked or has its key
  described, and none is dangling too.\<close>

definition dkim_sorted :: "DKIMResult \<Rightarrow> bool" where
  "dkim_sorted r \<longleftrightarrow>
     mset (dkim_SelectorsFound r) = mset (dkim_Revoked r) + mset (map dk_Selector (dkim_Keys r)) \<and>
     distinct (dkim_SelectorsFound r @ dkim_Dangling r)"

lemma dkimKeyInfo_selector [simp]: "dk_Selector (dkimKeyInfo x sel tags) = sel"
  by (simp add: dkimKeyInfo_def Let_def case_prod_beta split: option.split)

definition dkim_named :: "DKIMResult \<Rightarrow> string set" where
  "dkim_named r = set (dkim_SelectorsFound r) \<union> set (dkim_Dangling r)"

lemma addSelector_sorted:
  assumes "dkim_sorted r" and "fst sl \<notin> dkim_named r"
  shows "dkim_sorted (addSelector x sl r) \<and> dkim_named (addSelector x sl r) \<subseteq> insert (fst sl) (dkim_named r)"
proof -
  obtain sel l where sl: "sl = (sel, l)" by force
  show ?thesis
  proof (cases "dkimKey l")
    case None
    then show ?thesis using assms by (auto simp: sl dkim_sorted_def dkim_named_def addSelector_def)
  next
    case (Some a)
    then show ?thesis using assms
      by (cases a; cases "fst a") (auto simp: sl dkim_sorted_def dkim_named_def addSelector_def)
  qed
qed

lemma fold_addSelector_sorted:
  assumes "dkim_sorted r" and "distinct (map fst sls)" and "fst ` set sls \<inter> dkim_named r = {}"
  shows "dkim_sorted (fold (addSelector x) sls r) \<and>
    dkim_named (fold (addSelector x) sls r) \<subseteq> fst ` set sls \<union> dkim_named r"
  using assms
proof (induction sls arbitrary: r)
  case (Cons sl sls)
  let ?r = "addSelector x sl r"
  have step: "dkim_sorted ?r" "dkim_named ?r \<subseteq> insert (fst sl) (dkim_named r)"
    using addSelector_sorted [of r sl x] Cons.prems by auto
  have "fst sl \<notin> fst ` set sls" and d: "distinct (map fst sls)" using Cons.prems(2) by auto
  moreover have "fst ` set sls \<inter> dkim_named r = {}" using Cons.prems(3) by auto
  ultimately have "fst ` set sls \<inter> insert (fst sl) (dkim_named r) = {}" by simp
  with step(2) have "fst ` set sls \<inter> dkim_named ?r = {}" by (metis Int_mono inf_bot_right order_refl subset_empty)
  note Cons.IH [OF step(1) d this]
  moreover have "fst ` set sls \<union> dkim_named ?r \<subseteq> fst ` set (sl # sls) \<union> dkim_named r"
    using step(2) by auto
  ultimately show ?case unfolding fold_simps by blast
qed simp

lemma addSelector_same [simp]:
  "dkim_Wildcard (addSelector x sl r) = dkim_Wildcard r"
  "dkim_SelectorsProbed (addSelector x sl r) = dkim_SelectorsProbed r"
  by (simp_all add: addSelector_def split: prod.split option.split bool.split)

lemma fold_addSelector_same [simp]:
  "dkim_Wildcard (fold (addSelector x) sls r) = dkim_Wildcard r"
  "dkim_SelectorsProbed (fold (addSelector x) sls r) = dkim_SelectorsProbed r"
  by (induction sls arbitrary: r) simp_all

lemma policy_lines_same [simp]:
  "sts_Record (fold policy_line ls m) = sts_Record m"
  "sts_MXCovered (fold policy_line ls m) = sts_MXCovered m"
  by (induction ls arbitrary: m) (simp_all add: policy_line_def Let_def split: prod.split option.split)

lemma parseMTASTSPolicy_same [simp]:
  "sts_Record (parseMTASTSPolicy body m) = sts_Record m"
  "sts_MXCovered (parseMTASTSPolicy body m) = sts_MXCovered m"
  by (simp_all add: parseMTASTSPolicy_def Let_def)

lemma parseMTASTSPolicy_mode: "sts_PolicyOK (parseMTASTSPolicy body m) \<Longrightarrow>
    sts_Mode (parseMTASTSPolicy body m) \<in> {''enforce'', ''testing'', ''none''}"
  by (simp add: parseMTASTSPolicy_def Let_def split: if_splits)

lemma parseMTASTSRecord_uncovered [simp]: "\<not> sts_MXCovered (parseMTASTSRecord l)"
proof -
  have "\<not> sts_MXCovered (mtasts_scan rs)" for rs
    by (induction rs) (simp_all add: zero_MTASTS_def Let_def)
  then show ?thesis by (simp add: parseMTASTSRecord_def)
qed

text \<open>The connections an arrival order made, and where each of them ends up.\<close>

fun connections :: "(string + 'c) list \<Rightarrow> 'c list" where
  "connections [] = []"
| "connections (Inl err # rs) = connections rs"
| "connections (Inr conn # rs) = conn # connections rs"

lemma fold_dial_won: "dl_won st = Some w \<Longrightarrow>
    dl_won (fold dial_step rs st) = Some w \<and> dl_closed (fold dial_step rs st) = dl_closed st @ connections rs"
  by (induction rs arbitrary: st rule: connections.induct) (auto simp: dial_step_def)

lemma fold_dial_none: "dl_won st = None \<Longrightarrow>
    (case connections rs of
       [] \<Rightarrow> dl_won (fold dial_step rs st) = None \<and> dl_closed (fold dial_step rs st) = dl_closed st
     | c # cs \<Rightarrow> dl_won (fold dial_step rs st) = Some c \<and> dl_closed (fold dial_step rs st) = dl_closed st @ cs)"
proof (induction rs arbitrary: st rule: connections.induct)
  case (3 conn rs)
  then show ?case
    using fold_dial_won [of "dial_step (Inr conn) st" conn rs] by (simp add: dial_step_def)
next
  case (2 err rs)
  then show ?case unfolding fold_simps connections.simps
    using "2.IH" [of "dial_step (Inl err) st"]
    by (cases "connections rs") (simp_all add: dial_step_def)
qed simp

section \<open>Properties\<close>

text \<open>
  Tags written as \<open>k=v\<close> and separated by semicolons are read back as they were: the
  records of DMARC, DKIM, MTA-STS and TLS-RPT are parsed without loss.
\<close>
theorem parseTags_roundtrip:
  assumes "tags \<noteq> []" and "list_all plain_tag tags" and "distinct (map fst tags)"
  shows "parseTags (print_tags tags) = tags"
proof -
  have "CHR '';'' \<notin> set (print_tag kv)" if "kv \<in> set tags" for kv
    using assms(2) that by (auto simp: list_all_iff plain_tag_def print_tag_def)
  then have "Split CHR '';'' (print_tags tags) = map print_tag tags"
    unfolding print_tags_def using assms(1) by (intro Split_Join) auto
  then show ?thesis
    using fold_tag_step_plain [of tags "[]"] assms(2,3) by (simp add: parseTags_def)
qed

theorem parseTags_roundtrip_witness:
  "parseTags ('' v=DMARC1; p=reject; rua=mailto:a@b.example'') =
     [(''v'', ''DMARC1''), (''p'', ''reject''), (''rua'', ''mailto:a@b.example'')]"
proof -
  let ?ts = "[(''v'', ''DMARC1''), (''p'', ''reject''), (''rua'', ''mailto:a@b.example'')]"
  have "list_all plain_tag ?ts" by code_simp
  from parseTags_roundtrip [OF _ this] show ?thesis by (simp add: print_tags_def print_tag_def)
qed

text \<open>
  The percentage of a DMARC record is always one a receiver can apply, and a record whose
  policy is not one of the three is never taken without a problem.
\<close>
theorem parseDMARC_sound:
  "0 \<le> dm_Pct (parseDMARC l) \<and> dm_Pct (parseDMARC l) \<le> 100 \<and>
   (dm_Present (parseDMARC l) \<longrightarrow> validDMARCPolicy (dm_Policy (parseDMARC l)) \<or> dm_Problems (parseDMARC l) \<noteq> [])"
proof (cases "dmarc_records (lk_Records l)")
  case (Cons r rs)
  then show ?thesis
    by (simp add: parseDMARC_def applyDMARCTags_def Let_def validDMARCPolicy_def dmarc_pct_range)
qed (simp add: parseDMARC_def)

theorem parseDMARC_sound_witness:
  "dm_Problems (parseDMARC (zero_Lookup\<lparr>lk_Status := StatusOK, lk_Records := [''v=DMARC1; p=rejct; pct=150'']\<rparr>)) \<noteq> []"
proof -
  let ?d = "parseDMARC (zero_Lookup\<lparr>lk_Status := StatusOK, lk_Records := [''v=DMARC1; p=rejct; pct=150'']\<rparr>)"
  have "dm_Present ?d" and "\<not> validDMARCPolicy (dm_Policy ?d)" by code_simp+
  then show ?thesis using parseDMARC_sound by blast
qed

text \<open>
  An MX target that is left without a problem is a host name, not an address, and both of its
  address lookups answered with no CNAME and with at least one address between them.
\<close>
theorem checkMXTarget_clean:
  assumes "mxc_Problems (checkMXTarget lib c lookup) = []"
  shows "\<exists>n. hostOrIP lib (mxc_Host c) = Inr n \<and> \<not> KindIP n \<and>
    (let a = lookup (mxc_Host c) ''A''; aaaa = lookup (mxc_Host c) ''AAAA''
     in Answered a \<and> Answered aaaa \<and> lk_Status a \<noteq> StatusNXDomain \<and>
        lk_CNAME a = [] \<and> lk_CNAME aaaa = [] \<and> Addrs a @ Addrs aaaa \<noteq> [])"
  using assms
  by (auto simp: checkMXTarget_def mx_problem_def Let_def split: sum.splits if_splits)

theorem checkMXTarget_clean_witness:
  "\<not> KindIP \<lparr>ASCII = ''mx.example'', Unicode = ''mx.example'', KindIP = False, FQDN = ''mx.example.''\<rparr> \<and>
   Answered (ex_txt [(''mx.example'', [''192.0.2.1''])] ''mx.example'' ''A'')"
proof -
  let ?c = "\<lparr>mxc_Host = ''mx.example'', mxc_Pref = 10, mxc_Addresses = 0, mxc_CNAME = False,
    mxc_IPLiteral = False, mxc_Unresolved = False, mxc_Problems = []\<rparr>"
  have "mxc_Problems (checkMXTarget ex_lib ?c (ex_txt [(''mx.example'', [''192.0.2.1''])])) = []"
    by code_simp
  from checkMXTarget_clean [OF this] show ?thesis by (auto simp: Let_def ex_lib_def)
qed

text \<open>
  When a selector nobody configured is answered, nothing is claimed about any selector.
  Otherwise every selector found is one of those probed, is listed once, and either is revoked or
  has its key described, and none of them is also reported as dangling.
\<close>
theorem probeDKIM_sorted:
  fixes x :: x509_keys and label domain :: string and lookup :: lookupFn
  defines "r \<equiv> probeDKIM x label domain lookup"
  shows "dkim_sorted r \<and> set (dkim_SelectorsFound r) \<subseteq> set (dkim_SelectorsProbed r) \<and>
    (dkim_Wildcard r \<longrightarrow> dkim_SelectorsFound r = [] \<and> dkim_Dangling r = [])"
proof -
  let ?r0 = "\<lparr>dkim_Wildcard = False, dkim_SelectorsProbed = dkimSelectors, dkim_SelectorsFound = [],
    dkim_Revoked = [], dkim_Keys = [], dkim_Dangling = []\<rparr>"
  let ?sls = "map (\<lambda>sel. (sel, lookup (sel @ ''._domainkey.'' @ domain) ''TXT'')) dkimSelectors"
  have d: "distinct (map fst ?sls)" by (simp add: dkimSelectors_def comp_def)
  have "dkim_sorted (fold (addSelector x) ?sls ?r0) \<and>
      dkim_named (fold (addSelector x) ?sls ?r0) \<subseteq> fst ` set ?sls \<union> dkim_named ?r0"
    by (rule fold_addSelector_sorted [OF _ d]) (simp_all add: dkim_sorted_def dkim_named_def)
  moreover have "fst ` set ?sls \<union> dkim_named ?r0 = set dkimSelectors"
    by (force simp: dkim_named_def)
  ultimately have "dkim_sorted (fold (addSelector x) ?sls ?r0)"
      "set (dkim_SelectorsFound (fold (addSelector x) ?sls ?r0)) \<subseteq> set dkimSelectors"
    by (simp_all add: dkim_named_def)
  then show ?thesis
    by (simp add: r_def probeDKIM_def Let_def dkim_sorted_def)
qed

theorem probeDKIM_sorted_witness:
  "dkim_SelectorsFound (probeDKIM
     \<lparr>ParsePKIXPublicKey = (\<lambda>s. None), ParsePKCS1PublicKey = (\<lambda>s. None)\<rparr> ''qqqq'' ''d''
     (\<lambda>name qtype. zero_Lookup\<lparr>lk_Status := StatusOK, lk_Records := [''v=DKIM1; p='']\<rparr>)) = []"
proof -
  let ?r = "probeDKIM
     \<lparr>ParsePKIXPublicKey = (\<lambda>s. None), ParsePKCS1PublicKey = (\<lambda>s. None)\<rparr> ''qqqq'' ''d''
     (\<lambda>name qtype. zero_Lookup\<lparr>lk_Status := StatusOK, lk_Records := [''v=DKIM1; p='']\<rparr>)"
  have "dkim_Wildcard ?r" by code_simp
  then show ?thesis using probeDKIM_sorted by blast
qed

text \<open>
  A policy pattern without a wildcard matches the host it names; one that begins with
  \<open>*.\<close> matches exactly the hosts one label below its name; a pattern that is not a name
  matches nothing.
\<close>
theorem matchesAny_iff:
  "matchesAny lib patterns host \<longleftrightarrow>
     (\<exists>p n. p \<in> set patterns \<and> dnsName lib (TrimPrefix p ''*.'') = Inr n \<and>
        (if HasPrefix p ''*.'' then \<exists>label. CHR ''.'' \<notin> set label \<and> host = label @ ''.'' @ ASCII n
         else host = ASCII n))"
proof -
  have one: "HasPrefix host (first_label host @ ''.'') \<and> drop (length (first_label host) + 1) host = m
      \<longleftrightarrow> (\<exists>label. CHR ''.'' \<notin> set label \<and> host = label @ ''.'' @ m)" for m
  proof
    assume h: "HasPrefix host (first_label host @ ''.'') \<and> drop (length (first_label host) + 1) host = m"
    then obtain t where t: "host = first_label host @ ''.'' @ t" by (auto simp: HasPrefix_iff)
    have "drop (length (first_label host) + 1) (first_label host @ ''.'' @ t) = t" by simp
    with h t have "t = m" by metis
    moreover have "CHR ''.'' \<notin> set (first_label host)"
      by (auto simp: first_label_def dest: set_takeWhileD)
    ultimately show "\<exists>label. CHR ''.'' \<notin> set label \<and> host = label @ ''.'' @ m" using t by blast
  next
    assume "\<exists>label. CHR ''.'' \<notin> set label \<and> host = label @ ''.'' @ m"
    then obtain label where l: "CHR ''.'' \<notin> set label" "host = label @ ''.'' @ m" by blast
    then have "first_label host = label"
      by (auto simp: first_label_def takeWhile_append)
    then show "HasPrefix host (first_label host @ ''.'') \<and> drop (length (first_label host) + 1) host = m"
      using l(2) by (auto simp: HasPrefix_iff)
  qed
  have eq: "pattern_matches lib host p \<longleftrightarrow> (\<exists>n. dnsName lib (TrimPrefix p ''*.'') = Inr n \<and>
      (if HasPrefix p ''*.'' then \<exists>label. CHR ''.'' \<notin> set label \<and> host = label @ ''.'' @ ASCII n
       else host = ASCII n))" for p
    using one by (auto simp: pattern_matches_def Let_def split: sum.split)
  show ?thesis unfolding matchesAny_def list_ex_iff eq by blast
qed

text \<open>
  An MTA-STS policy is reported to cover the MX hosts only when a record announced it, it was
  fetched and valid, and every host that receives mail matches one of its patterns.
\<close>
theorem checkMTASTS_covered:
  assumes "sts_MXCovered (checkMTASTS lib fetch domain rec hosts lookup)"
    and "h \<in> set hosts" and "h \<noteq> []" and "h \<noteq> ''.''"
  shows "sts_Record (checkMTASTS lib fetch domain rec hosts lookup) \<and>
    sts_Mode (checkMTASTS lib fetch domain rec hosts lookup) \<in> {''enforce'', ''testing'', ''none''} \<and>
    (\<exists>n. dnsName lib h = Inr n \<and>
      matchesAny lib (sts_MXPattern (checkMTASTS lib fetch domain rec hosts lookup)) (ASCII n))"
proof (cases "fetch domain lookup")
  case (Inr body)
  define m where "m = parseMTASTSPolicy body ((parseMTASTSRecord rec)\<lparr>sts_MXPattern := []\<rparr>)"
  have r: "sts_Record (parseMTASTSRecord rec)" and ok: "sts_PolicyOK m"
    and c: "mtaSTSCovers lib (sts_MXPattern m) hosts"
    using assms(1) Inr by (simp_all add: checkMTASTS_def Let_def m_def split: if_splits)
  have m: "checkMTASTS lib fetch domain rec hosts lookup = m\<lparr>sts_MXCovered := True\<rparr>"
    using r ok c Inr by (simp add: checkMTASTS_def Let_def flip: m_def)
  have "\<exists>n. dnsName lib h = Inr n \<and> matchesAny lib (sts_MXPattern m) (ASCII n)"
    using c assms(2-4) unfolding mtaSTSCovers_def list_all_iff
    by (cases "dnsName lib h") fastforce+
  moreover have "sts_Mode m \<in> {''enforce'', ''testing'', ''none''}"
    using ok unfolding m_def by (rule parseMTASTSPolicy_mode)
  moreover have "sts_Record m" using r by (simp add: m_def)
  ultimately show ?thesis by (simp add: m)
qed (use assms in \<open>simp add: checkMTASTS_def Let_def split: if_splits\<close>)

definition ex_sts_lookup :: lookupFn where
  "ex_sts_lookup = ex_txt [(''_mta-sts.d'', [''v=STSv1; id=1''])]"

definition ex_sts :: MTASTS where
  "ex_sts = checkMTASTS ex_lib
     (\<lambda>domain lookup. Inr (''version: STSv1'' @ [CHR 0x0A] @ ''mode: enforce'' @ [CHR 0x0A] @ ''mx: *.d''))
     ''d'' (ex_sts_lookup ''_mta-sts.d'' ''TXT'') [''m.d''] ex_sts_lookup"

theorem checkMTASTS_covered_witness:
  "sts_Mode ex_sts \<in> {''enforce'', ''testing'', ''none''}"
proof -
  have "sts_MXCovered ex_sts" by code_simp
  from checkMTASTS_covered [OF this [unfolded ex_sts_def], of "''m.d''"] show ?thesis
    by (simp add: ex_sts_def)
qed

text \<open>
  Whatever the order in which the connection attempts end, the first one that succeeds is
  used and every other connection made is closed; the call fails only when every attempt did.
\<close>
theorem dialFirst_no_leak:
  "(case connections results of
      [] \<Rightarrow> (\<exists>err. dialFirst results = Inl err) \<and> dl_closed (dial_run results) = []
    | c # cs \<Rightarrow> dialFirst results = Inr c \<and> dl_closed (dial_run results) = cs)"
proof -
  let ?st = "\<lparr>dl_won = None, dl_lastErr = None, dl_cancelled = False, dl_closed = []\<rparr>"
  show ?thesis
    using fold_dial_none [of ?st results] by (auto simp: dialFirst_def dial_run_def split: list.splits)
qed

end
