(* ===== verification/Nsaudit.thy ===== *)
theory Nsaudit
  imports Dig Mail
begin

text \<open>
  The audit of the nameservers: \<open>src/nsaudit.go\<close>.

  An attempt at a server runs dig under a context; the first attempt has a shorter deadline than
  the second, so \<open>auditServer\<close> takes the two runs as two arguments and \<open>alive\<close> as what
  the context says between them. \<open>auditAll\<close> takes the function that
  audits one address; the servers report in any order and are sorted by name and address, so the order
  shows only between the entries of one address listed twice under one name.
\<close>

record NSServer =
  ns_Name :: string
  ns_IP :: string
  ns_AA :: bool
  ns_Rcode :: string
  ns_Serial :: int
  ns_TCP :: bool
  ns_EDNS :: bool
  ns_NoSOA :: bool
  ns_Retries :: nat
  ns_Reserved :: string
  ns_Error :: string

definition new_NSServer :: "string \<Rightarrow> addr \<Rightarrow> NSServer" where
  "new_NSServer name ip = \<lparr>ns_Name = name, ns_IP = Addr_String ip, ns_AA = False, ns_Rcode = [],
     ns_Serial = 0, ns_TCP = False, ns_EDNS = False, ns_NoSOA = False, ns_Retries = 0,
     ns_Reserved = [], ns_Error = []\<rparr>"

record GlueReport =
  gl_Required :: "string list"
  gl_Missing :: "string list"
  gl_Mismatch :: "string list"

record NSReport =
  nr_Count :: nat
  nr_Servers :: "NSServer list"
  nr_SerialsConsistent :: "bool option"
  nr_IPv4Prefixes24 :: "nat option"
  nr_IPv6Prefixes48 :: "nat option"
  nr_Glue :: "GlueReport option"
  nr_NSDomains :: "string list"
  nr_NSCNAME :: "string list"
  nr_Unresolvable :: "string list"
  nr_Unresolved :: "string list"
  nr_addrs :: "(string, addr list) go_map"

section \<open>Names and addresses\<close>

definition nsNames :: "dp_lib \<Rightarrow> Lookup \<Rightarrow> string list" where
  "nsNames lib ns = sort (map (\<lambda>r. let f = fqdnOf lib r in if f \<noteq> [] then f else r) (lk_Records ns))"

definition ns_domain_key :: "dp_lib \<Rightarrow> string \<Rightarrow> string" where
  "ns_domain_key lib n =
     (let key = bareName lib n
      in case psl_Registrable lib key of (reg, ok) \<Rightarrow> if ok then reg else key)"

definition nsDomains :: "dp_lib \<Rightarrow> string list \<Rightarrow> string list" where
  "nsDomains lib names =
     sort (fold (\<lambda>n out. let key = ns_domain_key lib n in if key \<noteq> [] then append_once key out else out)
             names [])"

definition allAddrs :: "NSReport \<Rightarrow> addr list" where
  "allAddrs r = concat (map (map_get [] (nr_addrs r)) (sorted_keys (nr_addrs r)))"

definition prefixDiversity :: "addr list \<Rightarrow> nat \<times> nat" where
  "prefixDiversity addrs =
     (let seen4 = List.map_filter (\<lambda>ip. if Is4 ip then Addr_Prefix ip 24 else None) addrs;
          seen6 = List.map_filter (\<lambda>ip. if Is4 ip then None else Addr_Prefix ip 48) addrs
      in (length (remdups seen4), length (remdups seen6)))"

definition setDiversity :: "NSReport \<Rightarrow> NSReport" where
  "setDiversity r =
     (let addrs = allAddrs r
      in if addrs = [] then r\<lparr>nr_IPv4Prefixes24 := None, nr_IPv6Prefixes48 := None\<rparr>
         else let (v4, v6) = prefixDiversity addrs
              in r\<lparr>nr_IPv4Prefixes24 := Some v4, nr_IPv6Prefixes48 := Some v6\<rparr>)"

definition resolve_step :: "lookupFn \<Rightarrow> string \<Rightarrow> NSReport \<Rightarrow> NSReport" where
  "resolve_step lookup n rep =
     (let a = lookup n ''A''; aaaa = lookup n ''AAAA'';
          rep1 = (if lk_CNAME a \<noteq> [] \<or> lk_CNAME aaaa \<noteq> []
                  then rep\<lparr>nr_NSCNAME := nr_NSCNAME rep @ [n]\<rparr> else rep);
          addrs = Addrs a @ Addrs aaaa
      in if \<not> Answered a \<or> \<not> Answered aaaa then rep1\<lparr>nr_Unresolved := nr_Unresolved rep1 @ [n]\<rparr>
         else if addrs = [] then rep1\<lparr>nr_Unresolvable := nr_Unresolvable rep1 @ [n]\<rparr>
         else rep1\<lparr>nr_addrs := map_put n addrs (nr_addrs rep1)\<rparr>)"

definition resolveNS :: "dp_lib \<Rightarrow> string list \<Rightarrow> lookupFn \<Rightarrow> NSReport" where
  "resolveNS lib names lookup =
     setDiversity (fold (resolve_step lookup) names
       \<lparr>nr_Count = length names, nr_Servers = [], nr_SerialsConsistent = None, nr_IPv4Prefixes24 = None,
        nr_IPv6Prefixes48 = None, nr_Glue = None, nr_NSDomains = nsDomains lib names, nr_NSCNAME = [],
        nr_Unresolvable = [], nr_Unresolved = [], nr_addrs = []\<rparr>)"

section \<open>One server\<close>

definition nsAuditArgs :: "addr \<Rightarrow> string \<Rightarrow> int \<Rightarrow> string list" where
  "nsAuditArgs ip domain timeoutSec =
     [''+yaml'', ''+norecurse'', ''+tries=1'', ''+time='' @ Itoa (maxInt 1 timeoutSec),
      if Is6 ip then ''-6'' else ''-4'', ''@'' @ Addr_String ip,
      domain, ''SOA'', domain, ''SOA'', ''+tcp'', domain, ''SOA'', ''+dnssec'']"

definition unanswered_texts :: "string list" where
  "unanswered_texts = [''timed out'', ''no servers could be reached'', ''no response'',
     ''communications error'', ''unreachable'', ''connection refused'']"

definition unanswered :: "string \<Rightarrow> bool" where
  "unanswered errText = (if errText = [] then False else list_ex (Contains errText) unanswered_texts)"

definition soaSerial :: "string \<Rightarrow> int" where
  "soaSerial rdata = (let f = Fields rdata in if length f < 3 then 0 else fst (Atoi (f ! 2)))"

text \<open>\<open>interpretAudit\<close> is called with at least one message.\<close>

definition interpretAudit :: "NSServer \<Rightarrow> digMessage list \<Rightarrow> NSServer" where
  "interpretAudit s msgs =
     (let udp = hd msgs;
          aa = hasFlag udp ''aa'' \<and> dg_Status udp = ''NOERROR'';
          s1 = s\<lparr>ns_Rcode := dg_Status udp, ns_AA := aa, ns_EDNS := dg_OPT udp\<rparr>;
          s2 = (case dig_records udp ''SOA'' of
                  soa # _ \<Rightarrow> s1\<lparr>ns_Serial := soaSerial (rr_RData soa)\<rparr>
                | [] \<Rightarrow> if aa \<and> \<not> hasFlag udp ''tc'' then s1\<lparr>ns_NoSOA := True\<rparr> else s1);
          s3 = s2\<lparr>ns_TCP := length msgs > 1 \<and> dg_Error (msgs ! 1) = [] \<and> dg_Status (msgs ! 1) = ''NOERROR''\<rparr>;
          s4 = (if length msgs > 2 \<and> dg_OPT (msgs ! 2) then s3\<lparr>ns_EDNS := True\<rparr> else s3)
      in if \<not> aa then s4\<lparr>ns_Error := ''not authoritative ('' @ dg_Status udp @ '')''\<rparr> else s4)"

text \<open>\<open>auditOnce\<close>: \<open>None\<close> is the panic of reading the first message of an empty slice.\<close>

definition auditOnce :: "runner \<Rightarrow> string \<Rightarrow> string \<Rightarrow> addr \<Rightarrow> string \<Rightarrow> int \<Rightarrow> NSServer option" where
  "auditOnce run digPath name ip domain timeoutSec =
     (let s = new_NSServer name ip; msgs = runDig run digPath (nsAuditArgs ip domain timeoutSec)
      in case msgs of
           [] \<Rightarrow> None
         | m # _ \<Rightarrow>
             if dg_Error m \<noteq> [] then Some (s\<lparr>ns_Error := firstNonEmpty [dg_Error m, ''no response'']\<rparr>)
             else Some (interpretAudit s msgs))"

definition auditServer ::
    "runner \<Rightarrow> runner \<Rightarrow> bool \<Rightarrow> string \<Rightarrow> string \<Rightarrow> addr \<Rightarrow> string \<Rightarrow> int \<Rightarrow> NSServer option" where
  "auditServer run1 run2 alive digPath name ip domain timeoutSec =
     (case auditOnce run1 digPath name ip domain timeoutSec of
        None \<Rightarrow> None
      | Some s \<Rightarrow>
          if unanswered (ns_Error s) \<and> alive
          then map_option (\<lambda>s'. s'\<lparr>ns_Retries := 1\<rparr>) (auditOnce run2 digPath name ip domain timeoutSec)
          else Some s)"

section \<open>All servers\<close>

definition serial_step :: "NSServer \<Rightarrow> int option \<times> bool \<Rightarrow> int option \<times> bool" where
  "serial_step s st =
     (case st of (first, agree) \<Rightarrow>
        if \<not> agree \<or> \<not> ns_AA s \<or> ns_Serial s = 0 then st
        else (case first of
                Some v \<Rightarrow> if ns_Serial s \<noteq> v then (first, False) else (Some (ns_Serial s), True)
              | None \<Rightarrow> (Some (ns_Serial s), True)))"

definition serialsConsistent :: "NSServer list \<Rightarrow> bool option" where
  "serialsConsistent servers =
     (case fold serial_step servers (None, True) of
        (first, agree) \<Rightarrow>
          if \<not> agree then boolPtr False
          else (case first of None \<Rightarrow> None | Some _ \<Rightarrow> boolPtr True))"

text \<open>The addresses of the wanted families, by name, with the reserved ones apart.\<close>

definition audit_targets :: "NSReport \<Rightarrow> string list \<Rightarrow> (string \<times> addr) list" where
  "audit_targets rep families =
     concat (map (\<lambda>name. map (Pair name)
         (filter (\<lambda>ip. familyOf ip \<in> set families) (map_get [] (nr_addrs rep) name)))
       (sorted_keys (nr_addrs rep)))"

definition reserved_server :: "dp_lib \<Rightarrow> string \<times> addr \<Rightarrow> NSServer" where
  "reserved_server lib t =
     (case t of (name, ip) \<Rightarrow>
        (new_NSServer name ip)\<lparr>ns_Reserved := reservedReason lib ip,
           ns_Error := ''reserved address ('' @ reservedReason lib ip @ ''): not queried''\<rparr>)"

definition queried_targets :: "dp_lib \<Rightarrow> NSReport \<Rightarrow> string list \<Rightarrow> (string \<times> addr) list" where
  "queried_targets lib rep families =
     filter (\<lambda>t. reservedReason lib (snd t) = []) (audit_targets rep families)"

definition server_key :: "NSServer \<Rightarrow> string \<times> string" where
  "server_key s = (ns_Name s, ns_IP s)"

definition auditAll ::
    "dp_lib \<Rightarrow> (string \<times> addr \<Rightarrow> NSServer) \<Rightarrow> NSReport \<Rightarrow> string list \<Rightarrow> NSReport" where
  "auditAll lib audit rep families =
     (let reserved = map (reserved_server lib)
            (filter (\<lambda>t. reservedReason lib (snd t) \<noteq> []) (audit_targets rep families));
          servers = sort_key server_key
            (nr_Servers rep @ reserved @ map audit (queried_targets lib rep families))
      in rep\<lparr>nr_Servers := servers, nr_SerialsConsistent := serialsConsistent servers\<rparr>)"

section \<open>Glue\<close>

definition glueArgs :: "string \<Rightarrow> string \<Rightarrow> int \<Rightarrow> string \<Rightarrow> string list" where
  "glueArgs parentServer family timeoutSec domain =
     [''+yaml'', ''+norecurse'', ''+tries=1'', ''+time='' @ Itoa (maxInt 1 timeoutSec),
      if family = familyIPv6 then ''-6'' else ''-4'', ''@'' @ parentServer, domain, ''NS'']"

definition isReferral :: "digMessage \<Rightarrow> bool" where
  "isReferral m =
     (if dg_Error m \<noteq> [] \<or> dg_Status m \<noteq> ''NOERROR'' then False
      else list_ex (\<lambda>rr. rr_Type rr = ''NS'') (dg_Authority m @ dg_Answer m))"

definition inBailiwick :: "dp_lib \<Rightarrow> string list \<Rightarrow> string \<Rightarrow> string list" where
  "inBailiwick lib names fqdn =
     sort (fold (\<lambda>n out. let ab = fqdnOf lib n
                         in if ab = fqdn \<or> HasSuffix ab (''.'' @ fqdn) then append_once ab out else out)
             names [])"

text \<open>The inner map of \<open>glueAddresses\<close> is a set of texts, kept as a list.\<close>

definition glueAddresses :: "digMessage \<Rightarrow> (string, string list) go_map" where
  "glueAddresses m =
     fold (\<lambda>rr glue. if rr_Type rr \<noteq> ''A'' \<and> rr_Type rr \<noteq> ''AAAA'' then glue
                     else map_put (rr_Owner rr) (append_once (rr_RData rr) (map_get [] glue (rr_Owner rr))) glue)
       (dg_Additional m) []"

definition glueMismatches :: "string \<Rightarrow> addr list \<Rightarrow> string list \<Rightarrow> string list" where
  "glueMismatches name addrs glue =
     map (\<lambda>ip. name @ '' '' @ Addr_String ip) (filter (\<lambda>ip. Addr_String ip \<notin> set glue) addrs)"

definition glue_step ::
    "(string, string list) go_map \<Rightarrow> (string, addr list) go_map \<Rightarrow> string \<Rightarrow> GlueReport \<Rightarrow> GlueReport" where
  "glue_step glue addrs n g =
     (let g1 = g\<lparr>gl_Required := gl_Required g @ [n]\<rparr>
      in if map_get [] glue n = [] then g1\<lparr>gl_Missing := gl_Missing g1 @ [n]\<rparr>
         else g1\<lparr>gl_Mismatch := gl_Mismatch g1 @ glueMismatches n (map_get [] addrs n) (map_get [] glue n)\<rparr>)"

definition checkGlue ::
    "dp_lib \<Rightarrow> digMessage list \<Rightarrow> string \<Rightarrow> string list \<Rightarrow> (string, addr list) go_map \<Rightarrow> GlueReport option" where
  "checkGlue lib msgs domain names addrs =
     (if msgs = [] \<or> \<not> isReferral (hd msgs) then None
      else let fqdn = fqdnOf lib domain
           in if fqdn = [] then None
              else Some (fold (glue_step (glueAddresses (hd msgs)) addrs) (inBailiwick lib names fqdn)
                     \<lparr>gl_Required = [], gl_Missing = [], gl_Mismatch = []\<rparr>))"

section \<open>Lemmas\<close>

definition ns_answered :: "lookupFn \<Rightarrow> string \<Rightarrow> bool" where
  "ns_answered lookup n \<longleftrightarrow> Answered (lookup n ''A'') \<and> Answered (lookup n ''AAAA'')"

definition ns_addrs :: "lookupFn \<Rightarrow> string \<Rightarrow> addr list" where
  "ns_addrs lookup n = Addrs (lookup n ''A'') @ Addrs (lookup n ''AAAA'')"

lemma resolve_step_sets:
  "set (nr_Unresolved (resolve_step lookup n rep)) =
     set (nr_Unresolved rep) \<union> (if ns_answered lookup n then {} else {n})"
  "set (nr_Unresolvable (resolve_step lookup n rep)) =
     set (nr_Unresolvable rep) \<union> (if ns_answered lookup n \<and> ns_addrs lookup n = [] then {n} else {})"
  "map_of (nr_addrs (resolve_step lookup n rep)) =
     (if ns_answered lookup n \<and> ns_addrs lookup n \<noteq> []
      then (map_of (nr_addrs rep))(n \<mapsto> ns_addrs lookup n) else map_of (nr_addrs rep))"
  by (auto simp: resolve_step_def Let_def ns_answered_def ns_addrs_def)

lemma fold_resolve_step_sets:
  "set (nr_Unresolved (fold (resolve_step lookup) names rep)) =
     set (nr_Unresolved rep) \<union> {n \<in> set names. \<not> ns_answered lookup n}"
  "set (nr_Unresolvable (fold (resolve_step lookup) names rep)) =
     set (nr_Unresolvable rep) \<union> {n \<in> set names. ns_answered lookup n \<and> ns_addrs lookup n = []}"
  "map_of (nr_addrs (fold (resolve_step lookup) names rep)) =
     (\<lambda>n. if n \<in> set names \<and> ns_answered lookup n \<and> ns_addrs lookup n \<noteq> []
          then Some (ns_addrs lookup n) else map_of (nr_addrs rep) n)"
  by (induction names arbitrary: rep) (auto simp: resolve_step_sets)

lemma setDiversity_same [simp]:
  "nr_Unresolved (setDiversity r) = nr_Unresolved r"
  "nr_Unresolvable (setDiversity r) = nr_Unresolvable r"
  "nr_addrs (setDiversity r) = nr_addrs r"
  by (simp_all add: setDiversity_def Let_def case_prod_beta)

lemma fold_serial_stopped: "fold serial_step servers (first, False) = (first, False)"
  by (induction servers) (auto simp: serial_step_def)

definition serials :: "NSServer list \<Rightarrow> int list" where
  "serials servers = map ns_Serial (filter (\<lambda>s. ns_AA s \<and> ns_Serial s \<noteq> 0) servers)"

lemma fold_serial_step:
  "fold serial_step servers (Some v, True) =
     (if \<forall>x\<in>set (serials servers). x = v then (Some v, True) else (Some v, False))"
proof (induction servers)
  case (Cons s servers)
  show ?case
  proof (cases "ns_AA s \<and> ns_Serial s \<noteq> 0 \<and> ns_Serial s \<noteq> v")
    case True
    then have "serial_step s (Some v, True) = (Some v, False)" by (simp add: serial_step_def)
    then show ?thesis using True by (simp add: fold_serial_stopped) (simp add: serials_def)
  next
    case False
    then have "serial_step s (Some v, True) = (Some v, True)" by (auto simp: serial_step_def)
    moreover have "(\<forall>x\<in>set (serials (s # servers)). x = v) \<longleftrightarrow> (\<forall>x\<in>set (serials servers). x = v)"
      using False by (auto simp: serials_def)
    ultimately show ?thesis using Cons.IH by simp
  qed
qed (simp add: serials_def)

lemma fold_serial_start:
  "fold serial_step servers (None, True) =
     (case serials servers of [] \<Rightarrow> (None, True) | v # vs \<Rightarrow> (Some v, \<forall>x\<in>set vs. x = v))"
proof (induction servers)
  case (Cons s servers)
  show ?case
  proof (cases "ns_AA s \<and> ns_Serial s \<noteq> 0")
    case True
    then have "serial_step s (None, True) = (Some (ns_Serial s), True)"
      and "serials (s # servers) = ns_Serial s # serials servers"
      by (simp_all add: serial_step_def serials_def)
    then show ?thesis by (simp add: fold_serial_step)
  next
    case False
    then have "serial_step s (None, True) = (None, True)" and "serials (s # servers) = serials servers"
      by (auto simp: serial_step_def serials_def)
    then show ?thesis using Cons.IH by simp
  qed
qed (simp add: serials_def)

lemma fold_glue_step:
  "fold (glue_step glue addrs) ns g =
     \<lparr>gl_Required = gl_Required g @ ns,
      gl_Missing = gl_Missing g @ filter (\<lambda>n. map_get [] glue n = []) ns,
      gl_Mismatch = gl_Mismatch g @ concat (map (\<lambda>n. glueMismatches n (map_get [] addrs n) (map_get [] glue n))
        (filter (\<lambda>n. map_get [] glue n \<noteq> []) ns))\<rparr>"
proof (induction ns arbitrary: g)
  case (Cons n ns)
  then show ?case by (simp add: glue_step_def Let_def)
qed simp

lemma map_put_once_glue:
  "set (map_get [] (map_put k (append_once v (map_get [] m k)) m) k') =
     set (map_get [] m k') \<union> (if k' = k then {v} else {})"
  by auto

lemma glueAddresses_set:
  "set (map_get [] (glueAddresses m) n) =
     {rr_RData rr |rr. rr \<in> set (dg_Additional m) \<and> rr_Type rr \<in> {''A'', ''AAAA''} \<and> rr_Owner rr = n}"
proof -
  let ?step = "\<lambda>rr glue. if rr_Type rr \<noteq> ''A'' \<and> rr_Type rr \<noteq> ''AAAA'' then glue
    else map_put (rr_Owner rr) (append_once (rr_RData rr) (map_get [] glue (rr_Owner rr))) glue"
  have "set (map_get [] (fold ?step rrs glue) n) = set (map_get [] glue n) \<union>
      {rr_RData rr |rr. rr \<in> set rrs \<and> rr_Type rr \<in> {''A'', ''AAAA''} \<and> rr_Owner rr = n}" for rrs glue
  proof (induction rrs arbitrary: glue)
    case (Cons rr rrs)
    show ?case
    proof (cases "rr_Type rr \<noteq> ''A'' \<and> rr_Type rr \<noteq> ''AAAA''")
      case True
      then show ?thesis using Cons.IH [of glue] by auto
    next
      case False
      have "set (map_get [] (?step rr glue) n) =
          set (map_get [] glue n) \<union> (if rr_Owner rr = n then {rr_RData rr} else {})"
        using False map_put_once_glue [of "rr_Owner rr" "rr_RData rr" glue n] by auto
      then show ?thesis using False Cons.IH [of "?step rr glue"] by auto
    qed
  qed simp
  from this [of "dg_Additional m" "[]"] show ?thesis by (simp add: glueAddresses_def map_get_def)
qed

section \<open>Properties\<close>

text \<open>
  The names of the delegation are sorted into three kinds by their address lookups alone: a
  name is called unresolvable only when both lookups answered and gave no address, unresolved
  when one of them did not complete, and has its addresses recorded otherwise. So a lookup that
  failed is never reported as a name without an address.
\<close>
theorem resolveNS_kinds:
  "set (nr_Unresolved (resolveNS lib names lookup)) = {n \<in> set names. \<not> ns_answered lookup n} \<and>
   set (nr_Unresolvable (resolveNS lib names lookup)) =
     {n \<in> set names. ns_answered lookup n \<and> ns_addrs lookup n = []} \<and>
   map_of (nr_addrs (resolveNS lib names lookup)) =
     (\<lambda>n. if n \<in> set names \<and> ns_answered lookup n \<and> ns_addrs lookup n \<noteq> []
          then Some (ns_addrs lookup n) else None)"
  by (simp add: resolveNS_def fold_resolve_step_sets cong: if_cong)

text \<open>
  An audit of a server never panics on an empty answer of dig, asks the server at most twice,
  and asks it a second time only when the first attempt got no answer at all.
\<close>
theorem auditServer_once_more:
  "\<exists>s first. auditOnce run1 digPath name ip domain timeoutSec = Some first \<and>
     auditServer run1 run2 alive digPath name ip domain timeoutSec = Some s \<and>
     (if unanswered (ns_Error first) \<and> alive
      then \<exists>s'. auditOnce run2 digPath name ip domain timeoutSec = Some s' \<and> s = s'\<lparr>ns_Retries := 1\<rparr>
      else s = first)"
proof -
  have "\<exists>s. auditOnce run digPath name ip domain timeoutSec = Some s" for run
    using runDig_not_Nil [of run digPath "nsAuditArgs ip domain timeoutSec"]
    by (cases "runDig run digPath (nsAuditArgs ip domain timeoutSec)") (auto simp: auditOnce_def Let_def)
  then obtain s1 s2 where s: "auditOnce run1 digPath name ip domain timeoutSec = Some s1"
      "auditOnce run2 digPath name ip domain timeoutSec = Some s2" by blast
  show ?thesis by (simp add: auditServer_def s)
qed

text \<open>
  A reserved address is never queried: what an audit of one would give has no influence on the
  result.
\<close>
theorem auditAll_reserved_untouched:
  assumes "\<And>t. t \<in> set (audit_targets rep families) \<Longrightarrow> reservedReason lib (snd t) = [] \<Longrightarrow> audit t = audit' t"
  shows "auditAll lib audit rep families = auditAll lib audit' rep families"
proof -
  have "map audit (queried_targets lib rep families) = map audit' (queried_targets lib rep families)"
    using assms by (auto simp: queried_targets_def)
  then show ?thesis by (simp only: auditAll_def)
qed

definition ex_private :: dp_lib where
  "ex_private = ex_lib\<lparr>ipnorm_Reserved := (\<lambda>a. if a = IPv4 0x0A000001 then ''private'' else [])\<rparr>"

definition ex_nsreport :: NSReport where
  "ex_nsreport = resolveNS ex_private [''ns.d.''] 
     (\<lambda>n t. ex_txt (if t = ''A'' then [(''ns.d.'', [''10.0.0.1''])] else []) n t)"

theorem auditAll_reserved_untouched_witness:
  "auditAll ex_private (\<lambda>t. undefined) ex_nsreport [''ipv4''] =
   auditAll ex_private (\<lambda>(name, ip). new_NSServer name ip) ex_nsreport [''ipv4'']"
proof (rule auditAll_reserved_untouched)
  fix t assume "t \<in> set (audit_targets ex_nsreport [''ipv4''])" and r: "reservedReason ex_private (snd t) = []"
  moreover have "list_all (\<lambda>t. reservedReason ex_private (snd t) \<noteq> []) (audit_targets ex_nsreport [''ipv4''])"
    by code_simp
  ultimately show "undefined = (case t of (name, ip) \<Rightarrow> new_NSServer name ip)"
    by (auto simp: list_all_iff)
qed

text \<open>
  The serials are called consistent exactly when some server answered authoritatively with a
  serial and all of these agree; with no such server the verdict is absent, not a pass.
\<close>
theorem serialsConsistent_spec:
  "serialsConsistent servers =
     (if serials servers = [] then None else Some (\<forall>x\<in>set (serials servers). x = hd (serials servers)))"
  by (cases "serials servers") (simp_all add: serialsConsistent_def fold_serial_start boolPtr_def)

theorem serialsConsistent_spec_witness:
  "serialsConsistent [(new_NSServer ''a'' (IPv4 1))\<lparr>ns_AA := True, ns_Serial := 7\<rparr>,
     (new_NSServer ''b'' (IPv4 2))\<lparr>ns_AA := True, ns_Serial := 8\<rparr>] = Some False"
  unfolding serialsConsistent_spec by (simp add: serials_def new_NSServer_def)

text \<open>
  The glue check looks at every nameserver at or under the zone: one without glue is missing,
  and for the others exactly the addresses the zone has and the glue has not are reported. An
  address that only the glue has is not looked for.
\<close>
theorem checkGlue_spec:
  assumes "checkGlue lib msgs domain names addrs = Some g"
  shows "gl_Required g = inBailiwick lib names (fqdnOf lib domain) \<and>
    gl_Missing g = filter (\<lambda>n. map_get [] (glueAddresses (hd msgs)) n = []) (gl_Required g) \<and>
    set (gl_Mismatch g) = {n @ '' '' @ Addr_String ip |n ip. n \<in> set (gl_Required g) - set (gl_Missing g) \<and>
      ip \<in> set (map_get [] addrs n) \<and>
      Addr_String ip \<notin> {rr_RData rr |rr. rr \<in> set (dg_Additional (hd msgs)) \<and>
        rr_Type rr \<in> {''A'', ''AAAA''} \<and> rr_Owner rr = n}}"
proof -
  have g: "g = fold (glue_step (glueAddresses (hd msgs)) addrs) (inBailiwick lib names (fqdnOf lib domain))
      \<lparr>gl_Required = [], gl_Missing = [], gl_Mismatch = []\<rparr>"
    using assms by (simp add: checkGlue_def Let_def split: if_splits)
  show ?thesis unfolding g fold_glue_step glueAddresses_set [symmetric]
    by (auto simp: glueMismatches_def)
qed

definition ex_referral :: digMessage where
  "ex_referral = zero_digMessage\<lparr>dg_Status := ''NOERROR'',
     dg_Authority := [\<lparr>rr_Owner = ''d.'', rr_TTL = 60, rr_Type = ''NS'', rr_RData = ''ns.d.'', rr_RDLen = 0\<rparr>]\<rparr>"

theorem checkGlue_spec_witness:
  "\<exists>g. checkGlue (ex_lib\<lparr>Normalize := \<lambda>s opts. Inr \<lparr>ASCII = s, Unicode = s, KindIP = False, FQDN = s\<rparr>\<rparr>)
     [ex_referral] ''d.'' [''ns.d.''] [] = Some g \<and> gl_Missing g = [''ns.d.'']"
proof -
  let ?lib = "ex_lib\<lparr>Normalize := \<lambda>s opts. Inr \<lparr>ASCII = s, Unicode = s, KindIP = False, FQDN = s\<rparr>\<rparr>"
  have "isReferral ex_referral" by code_simp
  then obtain g where g: "checkGlue ?lib [ex_referral] ''d.'' [''ns.d.''] [] = Some g"
    by (auto simp: checkGlue_def Let_def fqdnOf_def dnsName_def)
  have "filter (\<lambda>n. map_get [] (glueAddresses ex_referral) n = [])
      (inBailiwick ?lib [''ns.d.''] (fqdnOf ?lib ''d.'')) = [''ns.d.'']"
    by code_simp
  then show ?thesis using g checkGlue_spec [OF g] by simp
qed

text \<open>
  The two counts of address diversity are the numbers of different networks: of the /24
  prefixes of the IPv4 addresses and of the /48 prefixes of the IPv6 ones.
\<close>
theorem prefixDiversity_counts:
  "prefixDiversity addrs =
     (card ((\<lambda>ip. mask_addr ip 24) ` {ip \<in> set addrs. Is4 ip}),
      card ((\<lambda>ip. mask_addr ip 48) ` {ip \<in> set addrs. \<not> Is4 ip}))"
proof -
  have p4: "Addr_Prefix ip 24 = Some (Prefix (mask_addr ip 24) 24)" if "Is4 ip" for ip
    using that by (cases ip) (simp_all add: Addr_Prefix_def BitLen_def Is4_def)
  have p6: "Addr_Prefix ip 48 = Some (Prefix (mask_addr ip 48) 48)" if "\<not> Is4 ip" for ip
    using that by (cases ip) (simp_all add: Addr_Prefix_def BitLen_def Is4_def)
  have "set (List.map_filter (\<lambda>ip. if Is4 ip then Addr_Prefix ip 24 else None) addrs) =
      (\<lambda>a. Prefix a 24) ` (\<lambda>ip. mask_addr ip 24) ` {ip \<in> set addrs. Is4 ip}"
    using p4 by (auto simp: map_filter_def image_iff split: if_splits)
  moreover have "set (List.map_filter (\<lambda>ip. if Is4 ip then None else Addr_Prefix ip 48) addrs) =
      (\<lambda>a. Prefix a 48) ` (\<lambda>ip. mask_addr ip 48) ` {ip \<in> set addrs. \<not> Is4 ip}"
    using p6 by (auto simp: map_filter_def image_iff split: if_splits)
  ultimately show ?thesis
    by (simp add: prefixDiversity_def Let_def length_remdups_card_conv card_image inj_on_def)
qed

end
