(* ===== verification/Caa.thy ===== *)
theory Caa
  imports Config
begin

text \<open>
  Certification Authority Authorization: \<open>src/caa.go\<close>. A nil slice and an empty one read the
  same; the pointer \<open>*bool\<close> of a verdict is a \<^typ>\<open>bool option\<close>. An identifier list
  is absent (nil) for an issuer outside the table.
\<close>

record caaRecord =
  ca_Flags :: int
  ca_Tag :: string
  ca_Value :: string

definition parse_caa :: "string \<Rightarrow> caaRecord option" where
  "parse_caa r =
     (case Fields r of
        flags # tag # v # vs \<Rightarrow>
          Some \<lparr>ca_Flags = fst (Atoi flags), ca_Tag = ToLower tag,
                ca_Value = TrimFunc (\<lambda>c. c = CHR 0x22) (Join '' '' (v # vs))\<rparr>
      | _ \<Rightarrow> None)"

definition parseCAA :: "string list \<Rightarrow> caaRecord list" where
  "parseCAA records = List.map_filter parse_caa records"

definition caaIssuers :: "(string \<times> string list) list" where
  "caaIssuers =
    [(''let'' @ [CHR 0x27] @ ''s encrypt'', [''letsencrypt.org'']),
     (''internet security research group'', [''letsencrypt.org'']),
     (''digicert'', [''digicert.com'', ''digicert.ne.jp'', ''geotrust.com'', ''rapidssl.com'',
        ''symantec.com'', ''thawte.com'']),
     (''geotrust'', [''geotrust.com'', ''digicert.com'']),
     (''thawte'', [''thawte.com'', ''digicert.com'']),
     (''rapidssl'', [''rapidssl.com'', ''digicert.com'']),
     (''sectigo'', [''sectigo.com'', ''comodoca.com'']),
     (''comodo'', [''sectigo.com'', ''comodoca.com'']),
     (''zerossl'', [''sectigo.com'', ''comodoca.com'']),
     (''globalsign'', [''globalsign.com'']),
     (''google trust services'', [''pki.goog'']),
     (''amazon'', [''amazon.com'', ''amazontrust.com'', ''awstrust.com'', ''amazonaws.com'']),
     (''godaddy'', [''godaddy.com'']),
     (''starfield'', [''godaddy.com'', ''starfieldtech.com'']),
     (''entrust'', [''entrust.net'']),
     (''identrust'', [''identrust.com'']),
     (''ssl.com'', [''ssl.com'']),
     (''ssl corporation'', [''ssl.com'']),
     (''buypass'', [''buypass.com'']),
     (''actalis'', [''actalis.it'']),
     (''microsoft'', [''microsoft.com'']),
     (''cloudflare'', [''pki.goog'', ''letsencrypt.org'', ''digicert.com'', ''sectigo.com''])]"

definition normalizeOrg :: "string \<Rightarrow> string" where
  "normalizeOrg s =
     Join '' '' (Fields (map (\<lambda>c. if c = CHR ''.'' \<or> c = CHR '','' \<or> c = CHR ''-'' then CHR '' '' else c)
                        (ToLower s)))"

definition caaIDsFor :: "string \<Rightarrow> string list option" where
  "caaIDsFor issuerOrg =
     (let org = '' '' @ normalizeOrg issuerOrg @ '' ''
      in map_option snd
           (find (\<lambda>e. Contains org ('' '' @ normalizeOrg (fst e) @ '' '')) caaIssuers))"

record CAAVerdict =
  cv_Published :: "string list"
  cv_Effective :: "string list"
  cv_Issuer :: string
  cv_Permitted :: "bool option"
  cv_Note :: string

record CAAReport =
  caa_Hosts :: "(string, CAAVerdict) go_map"
  caa_absent :: bool

definition hasTag :: "caaRecord list \<Rightarrow> string \<Rightarrow> bool" where
  "hasTag records tag = list_ex (\<lambda>r. ca_Tag r = tag) records"

text \<open>The loop of \<open>caaPermits\<close>, on the pair of \<open>allowed\<close> and \<open>seenTag\<close>.\<close>

definition caa_domain :: "caaRecord \<Rightarrow> string" where
  "caa_domain r = TrimSpace (fst (Cut CHR '';'' (ca_Value r)))"

definition permits_step :: "string \<Rightarrow> string list \<Rightarrow> caaRecord \<Rightarrow> bool \<times> bool \<Rightarrow> bool \<times> bool" where
  "permits_step tag ids r st =
     (case st of (allowed, seenTag) \<Rightarrow>
        if ca_Tag r \<noteq> tag then (allowed, seenTag)
        else if caa_domain r = [] then (allowed, True)
        else (allowed \<or> list_ex (\<lambda>i. EqualFold (caa_domain r) i) ids, True))"

definition caaPermits :: "caaRecord list \<Rightarrow> string list \<Rightarrow> bool \<Rightarrow> bool" where
  "caaPermits records ids wildcard =
     (let tag = (if wildcard \<and> hasTag records ''issuewild'' then ''issuewild'' else ''issue'');
          (allowed, seenTag) = fold (permits_step tag ids) records (False, False)
      in if \<not> seenTag then True else allowed)"

record servedCert =
  sc_issuer :: string
  sc_wildcard :: bool

definition unknownCAANote :: "Lookup \<Rightarrow> string" where
  "unknownCAANote rec =
     (if Answered rec
      then ''no CAA records here, and the apex CAA lookup did not complete, so no restriction can be ruled out''
      else ''the CAA lookup did not complete, so no restriction can be ruled out'')"

definition knownCAATags :: "string list" where
  "knownCAATags =
     [''issue'', ''issuewild'', ''iodef'', ''contactemail'', ''contactphone'', ''issuemail'', ''issuevmc'']"

fun criticalUnknownTag :: "caaRecord list \<Rightarrow> string" where
  "criticalUnknownTag [] = []"
| "criticalUnknownTag (r # rs) =
     (if bit (ca_Flags r) 7 \<and> ca_Tag r \<notin> set knownCAATags then ca_Tag r else criticalUnknownTag rs)"

definition caaVerdict :: "Lookup \<Rightarrow> string list \<Rightarrow> bool \<Rightarrow> servedCert \<Rightarrow> CAAVerdict" where
  "caaVerdict rec effective known cert =
     (let v = \<lparr>cv_Published = lk_Records rec, cv_Effective = effective, cv_Issuer = sc_issuer cert,
               cv_Permitted = None, cv_Note = []\<rparr>;
          parsed = parseCAA effective
      in if \<not> known then v\<lparr>cv_Note := unknownCAANote rec\<rparr>
         else if sc_issuer cert = [] then v\<lparr>cv_Note := ''no certificate observed''\<rparr>
         else if parsed = [] then
           v\<lparr>cv_Note := ''no CAA records; any CA may issue'', cv_Permitted := boolPtr True\<rparr>
         else if criticalUnknownTag parsed \<noteq> [] then
           v\<lparr>cv_Note := ''critical CAA property '' @ criticalUnknownTag parsed @
                '' is not one any CA understands, so none may issue'',
             cv_Permitted := boolPtr False\<rparr>
         else case caaIDsFor (sc_issuer cert) of
           None \<Rightarrow> v\<lparr>cv_Note := ''issuer not in the CAA mapping table''\<rparr>
         | Some ids \<Rightarrow> v\<lparr>cv_Permitted := boolPtr (caaPermits parsed ids (sc_wildcard cert))\<rparr>)"

definition wwwVerdict :: "Lookup \<Rightarrow> Lookup \<Rightarrow> servedCert \<Rightarrow> CAAVerdict" where
  "wwwVerdict apexRec wwwRec wwwCert =
     (let (effective, known) =
            (if lk_Records wwwRec = [] \<and> Answered wwwRec then (lk_Records apexRec, Answered apexRec)
             else (lk_Records wwwRec, HasRecords wwwRec))
      in caaVerdict wwwRec effective known wwwCert)"

definition assessCAA :: "Lookup \<Rightarrow> Lookup \<Rightarrow> servedCert \<Rightarrow> servedCert \<Rightarrow> bool \<Rightarrow> CAAReport" where
  "assessCAA apexRec wwwRec apexCert wwwCert wwwProbed =
     (let hosts = [(''apex'', caaVerdict apexRec (lk_Records apexRec) (Answered apexRec) apexCert)]
      in \<lparr>caa_Hosts = (if wwwProbed then map_put ''www'' (wwwVerdict apexRec wwwRec wwwCert) hosts else hosts),
          caa_absent = Answered apexRec \<and> \<not> HasRecords apexRec\<rparr>)"

section \<open>Lemmas\<close>

lemma fold_permits_step:
  "fold (permits_step tag ids) rs (allowed, seen) =
     (allowed \<or> (\<exists>r\<in>set rs. ca_Tag r = tag \<and> caa_domain r \<noteq> [] \<and> (\<exists>i\<in>set ids. EqualFold (caa_domain r) i)),
      seen \<or> (\<exists>r\<in>set rs. ca_Tag r = tag))"
  by (induction rs arbitrary: allowed seen) (auto simp: permits_step_def list_ex_iff)

lemma caaVerdict_known: "cv_Permitted (caaVerdict rec effective known cert) \<noteq> None \<Longrightarrow> known \<and> sc_issuer cert \<noteq> []"
  by (simp add: caaVerdict_def Let_def split: if_splits)

lemma wwwVerdict_known:
  assumes "cv_Permitted (wwwVerdict apexRec wwwRec cert) \<noteq> None"
  shows "HasRecords wwwRec \<or> Answered wwwRec \<and> Answered apexRec"
proof (rule ccontr)
  assume not: "\<not> ?thesis"
  have "\<exists>eff. wwwVerdict apexRec wwwRec cert = caaVerdict wwwRec eff False cert"
    using not by (cases "lk_Records wwwRec = [] \<and> Answered wwwRec") (auto simp: wwwVerdict_def)
  then show False using assms caaVerdict_known [of wwwRec _ False cert] by fastforce
qed

section \<open>Properties\<close>

text \<open>
  A CA may issue when no record carries the property that governs the certificate, or when one
  of them names an identifier the CA honours: \<open>issuewild\<close> governs a wildcard certificate as
  soon as one is published, \<open>issue\<close> everything else (RFC 8659 section 4). A record with an
  empty domain never permits.
\<close>
theorem caaPermits_iff:
  "caaPermits records ids wildcard \<longleftrightarrow>
     (let tag = (if wildcard \<and> (\<exists>r\<in>set records. ca_Tag r = ''issuewild'') then ''issuewild'' else ''issue'');
          governing = {r \<in> set records. ca_Tag r = tag}
      in governing = {} \<or>
         (\<exists>r\<in>governing. caa_domain r \<noteq> [] \<and> (\<exists>i\<in>set ids. EqualFold (caa_domain r) i)))"
  by (auto simp: caaPermits_def fold_permits_step hasTag_def list_ex_iff Let_def)

theorem caaPermits_iff_witness:
  "\<not> caaPermits (parseCAA [''0 issue '' @ [CHR 0x22] @ ''letsencrypt.org'' @ [CHR 0x22], ''0 issuewild ;''])
     [''letsencrypt.org''] True"
proof -
  define a where "a = \<lparr>ca_Flags = 0, ca_Tag = ''issue'', ca_Value = ''letsencrypt.org''\<rparr>"
  define b where "b = \<lparr>ca_Flags = 0, ca_Tag = ''issuewild'', ca_Value = '';''\<rparr>"
  have rs: "parseCAA [''0 issue '' @ [CHR 0x22] @ ''letsencrypt.org'' @ [CHR 0x22], ''0 issuewild ;''] = [a, b]"
    unfolding a_def b_def by code_simp
  have ab: "ca_Tag a = ''issue''" "ca_Tag b = ''issuewild''" by (simp_all add: a_def b_def)
  have "caa_domain b = []" unfolding b_def by code_simp
  then show ?thesis unfolding rs caaPermits_iff Let_def using ab by auto
qed

text \<open>
  No verdict rests on a lookup that did not complete: the apex is judged only when its CAA
  lookup answered, and www only when it answered with records of its own, or answered that it
  has none and the apex lookup answered too.
\<close>
theorem assessCAA_known:
  assumes "(host, v) \<in> set (caa_Hosts (assessCAA apexRec wwwRec apexCert wwwCert wwwProbed))"
    and "cv_Permitted v \<noteq> None"
  shows "host = ''apex'' \<and> Answered apexRec \<or>
    host = ''www'' \<and> wwwProbed \<and> (HasRecords wwwRec \<or> Answered wwwRec \<and> Answered apexRec)"
proof -
  have "host = ''apex'' \<and> v = caaVerdict apexRec (lk_Records apexRec) (Answered apexRec) apexCert \<or>
      host = ''www'' \<and> wwwProbed \<and> v = wwwVerdict apexRec wwwRec wwwCert"
    using assms(1) by (auto simp: assessCAA_def Let_def split: if_splits)
  then show ?thesis using assms(2) caaVerdict_known wwwVerdict_known by blast
qed

theorem assessCAA_known_witness:
  "Answered (zero_Lookup\<lparr>lk_Status := StatusNXRRSet\<rparr>)"
proof -
  let ?l = "zero_Lookup\<lparr>lk_Status := StatusNXRRSet\<rparr>"
  let ?c = "\<lparr>sc_issuer = ''DigiCert Inc'', sc_wildcard = False\<rparr>"
  have m: "(''apex'', caaVerdict ?l (lk_Records ?l) (Answered ?l) ?c)
      \<in> set (caa_Hosts (assessCAA ?l zero_Lookup ?c ?c False))"
    by (simp add: assessCAA_def)
  have "cv_Permitted (caaVerdict ?l (lk_Records ?l) (Answered ?l) ?c) = Some True" by code_simp
  then show ?thesis using assessCAA_known [OF m] by simp
qed

end
