(* ===== verification/Wildcard.thy ===== *)
theory Wildcard
  imports Config
begin

text \<open>
  Wildcard detection: \<open>src/wildcard.go\<close>, and \<open>sameAddressSet\<close> of \<open>src/report.go\<close>.

  The random generator is an argument: the labels that successive calls of \<open>randomLabel\<close>
  give, or the bytes one call reads. The loop of \<open>randomLabels\<close> has no bound of its own, so
  it is a partial function, with \<^const>\<open>None\<close> for a loop that does not end.
\<close>

datatype WildcardStatus = WildcardPresent | WildcardAbsent | WildcardUnknown

datatype ProbeOutcome = probeAnswered | probeDenied | probeUnresolved

definition wildcardProbeCount :: nat where "wildcardProbeCount = 3"
definition wildcardLabelLen :: nat where "wildcardLabelLen = 12"

record WildcardProbe =
  wp_Label :: string
  wp_Status :: ProbeOutcome
  wp_Addresses :: "string list"
  wp_CNAME :: string

record WildcardReport =
  wr_Status :: WildcardStatus
  wr_DeterminedBy :: string
  wr_Probes :: "WildcardProbe list"
  wr_Addresses :: "string list"
  wr_Consistent :: "bool option"
  wr_WWWViaWildcard :: bool

record wildProbe =
  pr_label :: string
  pr_a :: Lookup
  pr_aaaa :: Lookup

section \<open>Random labels\<close>

text \<open>\<open>randomLabel\<close>, given the bytes read, or nothing when the read failed.\<close>

definition randomLabel :: "nat list option \<Rightarrow> string" where
  "randomLabel bytes =
     (case bytes of
        None \<Rightarrow> replicate wildcardLabelLen CHR ''q''
      | Some bs \<Rightarrow> map (\<lambda>c. char_of (97 + c mod 26)) bs)"

partial_function (option) label_loop ::
    "(nat \<Rightarrow> string) \<Rightarrow> nat \<Rightarrow> nat \<Rightarrow> string list \<Rightarrow> string list option" where
  [code]: "label_loop draw n i out =
     (if length out < n
      then label_loop draw n (Suc i) (if draw i \<in> set out then out else out @ [draw i])
      else Some out)"

definition randomLabels :: "(nat \<Rightarrow> string) \<Rightarrow> nat \<Rightarrow> string list option" where
  "randomLabels draw n = label_loop draw n 0 []"

section \<open>Address sets\<close>

definition sameAddressSet :: "addr list \<Rightarrow> addr list \<Rightarrow> bool" where
  "sameAddressSet a b =
     (if length a \<noteq> length b then False
      else let s = set (map Unmap a) in list_all (\<lambda>ip. Unmap ip \<in> s) b)"

definition addrStrings :: "addr list \<Rightarrow> string list" where
  "addrStrings addrs = sort (map Addr_String addrs)"

definition probeAddrs :: "wildProbe \<Rightarrow> addr list" where
  "probeAddrs p = Addrs (pr_a p) @ Addrs (pr_aaaa p)"

fun first_fqdn :: "dp_lib \<Rightarrow> string list \<Rightarrow> string" where
  "first_fqdn lib [] = []"
| "first_fqdn lib (c # cs) = (if fqdnOf lib c \<noteq> [] then fqdnOf lib c else first_fqdn lib cs)"

definition probeCNAME :: "dp_lib \<Rightarrow> wildProbe \<Rightarrow> string" where
  "probeCNAME lib p = first_fqdn lib (lk_CNAME (pr_a p) @ lk_CNAME (pr_aaaa p))"

definition union_step :: "addr \<Rightarrow> addr list \<Rightarrow> addr list" where
  "union_step ip out = append_once (Unmap ip) out"

definition unionAddrs :: "wildProbe list \<Rightarrow> addr list" where
  "unionAddrs probes = fold (\<lambda>p. fold union_step (probeAddrs p)) probes []"

section \<open>The verdict\<close>

definition wildcardSkipReason :: "lookups \<Rightarrow> lookups \<Rightarrow> string" where
  "wildcardSkipReason apex www =
     (if lk_Status (at apex ''A'') = StatusNXDomain \<and> lk_Status (at apex ''NS'') = StatusNXDomain
      then ''the domain does not exist''
      else if lk_Status (at www ''A'') = StatusNXDomain
      then ''www is NXDOMAIN, so no wildcard could have answered for it'' else [])"

definition classifyProbe :: "wildProbe \<Rightarrow> ProbeOutcome" where
  "classifyProbe p =
     (if Addrs (pr_a p) \<noteq> [] \<or> Addrs (pr_aaaa p) \<noteq> [] \<or> lk_CNAME (pr_a p) \<noteq> [] \<or> lk_CNAME (pr_aaaa p) \<noteq> []
      then probeAnswered
      else if lk_Status (pr_a p) = StatusNXDomain \<or> lk_Status (pr_aaaa p) = StatusNXDomain then probeDenied
      else if Answered (pr_a p) \<and> Answered (pr_aaaa p) then probeDenied
      else probeUnresolved)"

definition wwwIsWildcard :: "wildProbe list \<Rightarrow> addr list \<Rightarrow> bool" where
  "wwwIsWildcard probes www =
     (if www = [] then False
      else list_ex (\<lambda>p. length (probeAddrs p) = length www \<and> sameAddressSet www (probeAddrs p)) probes)"

definition describeProbe :: "dp_lib \<Rightarrow> wildProbe \<Rightarrow> ProbeOutcome \<Rightarrow> WildcardProbe" where
  "describeProbe lib p outcome =
     \<lparr>wp_Label = pr_label p, wp_Status = outcome, wp_Addresses = addrStrings (probeAddrs p),
      wp_CNAME = probeCNAME lib p\<rparr>"

definition probesAgree :: "dp_lib \<Rightarrow> wildProbe list \<Rightarrow> bool" where
  "probesAgree lib probes =
     (let f = probeAddrs (hd probes); c = probeCNAME lib (hd probes)
      in list_all (\<lambda>p. probeCNAME lib p = c \<and> length (probeAddrs p) = length f \<and>
                       sameAddressSet (probeAddrs p) f) (tl probes))"

definition setWildcardVerdict ::
    "dp_lib \<Rightarrow> WildcardReport \<Rightarrow> wildProbe list \<Rightarrow> ProbeOutcome list \<Rightarrow> WildcardReport \<times> bool" where
  "setWildcardVerdict lib rep probes outcomes =
     (case find (\<lambda>(p, o'). o' = probeDenied) (zip probes outcomes) of
        Some (p, _) \<Rightarrow>
          (rep\<lparr>wr_Status := WildcardAbsent,
               wr_DeterminedBy := ''the random name '' @ pr_label p @ '' is denied''\<rparr>, False)
      | None \<Rightarrow>
          (case find (\<lambda>(p, o'). o' = probeUnresolved) (zip probes outcomes) of
             Some (p, _) \<Rightarrow>
               (rep\<lparr>wr_Status := WildcardUnknown,
                    wr_DeterminedBy := ''the lookup for the random name '' @ pr_label p @ '' did not complete''\<rparr>,
                False)
           | None \<Rightarrow>
               (rep\<lparr>wr_Status := WildcardPresent,
                    wr_DeterminedBy := nat_text (length probes) @ '' random names all answer'',
                    wr_Addresses := addrStrings (unionAddrs probes),
                    wr_Consistent := boolPtr (probesAgree lib probes)\<rparr>, True)))"

definition assessWildcard ::
    "dp_lib \<Rightarrow> wildProbe list \<Rightarrow> string \<Rightarrow> Lookup \<Rightarrow> Lookup \<Rightarrow> WildcardReport" where
  "assessWildcard lib probes skip wwwA wwwAAAA =
     (let rep = \<lparr>wr_Status = WildcardUnknown, wr_DeterminedBy = [], wr_Probes = [], wr_Addresses = [],
                 wr_Consistent = None, wr_WWWViaWildcard = False\<rparr>
      in if skip \<noteq> [] then rep\<lparr>wr_Status := WildcardAbsent, wr_DeterminedBy := skip\<rparr>
         else if probes = [] then rep\<lparr>wr_Status := WildcardUnknown, wr_DeterminedBy := ''no probe was issued''\<rparr>
         else let outcomes = map classifyProbe probes;
                  rep1 = rep\<lparr>wr_Probes := map2 (describeProbe lib) probes outcomes\<rparr>;
                  (rep2, answers) = setWildcardVerdict lib rep1 probes outcomes
              in if answers
                 then rep2\<lparr>wr_WWWViaWildcard := wwwIsWildcard probes (Addrs wwwA @ Addrs wwwAAAA)\<rparr>
                 else rep2)"

section \<open>Lemmas\<close>

lemma zip_map_self: "zip xs (map f xs) = map (\<lambda>x. (x, f x)) xs"
  by (induction xs) auto

lemma find_outcome:
  "find (\<lambda>(p, o'). o' = v) (zip ps (map f ps)) = map_option (\<lambda>p. (p, f p)) (find (\<lambda>p. f p = v) ps)"
  unfolding zip_map_self by (induction ps) auto

lemma setWildcardVerdict_status:
  fixes lib :: dp_lib and rep :: WildcardReport and ps :: "wildProbe list"
  defines "out \<equiv> setWildcardVerdict lib rep ps (map classifyProbe ps)"
  shows "wr_Status (fst out) =
      (if probeDenied \<in> classifyProbe ` set ps then WildcardAbsent
       else if probeUnresolved \<in> classifyProbe ` set ps then WildcardUnknown else WildcardPresent)"
    and "snd out \<longleftrightarrow> probeDenied \<notin> classifyProbe ` set ps \<and> probeUnresolved \<notin> classifyProbe ` set ps"
proof -
  have f: "find (\<lambda>p. classifyProbe p = v) ps = None \<longleftrightarrow> v \<notin> classifyProbe ` set ps" for v
    by (auto simp: find_None_iff)
  show "wr_Status (fst out) =
      (if probeDenied \<in> classifyProbe ` set ps then WildcardAbsent
       else if probeUnresolved \<in> classifyProbe ` set ps then WildcardUnknown else WildcardPresent)"
    and "snd out \<longleftrightarrow> probeDenied \<notin> classifyProbe ` set ps \<and> probeUnresolved \<notin> classifyProbe ` set ps"
    using f [of probeDenied] f [of probeUnresolved]
    by (auto simp: out_def setWildcardVerdict_def find_outcome split: option.splits)
qed

lemma fold_union: "set (fold union_step xs out) = Unmap ` set xs \<union> set out"
    "distinct out \<Longrightarrow> distinct (fold union_step xs out)"
  by (induction xs arbitrary: out) (auto simp: union_step_def)

text \<open>Whatever the loop of \<^const>\<open>randomLabels\<close> returns is distinct and drawn.\<close>

lemma label_loop_sound:
  assumes "label_loop draw n i out = Some r" and "distinct out" and "set out \<subseteq> range draw"
    and "length out \<le> n"
  shows "distinct r \<and> set r \<subseteq> range draw \<and> length r = n"
proof -
  let ?P = "\<lambda>draw n i out r. distinct out \<longrightarrow> set out \<subseteq> range draw \<longrightarrow> length out \<le> n \<longrightarrow>
    distinct r \<and> set r \<subseteq> range draw \<and> length r = n"
  have "?P draw n i out r"
  proof (rule label_loop.raw_induct [where P = ?P, OF _ assms(1)])
    fix loop draw and n i :: nat and out r :: "string list"
    assume IH: "\<And>draw n i out r. loop draw n i out = Some r \<Longrightarrow> ?P draw n i out r"
      and step: "(if length out < n
        then loop draw n (Suc i) (if draw i \<in> set out then out else out @ [draw i]) else Some out) = Some r"
    show "?P draw n i out r"
    proof (cases "length out < n")
      case True
      with step have "loop draw n (Suc i) (if draw i \<in> set out then out else out @ [draw i]) = Some r"
        by simp
      from IH [OF this] True show ?thesis by (auto split: if_splits)
    qed (use step in auto)
  qed
  then show ?thesis using assms(2-4) by blast
qed

text \<open>The loop ends as soon as enough different labels have been drawn.\<close>

lemma label_loop_returns:
  assumes "n \<le> card (draw ` {..<m})" and "set out = draw ` {..<i}" and "distinct out"
  shows "\<exists>r. label_loop draw n i out = Some r"
  using assms(2,3)
proof (induction "m - i" arbitrary: i out)
  case 0
  have "draw ` {..<m} \<subseteq> set out" using 0 by auto
  then have "n \<le> length out"
    using assms(1) distinct_card [OF "0.prems"(2)] card_mono [of "set out" "draw ` {..<m}"] by auto
  then show ?case by (simp add: label_loop.simps)
next
  case (Suc k)
  let ?out = "if draw i \<in> set out then out else out @ [draw i]"
  have "set ?out = draw ` {..<Suc i}" "distinct ?out"
    using Suc.prems by (auto simp: lessThan_Suc)
  moreover have "k = m - Suc i" using Suc.hyps(2) by simp
  ultimately have "\<exists>r. label_loop draw n (Suc i) ?out = Some r" by (intro Suc.hyps(1))
  then show ?case by (subst label_loop.simps) auto
qed

section \<open>Properties\<close>

text \<open>
  The verdict is present only when every random name answered, absent only when a definite
  denial was seen (a name denied, or a reason not to probe), and unknown otherwise: a probe that
  did not come back is never read as a zone that denied the name, nor as one that answers it.
\<close>
theorem wildcard_verdict:
  "wr_Status (assessWildcard lib probes skip a aaaa) =
     (if skip \<noteq> [] then WildcardAbsent
      else if \<exists>p\<in>set probes. classifyProbe p = probeDenied then WildcardAbsent
      else if probes = [] \<or> (\<exists>p\<in>set probes. classifyProbe p = probeUnresolved) then WildcardUnknown
      else WildcardPresent)"
  using setWildcardVerdict_status [of lib _ probes]
  by (auto simp: assessWildcard_def Let_def case_prod_beta image_iff)

text \<open>
  For lists without repetition \<open>sameAddressSet\<close> decides equality of the two sets of
  addresses, an IPv4-mapped address counting as the IPv4 one.
\<close>
theorem sameAddressSet_correct:
  assumes "distinct (map Unmap a)" and "distinct (map Unmap b)"
  shows "sameAddressSet a b \<longleftrightarrow> Unmap ` set a = Unmap ` set b"
proof
  assume same: "sameAddressSet a b"
  then have len: "length a = length b" and sub: "Unmap ` set b \<subseteq> Unmap ` set a"
    by (auto simp: sameAddressSet_def list_all_iff Let_def split: if_splits)
  have "card (Unmap ` set a) = length a" "card (Unmap ` set b) = length b"
    using assms by (metis distinct_card length_map set_map)+
  then show "Unmap ` set a = Unmap ` set b"
    using sub len by (metis List.finite_set card_subset_eq finite_imageI)
next
  assume eq: "Unmap ` set a = Unmap ` set b"
  have "length a = length b"
    using assms eq by (metis distinct_card length_map set_map)
  then show "sameAddressSet a b" using eq by (auto simp: sameAddressSet_def list_all_iff Let_def)
qed

theorem sameAddressSet_correct_witness:
  "sameAddressSet [IPv4 1, IPv4 2] [IPv4 2, IPv4 1] \<longleftrightarrow> {IPv4 1, IPv4 2} = {IPv4 2, IPv4 1}"
  using sameAddressSet_correct [of "[IPv4 1, IPv4 2]" "[IPv4 2, IPv4 1]"] by simp

text \<open>
  With a repeated address the comparison is not symmetric, and two lists with different sets
  of addresses compare as the same.
\<close>
theorem sameAddressSet_repeated:
  "sameAddressSet [IPv4 1, IPv4 2] [IPv4 1, IPv4 1] \<and> \<not> sameAddressSet [IPv4 1, IPv4 1] [IPv4 1, IPv4 2]"
  by (simp add: sameAddressSet_def)

text \<open>
  When reading random bytes fails, every label is the same one, and asking for two or more
  labels never returns.
\<close>
theorem randomLabels_stuck:
  assumes "n \<ge> 2"
  shows "randomLabels (\<lambda>i. randomLabel None) n = None"
proof (cases "randomLabels (\<lambda>i. randomLabel None) n")
  case (Some r)
  then have r: "distinct r" "set r \<subseteq> {randomLabel None}" "length r = n"
    using label_loop_sound [of "\<lambda>i. randomLabel None" n 0 "[]" r] by (auto simp: randomLabels_def)
  have "card (set r) \<le> card {randomLabel None}" using r(2) by (intro card_mono) auto
  then have "length r \<le> 1" using distinct_card [OF r(1)] by simp
  then show ?thesis using r(3) assms by simp
qed

theorem randomLabels_stuck_witness: "randomLabels (\<lambda>i. randomLabel None) wildcardProbeCount = None"
  by (rule randomLabels_stuck) (simp add: wildcardProbeCount_def)

text \<open>
  When the generator gives enough different labels, the call returns that many labels, each of
  them drawn and none of them twice.
\<close>
theorem randomLabels_returns:
  assumes "n \<le> card (draw ` {..<m})"
  shows "\<exists>r. randomLabels draw n = Some r \<and> distinct r \<and> length r = n \<and> set r \<subseteq> range draw"
proof -
  obtain r where r: "label_loop draw n 0 [] = Some r"
    using label_loop_returns [OF assms, of "[]" 0] by auto
  then show ?thesis using label_loop_sound [OF r] by (simp add: randomLabels_def)
qed

theorem randomLabels_returns_witness:
  "\<exists>r. randomLabels (\<lambda>i. randomLabel (Some [i])) 3 = Some r \<and> distinct r \<and> length r = 3"
proof -
  have "card ((\<lambda>i. randomLabel (Some [i])) ` {..<3}) = 3"
    by (simp add: lessThan_nat_numeral lessThan_Suc randomLabel_def card_insert_if flip: numeral_eq_Suc)
  then show ?thesis using randomLabels_returns [of 3 "\<lambda>i. randomLabel (Some [i])" 3] by auto
qed

end
