(* ===== verification/Report.thy ===== *)
theory Report
  imports Findings Hosts Rdap Preload Dnssec Trace Nsaudit Caa Wildcard
begin

text \<open>
  The report and the passes over its DNS sections: \<open>src/report.go\<close>, from \<open>rdapFindings\<close> to
  \<open>reachabilityFindings\<close>.
\<close>

section \<open>The report\<close>

text \<open>The value for a skipped family carries the reason as text.\<close>

datatype Reach = ReachYes | ReachNo | ReachSkipped string

record DNSSection =
  dns_Apex :: lookups
  dns_WWW :: lookups
  dns_ResolverReachable :: "(string, Reach) go_map"
  dns_ResolverValidates :: "bool option"

record TLSAReport =
  ta_Apex :: "string list"
  ta_WWW :: "string list option"
  ta_Signed :: bool
  ta_Result :: TLSAOutcome

record Report =
  rep_Version :: string
  rep_Timestamp :: string
  rep_Domain :: string
  rep_UnicodeDomain :: string
  rep_NotAZone :: bool
  rep_ReservedName :: string
  rep_PublicSuffix :: bool
  rep_EnclosingZone :: string
  rep_Resolver :: string
  rep_Families :: "string list"
  rep_TimeoutSec :: int
  rep_TCPTimeoutSec :: int
  rep_DNSConcurrency :: int
  rep_QuicTimeoutSec :: int
  rep_MaxTimeSec :: int
  rep_RedirectLog :: bool
  rep_DNS :: DNSSection
  rep_DNSSEC :: DNSSECReport
  rep_Delegation :: Delegation
  rep_Web :: WebSection
  rep_Certificates :: certs
  rep_Mail :: "MailReport option"
  rep_Nameservers :: "NSReport option"
  rep_CAA :: "CAAReport option"
  rep_TLSA :: "TLSAReport option"
  rep_Wildcard :: "WildcardReport option"
  rep_RDAP :: "RDAPReport option"
  rep_ReservedAddresses :: "string list"
  rep_HSTSPreload :: PreloadStatus
  rep_HSTSPreloadCoveredBy :: string
  rep_HSTSPreloadPolicy :: string
  rep_HSTSPreloadError :: string
  rep_HSTSPreloadIncludeSubdomains :: "bool option"
  rep_Errors :: "string list"
  rep_Warnings :: "string list"
  rep_Findings :: "Finding list"
  rep_OK :: bool
  rep_DeadlineReached :: bool
  rep_ElapsedMs :: int

text \<open>The zero value of the struct, which the examples start from.\<close>

definition zero_Report :: Report where
  "zero_Report = \<lparr>rep_Version = [], rep_Timestamp = [], rep_Domain = [], rep_UnicodeDomain = [], rep_NotAZone = False,
     rep_ReservedName = [], rep_PublicSuffix = False, rep_EnclosingZone = [], rep_Resolver = [], rep_Families = [],
     rep_TimeoutSec = 0, rep_TCPTimeoutSec = 0, rep_DNSConcurrency = 0, rep_QuicTimeoutSec = 0, rep_MaxTimeSec = 0,
     rep_RedirectLog = False,
     rep_DNS = \<lparr>dns_Apex = [], dns_WWW = [], dns_ResolverReachable = [], dns_ResolverValidates = None\<rparr>,
     rep_DNSSEC = \<lparr>ds_State = DNSSECNone, ds_DS = False, ds_DNSKEY = False, ds_EDE = [], ds_Detail = []\<rparr>,
     rep_Delegation = zero_Delegation, rep_Web = \<lparr>web_Apex = None, web_WWW = None\<rparr>, rep_Certificates = [],
     rep_Mail = None, rep_Nameservers = None, rep_CAA = None, rep_TLSA = None, rep_Wildcard = None, rep_RDAP = None,
     rep_ReservedAddresses = [], rep_HSTSPreload = PreloadNone, rep_HSTSPreloadCoveredBy = [],
     rep_HSTSPreloadPolicy = [], rep_HSTSPreloadError = [], rep_HSTSPreloadIncludeSubdomains = None,
     rep_Errors = [], rep_Warnings = [], rep_Findings = [], rep_OK = False, rep_DeadlineReached = False,
     rep_ElapsedMs = 0\<rparr>"

section \<open>Registration, deadline and end\<close>

definition rdapFindings :: "RDAPReport option \<Rightarrow> pass" where
  "rdapFindings r =
     (case r of
        None \<Rightarrow> id
      | Some r \<Rightarrow>
          (let held = matchedStatuses r rdapHoldStatus; leaving = matchedStatuses r rdapDeletionStatus
           in seq [
             given (held \<noteq> [])
               (fail ''domain_on_hold'' [] (''RDAP reports '' @ rd_Domain r @ '' on hold: '' @ Join '', '' held)),
             given (leaving \<noteq> [])
               (warn ''domain_pending_deletion'' []
                 (''RDAP reports '' @ rd_Domain r @ '' being deleted: '' @ Join '', '' leaving)),
             given (rd_Registered r = None)
               (info ''rdap_lookup_failed'' []
                 (''registry RDAP lookup for '' @ rd_Domain r @ '' did not complete ('' @
                  rg_Error (rd_Registry r) @ ''): registration status unknown''))]))"

definition deadlineFindings :: "Report \<Rightarrow> pass" where
  "deadlineFindings rep =
     given (rep_DeadlineReached rep)
       (info ''run_deadline_reached'' []
         (''the run reached its '' @ Itoa (rep_MaxTimeSec rep) @
          ''-second deadline; checks still running then were cut short''))"

definition finish :: "findings \<Rightarrow> Report \<Rightarrow> Report" where
  "finish f rep =
     rep\<lparr>rep_Errors := fs_errors f, rep_Warnings := fs_warnings f, rep_Findings := fs_list f,
         rep_OK := (length (fs_errors f) = 0)\<rparr>"

section \<open>A zone that nobody serves\<close>

definition delegationSilent :: "Delegation \<Rightarrow> Lookup \<Rightarrow> bool" where
  "delegationSilent d apexNS \<longleftrightarrow>
     de_Status d = DelegationNoChildAnswer \<and> de_ParentServer d \<noteq> [] \<and> lk_Status apexNS \<noteq> StatusNXRRSet"

definition noServerAnswers :: "NSReport option \<Rightarrow> bool" where
  "noServerAnswers n =
     (case n of
        None \<Rightarrow> False
      | Some n \<Rightarrow>
          if length (nr_Unresolved n) > 0 \<or> length (nr_Servers n) + length (nr_Unresolvable n) = 0 then False
          else list_all (\<lambda>s. \<not> (ns_Error s = [] \<or> ns_AA s)) (nr_Servers n))"

definition zoneUnreachable :: "Report \<Rightarrow> bool" where
  "zoneUnreachable rep \<longleftrightarrow>
     rep_ReservedName rep = [] \<and> \<not> rep_NotAZone rep \<and>
     delegationSilent (rep_Delegation rep) (at (dns_Apex (rep_DNS rep)) ''NS'') \<and>
     noServerAnswers (rep_Nameservers rep)"

section \<open>Lookups\<close>

definition noRecordsAtAll :: "lookups \<Rightarrow> bool" where
  "noRecordsAtAll apex = list_all (\<lambda>t. Answered (at apex t) \<and> \<not> HasRecords (at apex t)) apexTypes"

definition apexAbsent :: "lookups \<Rightarrow> bool" where
  "apexAbsent apex \<longleftrightarrow> nameDoesNotExist apex \<or> noRecordsAtAll apex"

definition enclosing :: "string \<Rightarrow> string" where
  "enclosing zone = (if zone = [] then [] else '' (inside zone '' @ zone @ '')'')"

definition apexMissing :: "Report \<Rightarrow> findings \<Rightarrow> findings \<times> bool" where
  "apexMissing rep f =
     (let apex = dns_Apex (rep_DNS rep)
      in if nameDoesNotExist apex then
           (fail ''apex_nxdomain'' ''apex'' (''apex '' @ rep_Domain rep @ '' does not exist (NXDOMAIN)'') f, True)
         else if noRecordsAtAll apex then
           (fail ''apex_empty'' ''apex'' (''apex '' @ rep_Domain rep @ '' has no records of any type'') f, True)
         else (f, False))"

definition lookupFindings :: "string \<Rightarrow> string \<Rightarrow> Lookup \<Rightarrow> bool \<Rightarrow> pass" where
  "lookupFindings label qtype l folded =
     (if lk_Status l = StatusTimeout then
        fail ''lookup_timeout'' label (label @ '' '' @ qtype @ '' lookup timed out'')
      else if lk_Status l = StatusFailure then
        given (\<not> folded)
          (fail ''lookup_failed'' label (label @ '' '' @ qtype @ '' lookup failed: '' @ lk_Error l))
      else id)"

definition zoneKindFindings :: "Report \<Rightarrow> pass" where
  "zoneKindFindings rep =
     (let ns = at (dns_Apex (rep_DNS rep)) ''NS''
      in if rep_NotAZone rep then
           info ''not_a_zone'' [] (rep_Domain rep @ '' is not a zone apex'' @ enclosing (rep_EnclosingZone rep) @
             '': delegation and DNSSEC zone checks skipped'')
         else if de_Status (rep_Delegation rep) = DelegationChildNoNS \<or>
                 de_Status (rep_Delegation rep) = DelegationNoChildAnswer then id
         else if \<not> HasRecords ns \<and> Answered ns then fail ''ns_absent'' ''apex'' ''apex has no NS records''
         else id)"

definition nxdomainCode :: "string \<Rightarrow> string" where
  "nxdomainCode label = (if label = ''www'' then ''www_nxdomain'' else ''reserved_nxdomain'')"

definition noAddress :: "string \<Rightarrow> pass" where
  "noAddress label =
     (if label = ''www'' then info ''www_no_address'' label (label @ '' has no A or AAAA records'')
      else warn ''apex_no_address'' label (label @ '' has no A or AAAA records''))"

definition addressWarnings :: "string \<Rightarrow> Lookup \<Rightarrow> Lookup \<Rightarrow> pass" where
  "addressWarnings label a aaaa =
     (if \<not> Answered a \<or> \<not> Answered aaaa then id
      else if lk_Status a = StatusNXDomain then info (nxdomainCode label) label (label @ '' name does not exist'')
      else if \<not> HasRecords a \<and> \<not> HasRecords aaaa then noAddress label
      else if \<not> HasRecords aaaa then info ''aaaa_absent'' label (label @ '' has no AAAA record'')
      else id)"

definition hasSPF :: "string list \<Rightarrow> bool" where
  "hasSPF records = list_ex isSPFRecord records"

definition presenceWarnings :: "dp_lib \<Rightarrow> Report \<Rightarrow> pass" where
  "presenceWarnings lib rep =
     (let apex = dns_Apex (rep_DNS rep); www = dns_WWW (rep_DNS rep)
      in seq [
        addressWarnings ''apex'' (at apex ''A'') (at apex ''AAAA''),
        given (registrableDomain lib (rep_Domain rep))
          (addressWarnings ''www'' (at www ''A'') (at www ''AAAA'')),
        given (rep_Mail rep \<noteq> None) (seq [
          (if IsNullMX (at apex ''MX'') then
             info ''mx_null'' ''apex'' ''apex publishes a null MX (RFC 7505): accepts no mail''
           else if Answered (at apex ''MX'') \<and> \<not> HasRecords (at apex ''MX'') then
             info ''mx_absent'' ''apex'' ''apex has no MX records''
           else id),
          given (Answered (at apex ''TXT'') \<and> \<not> hasSPF (lk_Records (at apex ''TXT'')))
            (warn ''spf_absent'' [] ''no SPF (v=spf1) record in apex TXT'')])])"

definition dnsFindings :: "dp_lib \<Rightarrow> Report \<Rightarrow> pass" where
  "dnsFindings lib rep f =
     (let (f1, missing) = (if rep_ReservedName rep = [] then apexMissing rep f else (f, False));
          state = ds_State (rep_DNSSEC rep);
          folded = (state = DNSSECBogus \<or> state = DNSSECServfail \<or> rep_ReservedName rep \<noteq> [])
      in if missing then f1
         else seq [
           each (\<lambda>t. lookupFindings ''apex'' t (at (dns_Apex (rep_DNS rep)) t) folded) apexTypes,
           each (\<lambda>t. lookupFindings ''www'' t (at (dns_WWW (rep_DNS rep)) t) folded) wwwTypes,
           zoneKindFindings rep, presenceWarnings lib rep] f1)"

section \<open>DNSSEC, delegation, reachability\<close>

definition dnssecFindings :: "Report \<Rightarrow> pass" where
  "dnssecFindings rep =
     (let d = rep_DNSSEC rep
      in case ds_State d of
           DNSSECBogus \<Rightarrow>
             fail ''dnssec_bogus'' [] (''DNSSEC validation fails (bogus): '' @ firstNonEmpty [ds_EDE d, ds_Detail d])
         | DNSSECServfail \<Rightarrow>
             fail ''resolver_servfail'' [] (''resolver returned SERVFAIL: '' @ firstNonEmpty [ds_EDE d, ds_Detail d])
         | DNSSECIsland \<Rightarrow> warn ''dnssec_dnskey_no_ds'' [] (''DNSSEC: '' @ ds_Detail d)
         | DNSSECUnknown \<Rightarrow> warn ''dnssec_unknown'' [] (''DNSSEC state unknown: '' @ ds_Detail d)
         | DNSSECInsecure \<Rightarrow>
             given (\<not> rep_NotAZone rep) (info ''dnssec_unsigned'' [] ''the zone is not DNSSEC-signed'')
         | _ \<Rightarrow> id)"

definition delegationFindings :: "Report \<Rightarrow> pass" where
  "delegationFindings rep =
     (let d = rep_Delegation rep
      in case de_Status d of
           DelegationMismatch \<Rightarrow>
             fail ''delegation_mismatch'' [] (''NS delegation mismatch: parent-only '' @ list_text (de_ParentOnly d) @
               '', child-only '' @ list_text (de_ChildOnly d))
         | DelegationNotDelegated \<Rightarrow>
             given (\<not> apexAbsent (dns_Apex (rep_DNS rep)))
               (fail ''not_delegated'' [] (''domain is not delegated by its parent zone ('' @ de_ParentServer d @ '')''))
         | DelegationNoChildAnswer \<Rightarrow>
             (if lk_Status (at (dns_Apex (rep_DNS rep)) ''NS'') = StatusNXRRSet then
                fail ''delegation_nodata'' []
                  ''delegated NS servers answered with no NS records (NODATA): the zone has no apex NS RRset''
              else fail ''delegation_no_answer'' []
                (''delegated NS servers did not answer the NS query: '' @ firstNonEmpty [de_Error d, ''no response'']))
         | DelegationChildNoNS \<Rightarrow> fail ''delegation_lame'' [] (''lame delegation: '' @ de_Error d)
         | DelegationError \<Rightarrow> fail ''delegation_trace_failed'' [] (''delegation trace failed: '' @ de_Error d)
         | _ \<Rightarrow> id)"

definition reachabilityFindings :: "(string, Reach) go_map \<Rightarrow> pass" where
  "reachabilityFindings reach =
     each (\<lambda>fam. given (map_of reach fam = Some ReachNo)
             (fail ''resolver_unreachable'' [] (''resolver not reachable over '' @ fam)))
       (sorted_keys reach)"

section \<open>Codes\<close>

definition rdap_codes :: "(string \<times> Severity) list" where
  "rdap_codes = [(''domain_on_hold'', SeverityFail), (''domain_pending_deletion'', SeverityWarn),
     (''rdap_lookup_failed'', SeverityInfo)]"

definition deadline_codes :: "(string \<times> Severity) list" where
  "deadline_codes = [(''run_deadline_reached'', SeverityInfo)]"

definition dns_codes :: "(string \<times> Severity) list" where
  "dns_codes = [(''apex_nxdomain'', SeverityFail), (''apex_empty'', SeverityFail),
     (''lookup_timeout'', SeverityFail), (''lookup_failed'', SeverityFail), (''not_a_zone'', SeverityInfo),
     (''ns_absent'', SeverityFail), (''www_nxdomain'', SeverityInfo), (''reserved_nxdomain'', SeverityInfo),
     (''www_no_address'', SeverityInfo), (''apex_no_address'', SeverityWarn), (''aaaa_absent'', SeverityInfo),
     (''mx_null'', SeverityInfo), (''mx_absent'', SeverityInfo), (''spf_absent'', SeverityWarn)]"

definition dnssec_codes :: "(string \<times> Severity) list" where
  "dnssec_codes = [(''dnssec_bogus'', SeverityFail), (''resolver_servfail'', SeverityFail),
     (''dnssec_dnskey_no_ds'', SeverityWarn), (''dnssec_unknown'', SeverityWarn), (''dnssec_unsigned'', SeverityInfo)]"

definition delegation_codes :: "(string \<times> Severity) list" where
  "delegation_codes = [(''delegation_mismatch'', SeverityFail), (''not_delegated'', SeverityFail),
     (''delegation_nodata'', SeverityFail), (''delegation_no_answer'', SeverityFail),
     (''delegation_lame'', SeverityFail), (''delegation_trace_failed'', SeverityFail)]"

definition reach_codes :: "(string \<times> Severity) list" where
  "reach_codes = [(''resolver_unreachable'', SeverityFail)]"

interpretation rdap: findings_pass rdapFindings rdap_codes
  by unfold_locales (auto simp: rdapFindings_def rdap_codes_def Let_def intro!: emits_rules)

interpretation deadline: findings_pass deadlineFindings deadline_codes
  by unfold_locales (auto simp: deadlineFindings_def deadline_codes_def intro!: emits_rules)

lemma lookup_emits [emits_rules]: "emits dns_codes (lookupFindings label t l folded)"
  unfolding lookupFindings_def by (intro emits_rules) (simp_all add: dns_codes_def)

lemma zoneKind_emits [emits_rules]: "emits dns_codes (zoneKindFindings rep)"
  unfolding zoneKindFindings_def Let_def by (intro emits_rules) (simp_all add: dns_codes_def)

lemma address_emits [emits_rules]: "emits dns_codes (addressWarnings label a aaaa)"
  unfolding addressWarnings_def noAddress_def nxdomainCode_def
  by (intro emits_rules) (simp_all add: dns_codes_def)

lemma presence_emits [emits_rules]: "emits dns_codes (presenceWarnings lib rep)"
  unfolding presenceWarnings_def Let_def by (intro emits_rules) (simp_all add: dns_codes_def)

lemma dnsFindings_alt:
  "dnsFindings lib rep =
     (let apex = dns_Apex (rep_DNS rep); state = ds_State (rep_DNSSEC rep);
          folded = (state = DNSSECBogus \<or> state = DNSSECServfail \<or> rep_ReservedName rep \<noteq> [])
      in if rep_ReservedName rep = [] \<and> nameDoesNotExist apex then
           fail ''apex_nxdomain'' ''apex'' (''apex '' @ rep_Domain rep @ '' does not exist (NXDOMAIN)'')
         else if rep_ReservedName rep = [] \<and> noRecordsAtAll apex then
           fail ''apex_empty'' ''apex'' (''apex '' @ rep_Domain rep @ '' has no records of any type'')
         else seq [
           each (\<lambda>t. lookupFindings ''apex'' t (at apex t) folded) apexTypes,
           each (\<lambda>t. lookupFindings ''www'' t (at (dns_WWW (rep_DNS rep)) t) folded) wwwTypes,
           zoneKindFindings rep, presenceWarnings lib rep])"
  by (rule ext) (simp add: dnsFindings_def apexMissing_def Let_def)

interpretation dns: findings_pass "dnsFindings lib" dns_codes for lib
  by unfold_locales (unfold dnsFindings_alt Let_def, intro emits_rules, simp_all add: dns_codes_def)

interpretation dnssec: findings_pass dnssecFindings dnssec_codes
  by unfold_locales
    (auto simp: dnssecFindings_def dnssec_codes_def Let_def intro!: emits_rules split: DNSSECState.split)

interpretation delegation: findings_pass delegationFindings delegation_codes
  by unfold_locales
    (auto simp: delegationFindings_def delegation_codes_def Let_def intro!: emits_rules split: DelegationStatus.split)

interpretation reach: findings_pass reachabilityFindings reach_codes
  by unfold_locales (auto simp: reachabilityFindings_def reach_codes_def intro!: emits_rules)

end
