(* ===== verification/Web_Report.thy ===== *)
theory Web_Report
  imports Report
begin

text \<open>
  The passes over the web section of the report: \<open>src/report.go\<close>, from \<open>webFindings\<close> to
  \<open>hstsFindings\<close>.
\<close>

section \<open>Listeners, QUIC and HTTP versions\<close>

definition port80Failure :: "AddrWeb \<Rightarrow> string" where
  "port80Failure a =
     (if aw_HTTP a \<noteq> PortOpen then PortState_text (aw_HTTP a)
      else case aw_HTTPRes a of
             Some r \<Rightarrow> if ht_Error r \<noteq> [] then ht_Error r else ''no response''
           | None \<Rightarrow> ''no response'')"

definition port80_answered :: "AddrWeb \<Rightarrow> bool" where
  "port80_answered a = (case aw_HTTPRes a of Some r \<Rightarrow> ht_Status r > 0 | None \<Rightarrow> False)"

definition port80PartialFindings :: "string \<Rightarrow> AddrWeb list \<Rightarrow> pass" where
  "port80PartialFindings label as =
     (let probed = filter (\<lambda>a. aw_HTTP a \<noteq> PortSkipped) as;
          answered = filter port80_answered probed;
          failed = map (\<lambda>a. aw_IP a @ '' '' @ port80Failure a)
            (filter (\<lambda>a. \<not> port80_answered a \<and> aw_HTTPS a = PortOpen) probed)
      in given (length answered > 0 \<and> length failed > 0)
           (warn ''http_port80_partial'' label (label @ '': port 80 failed on '' @ nat_text (length failed) @
             '' of '' @ nat_text (length probed) @ '' addresses while the others answered: '' @ Join ''; '' failed)))"

definition listenerFindings :: "string \<Rightarrow> AddrWeb \<Rightarrow> pass" where
  "listenerFindings label a =
     (let at_ip = label @ '' '' @ aw_IP a;
          refused = (case aw_HTTPRes a of Some r \<Rightarrow> probeRefused (ht_Status r) | None \<Rightarrow> False)
      in if aw_HTTP a = PortSkipped \<and> aw_HTTPS a = PortSkipped then
           info ''address_not_probed_reserved'' label (at_ip @ '': not probed (reserved address)'')
         else if aw_HTTP a \<noteq> PortOpen \<and> aw_HTTPS a \<noteq> PortOpen then
           warn ''web_no_listener'' label (at_ip @ '': no listener on 80 or 443 ('' @ PortState_text (aw_HTTP a) @
             ''/'' @ PortState_text (aw_HTTPS a) @ '')'')
         else if aw_HTTPS a \<noteq> PortOpen \<and> refused then
           info ''https_not_verified'' label (at_ip @ '': HTTP on 80 refused the probe (HTTP '' @
             Itoa (ht_Status (the (aw_HTTPRes a))) @ '') and HTTPS on 443 did not answer ('' @
             PortState_text (aw_HTTPS a) @ ''), so neither was verified'')
         else if aw_HTTPS a \<noteq> PortOpen then
           warn ''https_unreachable'' label (at_ip @ '': HTTP on 80 answers but HTTPS on 443 does not ('' @
             PortState_text (aw_HTTPS a) @ '')'')
         else id)"

record versionTally =
  vt_yes :: nat
  vt_no :: nat

definition versionTally_add :: "bool option \<Rightarrow> versionTally \<Rightarrow> versionTally" where
  "versionTally_add b v =
     (case b of
        None \<Rightarrow> v
      | Some True \<Rightarrow> v\<lparr>vt_yes := vt_yes v + 1\<rparr>
      | Some False \<Rightarrow> v\<lparr>vt_no := vt_no v + 1\<rparr>)"

record hostVersions =
  hv_h1 :: versionTally
  hv_h2 :: versionTally
  hv_h3 :: versionTally
  hv_advertised :: nat
  hv_unreachable :: nat

definition zero_hostVersions :: hostVersions where
  "zero_hostVersions = (let z = \<lparr>vt_yes = 0, vt_no = 0\<rparr>
     in \<lparr>hv_h1 = z, hv_h2 = z, hv_h3 = z, hv_advertised = 0, hv_unreachable = 0\<rparr>)"

definition tally_version :: "AddrWeb \<Rightarrow> hostVersions \<Rightarrow> hostVersions" where
  "tally_version a t =
     (case aw_HTTPVersions a of
        None \<Rightarrow> t
      | Some v \<Rightarrow>
          let t1 = (if aw_HTTPS a = PortOpen
                    then t\<lparr>hv_h1 := versionTally_add (hv_HTTP1_1 v) (hv_h1 t),
                           hv_h2 := versionTally_add (hv_HTTP2 v) (hv_h2 t)\<rparr> else t);
              t2 = t1\<lparr>hv_h3 := versionTally_add (hv_HTTP3 v) (hv_h3 t1)\<rparr>
          in if isTrue (hv_H3Advertised v)
             then t2\<lparr>hv_advertised := hv_advertised t2 + 1,
                     hv_unreachable := hv_unreachable t2 + (if isTrue (hv_HTTP3 v) then 0 else 1)\<rparr>
             else t2)"

definition tallyVersions :: "AddrWeb list \<Rightarrow> hostVersions" where
  "tallyVersions as = fold tally_version as zero_hostVersions"

definition httpVersionFindings :: "string \<Rightarrow> AddrWeb list \<Rightarrow> pass" where
  "httpVersionFindings label as =
     (let t = tallyVersions as
      in seq [
        given (vt_yes (hv_h1 t) = 0 \<and> vt_no (hv_h1 t) > 0)
          (info ''http1_1_absent'' label (label @ '': no address serves HTTP/1.1 over TLS ('' @
            nat_text (vt_no (hv_h1 t)) @ '' refused it)'')),
        (if vt_yes (hv_h2 t) = 0 \<and> vt_no (hv_h2 t) > 0 then
           info ''http2_absent'' label (label @ '': no address negotiates HTTP/2 (h2)'')
         else if vt_yes (hv_h2 t) > 0 \<and> vt_no (hv_h2 t) > 0 then
           info ''http2_partial'' label (label @ '': HTTP/2 (h2) on '' @ nat_text (vt_yes (hv_h2 t)) @ '' of '' @
             nat_text (vt_yes (hv_h2 t) + vt_no (hv_h2 t)) @ '' addresses'')
         else id),
        given (vt_yes (hv_h3 t) = 0 \<and> vt_no (hv_h3 t) > 0)
          (info ''http3_absent'' label (label @ '': no address serves HTTP/3'')),
        given (hv_unreachable t > 0)
          (warn ''h3_advertised_unreachable'' label (label @
            '': Alt-Svc advertises HTTP/3 but QUIC did not answer on '' @ nat_text (hv_unreachable t) @ '' of '' @
            nat_text (hv_advertised t) @ '' advertising addresses''))])"

definition anyQUIC :: "AddrWeb list \<Rightarrow> bool" where
  "anyQUIC as = list_ex (\<lambda>a. case aw_QUIC a of Some q \<Rightarrow> qu_Supported q | None \<Rightarrow> False) as"

definition quicFindings :: "string \<Rightarrow> AddrWeb list \<Rightarrow> pass" where
  "quicFindings label as =
     given (anyQUIC as)
       (each (\<lambda>a. given (case aw_QUIC a of Some q \<Rightarrow> \<not> qu_Supported q | None \<Rightarrow> False)
          (info ''quic_partial'' label (label @ '' '' @ aw_IP a @
            '': QUIC/h3 works on another probed address of this host but not here''))) as)"

definition webFindings :: "string \<Rightarrow> HostWeb option \<Rightarrow> pass" where
  "webFindings label h =
     seq [each (listenerFindings label) (addrs h), quicFindings label (addrs h),
          httpVersionFindings label (addrs h), port80PartialFindings label (addrs h)]"

section \<open>Certificates\<close>

definition expiryWarnDays :: int where "expiryWarnDays = 30"

definition hstsMinAge :: int where "hstsMinAge = 15552000"

definition withTLS :: "AddrWeb list \<Rightarrow> AddrWeb list" where
  "withTLS as = filter (\<lambda>a. aw_TLS a \<noteq> None) as"

definition cert_profile :: "AddrWeb \<Rightarrow> string option" where
  "cert_profile a =
     (case aw_TLS a of
        None \<Rightarrow> None
      | Some t \<Rightarrow>
          (case tl_Cert t of
             None \<Rightarrow> None
           | Some c \<Rightarrow> Some (chain_text (tl_Chain t) @ ''/'' @ bool_text (ci_CoversApex c) @ ''/'' @
               bool_text (ci_CoversWWW c))))"

fun profiles_loop :: "string \<Rightarrow> AddrWeb list \<Rightarrow> bool" where
  "profiles_loop first [] = False"
| "profiles_loop first (a # as) =
     (case cert_profile a of
        None \<Rightarrow> profiles_loop first as
      | Some p \<Rightarrow> if first \<noteq> [] \<and> p \<noteq> first then True else profiles_loop p as)"

definition certProfilesDiffer :: "AddrWeb list \<Rightarrow> bool" where
  "certProfilesDiffer as = profiles_loop [] as"

definition chainLabel :: "TLSResult \<Rightarrow> string" where
  "chainLabel t =
     (if length (tl_Problems t) < 2 then ReplaceByte CHR ''_'' CHR '' '' (chain_text (tl_Chain t))
      else Join '' and '' (map (\<lambda>p. ReplaceByte CHR ''_'' CHR '' '' (chain_text p)) (tl_Problems t)))"

record chain_tally =
  ch_code :: string
  ch_chain :: string
  ch_detail :: string
  ch_count :: nat

definition chain_key :: "TLSResult \<Rightarrow> string" where
  "chain_key t =
     chain_text (tl_Chain t) @ [CHR 0x00] @ tl_Error t @ [CHR 0x00] @ Join '','' (map chain_text (tl_Problems t))"

definition chain_step :: "AddrWeb \<Rightarrow> (string, chain_tally) go_map \<Rightarrow> (string, chain_tally) go_map" where
  "chain_step a m =
     (case aw_TLS a of
        None \<Rightarrow> m
      | Some t \<Rightarrow>
          if tl_Chain t = ChainValid then m
          else let c = map_get \<lparr>ch_code = ''cert_'' @ chain_text (tl_Chain t), ch_chain = chainLabel t,
                                 ch_detail = tl_Error t, ch_count = 0\<rparr> m (chain_key t)
               in map_put (chain_key t) (c\<lparr>ch_count := ch_count c + 1\<rparr>) m)"

text \<open>The loop over \<open>order\<close> visits the causes in the order in which they were entered.\<close>

definition chainFindings :: "string \<Rightarrow> AddrWeb list \<Rightarrow> pass" where
  "chainFindings label as =
     each (\<lambda>(key, t). fail (ch_code t) label (label @ '': certificate '' @
         ReplaceByte CHR ''_'' CHR '' '' (ch_chain t) @ '' on '' @ nat_text (ch_count t) @ '' of '' @
         nat_text (length as) @ '' addresses: '' @ ch_detail t))
       (fold chain_step as [])"

definition soonest_step :: "AddrWeb \<Rightarrow> int \<Rightarrow> int" where
  "soonest_step a soonest =
     (case aw_TLS a of
        None \<Rightarrow> soonest
      | Some t \<Rightarrow>
          (case tl_Cert t of
             None \<Rightarrow> soonest
           | Some c \<Rightarrow>
               if tl_Chain t = ChainExpired then soonest
               else if soonest < 0 \<or> ci_DaysRemaining c < soonest then ci_DaysRemaining c else soonest))"

definition expiryFindings :: "string \<Rightarrow> AddrWeb list \<Rightarrow> pass" where
  "expiryFindings label as =
     (let soonest = fold soonest_step as (-1)
      in if soonest < 0 \<or> soonest \<ge> expiryWarnDays then id
         else if soonest < 7 then
           warn ''cert_expiry_urgent'' label (label @ '': certificate expires in '' @ Itoa soonest @ '' days (urgent)'')
         else info ''cert_expiry_soon'' label (label @ '': certificate expires in '' @ Itoa soonest @ '' days''))"

definition hasValidCert :: "HostWeb option \<Rightarrow> bool" where
  "hasValidCert h = list_ex (\<lambda>a. case aw_TLS a of Some t \<Rightarrow> tl_Chain t = ChainValid | None \<Rightarrow> False) (addrs h)"

definition sibling_covered :: "string \<Rightarrow> AddrWeb \<Rightarrow> bool" where
  "sibling_covered label a =
     (case aw_TLS a of
        None \<Rightarrow> True
      | Some t \<Rightarrow>
          (case tl_Cert t of
             None \<Rightarrow> True
           | Some c \<Rightarrow> tl_Chain t \<noteq> ChainValid \<or> (if label = ''www'' then ci_CoversApex c else ci_CoversWWW c)))"

definition coverageFindings :: "string \<Rightarrow> AddrWeb list \<Rightarrow> HostWeb option \<Rightarrow> pass" where
  "coverageFindings label as sibling =
     (if sibling = None \<or> length (addrs sibling) = 0 \<or> hasValidCert sibling then id
      else given (list_ex (\<lambda>a. \<not> sibling_covered label a) as)
        (warn ''cert_sibling_uncovered'' label (label @ '': certificate does not cover '' @
          (if label = ''www'' then ''the apex'' else ''www'') @ '', which resolves but has no valid certificate'')))"

definition versionFindings :: "string \<Rightarrow> AddrWeb list \<Rightarrow> pass" where
  "versionFindings label as =
     (let ts = filter (\<lambda>t. tl_Chain t \<noteq> ChainHandshakeFailed) (List.map_filter aw_TLS as);
          old10 = length (filter (\<lambda>t. isTrue (tl_TLS10 t)) ts);
          old11 = length (filter (\<lambda>t. isTrue (tl_TLS11 t)) ts);
          no13 = length (filter (\<lambda>t. tl_Version t \<noteq> [] \<and> tl_Version t \<noteq> ''TLS 1.3'') ts)
      in seq [
        given (old10 + old11 > 0)
          (info ''tls_legacy_versions'' label (label @ '': TLS 1.0/1.1 still accepted on '' @
            nat_text (max old10 old11) @ '' of '' @ nat_text (length ts) @ '' addresses'')),
        given (no13 > 0)
          (info ''tls13_absent'' label (label @ '': no TLS 1.3 on '' @ nat_text no13 @ '' of '' @
            nat_text (length ts) @ '' addresses''))])"

definition tlsFindings :: "string \<Rightarrow> HostWeb option \<Rightarrow> HostWeb option \<Rightarrow> pass" where
  "tlsFindings label h sibling =
     (let as = withTLS (addrs h);
          inconsistent = (case h of Some w \<Rightarrow> hw_CertConsistent w = Some False | None \<Rightarrow> False)
      in if as = [] then id
         else seq [
           chainFindings label as, expiryFindings label as, coverageFindings label as sibling,
           versionFindings label as,
           given (inconsistent \<and> certProfilesDiffer as)
             (warn ''cert_mismatch_between_addresses'' label (label @
               '': addresses serve certificates that differ in validity or in the names they cover''))])"

section \<open>Codes\<close>

definition web_codes :: "(string \<times> Severity) list" where
  "web_codes = [(''http_port80_partial'', SeverityWarn), (''address_not_probed_reserved'', SeverityInfo),
     (''web_no_listener'', SeverityWarn), (''https_not_verified'', SeverityInfo), (''https_unreachable'', SeverityWarn),
     (''http1_1_absent'', SeverityInfo), (''http2_absent'', SeverityInfo), (''http2_partial'', SeverityInfo),
     (''http3_absent'', SeverityInfo), (''h3_advertised_unreachable'', SeverityWarn), (''quic_partial'', SeverityInfo)]"

text \<open>The codes of the chain states are formed from their texts.\<close>

definition tls_codes :: "(string \<times> Severity) list" where
  "tls_codes =
     map (\<lambda>c. (''cert_'' @ chain_text c, SeverityFail))
       [ChainExpired, ChainNotYetValid, ChainHostnameMismatch, ChainSelfSigned, ChainIncomplete, ChainUntrustedRoot,
        ChainInvalid, ChainHandshakeFailed] @
     [(''cert_expiry_urgent'', SeverityWarn), (''cert_expiry_soon'', SeverityInfo),
      (''cert_sibling_uncovered'', SeverityWarn), (''tls_legacy_versions'', SeverityInfo),
      (''tls13_absent'', SeverityInfo), (''cert_mismatch_between_addresses'', SeverityWarn)]"

lemma port80_emits [emits_rules]: "emits web_codes (port80PartialFindings label as)"
  unfolding port80PartialFindings_def Let_def by (intro emits_rules) (simp_all add: web_codes_def)

lemma listener_emits [emits_rules]: "emits web_codes (listenerFindings label a)"
  unfolding listenerFindings_def Let_def by (intro emits_rules) (simp_all add: web_codes_def)

lemma httpVersion_emits [emits_rules]: "emits web_codes (httpVersionFindings label as)"
  unfolding httpVersionFindings_def Let_def by (intro emits_rules) (simp_all add: web_codes_def)

lemma quic_emits [emits_rules]: "emits web_codes (quicFindings label as)"
  unfolding quicFindings_def by (intro emits_rules) (simp_all add: web_codes_def)

interpretation web: findings_pass "\<lambda>(label, h). webFindings label h" web_codes
  by unfold_locales (unfold webFindings_def, intro emits_rules)

lemma chain_code: "c \<noteq> ChainValid \<Longrightarrow> (''cert_'' @ chain_text c, SeverityFail) \<in> set tls_codes"
  unfolding tls_codes_def by (cases c) simp_all

lemma chain_tallies:
  assumes "\<And>e. e \<in> set m \<Longrightarrow> (ch_code (snd e), SeverityFail) \<in> set tls_codes"
    and "e \<in> set (fold chain_step as m)"
  shows "(ch_code (snd e), SeverityFail) \<in> set tls_codes"
  using assms
proof (induction as arbitrary: m)
  case (Cons a as)
  have "(ch_code (snd e'), SeverityFail) \<in> set tls_codes" if e': "e' \<in> set (chain_step a m)" for e'
  proof (cases "aw_TLS a")
    case None
    then show ?thesis using e' Cons.prems(1) by (simp add: chain_step_def)
  next
    case (Some t)
    show ?thesis
    proof (cases "tl_Chain t = ChainValid")
      case True
      then show ?thesis using Some e' Cons.prems(1) by (simp add: chain_step_def)
    next
      case False
      define z where "z = \<lparr>ch_code = ''cert_'' @ chain_text (tl_Chain t), ch_chain = chainLabel t,
        ch_detail = tl_Error t, ch_count = 0\<rparr>"
      have "(ch_code (map_get z m (chain_key t)), SeverityFail) \<in> set tls_codes"
        using Cons.prems(1) chain_code [OF False]
        by (cases "map_of m (chain_key t)") (auto simp: map_get_def z_def dest: map_of_SomeD)
      moreover have "e' = (chain_key t, (map_get z m (chain_key t))\<lparr>ch_count := ch_count (map_get z m (chain_key t)) + 1\<rparr>) \<or>
          e' \<in> set m"
      proof -
        have "chain_step a m = map_put (chain_key t)
            ((map_get z m (chain_key t))\<lparr>ch_count := ch_count (map_get z m (chain_key t)) + 1\<rparr>) m"
          using Some False by (simp add: chain_step_def Let_def z_def)
        then show ?thesis using e' set_map_put by fastforce
      qed
      ultimately show ?thesis using Cons.prems(1) by fastforce
    qed
  qed
  then show ?case using Cons.IH [of "chain_step a m"] Cons.prems(2) by simp
qed simp

lemma emits_each_in: "(\<And>x. x \<in> set xs \<Longrightarrow> emits C (p x)) \<Longrightarrow> emits C (each p xs)"
proof (induction xs)
  case (Cons x xs)
  then have "emits C (seq [p x, each p xs])" by (simp add: emits_rules)
  moreover have "each p (x # xs) = seq [p x, each p xs]" by (rule ext) simp
  ultimately show ?case by (simp only:)
next
  case Nil
  have "each p [] = id" by (rule ext) simp
  then show ?case by (simp only: emits_id)
qed

lemma chain_emits [emits_rules]: "emits tls_codes (chainFindings label as)"
  unfolding chainFindings_def case_prod_unfold
proof (rule emits_each_in, rule emits_fail)
  fix e assume "e \<in> set (fold chain_step as [])"
  then show "(ch_code (snd e), SeverityFail) \<in> set tls_codes" by (rule chain_tallies [rotated]) simp
qed

lemma expiry_emits [emits_rules]: "emits tls_codes (expiryFindings label as)"
  unfolding expiryFindings_def Let_def by (intro emits_rules) (simp_all add: tls_codes_def)

lemma coverage_emits [emits_rules]: "emits tls_codes (coverageFindings label as sibling)"
  unfolding coverageFindings_def by (intro emits_rules) (simp_all add: tls_codes_def)

lemma version_emits [emits_rules]: "emits tls_codes (versionFindings label as)"
  unfolding versionFindings_def Let_def by (intro emits_rules) (simp_all add: tls_codes_def)

interpretation tls: findings_pass "\<lambda>(label, h, sibling). tlsFindings label h sibling" tls_codes
  by unfold_locales (unfold tlsFindings_def Let_def, intro emits_rules, simp_all add: tls_codes_def)

section \<open>Lemmas\<close>

lemma profile_not_Nil: "cert_profile a = Some p \<Longrightarrow> p \<noteq> []"
  by (auto simp: cert_profile_def split: option.splits)

lemma profiles_loop_from:
  "first \<noteq> [] \<Longrightarrow> profiles_loop first as \<longleftrightarrow> \<not> set (List.map_filter cert_profile as) \<subseteq> {first}"
proof (induction as arbitrary: first)
  case (Cons a as)
  show ?case
  proof (cases "cert_profile a")
    case None
    then show ?thesis using Cons by (simp add: map_filter_simps)
  next
    case (Some p)
    then show ?thesis using Cons profile_not_Nil [OF Some] by (auto simp: map_filter_simps)
  qed
qed (simp add: map_filter_simps)

lemma card_gt_1:
  assumes "finite A" and "x \<in> A"
  shows "1 < card A \<longleftrightarrow> \<not> A \<subseteq> {x}"
proof
  assume "1 < card A"
  then show "\<not> A \<subseteq> {x}" using card_mono [of "{x}" A] by auto
next
  assume "\<not> A \<subseteq> {x}"
  then obtain y where "y \<in> A" "y \<noteq> x" by blast
  then show "1 < card A" using card_mono [of A "{x, y}"] assms by simp
qed

text \<open>Days left on the certificates that are not expired.\<close>

definition days_left :: "AddrWeb list \<Rightarrow> int list" where
  "days_left as =
     List.map_filter (\<lambda>a. case aw_TLS a of
         Some t \<Rightarrow> (case tl_Cert t of
                     Some c \<Rightarrow> if tl_Chain t = ChainExpired then None else Some (ci_DaysRemaining c)
                   | None \<Rightarrow> None)
       | None \<Rightarrow> None) as"

definition sooner :: "int \<Rightarrow> int \<Rightarrow> int" where
  "sooner d soonest = (if soonest < 0 \<or> d < soonest then d else soonest)"

lemma soonest_fold: "fold soonest_step as d = fold sooner (days_left as) d"
  by (induction as arbitrary: d)
    (auto simp: soonest_step_def sooner_def days_left_def map_filter_simps split: option.split)

lemma fold_sooner:
  "0 \<le> d \<Longrightarrow> list_all (\<lambda>x. 0 \<le> x) ds \<Longrightarrow>
     0 \<le> fold sooner ds d \<and> (fold sooner ds d < n \<longleftrightarrow> d < n \<or> list_ex (\<lambda>x. x < n) ds)"
proof (induction ds arbitrary: d)
  case (Cons x ds)
  then have "sooner x d = min x d" "0 \<le> min x d" "list_all (\<lambda>x. 0 \<le> x) ds" by (simp_all add: sooner_def min_def)
  then show ?case using Cons.IH [of "min x d"] by (simp add: min_less_iff_disj disj_ac)
qed simp

section \<open>Properties\<close>

text \<open>
  The certificates of a host differ in what a client sees exactly when two addresses have
  different profiles: another chain verdict, or other names covered. Comparing each address with
  the one before it is enough.
\<close>
theorem certProfilesDiffer_iff:
  "certProfilesDiffer as \<longleftrightarrow> 1 < card (set (List.map_filter cert_profile as))"
proof (induction as)
  case Nil
  then show ?case by (simp add: certProfilesDiffer_def map_filter_simps)
next
  case (Cons a as)
  show ?case
  proof (cases "cert_profile a")
    case None
    then show ?thesis using Cons by (simp add: certProfilesDiffer_def map_filter_simps)
  next
    case (Some p)
    then have "certProfilesDiffer (a # as) \<longleftrightarrow> \<not> set (List.map_filter cert_profile as) \<subseteq> {p}"
      by (simp add: certProfilesDiffer_def profiles_loop_from profile_not_Nil)
    moreover have "1 < card (insert p (set (List.map_filter cert_profile as))) \<longleftrightarrow>
        \<not> insert p (set (List.map_filter cert_profile as)) \<subseteq> {p}"
      by (rule card_gt_1) simp_all
    ultimately show ?thesis using Some by (simp add: map_filter_simps)
  qed
qed

text \<open>
  Expiry is judged by the worst certificate: as long as a certificate that is not expired has
  a number of days left that is not negative, the urgent warning is given exactly when some
  address serves one with fewer than seven days left, whatever the order of the addresses.
\<close>
theorem expiry_urgent_iff:
  assumes "list_all (\<lambda>d. 0 \<le> d) (days_left as)"
  shows "reported ''cert_expiry_urgent'' (expiryFindings label as no_findings) \<longleftrightarrow>
    list_ex (\<lambda>d. d < 7) (days_left as)"
proof (cases "days_left as")
  case Nil
  then show ?thesis by (simp add: expiryFindings_def soonest_fold)
next
  case (Cons d ds)
  then have "fold soonest_step as (-1) = fold sooner ds d" by (simp add: soonest_fold sooner_def)
  moreover have "0 \<le> d" "list_all (\<lambda>d. 0 \<le> d) ds" using assms Cons by simp_all
  ultimately show ?thesis
    using fold_sooner [of d ds 7] Cons by (auto simp: expiryFindings_def expiryWarnDays_def Let_def)
qed

theorem expiry_urgent_iff_witness:
  "reported ''cert_expiry_urgent'' (expiryFindings ''apex'' [ex_addr, ex_addr] no_findings) \<longleftrightarrow>
     list_ex (\<lambda>d. d < 7) (days_left [ex_addr, ex_addr])"
  by (rule expiry_urgent_iff) code_simp

end
