(* ===== verification/Http_Report.thy ===== *)
theory Http_Report
  imports Web_Report
begin

text \<open>
  The passes over the HTTP answers of the report: \<open>src/report.go\<close>, from \<open>httpFindings\<close> to
  \<open>hstsFindings\<close>, and the comparison of the answers of one run.
\<close>

section \<open>Status codes\<close>

record statusTally =
  st_total :: nat
  st_server5xx :: nat
  st_client4xx :: nat
  st_refusals :: "int list"

definition status_step :: "HTTPResult option \<Rightarrow> statusTally \<Rightarrow> statusTally" where
  "status_step r t =
     (case r of
        None \<Rightarrow> t
      | Some r \<Rightarrow>
          if ht_Status r = 0 then t
          else let t1 = t\<lparr>st_total := st_total t + 1\<rparr>
               in if ht_Status r \<ge> 500 then t1\<lparr>st_server5xx := st_server5xx t1 + 1\<rparr>
                  else if probeRefused (ht_Status r) then t1\<lparr>st_refusals := st_refusals t1 @ [ht_Status r]\<rparr>
                  else if ht_Status r \<ge> 400 then t1\<lparr>st_client4xx := st_client4xx t1 + 1\<rparr>
                  else t1)"

definition tallyStatuses :: "AddrWeb list \<Rightarrow> (AddrWeb \<Rightarrow> HTTPResult option) \<Rightarrow> statusTally" where
  "tallyStatuses as pick =
     fold (\<lambda>a. status_step (pick a)) as \<lparr>st_total = 0, st_server5xx = 0, st_client4xx = 0, st_refusals = []\<rparr>"

fun drop_repeats :: "int list \<Rightarrow> int list" where
  "drop_repeats (x # y # xs) = (if x = y then drop_repeats (y # xs) else x # drop_repeats (y # xs))"
| "drop_repeats xs = xs"

definition distinctStatuses :: "int list \<Rightarrow> string" where
  "distinctStatuses statuses = Join ''/'' (map Itoa (drop_repeats (sort statuses)))"

definition statusFindings ::
    "string \<Rightarrow> string \<Rightarrow> AddrWeb list \<Rightarrow> (AddrWeb \<Rightarrow> HTTPResult option) \<Rightarrow> pass" where
  "statusFindings label port as pick =
     (let t = tallyStatuses as pick
      in if st_total t = 0 then id
         else if st_server5xx t = st_total t then
           fail ''http_server_error'' label (label @ '': every address returns a server error on port '' @ port)
         else if st_server5xx t > 0 then
           warn ''http_server_error_partial'' label (label @ '': '' @ nat_text (st_server5xx t) @ '' of '' @
             nat_text (st_total t) @ '' addresses return a server error on port '' @ port)
         else if length (st_refusals t) = st_total t then
           info ''http_probe_refused'' label (label @ '': every address refuses the probe on port '' @ port @
             '' (HTTP '' @ distinctStatuses (st_refusals t) @ ''), so the content was not verified'')
         else if st_client4xx t + length (st_refusals t) = st_total t then
           warn ''http_client_error'' label (label @ '': every address returns a client error on port '' @ port)
         else id)"

section \<open>Plain HTTP\<close>

record upgradeTally =
  up_total :: nat
  up_served :: nat
  up_elsewhere :: nat
  up_temporary :: nat
  up_statuses :: "int list"

definition upgrade_step :: "AddrWeb \<Rightarrow> upgradeTally \<Rightarrow> upgradeTally" where
  "upgrade_step a t =
     (case aw_HTTPRes a of
        None \<Rightarrow> t
      | Some r \<Rightarrow>
          if ht_Status r = 0 then t
          else let t1 = t\<lparr>up_total := up_total t + 1\<rparr>;
                   toHTTPS = HasPrefix (ToLower (ht_Location r)) ''https://''
               in if ht_Status r < 300 then t1\<lparr>up_served := up_served t1 + 1\<rparr>
                  else if isRedirect (ht_Status r) \<and> \<not> toHTTPS then t1\<lparr>up_elsewhere := up_elsewhere t1 + 1\<rparr>
                  else if ht_Status r = 302 \<or> ht_Status r = 303 \<or> ht_Status r = 307 then
                    t1\<lparr>up_temporary := up_temporary t1 + 1, up_statuses := up_statuses t1 @ [ht_Status r]\<rparr>
                  else t1)"

definition tallyUpgrades :: "AddrWeb list \<Rightarrow> upgradeTally" where
  "tallyUpgrades as =
     fold upgrade_step as \<lparr>up_total = 0, up_served = 0, up_elsewhere = 0, up_temporary = 0, up_statuses = []\<rparr>"

definition preloadCovers :: "Report \<Rightarrow> bool \<times> bool" where
  "preloadCovers rep =
     (if rep_HSTSPreload rep \<noteq> PreloadPreloaded then (False, False)
      else (True, rep_HSTSPreloadCoveredBy rep \<noteq> [] \<or> isTrue (rep_HSTSPreloadIncludeSubdomains rep)))"

definition cleartextFindings :: "string \<Rightarrow> AddrWeb list \<Rightarrow> bool \<Rightarrow> pass" where
  "cleartextFindings label as preloaded =
     (let t = tallyUpgrades as;
          (sev, sfx) = (if preloaded then (SeverityInfo, ''_preloaded'') else (SeverityWarn, []))
      in seq [
        given (up_served t > 0)
          (add sev (''http_cleartext'' @ sfx) label (label @
            '': HTTP serves content in the clear instead of redirecting to HTTPS ('' @ nat_text (up_served t) @
            '' of '' @ nat_text (up_total t) @ '' addresses)'')),
        given (up_elsewhere t > 0)
          (add sev (''http_redirect_insecure'' @ sfx) label (label @
            '': HTTP redirects to a non-HTTPS URL ('' @ nat_text (up_elsewhere t) @ '' of '' @
            nat_text (up_total t) @ '' addresses)'')),
        given (up_temporary t > 0)
          (info ''http_redirect_temporary'' label (label @ '': the HTTP to HTTPS redirect is temporary (HTTP '' @
            distinctStatuses (up_statuses t) @ '') on '' @ nat_text (up_temporary t) @ '' of '' @
            nat_text (up_total t) @
            '' addresses; a permanent 301 or 308 is what browsers and caches remember''))])"

section \<open>Redirect chains\<close>

definition describeHops :: "RedirectHop list \<Rightarrow> string" where
  "describeHops hops = Join '' -> '' (map (\<lambda>h. hop_URL h @ '' ('' @ Itoa (hop_Status h) @ '')'') hops)"

definition loopTarget :: "RedirectHop list \<Rightarrow> string" where
  "loopTarget hops =
     (if hops = [] \<or> hop_Location (last hops) = [] then [] else '' -> '' @ hop_Location (last hops))"

text \<open>\<open>from.Parse\<close> of the source: the Location parsed and resolved against the URL of the hop.\<close>

definition downgrade_of :: "RedirectHop \<Rightarrow> string option" where
  "downgrade_of h =
     (case url_Parse (hop_URL h) of
        None \<Rightarrow> None
      | Some from \<Rightarrow>
          if url_Scheme from \<noteq> ''https'' \<or> \<not> isRedirect (hop_Status h) \<or> hop_Location h = [] then None
          else case parse_ref from (hop_Location h) of
                 None \<Rightarrow> None
               | Some to \<Rightarrow>
                   if url_Scheme to = ''http'' then Some (hop_URL h @ '' -> '' @ URL_String to) else None)"

fun downgradeHop :: "RedirectHop list \<Rightarrow> string" where
  "downgradeHop [] = []"
| "downgradeHop (h # hs) = (case downgrade_of h of Some d \<Rightarrow> d | None \<Rightarrow> downgradeHop hs)"

text \<open>Families by the hop or loop they share, in order of first sight.\<close>

definition downgrades :: "(string, RedirectChain) go_map \<Rightarrow> (string, string list) go_map" where
  "downgrades rcs =
     fold (\<lambda>fam m. let hop = downgradeHop (rc_Hops (map_get new_chain rcs fam))
                   in if hop = [] then m else group_add hop fam m)
       (sorted_keys rcs) []"

definition downgradeFindings :: "string \<Rightarrow> (string, RedirectChain) go_map \<Rightarrow> pass" where
  "downgradeFindings label rcs =
     each (\<lambda>(hop, fams). warn ''redirect_downgrade'' label
         (label @ '' ('' @ Join '', '' fams @ ''): redirect from https to http: '' @ hop))
       (downgrades rcs)"

text \<open>\<open>chainFinding\<close>: the pass, and the description of the loop when the chain looped.\<close>

definition chainFinding :: "string \<Rightarrow> string \<Rightarrow> RedirectChain \<Rightarrow> pass \<times> string option" where
  "chainFinding label fam c =
     (let hops = rc_Hops c; st = hop_Status (last hops); head = label @ '' ('' @ fam @ ''): ''
      in if hops = [] then (id, None)
         else if rc_Loop c \<or> rc_Ended c = RedirectLoop then (id, Some (describeHops hops @ loopTarget hops))
         else if rc_Ended c = RedirectHopLimit then
           (warn ''redirect_hop_limit'' label (head @ ''still redirecting after '' @ nat_text (length hops) @
              '' hops, so the destination is unknown: '' @ describeHops hops), None)
         else if rc_Error c \<noteq> [] then
           (warn ''redirect_broken'' label (head @ ''redirect chain broke: '' @ rc_Error c), None)
         else if probeRefused st then
           (info ''http_probe_refused'' label (head @ ''redirect chain ends in HTTP '' @ Itoa st @ '' at '' @
              rc_FinalURL c @ '': the server refused the probe, so the destination was not verified''), None)
         else if st \<ge> 400 then
           (warn ''redirect_ends_error'' label (head @ ''redirect chain ends in HTTP '' @ Itoa st @ '' at '' @
              rc_FinalURL c), None)
         else (id, None))"

definition loops :: "string \<Rightarrow> (string, RedirectChain) go_map \<Rightarrow> (string, string list) go_map" where
  "loops label rcs =
     fold (\<lambda>fam m. case snd (chainFinding label fam (map_get new_chain rcs fam)) of
                     None \<Rightarrow> m | Some d \<Rightarrow> group_add d fam m)
       (sorted_keys rcs) []"

definition redirectFindings :: "string \<Rightarrow> (string, RedirectChain) go_map \<Rightarrow> pass" where
  "redirectFindings label rcs =
     seq [
       each (\<lambda>fam. fst (chainFinding label fam (map_get new_chain rcs fam))) (sorted_keys rcs),
       downgradeFindings label rcs,
       each (\<lambda>(d, fams). fail ''redirect_loop'' label
           (label @ '' ('' @ Join '', '' fams @ ''): redirect loop '' @ d))
         (loops label rcs)]"

section \<open>HSTS and the host as a whole\<close>

definition shortest_step :: "AddrWeb \<Rightarrow> int \<Rightarrow> int" where
  "shortest_step a shortest =
     (case aw_HTTPSRes a of
        None \<Rightarrow> shortest
      | Some r \<Rightarrow>
          (case ht_HSTS r of
             None \<Rightarrow> shortest
           | Some h \<Rightarrow> if shortest < 0 \<or> hs_MaxAge h < shortest then hs_MaxAge h else shortest))"

definition hstsFindings :: "string \<Rightarrow> AddrWeb list \<Rightarrow> pass" where
  "hstsFindings label as =
     (let shortest = fold shortest_step as (-1)
      in given (shortest \<ge> 0 \<and> shortest < hstsMinAge)
        (info ''hsts_short_max_age'' label (label @ '': HSTS max-age '' @ Itoa shortest @ '' is under 180 days'')))"

definition httpFindings :: "string \<Rightarrow> HostWeb option \<Rightarrow> bool \<Rightarrow> pass" where
  "httpFindings label h preloaded =
     (case h of
        None \<Rightarrow> id
      | Some w \<Rightarrow> seq [
          statusFindings label ''80'' (addrs h) aw_HTTPRes,
          statusFindings label ''443'' (addrs h) aw_HTTPSRes,
          cleartextFindings label (addrs h) preloaded,
          redirectFindings label (hw_Redirects w),
          hstsFindings label (addrs h)])"

definition consistencyFindings :: "dp_lib \<Rightarrow> Report \<Rightarrow> pass" where
  "consistencyFindings lib rep =
     each (\<lambda>g. let tally = answerTally (uo_obs g); (self, probes) = selfRedirects (uo_obs g)
               in seq [
                 given (length tally > 1)
                   (warn ''http_response_inconsistent'' (uo_host g) (uo_host g @ '': '' @ uo_url g @
                     '' answered differently within one run: '' @ Join ''; '' tally)),
                 given (length self > 0)
                   (fail ''redirect_self'' (uo_host g) (uo_host g @ '': '' @ uo_url g @
                     '' redirects to itself on '' @ describeSources self probes))])
       (collectWebObservations lib (rep_Domain rep) (rep_Web rep))"

section \<open>Codes\<close>

definition http_codes :: "(string \<times> Severity) list" where
  "http_codes = [(''http_server_error'', SeverityFail), (''http_server_error_partial'', SeverityWarn),
     (''http_probe_refused'', SeverityInfo), (''http_client_error'', SeverityWarn),
     (''http_cleartext'', SeverityWarn), (''http_cleartext_preloaded'', SeverityInfo),
     (''http_redirect_insecure'', SeverityWarn), (''http_redirect_insecure_preloaded'', SeverityInfo),
     (''http_redirect_temporary'', SeverityInfo), (''redirect_downgrade'', SeverityWarn),
     (''redirect_hop_limit'', SeverityWarn), (''redirect_broken'', SeverityWarn),
     (''redirect_ends_error'', SeverityWarn), (''redirect_loop'', SeverityFail), (''hsts_short_max_age'', SeverityInfo)]"

definition consistency_codes :: "(string \<times> Severity) list" where
  "consistency_codes = [(''http_response_inconsistent'', SeverityWarn), (''redirect_self'', SeverityFail)]"

lemma status_emits [emits_rules]: "emits http_codes (statusFindings label port as pick)"
  unfolding statusFindings_def Let_def by (intro emits_rules) (simp_all add: http_codes_def)

lemma cleartext_emits [emits_rules]: "emits http_codes (cleartextFindings label as preloaded)"
  unfolding cleartextFindings_def Let_def
  by (cases preloaded) (simp_all, (intro emits_rules; simp add: http_codes_def)+)

lemma downgrade_emits [emits_rules]: "emits http_codes (downgradeFindings label rcs)"
  unfolding downgradeFindings_def by (intro emits_rules) (simp add: http_codes_def)

lemma chainFinding_emits [emits_rules]: "emits http_codes (fst (chainFinding label fam c))"
  unfolding chainFinding_def Let_def if_distrib [of fst] fst_conv
  by (intro emits_rules) (simp_all add: http_codes_def)

lemma redirect_emits [emits_rules]: "emits http_codes (redirectFindings label rcs)"
  unfolding redirectFindings_def by (intro emits_rules) (simp add: http_codes_def)

lemma hsts_emits [emits_rules]: "emits http_codes (hstsFindings label as)"
  unfolding hstsFindings_def Let_def by (intro emits_rules) (simp add: http_codes_def)

interpretation http: findings_pass "\<lambda>(label, h, preloaded). httpFindings label h preloaded" http_codes
  by unfold_locales (unfold httpFindings_def, intro emits_rules)

interpretation consistency: findings_pass "consistencyFindings lib" consistency_codes for lib
  by unfold_locales
    (unfold consistencyFindings_def Let_def, intro emits_rules, simp_all add: consistency_codes_def)

section \<open>Lemmas\<close>

text \<open>The answered statuses on one port, and the three kinds the tally keeps apart.\<close>

definition answered_statuses :: "AddrWeb list \<Rightarrow> (AddrWeb \<Rightarrow> HTTPResult option) \<Rightarrow> int list" where
  "answered_statuses as pick = filter (\<lambda>s. s \<noteq> 0) (map ht_Status (List.map_filter pick as))"

definition server_error :: "int \<Rightarrow> bool" where
  "server_error s \<longleftrightarrow> s \<ge> 500"

definition client_error :: "int \<Rightarrow> bool" where
  "client_error s \<longleftrightarrow> 400 \<le> s \<and> s < 500 \<and> \<not> probeRefused s"

lemma probeRefused_range: "probeRefused s \<Longrightarrow> 400 \<le> s \<and> s < 500"
  by (auto simp: probeRefused_def)

lemma status_fold:
  "st_total (fold (\<lambda>a. status_step (pick a)) as t) = st_total t + length (answered_statuses as pick) \<and>
   st_server5xx (fold (\<lambda>a. status_step (pick a)) as t) =
     st_server5xx t + length (filter server_error (answered_statuses as pick)) \<and>
   st_client4xx (fold (\<lambda>a. status_step (pick a)) as t) =
     st_client4xx t + length (filter client_error (answered_statuses as pick)) \<and>
   st_refusals (fold (\<lambda>a. status_step (pick a)) as t) =
     st_refusals t @ filter probeRefused (answered_statuses as pick)"
proof (induction as arbitrary: t)
  case (Cons a as)
  show ?case
  proof (cases "pick a")
    case None
    then show ?thesis using Cons by (simp add: status_step_def answered_statuses_def map_filter_simps)
  next
    case (Some r)
    then show ?thesis
      using Cons probeRefused_range [of "ht_Status r"]
      by (auto simp: status_step_def answered_statuses_def map_filter_simps server_error_def client_error_def Let_def)
  qed
qed (simp add: answered_statuses_def map_filter_simps)

lemma filter_length_all: "length (filter P xs) = length xs \<longleftrightarrow> list_all P xs"
  by (metis filter_True length_filter_less less_irrefl list_all_iff)

lemma refused_or_error:
  "\<not> list_ex server_error xs \<Longrightarrow>
     length (filter client_error xs) + length (filter probeRefused xs) = length xs \<longleftrightarrow> list_all (\<lambda>s. 400 \<le> s) xs"
proof (induction xs)
  case (Cons x xs)
  have "length (filter client_error xs) + length (filter probeRefused xs) \<le> length xs" for xs
    by (induction xs) (auto simp: client_error_def)
  then have "length (filter client_error xs) + length (filter probeRefused xs) < Suc (length xs)"
    by (simp add: le_imp_less_Suc)
  moreover have "client_error x \<longleftrightarrow> 400 \<le> x \<and> \<not> probeRefused x"
    using Cons.prems by (auto simp: client_error_def server_error_def)
  ultimately show ?case using Cons probeRefused_range [of x] by auto
qed simp

section \<open>Properties\<close>

text \<open>
  The status of a port is judged by every address that answered: a server error of all of them
  fails the host, of some of them warns, and otherwise a refusal of the probe by all is a fact and
  a client error of all a warning. The four are exclusive, and one of them is found exactly in
  these cases.
\<close>
theorem statusFindings_cases:
  "statusFindings label port as pick =
     (let ss = answered_statuses as pick
      in if ss = [] then id
         else if list_all server_error ss then
           fail ''http_server_error'' label (label @ '': every address returns a server error on port '' @ port)
         else if list_ex server_error ss then
           warn ''http_server_error_partial'' label (label @ '': '' @ nat_text (length (filter server_error ss)) @
             '' of '' @ nat_text (length ss) @ '' addresses return a server error on port '' @ port)
         else if list_all probeRefused ss then
           info ''http_probe_refused'' label (label @ '': every address refuses the probe on port '' @ port @
             '' (HTTP '' @ distinctStatuses ss @ ''), so the content was not verified'')
         else if list_all (\<lambda>s. 400 \<le> s) ss then
           warn ''http_client_error'' label (label @ '': every address returns a client error on port '' @ port)
         else id)"
proof -
  define ss where "ss = answered_statuses as pick"
  have t: "st_total (tallyStatuses as pick) = length ss"
    "st_server5xx (tallyStatuses as pick) = length (filter server_error ss)"
    "st_client4xx (tallyStatuses as pick) = length (filter client_error ss)"
    "st_refusals (tallyStatuses as pick) = filter probeRefused ss"
    using status_fold [of pick as] by (simp_all add: tallyStatuses_def ss_def)
  have some: "0 < length (filter server_error ss) \<longleftrightarrow> list_ex server_error ss"
    by (auto simp: filter_empty_conv list_ex_iff)
  have "filter probeRefused ss = ss" if "list_all probeRefused ss" using that by (simp add: list_all_iff)
  then show ?thesis
    unfolding ss_def [symmetric] Let_def statusFindings_def t some filter_length_all length_0_conv
    using refused_or_error [of ss] by simp
qed

end
