(* ===== verification/Mail_Report.thy ===== *)
theory Mail_Report
  imports Report
begin

text \<open>
  The passes over the mail section: \<open>src/report.go\<close>, from \<open>mailFindings\<close> to
  \<open>mtaSTSFindings\<close>, with the tables that give a problem its code and severity.
\<close>

section \<open>Classes of problems\<close>

record spfClass =
  sc_prefix :: string
  sc_substr :: string
  sc_code :: string
  sc_sev :: Severity

definition spfClasses :: "spfClass list" where
  "spfClasses =
    [\<lparr>sc_prefix = ''multiple SPF records'', sc_substr = [], sc_code = ''spf_multiple'', sc_sev = SeverityFail\<rparr>,
     \<lparr>sc_prefix = [], sc_substr = ''DNS lookups exceed the limit'', sc_code = ''spf_lookup_limit'', sc_sev = SeverityFail\<rparr>,
     \<lparr>sc_prefix = [], sc_substr = ''void lookups exceed the limit'', sc_code = ''spf_void_limit'', sc_sev = SeverityWarn\<rparr>,
     \<lparr>sc_prefix = ''record has no all mechanism'', sc_substr = [], sc_code = ''spf_no_all'', sc_sev = SeverityWarn\<rparr>,
     \<lparr>sc_prefix = ''ptr mechanism is deprecated'', sc_substr = [], sc_code = ''spf_ptr_deprecated'', sc_sev = SeverityWarn\<rparr>,
     \<lparr>sc_prefix = ''unknown mechanism'', sc_substr = [], sc_code = ''spf_unknown_mechanism'', sc_sev = SeverityFail\<rparr>,
     \<lparr>sc_prefix = ''+all'', sc_substr = [], sc_code = ''spf_pass_all'', sc_sev = SeverityFail\<rparr>,
     \<lparr>sc_prefix = ''?all'', sc_substr = [], sc_code = ''spf_neutral_all'', sc_sev = SeverityWarn\<rparr>,
     \<lparr>sc_prefix = ''apex TXT answer is'', sc_substr = '', over the '', sc_code = ''spf_txt_over_udp_limit'', sc_sev = SeverityInfo\<rparr>,
     \<lparr>sc_prefix = ''apex TXT answer is'', sc_substr = [], sc_code = ''spf_txt_near_udp_limit'', sc_sev = SeverityInfo\<rparr>,
     \<lparr>sc_prefix = ''include:'', sc_substr = '' TXT answer is '', sc_code = ''spf_include_txt_over_udp_limit'', sc_sev = SeverityInfo\<rparr>,
     \<lparr>sc_prefix = ''include:'', sc_substr = '' is not a valid domain name'', sc_code = ''spf_include_invalid'', sc_sev = SeverityWarn\<rparr>,
     \<lparr>sc_prefix = ''include:'', sc_substr = '' has no SPF record'', sc_code = ''spf_include_missing'', sc_sev = SeverityWarn\<rparr>,
     \<lparr>sc_prefix = ''include:'', sc_substr = '' could not be checked'', sc_code = ''spf_include_unchecked'', sc_sev = SeverityWarn\<rparr>,
     \<lparr>sc_prefix = ''include loop '', sc_substr = [], sc_code = ''spf_include_loop'', sc_sev = SeverityFail\<rparr>,
     \<lparr>sc_prefix = [], sc_substr = '' is already covered by '', sc_code = ''spf_redundant_ip'', sc_sev = SeverityInfo\<rparr>]"

definition class_matches :: "string \<Rightarrow> spfClass \<Rightarrow> bool" where
  "class_matches p c \<longleftrightarrow> HasPrefix p (sc_prefix c) \<and> Contains p (sc_substr c)"

definition spfProblemClass :: "string \<Rightarrow> string \<times> Severity" where
  "spfProblemClass p =
     (case find (class_matches p) spfClasses of
        Some c \<Rightarrow> (sc_code c, sc_sev c)
      | None \<Rightarrow>
          if Contains p ''permerror'' then (''spf_invalid'', SeverityFail) else (''spf_problem'', SeverityWarn))"

definition mxProblemCode :: "string \<Rightarrow> string" where
  "mxProblemCode p =
     (if HasPrefix p ''null MX mixed'' then ''mx_null_mixed''
      else if HasPrefix p ''MX target is not a valid hostname'' then ''mx_target_invalid''
      else if HasPrefix p ''MX target is an IP literal'' then ''mx_target_ip_literal''
      else if HasPrefix p ''MX target is a CNAME'' then ''mx_target_cname''
      else if p = ''MX target does not exist'' then ''mx_target_nxdomain''
      else if p = ''MX target has no address'' then ''mx_target_no_address''
      else ''mx_invalid'')"

definition dmarcProblemClass :: "string \<Rightarrow> string \<times> Severity" where
  "dmarcProblemClass p =
     (if HasPrefix p ''multiple DMARC records'' then (''dmarc_multiple'', SeverityFail)
      else if p = ''missing p= tag'' then (''dmarc_policy_missing'', SeverityFail)
      else if HasPrefix p ''unknown policy'' then (''dmarc_policy_unknown'', SeverityFail)
      else if HasPrefix p ''unknown subdomain policy'' then (''dmarc_subdomain_policy_unknown'', SeverityWarn)
      else if HasPrefix p ''invalid pct='' then (''dmarc_pct_invalid'', SeverityWarn)
      else (''dmarc_invalid'', SeverityFail))"

section \<open>Passes\<close>

definition dmarcFindings :: "DMARC \<Rightarrow> pass" where
  "dmarcFindings d =
     (if \<not> dm_Unresolved d \<and> \<not> dm_Present d then warn ''dmarc_absent'' [] ''no DMARC record''
      else seq [
        (if dm_Unresolved d then
           warn ''dmarc_unknown'' [] ''the DMARC lookup did not complete, so whether a record exists is unknown''
         else if dm_Policy d = ''none'' then
           info ''dmarc_policy_none'' [] ''DMARC policy is p=none (monitor only)''
         else id),
        given (dm_Pct d < 100)
          (info ''dmarc_partial_pct'' [] (''DMARC applies to only '' @ Itoa (dm_Pct d) @ ''% of mail (pct='' @
             Itoa (dm_Pct d) @ '')'')),
        each (\<lambda>p. case dmarcProblemClass p of (code, sev) \<Rightarrow> add sev code [] (''DMARC: '' @ p)) (dm_Problems d)])"

definition spfFindings :: "SPFResult \<Rightarrow> pass" where
  "spfFindings s =
     each (\<lambda>p. case spfProblemClass p of (code, sev) \<Rightarrow> add sev code [] (''SPF: '' @ p)) (spf_Problems s)"

definition mxFindings :: "MXCheck list \<Rightarrow> pass" where
  "mxFindings mxs =
     each (\<lambda>mx. each (\<lambda>p.
         if mxc_Unresolved mx \<and> p = mxUnresolvedProblem then
           warn ''mx_target_unresolved'' (mxc_Host mx) (''MX '' @ mxc_Host mx @ '': '' @ p)
         else fail (mxProblemCode p) (mxc_Host mx) (''MX '' @ mxc_Host mx @ '': '' @ p))
       (mxc_Problems mx)) mxs"

definition dkimKeyFindings :: "DKIMResult \<Rightarrow> pass" where
  "dkimKeyFindings d =
     seq [
       each (\<lambda>k.
         if dk_Error k \<noteq> [] then
           warn ''dkim_key_invalid'' [] (''DKIM selector '' @ dk_Selector k @ '': '' @ dk_Error k)
         else if dk_Type k = ''rsa'' \<and> dk_Bits k < 1024 then
           fail ''dkim_key_too_short'' [] (''DKIM selector '' @ dk_Selector k @ '': RSA key of '' @
             nat_text (dk_Bits k) @ '' bits, which verifiers reject (RFC 8301 '' @ section_sign @ ''3.2)'')
         else if dk_Type k = ''rsa'' \<and> dk_Bits k < 2048 then
           info ''dkim_key_weak'' [] (''DKIM selector '' @ dk_Selector k @ '': RSA key of '' @
             nat_text (dk_Bits k) @ '' bits, under the 2048 RFC 8301 recommends'')
         else id) (dkim_Keys d),
       each (\<lambda>sel. info ''dkim_selector_dangling'' []
           (''DKIM selector '' @ sel @ '' is a CNAME to a name that does not exist'')) (dkim_Dangling d)]"

definition mtaSTSFindings :: "MTASTS option \<Rightarrow> pass" where
  "mtaSTSFindings m =
     (case m of
        None \<Rightarrow> id
      | Some m \<Rightarrow>
          if \<not> sts_Record m then id
          else let (sev, pfx) = (if sts_Mode m = ''enforce'' then (SeverityFail, ''mta_sts_enforce_'')
                                 else (SeverityWarn, ''mta_sts_''))
               in if sts_Error m \<noteq> [] then add sev (pfx @ ''failed'') [] (''MTA-STS: '' @ sts_Error m)
                  else if \<not> sts_MXCovered m \<and> sts_Mode m \<noteq> ''none'' then
                    add sev (pfx @ ''mx_uncovered'') [] ''MTA-STS policy mx patterns do not cover every MX host''
                  else id)"

definition mailAbsenceFindings :: "MailReport \<Rightarrow> pass" where
  "mailAbsenceFindings m =
     seq [given (mail_mtaSTSAbsent m) (info ''mta_sts_absent'' [] ''no MTA-STS record (_mta-sts)''),
          given (mail_tlsRPTAbsent m) (info ''tls_rpt_absent'' [] ''no TLS-RPT record (_smtp._tls)'')]"

definition mailFindings :: "MailReport option \<Rightarrow> bool \<Rightarrow> pass" where
  "mailFindings m zoneBroken =
     (case m of
        None \<Rightarrow> id
      | Some m \<Rightarrow> seq [
          given (\<not> (zoneBroken \<and> dm_Unresolved (mail_DMARC m))) (dmarcFindings (mail_DMARC m)),
          spfFindings (mail_SPF m),
          mxFindings (mail_MX m),
          given (dkim_Wildcard (mail_DKIM m))
            (warn ''dkim_wildcard'' []
              ''the zone answers every _domainkey selector (wildcard), so no selector could be verified''),
          dkimKeyFindings (mail_DKIM m),
          each (\<lambda>sel. warn ''dkim_selector_revoked'' []
              (''DKIM selector '' @ sel @ '' publishes a revoked (empty) key'')) (dkim_Revoked (mail_DKIM m)),
          mtaSTSFindings (mail_MTASTS m),
          mailAbsenceFindings m])"

definition zoneValidationBroken :: "Report \<Rightarrow> bool" where
  "zoneValidationBroken rep \<longleftrightarrow>
     ds_State (rep_DNSSEC rep) = DNSSECBogus \<or> ds_State (rep_DNSSEC rep) = DNSSECServfail"

section \<open>Codes\<close>

definition mail_codes :: "(string \<times> Severity) list" where
  "mail_codes =
     map (\<lambda>c. (sc_code c, sc_sev c)) spfClasses @
     [(''spf_invalid'', SeverityFail), (''spf_problem'', SeverityWarn), (''mx_null_mixed'', SeverityFail),
      (''mx_target_invalid'', SeverityFail), (''mx_target_ip_literal'', SeverityFail),
      (''mx_target_cname'', SeverityFail), (''mx_target_nxdomain'', SeverityFail),
      (''mx_target_no_address'', SeverityFail), (''mx_invalid'', SeverityFail),
      (''mx_target_unresolved'', SeverityWarn), (''dmarc_multiple'', SeverityFail),
      (''dmarc_policy_missing'', SeverityFail), (''dmarc_policy_unknown'', SeverityFail),
      (''dmarc_subdomain_policy_unknown'', SeverityWarn), (''dmarc_pct_invalid'', SeverityWarn),
      (''dmarc_invalid'', SeverityFail), (''dmarc_absent'', SeverityWarn), (''dmarc_unknown'', SeverityWarn),
      (''dmarc_policy_none'', SeverityInfo), (''dmarc_partial_pct'', SeverityInfo),
      (''dkim_key_invalid'', SeverityWarn), (''dkim_key_too_short'', SeverityFail),
      (''dkim_key_weak'', SeverityInfo), (''dkim_selector_dangling'', SeverityInfo),
      (''dkim_wildcard'', SeverityWarn), (''dkim_selector_revoked'', SeverityWarn),
      (''mta_sts_failed'', SeverityWarn), (''mta_sts_mx_uncovered'', SeverityWarn),
      (''mta_sts_enforce_failed'', SeverityFail), (''mta_sts_enforce_mx_uncovered'', SeverityFail),
      (''mta_sts_absent'', SeverityInfo), (''tls_rpt_absent'', SeverityInfo)]"

lemma class_codes: "c \<in> set spfClasses \<Longrightarrow> (sc_code c, sc_sev c) \<in> set mail_codes"
  unfolding mail_codes_def by simp

lemma other_spf_codes:
  "(''spf_invalid'', SeverityFail) \<in> set mail_codes" "(''spf_problem'', SeverityWarn) \<in> set mail_codes"
  unfolding mail_codes_def by simp_all

lemma spfProblemClass_code: "spfProblemClass p = (code, sev) \<Longrightarrow> (code, sev) \<in> set mail_codes"
proof (cases "find (class_matches p) spfClasses")
  case (Some c)
  assume "spfProblemClass p = (code, sev)"
  moreover have "c \<in> set spfClasses" using Some by (auto simp: find_Some_iff)
  ultimately show ?thesis using Some class_codes [of c] by (simp add: spfProblemClass_def)
next
  case None
  assume "spfProblemClass p = (code, sev)"
  then show ?thesis using None other_spf_codes by (cases "Contains p ''permerror''") (simp_all add: spfProblemClass_def)
qed

lemma dmarcProblemClass_code: "dmarcProblemClass p = (code, sev) \<Longrightarrow> (code, sev) \<in> set mail_codes"
  by (simp add: dmarcProblemClass_def mail_codes_def split: if_splits)

lemma mxProblemCode_code: "(mxProblemCode p, SeverityFail) \<in> set mail_codes"
  by (simp add: mxProblemCode_def mail_codes_def)

lemma dmarc_emits [emits_rules]: "emits mail_codes (dmarcFindings d)"
  unfolding dmarcFindings_def
  by (intro emits_rules) (erule dmarcProblemClass_code | simp add: mail_codes_def)+

lemma spf_emits [emits_rules]: "emits mail_codes (spfFindings s)"
  unfolding spfFindings_def by (intro emits_rules) (erule spfProblemClass_code)

lemma mx_emits [emits_rules]: "emits mail_codes (mxFindings mxs)"
  unfolding mxFindings_def 
  by (intro emits_rules) (rule mxProblemCode_code | simp add: mail_codes_def)+

lemma dkim_emits [emits_rules]: "emits mail_codes (dkimKeyFindings d)"
  unfolding dkimKeyFindings_def by (intro emits_rules) (simp_all add: mail_codes_def)

lemma mtasts_emits [emits_rules]: "emits mail_codes (mtaSTSFindings m)"
  unfolding mtaSTSFindings_def Let_def
  by (intro emits_rules) (auto simp: mail_codes_def split: if_splits)

lemma mail_absence_emits [emits_rules]: "emits mail_codes (mailAbsenceFindings m)"
  unfolding mailAbsenceFindings_def by (intro emits_rules) (simp_all add: mail_codes_def)

interpretation mail: findings_pass "\<lambda>(m, broken). mailFindings m broken" mail_codes
  by unfold_locales
    (unfold mailFindings_def, intro emits_rules, simp_all add: mail_codes_def)

section \<open>Properties\<close>

lemma spf_text_class: "spf_text p \<Longrightarrow> list_ex (class_matches p) spfClasses"
proof (induction rule: spf_text.induct)
  case (text_lookups n s)
  then show ?case using Contains_mid [of "nat_text n @ '' ''" "''DNS lookups exceed the limit''" "'' of '' @ s"]
    by (simp add: spfClasses_def class_matches_def)
next
  case (text_void n s)
  then show ?case using Contains_mid [of "nat_text n @ '' ''" "''void lookups exceed the limit''" "'' of '' @ s"]
    by (simp add: spfClasses_def class_matches_def)
next
  case (text_include_size t s)
  then show ?case using Contains_mid [of "''include:'' @ t" "'' TXT answer is ''" s]
    by (simp add: spfClasses_def class_matches_def)
next
  case (text_include_invalid t s)
  then show ?case using Contains_mid [of "''include:'' @ t" "'' is not a valid domain name''" "'' ('' @ s"]
    by (simp add: spfClasses_def class_matches_def)
next
  case (text_include_missing t)
  then show ?case using Contains_mid [of "''include:'' @ t" "'' has no SPF record''" "[]"]
    by (simp add: spfClasses_def class_matches_def)
next
  case (text_include_unchecked t)
  then show ?case
    using Contains_mid [of "''include:'' @ t" "'' could not be checked''" "'': its TXT lookup did not complete''"]
    by (simp add: spfClasses_def class_matches_def)
next
  case (text_redundant t s)
  then show ?case using Contains_mid [of t "'' is already covered by ''" s]
    by (simp add: spfClasses_def class_matches_def)
qed (simp_all add: spfClasses_def class_matches_def)

text \<open>
  C26. The table of SPF classes covers every problem the evaluator emits: whatever record a domain
  publishes and whatever the resolver answers, each problem gets the code and severity of an
  entry of \<open>spfClasses\<close>, and the fallbacks \<open>spf_invalid\<close> and \<open>spf_problem\<close> are not reached.
\<close>
theorem spf_problems_classified:
  "spfProblemClass ` set (spf_Problems (evaluateSPF lib domain answer lookup)) \<subseteq>
     (\<lambda>c. (sc_code c, sc_sev c)) ` set spfClasses"
proof
  fix x assume "x \<in> spfProblemClass ` set (spf_Problems (evaluateSPF lib domain answer lookup))"
  then obtain p where p: "x = spfProblemClass p" "p \<in> set (spf_Problems (evaluateSPF lib domain answer lookup))"
    by blast
  then have "spf_text p" using evaluateSPF_texts [of lib domain answer lookup] by (auto simp: list_all_iff)
  then have "list_ex (class_matches p) spfClasses" by (rule spf_text_class)
  then obtain c where c: "find (class_matches p) spfClasses = Some c"
    by (cases "find (class_matches p) spfClasses") (auto simp: find_None_iff list_ex_iff)
  then have "c \<in> set spfClasses" by (auto simp: find_Some_iff)
  then show "x \<in> (\<lambda>c. (sc_code c, sc_sev c)) ` set spfClasses" using p(1) c by (simp add: spfProblemClass_def)
qed

end
