(* ===== verification/Zone_Report.thy ===== *)
theory Zone_Report
  imports Report Go_Text
begin

text \<open>
  The passes over the nameserver, CAA, preload and TLSA sections: \<open>src/report.go\<close>, from
  \<open>nsFindings\<close> to the end, and the description of servers that stay silent.
\<close>

section \<open>Nameservers\<close>

record nsTally =
  nt_total :: nat
  nt_lame :: nat
  nt_silent :: nat
  nt_reserved :: nat
  nt_reason :: string
  nt_resWhy :: string

definition zero_nsTally :: nsTally where
  "zero_nsTally = \<lparr>nt_total = 0, nt_lame = 0, nt_silent = 0, nt_reserved = 0, nt_reason = [], nt_resWhy = []\<rparr>"

definition serverWarnings :: "NSServer \<Rightarrow> pass" where
  "serverWarnings s =
     seq [
       given (\<not> ns_TCP s)
         (warn ''ns_no_tcp'' (ns_Name s) (''nameserver '' @ ns_Name s @ '' ('' @ ns_IP s @ ''): no answer over TCP'')),
       given (\<not> ns_EDNS s)
         (warn ''ns_no_edns'' (ns_Name s) (''nameserver '' @ ns_Name s @ '' ('' @ ns_IP s @ ''): no EDNS support''))]"

text \<open>One server counted into its name's tally. \<open>tallyServers\<close> keeps the names in the order in
  which they were first seen, which is the order of the association list.\<close>

definition tally_server :: "NSServer \<Rightarrow> nsTally \<Rightarrow> nsTally" where
  "tally_server s t0 =
     (let t = t0\<lparr>nt_total := nt_total t0 + 1\<rparr>
      in if ns_Reserved s \<noteq> [] then
           t\<lparr>nt_reserved := nt_reserved t + 1, nt_resWhy := firstNonEmpty [nt_resWhy t, ns_Reserved s]\<rparr>
         else if ns_Error s = [] \<or> ns_AA s then t
         else if unanswered (ns_Error s) then t\<lparr>nt_silent := nt_silent t + 1\<rparr>
         else t\<lparr>nt_lame := nt_lame t + 1, nt_reason := firstNonEmpty [nt_reason t, ns_Error s]\<rparr>)"

definition tally_step ::
    "NSServer \<Rightarrow> findings \<times> (string, nsTally) go_map \<Rightarrow> findings \<times> (string, nsTally) go_map" where
  "tally_step s st =
     (case st of (f, m) \<Rightarrow>
        (given (ns_Reserved s = [] \<and> (ns_Error s = [] \<or> ns_AA s)) (serverWarnings s) f,
         map_put (ns_Name s) (tally_server s (map_get zero_nsTally m (ns_Name s))) m))"

definition tallyServers :: "findings \<Rightarrow> NSServer list \<Rightarrow> findings \<times> (string, nsTally) go_map" where
  "tallyServers f servers = fold tally_step servers (f, [])"

definition nameFindings :: "string \<Rightarrow> nsTally \<Rightarrow> pass" where
  "nameFindings name t =
     (let head = ''nameserver '' @ name @ '': '';
          of_total = (\<lambda>n. nat_text n @ '' of '' @ nat_text (nt_total t) @ '' addresses'')
      in seq [
        given (nt_reserved t > 0)
          (fail ''ns_reserved_address'' name (head @ ''reserved address ('' @ nt_resWhy t @ '') on '' @
            of_total (nt_reserved t) @ '', not queried'')),
        given (nt_lame t > 0)
          (fail ''ns_lame'' name (head @ nt_reason t @ '' on '' @ of_total (nt_lame t))),
        (if nt_silent t > 0 \<and> nt_silent t = nt_total t then
           fail ''ns_no_answer'' name (head @ ''no answer on '' @ of_total (nt_silent t))
         else if nt_silent t > 0 then
           warn ''ns_partial_answer'' name (head @ ''no answer on '' @ of_total (nt_silent t) @
             '', the others are authoritative'')
         else id)])"

definition serverFindings :: "NSServer list \<Rightarrow> pass" where
  "serverFindings servers f =
     (let (f1, m) = tallyServers f servers in each (\<lambda>(name, t). nameFindings name t) m f1)"

definition describe_tally :: "string \<Rightarrow> nsTally \<Rightarrow> string" where
  "describe_tally name t =
     (let of_total = (\<lambda>n. nat_text n @ '' of '' @ nat_text (nt_total t) @ '' addresses'')
      in name @ '' '' @ Join '', ''
        ((if nt_lame t > 0 then [nt_reason t @ '' on '' @ of_total (nt_lame t)] else []) @
         (if nt_silent t > 0 then [''no answer on '' @ of_total (nt_silent t)] else []) @
         (if nt_reserved t > 0 then [''reserved address ('' @ nt_resWhy t @ '') on '' @ of_total (nt_reserved t)] else [])))"

definition describeSilentServers :: "NSReport \<Rightarrow> string" where
  "describeSilentServers n =
     Join ''; '' (map (\<lambda>(name, t). describe_tally name t) (snd (tallyServers no_findings (nr_Servers n))) @
       map (\<lambda>name. name @ '' has no address'') (nr_Unresolvable n))"

definition serialList :: "NSServer list \<Rightarrow> string" where
  "serialList servers =
     Join '', '' (map (\<lambda>s. ns_Name s @ ''('' @ ns_IP s @ '')='' @ Itoa (ns_Serial s)) (filter ns_AA servers))"

definition serverFamilies :: "NSServer list \<Rightarrow> nat \<times> nat" where
  "serverFamilies servers =
     (let ips = List.map_filter (\<lambda>s. ParseAddr (ns_IP s)) servers
      in (length (filter Is4 ips), length (filter (\<lambda>ip. \<not> Is4 ip) ips)))"

definition diversityFindings :: "NSReport \<Rightarrow> pass" where
  "diversityFindings n =
     seq [
       given (nr_Count n \<ge> 2 \<and> length (nr_NSDomains n) = 1)
         (info ''ns_single_domain'' [] (''every nameserver is named under '' @ hd (nr_NSDomains n))),
       (if nr_IPv4Prefixes24 n = None \<or> nr_IPv6Prefixes48 n = None then id
        else case serverFamilies (nr_Servers n) of (v4, v6) \<Rightarrow> seq [
          given (v4 \<ge> 2 \<and> the (nr_IPv4Prefixes24 n) = 1)
            (warn ''ns_same_v4_24'' [] ''all IPv4 nameserver addresses share one /24''),
          given (v6 \<ge> 2 \<and> the (nr_IPv6Prefixes48 n) = 1)
            (info ''ns_same_v6_48'' [] ''all IPv6 nameserver addresses share one /48'')])]"

definition glueFindings :: "GlueReport option \<Rightarrow> pass" where
  "glueFindings g =
     (case g of
        None \<Rightarrow> id
      | Some g \<Rightarrow> seq [
          each (\<lambda>name. fail ''glue_missing'' name
              (''no glue at the parent for in-bailiwick nameserver '' @ name)) (gl_Missing g),
          each (\<lambda>m. warn ''glue_differs'' [] (''glue at the parent differs from the zone for '' @ m)) (gl_Mismatch g)])"

definition nsFindings :: "NSReport option \<Rightarrow> pass" where
  "nsFindings n =
     (case n of
        None \<Rightarrow> id
      | Some n \<Rightarrow> seq [
          given (nr_Count n < 2)
            (fail ''ns_count_low'' [] (''only '' @ nat_text (nr_Count n) @ '' nameserver (at least two required)'')),
          each (\<lambda>name. fail ''ns_cname'' name
              (''nameserver '' @ name @ '' is a CNAME (RFC 2181 '' @ [CHR 0xC2, CHR 0xA7] @ ''10.3)'')) (nr_NSCNAME n),
          each (\<lambda>name. fail ''ns_no_address'' name (''nameserver '' @ name @ '' has no address'')) (nr_Unresolvable n),
          each (\<lambda>name. warn ''ns_unaudited'' name
              (''nameserver '' @ name @ '': the address lookup did not complete, so it was not audited'')) (nr_Unresolved n),
          given (length (nr_Servers n) = 0)
            (warn ''ns_none_reached'' [] ''no nameserver was reached, so none of the per-server checks ran''),
          serverFindings (nr_Servers n),
          given (nr_SerialsConsistent n = Some False)
            (info ''soa_serial_differs'' [] (''SOA serial differs between nameservers: '' @ serialList (nr_Servers n))),
          diversityFindings n,
          glueFindings (nr_Glue n)])"

section \<open>CAA, preload list, TLSA\<close>

definition caaFindings :: "CAAReport option \<Rightarrow> pass" where
  "caaFindings c =
     (case c of
        None \<Rightarrow> id
      | Some c \<Rightarrow> seq [
          given (caa_absent c)
            (info ''caa_absent'' [] ''no CAA records: any certificate authority may issue for the domain''),
          each (\<lambda>label. case map_of (caa_Hosts c) label of
              None \<Rightarrow> id
            | Some v \<Rightarrow> given (cv_Permitted v = Some False)
                (fail ''caa_issuer_denied'' label (label @
                  '': CAA records do not permit the certificate issuer '' @ Quote (cv_Issuer v))))
            [''apex'', ''www'']])"

definition preloadMinAge :: int where "preloadMinAge = 31536000"

definition meetsPreload :: "HSTS option \<Rightarrow> bool" where
  "meetsPreload h =
     (case h of
        None \<Rightarrow> False
      | Some h \<Rightarrow> hs_Preload h \<and> hs_IncludeSubdomains h \<and> hs_MaxAge h \<ge> preloadMinAge)"

definition servedHSTS :: "HostWeb option \<Rightarrow> HSTS option" where
  "servedHSTS h =
     (case List.map_filter (\<lambda>a. case aw_HTTPSRes a of Some r \<Rightarrow> ht_HSTS r | None \<Rightarrow> None) (addrs h) of
        [] \<Rightarrow> None
      | x # _ \<Rightarrow> Some x)"

definition firstHTTPSResponse :: "HostWeb option \<Rightarrow> HTTPResult option" where
  "firstHTTPSResponse h = find (\<lambda>r. ht_Status r > 0) (List.map_filter aw_HTTPSRes (addrs h))"

definition responseScope :: "string \<Rightarrow> HTTPResult \<Rightarrow> string" where
  "responseScope domain r =
     (if isRedirect (ht_Status r) then
        ''https://'' @ domain @ ''/ answered with a '' @ Itoa (ht_Status r) @
        '' redirect; HSTS is per-host, so a header served by the redirect target does not count''
      else ''https://'' @ domain @ ''/ answered '' @ Itoa (ht_Status r))"

definition preloadedFindings :: "Report \<Rightarrow> HSTS option \<Rightarrow> pass" where
  "preloadedFindings rep h =
     (if \<not> headerRequired (rep_HSTSPreloadPolicy rep) \<or> rep_HSTSPreloadCoveredBy rep \<noteq> [] then id
      else case h of
             None \<Rightarrow>
               (case firstHTTPSResponse (web_Apex (rep_Web rep)) of
                  None \<Rightarrow> id
                | Some first \<Rightarrow>
                    warn ''hsts_preload_header_missing'' ''apex''
                      (''domain is on the HSTS preload list but serves no HSTS header on this response ('' @
                       responseScope (rep_Domain rep) first @ '')''))
           | Some _ \<Rightarrow>
               given (\<not> meetsPreload h)
                 (warn ''hsts_preload_header_weak'' ''apex''
                   (''domain is on the HSTS preload list but the served header does not meet the preload '' @
                    ''requirements (max-age >= 1 year, includeSubDomains, preload)'')))"

definition preloadFindings :: "Report \<Rightarrow> pass" where
  "preloadFindings rep =
     (let h = servedHSTS (web_Apex (rep_Web rep))
      in case rep_HSTSPreload rep of
           PreloadPreloaded \<Rightarrow> preloadedFindings rep h
         | PreloadAbsent \<Rightarrow>
             given (case h of Some x \<Rightarrow> hs_Preload x \<and> \<not> meetsPreload h | None \<Rightarrow> False)
               (info ''hsts_preload_directive_unmet'' ''apex''
                 (''HSTS header carries the preload directive but does not meet the preload requirements '' @
                  ''(max-age >= 1 year, includeSubDomains)''))
         | PreloadUnknown \<Rightarrow>
             info ''hsts_preload_unknown'' []
               (''HSTS preload list could not be consulted: '' @ rep_HSTSPreloadError rep)
         | PreloadNone \<Rightarrow> id)"

definition tlsaFindings :: "TLSAReport option \<Rightarrow> pass" where
  "tlsaFindings t =
     (case t of
        None \<Rightarrow> id
      | Some t \<Rightarrow>
          if ta_Result t = TLSANone \<or> ta_Result t = TLSAUnknown then id
          else seq [
            given (\<not> ta_Signed t)
              (info ''tlsa_unsigned_zone'' []
                ''TLSA records are published in an unsigned zone (DANE clients ignore them)''),
            given (ta_Result t = TLSAMismatch)
              (fail ''tlsa_mismatch'' []
                ''no TLSA record matches the certificate served (DANE validation fails)'')])"

section \<open>Codes\<close>

definition ns_codes :: "(string \<times> Severity) list" where
  "ns_codes = [(''ns_no_tcp'', SeverityWarn), (''ns_no_edns'', SeverityWarn), (''ns_reserved_address'', SeverityFail),
     (''ns_lame'', SeverityFail), (''ns_no_answer'', SeverityFail), (''ns_partial_answer'', SeverityWarn),
     (''ns_single_domain'', SeverityInfo), (''ns_same_v4_24'', SeverityWarn), (''ns_same_v6_48'', SeverityInfo),
     (''glue_missing'', SeverityFail), (''glue_differs'', SeverityWarn), (''ns_count_low'', SeverityFail),
     (''ns_cname'', SeverityFail), (''ns_no_address'', SeverityFail), (''ns_unaudited'', SeverityWarn),
     (''ns_none_reached'', SeverityWarn), (''soa_serial_differs'', SeverityInfo)]"

definition caa_codes :: "(string \<times> Severity) list" where
  "caa_codes = [(''caa_absent'', SeverityInfo), (''caa_issuer_denied'', SeverityFail)]"

definition preload_codes :: "(string \<times> Severity) list" where
  "preload_codes = [(''hsts_preload_header_missing'', SeverityWarn), (''hsts_preload_header_weak'', SeverityWarn),
     (''hsts_preload_directive_unmet'', SeverityInfo), (''hsts_preload_unknown'', SeverityInfo)]"

definition tlsa_codes :: "(string \<times> Severity) list" where
  "tlsa_codes = [(''tlsa_unsigned_zone'', SeverityInfo), (''tlsa_mismatch'', SeverityFail)]"

lemma serverWarnings_emits [emits_rules]: "emits ns_codes (serverWarnings s)"
  unfolding serverWarnings_def by (intro emits_rules) (simp_all add: ns_codes_def)

lemma nameFindings_emits [emits_rules]: "emits ns_codes (nameFindings name t)"
  unfolding nameFindings_def Let_def by (intro emits_rules) (simp_all add: ns_codes_def)

text \<open>The warnings of \<open>tallyServers\<close> and its tally are independent of each other.\<close>

lemma fold_tally_split:
  "fold tally_step servers (f, m) =
     (each (\<lambda>s. given (ns_Reserved s = [] \<and> (ns_Error s = [] \<or> ns_AA s)) (serverWarnings s)) servers f,
      fold (\<lambda>s m. map_put (ns_Name s) (tally_server s (map_get zero_nsTally m (ns_Name s))) m) servers m)"
  by (induction servers arbitrary: f m) (simp_all add: tally_step_def)

lemma serverFindings_alt:
  "serverFindings servers =
     seq [each (\<lambda>s. given (ns_Reserved s = [] \<and> (ns_Error s = [] \<or> ns_AA s)) (serverWarnings s)) servers,
          each (\<lambda>e. nameFindings (fst e) (snd e)) (snd (tallyServers no_findings servers))]"
  by (rule ext) (simp add: serverFindings_def tallyServers_def fold_tally_split case_prod_unfold)

lemma serverFindings_emits [emits_rules]: "emits ns_codes (serverFindings servers)"
  unfolding serverFindings_alt by (intro emits_rules)

lemma diversity_emits [emits_rules]: "emits ns_codes (diversityFindings n)"
  unfolding diversityFindings_def case_prod_beta by (intro emits_rules) (simp_all add: ns_codes_def)

lemma glue_emits [emits_rules]: "emits ns_codes (glueFindings g)"
  unfolding glueFindings_def by (intro emits_rules) (simp_all add: ns_codes_def)

interpretation ns: findings_pass nsFindings ns_codes
  by unfold_locales (unfold nsFindings_def, intro emits_rules, simp_all add: ns_codes_def)

interpretation caa: findings_pass caaFindings caa_codes
  by unfold_locales (unfold caaFindings_def, intro emits_rules, simp_all add: caa_codes_def)

lemma preloaded_emits [emits_rules]: "emits preload_codes (preloadedFindings rep h)"
  unfolding preloadedFindings_def by (intro emits_rules) (simp_all add: preload_codes_def)

interpretation preload: findings_pass preloadFindings preload_codes
  by unfold_locales
    (auto simp: preloadFindings_def Let_def split: PreloadStatus.split intro!: emits_rules,
     simp_all add: preload_codes_def)

interpretation tlsa: findings_pass tlsaFindings tlsa_codes
  by unfold_locales (unfold tlsaFindings_def, intro emits_rules, simp_all add: tlsa_codes_def)

section \<open>Lemmas\<close>

text \<open>What \<open>tallyServers\<close> makes of a server.\<close>

definition ns_is_reserved :: "NSServer \<Rightarrow> bool" where
  "ns_is_reserved s \<longleftrightarrow> ns_Reserved s \<noteq> []"

definition ns_is_silent :: "NSServer \<Rightarrow> bool" where
  "ns_is_silent s \<longleftrightarrow> ns_Reserved s = [] \<and> ns_Error s \<noteq> [] \<and> \<not> ns_AA s \<and> unanswered (ns_Error s)"

definition ns_is_lame :: "NSServer \<Rightarrow> bool" where
  "ns_is_lame s \<longleftrightarrow> ns_Reserved s = [] \<and> ns_Error s \<noteq> [] \<and> \<not> ns_AA s \<and> \<not> unanswered (ns_Error s)"

definition of_name :: "string \<Rightarrow> NSServer list \<Rightarrow> NSServer list" where
  "of_name name servers = filter (\<lambda>s. ns_Name s = name) servers"

definition count_step :: "NSServer \<Rightarrow> (string, nsTally) go_map \<Rightarrow> (string, nsTally) go_map" where
  "count_step s m = map_put (ns_Name s) (tally_server s (map_get zero_nsTally m (ns_Name s))) m"

lemma tallies_eq: "snd (tallyServers f servers) = fold count_step servers []"
  by (simp add: tallyServers_def fold_tally_split count_step_def [abs_def])

lemma tally_server_counts [simp]:
  "nt_total (tally_server s t) = nt_total t + 1"
  "nt_silent (tally_server s t) = nt_silent t + (if ns_is_silent s then 1 else 0)"
  "nt_lame (tally_server s t) = nt_lame t + (if ns_is_lame s then 1 else 0)"
  "nt_reserved (tally_server s t) = nt_reserved t + (if ns_is_reserved s then 1 else 0)"
  by (auto simp: tally_server_def ns_is_silent_def ns_is_lame_def ns_is_reserved_def Let_def)

lemma count_step_get:
  "map_get zero_nsTally (count_step s m) k =
     (if k = ns_Name s then tally_server s (map_get zero_nsTally m k) else map_get zero_nsTally m k)"
  by (simp add: count_step_def map_get_def)

lemma fold_count_get:
  "nt_total (map_get zero_nsTally (fold count_step servers m) k) =
     nt_total (map_get zero_nsTally m k) + length (of_name k servers) \<and>
   nt_silent (map_get zero_nsTally (fold count_step servers m) k) =
     nt_silent (map_get zero_nsTally m k) + length (filter ns_is_silent (of_name k servers)) \<and>
   nt_lame (map_get zero_nsTally (fold count_step servers m) k) =
     nt_lame (map_get zero_nsTally m k) + length (filter ns_is_lame (of_name k servers)) \<and>
   nt_reserved (map_get zero_nsTally (fold count_step servers m) k) =
     nt_reserved (map_get zero_nsTally m k) + length (filter ns_is_reserved (of_name k servers))"
  by (induction servers arbitrary: m) (simp_all add: count_step_get of_name_def)

lemma fold_count_keys: "fst ` set (fold count_step servers m) = fst ` set m \<union> ns_Name ` set servers"
  by (induction servers arbitrary: m) (auto simp: count_step_def fst_set_map_put)

lemma fold_count_distinct: "distinct (map fst m) \<Longrightarrow> distinct (map fst (fold count_step servers m))"
  by (induction servers arbitrary: m) (simp_all add: count_step_def distinct_map_put)

definition reports :: "string \<Rightarrow> string \<Rightarrow> findings \<Rightarrow> bool" where
  "reports code host f = list_ex (\<lambda>x. fi_Code x = code \<and> fi_Host x = host) (fs_list f)"

lemma reports_add [simp]:
  "reports code host (add sev c h msg f) \<longleftrightarrow> code = c \<and> host = h \<or> reports code host f"
  by (auto simp: reports_def add_def Let_def split: Severity.split)

lemma reports_fail [simp]: "reports code host (fail c h msg f) \<longleftrightarrow> code = c \<and> host = h \<or> reports code host f"
  by (simp add: fail_def)

lemma reports_warn [simp]: "reports code host (warn c h msg f) \<longleftrightarrow> code = c \<and> host = h \<or> reports code host f"
  by (simp add: warn_def)

lemma nameFindings_reports:
  "reports ''ns_no_answer'' host (nameFindings name t f) \<longleftrightarrow>
     host = name \<and> nt_silent t > 0 \<and> nt_silent t = nt_total t \<or> reports ''ns_no_answer'' host f"
  "reports ''ns_lame'' host (nameFindings name t f) \<longleftrightarrow>
     host = name \<and> nt_lame t > 0 \<or> reports ''ns_lame'' host f"
  "reports ''ns_partial_answer'' host (nameFindings name t f) \<longleftrightarrow>
     host = name \<and> nt_silent t > 0 \<and> nt_silent t \<noteq> nt_total t \<or> reports ''ns_partial_answer'' host f"
  by (auto simp: nameFindings_def given_def Let_def)

lemma warnings_report:
  assumes "code \<noteq> ''ns_no_tcp''" "code \<noteq> ''ns_no_edns''"
  shows "reports code host (each (\<lambda>s. given (b s) (serverWarnings s)) servers f) \<longleftrightarrow> reports code host f"
  using assms by (induction servers arbitrary: f) (simp_all add: given_def serverWarnings_def)

lemma each_names_report:
  assumes "\<And>name t f. reports code host (nameFindings name t f) \<longleftrightarrow> host = name \<and> P t \<or> reports code host f"
  shows "reports code host (each (\<lambda>e. nameFindings (fst e) (snd e)) m f) \<longleftrightarrow>
    list_ex (\<lambda>e. host = fst e \<and> P (snd e)) m \<or> reports code host f"
  by (induction m arbitrary: f) (auto simp: assms)

lemma serverFindings_report:
  assumes "\<And>name t f. reports code host (nameFindings name t f) \<longleftrightarrow> host = name \<and> P t \<or> reports code host f"
    and "code \<noteq> ''ns_no_tcp''" "code \<noteq> ''ns_no_edns''"
  shows "reports code host (serverFindings servers no_findings) \<longleftrightarrow>
    of_name host servers \<noteq> [] \<and> P (map_get zero_nsTally (fold count_step servers []) host)"
proof -
  define m where "m = fold count_step servers []"
  have d: "distinct (map fst m)" unfolding m_def by (rule fold_count_distinct) simp
  have k: "host \<in> fst ` set m \<longleftrightarrow> of_name host servers \<noteq> []"
    unfolding m_def by (auto simp: fold_count_keys of_name_def filter_empty_conv)
  have "list_ex (\<lambda>e. host = fst e \<and> P (snd e)) m \<longleftrightarrow> host \<in> fst ` set m \<and> P (map_get zero_nsTally m host)"
    using d by (auto simp: list_ex_iff map_get_def)
  then show ?thesis
    using assms(2,3)
    by (simp add: serverFindings_alt each_names_report [OF assms(1)] warnings_report tallies_eq m_def [symmetric] k)
      (simp add: reports_def no_findings_def)
qed

section \<open>Properties\<close>

text \<open>
  C33. Silence convicts a nameserver only as a whole: \<open>ns_no_answer\<close> is found for a name exactly
  when the name was audited and every one of its addresses stayed silent, so that one flaky
  address beside an authoritative one never fails the domain.
\<close>
theorem ns_no_answer_iff:
  "reports ''ns_no_answer'' name (serverFindings servers no_findings) \<longleftrightarrow>
     of_name name servers \<noteq> [] \<and> list_all ns_is_silent (of_name name servers)"
proof -
  have "length (filter ns_is_silent xs) = length xs \<longleftrightarrow> list_all ns_is_silent xs" for xs
    by (metis filter_True length_filter_less less_irrefl list_all_iff)
  then show ?thesis
    using fold_count_get [of servers "[]" name]
      serverFindings_report [OF nameFindings_reports(1), of name servers]
    by (auto simp: zero_nsTally_def map_get_def [of _ "[]"] list_all_iff)
qed

text \<open>
  Disclaimed authority convicts at any count: \<open>ns_lame\<close> is found for a name exactly when one
  of its addresses answered without authority for the zone.
\<close>
theorem ns_lame_iff:
  "reports ''ns_lame'' name (serverFindings servers no_findings) \<longleftrightarrow> list_ex ns_is_lame (of_name name servers)"
  using fold_count_get [of servers "[]" name]
    serverFindings_report [OF nameFindings_reports(2), of name servers]
  by (auto simp: zero_nsTally_def map_get_def [of _ "[]"] list_ex_iff filter_empty_conv)

end
