(* ===== verification/Verdict.thy ===== *)
theory Verdict
  imports Http_Report Mail_Report Zone_Report
begin

text \<open>
  The verdict: \<open>deepFindings\<close> and \<open>buildFindings\<close> of \<open>src/report.go\<close>, which run the
  passes in order and fill \<open>Errors\<close>, \<open>Warnings\<close>, \<open>Findings\<close> and \<open>OK\<close>.
\<close>

definition reservedFindings :: "Report \<Rightarrow> pass" where
  "reservedFindings rep =
     each (\<lambda>r. fail ''reserved_address'' [] (''reserved address published in DNS: '' @ r)) (rep_ReservedAddresses rep)"

definition wildcardFindings :: "dp_lib \<Rightarrow> Report \<Rightarrow> pass" where
  "wildcardFindings lib rep =
     given ((case rep_Wildcard rep of Some w \<Rightarrow> wr_WWWViaWildcard w | None \<Rightarrow> False) \<and>
            registrableDomain lib (rep_Domain rep))
       (info ''www_wildcard'' ''www'' ''www is answered by a wildcard record, not a real host'')"

definition deepFindings :: "dp_lib \<Rightarrow> Report \<Rightarrow> pass" where
  "deepFindings lib rep =
     (let apex = web_Apex (rep_Web rep); www = web_WWW (rep_Web rep);
          (apexPreloaded, wwwPreloaded) = preloadCovers rep
      in seq [
        reservedFindings rep,
        wildcardFindings lib rep,
        tlsFindings ''apex'' apex www,
        tlsFindings ''www'' www apex,
        httpFindings ''apex'' apex apexPreloaded,
        httpFindings ''www'' www wwwPreloaded,
        consistencyFindings lib rep,
        mailFindings (rep_Mail rep) (zoneValidationBroken rep),
        nsFindings (rep_Nameservers rep),
        caaFindings (rep_CAA rep),
        tlsaFindings (rep_TLSA rep),
        preloadFindings rep])"

definition unreachable_passes :: "Report \<Rightarrow> pass" where
  "unreachable_passes rep =
     seq [
       reachabilityFindings (dns_ResolverReachable (rep_DNS rep)),
       deadlineFindings rep,
       fail ''zone_unreachable'' [] (''no delegated nameserver answers for the zone: '' @
         describeSilentServers (the (rep_Nameservers rep))),
       rdapFindings (rep_RDAP rep)]"

definition reserved_passes :: "Report \<Rightarrow> pass" where
  "reserved_passes rep =
     seq [
       reachabilityFindings (dns_ResolverReachable (rep_DNS rep)),
       deadlineFindings rep,
       warn ''reserved_name'' [] (rep_Domain rep @ '' is reserved by '' @ rep_ReservedName rep @
         '' and is not served by the global DNS: delegation and DNSSEC checks do not apply'')]"

definition all_passes :: "dp_lib \<Rightarrow> Report \<Rightarrow> pass" where
  "all_passes lib rep =
     seq [
       dnsFindings lib rep,
       rdapFindings (rep_RDAP rep),
       dnssecFindings rep,
       delegationFindings rep,
       reachabilityFindings (dns_ResolverReachable (rep_DNS rep)),
       deadlineFindings rep,
       webFindings ''apex'' (web_Apex (rep_Web rep)),
       webFindings ''www'' (web_WWW (rep_Web rep)),
       deepFindings lib rep]"

definition buildFindings :: "dp_lib \<Rightarrow> Report \<Rightarrow> Report" where
  "buildFindings lib rep =
     (if zoneUnreachable rep then finish (unreachable_passes rep no_findings) rep
      else if rep_ReservedName rep \<noteq> [] then finish (reserved_passes rep no_findings) rep
      else finish (all_passes lib rep no_findings) rep)"

section \<open>The catalogue of codes\<close>

definition deep_codes :: "(string \<times> Severity) list" where
  "deep_codes = [(''reserved_address'', SeverityFail), (''www_wildcard'', SeverityInfo)] @
     tls_codes @ http_codes @ consistency_codes @ mail_codes @ ns_codes @ caa_codes @ tlsa_codes @ preload_codes"

definition catalogue :: "(string \<times> Severity) list" where
  "catalogue = [(''zone_unreachable'', SeverityFail), (''reserved_name'', SeverityWarn)] @ rdap_codes @
     deadline_codes @ dns_codes @ dnssec_codes @ delegation_codes @ reach_codes @ web_codes @ deep_codes"

lemma deep_parts:
  "set tls_codes \<subseteq> set deep_codes" "set http_codes \<subseteq> set deep_codes" "set consistency_codes \<subseteq> set deep_codes"
  "set mail_codes \<subseteq> set deep_codes" "set ns_codes \<subseteq> set deep_codes" "set caa_codes \<subseteq> set deep_codes"
  "set tlsa_codes \<subseteq> set deep_codes" "set preload_codes \<subseteq> set deep_codes"
  unfolding deep_codes_def set_append by blast+

lemmas deep_emits =
  tls.pass_emits [of "(label, h, s)" for label h s, simplified, THEN emits_mono, OF deep_parts(1)]
  http.pass_emits [of "(label, h, p)" for label h p, simplified, THEN emits_mono, OF deep_parts(2)]
  consistency.pass_emits [THEN emits_mono, OF deep_parts(3)]
  mail.pass_emits [of "(m, broken)" for m broken, simplified, THEN emits_mono, OF deep_parts(4)]
  ns.pass_emits [THEN emits_mono, OF deep_parts(5)]
  caa.pass_emits [THEN emits_mono, OF deep_parts(6)]
  tlsa.pass_emits [THEN emits_mono, OF deep_parts(7)]
  preload.pass_emits [THEN emits_mono, OF deep_parts(8)]

lemma own_deep_codes:
  "(''reserved_address'', SeverityFail) \<in> set deep_codes" "(''www_wildcard'', SeverityInfo) \<in> set deep_codes"
  unfolding deep_codes_def set_append by simp_all

interpretation deep: findings_pass "deepFindings lib" deep_codes for lib
  by unfold_locales
    (unfold deepFindings_def reservedFindings_def wildcardFindings_def Let_def,
      intro emits_rules deep_emits own_deep_codes)

lemma catalogue_parts:
  "set rdap_codes \<subseteq> set catalogue" "set deadline_codes \<subseteq> set catalogue" "set dns_codes \<subseteq> set catalogue"
  "set dnssec_codes \<subseteq> set catalogue" "set delegation_codes \<subseteq> set catalogue" "set reach_codes \<subseteq> set catalogue"
  "set web_codes \<subseteq> set catalogue" "set deep_codes \<subseteq> set catalogue"
  unfolding catalogue_def set_append by blast+

lemmas catalogue_emits =
  rdap.pass_emits [THEN emits_mono, OF catalogue_parts(1)]
  deadline.pass_emits [THEN emits_mono, OF catalogue_parts(2)]
  dns.pass_emits [THEN emits_mono, OF catalogue_parts(3)]
  dnssec.pass_emits [THEN emits_mono, OF catalogue_parts(4)]
  delegation.pass_emits [THEN emits_mono, OF catalogue_parts(5)]
  reach.pass_emits [THEN emits_mono, OF catalogue_parts(6)]
  web.pass_emits [of "(label, h)" for label h, simplified, THEN emits_mono, OF catalogue_parts(7)]
  deep.pass_emits [THEN emits_mono, OF catalogue_parts(8)]

lemma own_catalogue:
  "(''zone_unreachable'', SeverityFail) \<in> set catalogue" "(''reserved_name'', SeverityWarn) \<in> set catalogue"
  unfolding catalogue_def set_append by simp_all

text \<open>The passes of \<open>buildFindings\<close> before \<open>finish\<close>, and the locale at work on them.\<close>

definition build_pass :: "dp_lib \<times> Report \<Rightarrow> pass" where
  "build_pass x =
     (case x of (lib, rep) \<Rightarrow>
        if zoneUnreachable rep then unreachable_passes rep
        else if rep_ReservedName rep \<noteq> [] then reserved_passes rep else all_passes lib rep)"

lemma buildFindings_alt: "buildFindings lib rep = finish (build_pass (lib, rep) no_findings) rep"
  by (simp add: buildFindings_def build_pass_def)

interpretation build: findings_pass build_pass catalogue
  by unfold_locales
    (unfold build_pass_def unreachable_passes_def reserved_passes_def all_passes_def,
      intro emits_rules catalogue_emits own_catalogue)

section \<open>Lemmas\<close>

lemma catalogue_distinct: "distinct (map fst catalogue)"
  by (simp add: catalogue_def deep_codes_def rdap_codes_def deadline_codes_def dns_codes_def dnssec_codes_def
    delegation_codes_def reach_codes_def web_codes_def tls_codes_def http_codes_def consistency_codes_def
    mail_codes_def ns_codes_def caa_codes_def tlsa_codes_def preload_codes_def spfClasses_def)

lemma seq_snoc: "seq (ps @ qs) f = seq qs (seq ps f)"
  by (simp add: seq_def)

lemma reach_list:
  "fs_list (reachabilityFindings reach f) = fs_list f @
     map (\<lambda>fam. \<lparr>fi_Code = ''resolver_unreachable'', fi_Severity = SeverityFail, fi_Host = [],
            fi_Message = ''resolver not reachable over '' @ fam\<rparr>)
       (filter (\<lambda>fam. map_of reach fam = Some ReachNo) (sorted_keys reach))"
proof -
  have "fs_list (each (\<lambda>fam. given (map_of reach fam = Some ReachNo)
          (fail ''resolver_unreachable'' [] (''resolver not reachable over '' @ fam))) ks f) =
        fs_list f @ map (\<lambda>fam. \<lparr>fi_Code = ''resolver_unreachable'', fi_Severity = SeverityFail, fi_Host = [],
            fi_Message = ''resolver not reachable over '' @ fam\<rparr>)
          (filter (\<lambda>fam. map_of reach fam = Some ReachNo) ks)" for ks
    by (induction ks arbitrary: f) (simp_all add: given_def fail_def add_def)
  then show ?thesis by (simp add: reachabilityFindings_def)
qed

lemma rdap_hold:
  "reported ''domain_on_hold'' (rdapFindings r f) \<longleftrightarrow>
     (\<exists>x. r = Some x \<and> matchedStatuses x rdapHoldStatus \<noteq> []) \<or> reported ''domain_on_hold'' f"
  by (cases r) (simp_all add: rdapFindings_def Let_def given_def)

lemma silent_seq: "list_all (silent code) ps \<Longrightarrow> silent code (seq ps)"
  by (induction ps) (auto simp: silent_def)

lemmas silent_passes =
  rdap.pass_silent deadline.pass_silent dns.pass_silent dnssec.pass_silent delegation.pass_silent reach.pass_silent
  web.pass_silent [of _ "(label, h)" for label h, simplified] deep.pass_silent

lemma silent_other [simp]:
  "c \<noteq> code \<Longrightarrow> silent code (fail c h msg)" "c \<noteq> code \<Longrightarrow> silent code (warn c h msg)"
  by (auto simp: silent_def)

lemma zone_unreachable_own:
  "''zone_unreachable'' \<notin> fst ` set (rdap_codes @ deadline_codes @ dns_codes @ dnssec_codes @ delegation_codes @
     reach_codes @ web_codes @ deep_codes)"
  by code_simp

lemma on_hold_own:
  "''domain_on_hold'' \<notin> fst ` set (deadline_codes @ dns_codes @ dnssec_codes @ delegation_codes @
     reach_codes @ web_codes @ deep_codes)"
  by code_simp

lemma reported_build:
  "code \<in> fi_Code ` set (rep_Findings (buildFindings lib rep)) \<longleftrightarrow> reported code (build_pass (lib, rep) no_findings)"
  by (simp add: buildFindings_alt finish_def reported_def)

lemma zone_unreachable_elsewhere:
  "silent ''zone_unreachable'' (reserved_passes rep)" "silent ''zone_unreachable'' (all_passes lib rep)"
  using zone_unreachable_own unfolding reserved_passes_def all_passes_def set_append image_Un
  by (simp_all add: silent_seq silent_passes)

lemma on_hold_elsewhere:
  "reported ''domain_on_hold'' (unreachable_passes rep no_findings) \<longleftrightarrow>
     reported ''domain_on_hold'' (rdapFindings (rep_RDAP rep) no_findings)"
  "\<not> reported ''domain_on_hold'' (reserved_passes rep no_findings)"
  "reported ''domain_on_hold'' (all_passes lib rep no_findings) \<longleftrightarrow>
     reported ''domain_on_hold'' (rdapFindings (rep_RDAP rep) no_findings)"
proof -
  note q = on_hold_own [unfolded set_append image_Un Un_iff de_Morgan_disj]
  show "reported ''domain_on_hold'' (unreachable_passes rep no_findings) \<longleftrightarrow>
      reported ''domain_on_hold'' (rdapFindings (rep_RDAP rep) no_findings)"
    using q by (simp add: unreachable_passes_def rdap_hold reach.pass_other deadline.pass_other)
  show "\<not> reported ''domain_on_hold'' (reserved_passes rep no_findings)"
    using q by (simp add: reserved_passes_def reach.pass_other deadline.pass_other)
  show "reported ''domain_on_hold'' (all_passes lib rep no_findings) \<longleftrightarrow>
      reported ''domain_on_hold'' (rdapFindings (rep_RDAP rep) no_findings)"
    using q by (simp add: all_passes_def rdap_hold reach.pass_other deadline.pass_other dns.pass_other dnssec.pass_other
      delegation.pass_other web.pass_other [of _ "(label, h)" for label h, simplified] deep.pass_other)
qed

section \<open>Properties\<close>

text \<open>
  The report is consistent: \<open>errors\<close> are the messages of the failures, \<open>warnings\<close> those of
  the warnings, both in the order of the findings, and \<open>ok\<close> is true exactly when no finding fails.
\<close>
theorem buildFindings_mirror:
  "rep_Errors (buildFindings lib rep) =
     map fi_Message (filter (\<lambda>x. fi_Severity x = SeverityFail) (rep_Findings (buildFindings lib rep))) \<and>
   rep_Warnings (buildFindings lib rep) =
     map fi_Message (filter (\<lambda>x. fi_Severity x = SeverityWarn) (rep_Findings (buildFindings lib rep))) \<and>
   (rep_OK (buildFindings lib rep) \<longleftrightarrow>
     SeverityFail \<notin> fi_Severity ` set (rep_Findings (buildFindings lib rep)))"
proof -
  have "mirrored (build_pass (lib, rep) no_findings)" by (rule build.pass_mirrored) simp
  then show ?thesis
    by (force simp: buildFindings_alt finish_def mirrored_def filter_empty_conv)
qed

text \<open>
  Codes are stable: whatever the report holds, each finding has a code of the catalogue with
  the severity that the catalogue gives it, and the catalogue lists every code once, so a code
  keeps one severity over all reports.
\<close>
theorem buildFindings_catalogue:
  "distinct (map fst catalogue) \<and>
   (\<lambda>x. (fi_Code x, fi_Severity x)) ` set (rep_Findings (buildFindings lib rep)) \<subseteq> set catalogue"
  using build.pass_appends [of "(lib, rep)" no_findings] catalogue_distinct
  by (auto simp: buildFindings_alt finish_def no_findings_def)

text \<open>
  A dead zone is reported as one: \<open>zone_unreachable\<close> is found exactly when the name is an
  ordinary zone whose parent delegates it and whose delegated servers, all audited, stay silent
  or disclaim the zone.
\<close>
theorem zone_unreachable_iff:
  "''zone_unreachable'' \<in> fi_Code ` set (rep_Findings (buildFindings lib rep)) \<longleftrightarrow> zoneUnreachable rep"
proof -
  have "reported ''zone_unreachable'' (unreachable_passes rep no_findings)"
    using rdap.pass_keeps by (simp add: unreachable_passes_def)
  then show ?thesis
    using zone_unreachable_elsewhere
    by (simp add: reported_build build_pass_def silent_def)
qed

text \<open>
  C25. A registration on hold is never missed: \<open>domain_on_hold\<close> is found exactly when the name is
  not a reserved one and the registry served a status that is a client or server hold in either
  spelling, also when the zone is unreachable.
\<close>
theorem hold_reported_iff:
  "''domain_on_hold'' \<in> fi_Code ` set (rep_Findings (buildFindings lib rep)) \<longleftrightarrow>
     rep_ReservedName rep = [] \<and>
     (\<exists>r ss s. rep_RDAP rep = Some r \<and> rg_Status (rd_Registry r) = Some ss \<and> s \<in> set ss \<and>
        statusKey s \<in> {''clienthold'', ''serverhold''})"
proof -
  have "(\<exists>x. rep_RDAP rep = Some x \<and> matchedStatuses x rdapHoldStatus \<noteq> []) \<longleftrightarrow>
      (\<exists>r ss s. rep_RDAP rep = Some r \<and> rg_Status (rd_Registry r) = Some ss \<and> s \<in> set ss \<and>
        statusKey s \<in> {''clienthold'', ''serverhold''})"
  proof (cases "rep_RDAP rep")
    case (Some r)
    then show ?thesis
      by (cases "rg_Status (rd_Registry r)")
        (auto simp: matchedStatuses_def rdapHoldStatus_def filter_empty_conv)
  qed simp
  moreover have "zoneUnreachable rep \<Longrightarrow> rep_ReservedName rep = []" by (simp add: zoneUnreachable_def)
  ultimately show ?thesis
    by (auto simp: reported_build build_pass_def on_hold_elsewhere rdap_hold)
qed

text \<open>
  A reserved name is never failed for itself: the only failures of its report are the families
  over which the resolver was not reachable.
\<close>
theorem reserved_name_verdict:
  assumes "rep_ReservedName rep \<noteq> []"
  shows "rep_Errors (buildFindings lib rep) =
    map (\<lambda>fam. ''resolver not reachable over '' @ fam)
      (filter (\<lambda>fam. map_of (dns_ResolverReachable (rep_DNS rep)) fam = Some ReachNo)
        (sorted_keys (dns_ResolverReachable (rep_DNS rep))))"
proof -
  let ?r = "dns_ResolverReachable (rep_DNS rep)"
  have m: "mirrored (reserved_passes rep no_findings)"
    using build.pass_mirrored [of no_findings "(lib, rep)"] assms
    by (simp add: build_pass_def zoneUnreachable_def)
  have "fs_list (reserved_passes rep no_findings) =
      fs_list (deadlineFindings rep (reachabilityFindings ?r no_findings)) @
      [\<lparr>fi_Code = ''reserved_name'', fi_Severity = SeverityWarn, fi_Host = [],
        fi_Message = rep_Domain rep @ '' is reserved by '' @ rep_ReservedName rep @
         '' and is not served by the global DNS: delegation and DNSSEC checks do not apply''\<rparr>]"
    by (simp add: reserved_passes_def warn_def add_def)
  moreover have "filter (\<lambda>x. fi_Severity x = SeverityFail) (fs_list (deadlineFindings rep g)) =
      filter (\<lambda>x. fi_Severity x = SeverityFail) (fs_list g)" for g
    by (simp add: deadlineFindings_def given_def info_def add_def)
  ultimately have "map fi_Message (filter (\<lambda>x. fi_Severity x = SeverityFail) (fs_list (reserved_passes rep no_findings))) =
      map (\<lambda>fam. ''resolver not reachable over '' @ fam) (filter (\<lambda>fam. map_of ?r fam = Some ReachNo) (sorted_keys ?r))"
    by (simp add: reach_list no_findings_def comp_def)
  then show ?thesis
    using m assms by (simp add: buildFindings_def zoneUnreachable_def finish_def mirrored_def)
qed

definition ex_reserved :: Report where
  "ex_reserved = zero_Report\<lparr>rep_Domain := ''printer.local'', rep_ReservedName := ''RFC 6762'',
     rep_DNS := \<lparr>dns_Apex = [], dns_WWW = [], dns_ResolverReachable = [(''ipv6'', ReachNo), (''ipv4'', ReachYes)],
       dns_ResolverValidates = None\<rparr>\<rparr>"

theorem reserved_name_verdict_witness:
  "rep_Errors (buildFindings ex_lib ex_reserved) = [''resolver not reachable over ipv6'']"
  using reserved_name_verdict [of ex_reserved ex_lib] by (simp add: ex_reserved_def sorted_keys_def)

end
