(* ===== verification/Json.thy ===== *)
theory Json
  imports Go_Text Netip
begin

text \<open>
  The part of Go's \<open>encoding/json\<close> that the program uses: the scanner, which reads one value from
  the front of a text (\<open>Decoder.Decode\<close>) or the whole of a text (\<open>Unmarshal\<close>), and the decoding
  of a value into strings, numbers, slices, maps and the tagged fields of a struct. A value that
  does not fit its target is an error, a null leaves the target as it was, and an object key is
  matched to a field tag without regard to case. When a document repeats a key for a slice field, the
  later array replaces the earlier one.
\<close>

datatype json = JNull | JBool bool | JNum string | JStr string | JArr "json list" | JObj "(string \<times> json) list"

section \<open>The scanner\<close>

definition json_space :: "char \<Rightarrow> bool" where
  "json_space c \<longleftrightarrow> c = CHR '' '' \<or> c = CHR 0x09 \<or> c = CHR 0x0A \<or> c = CHR 0x0D"

definition skip_space :: "string \<Rightarrow> string" where
  "skip_space s = dropWhile json_space s"

text \<open>The UTF-8 encoding of a code point, and the replacement character.\<close>

definition encode_rune :: "nat \<Rightarrow> string" where
  "encode_rune r =
     (if r < 128 then [char_of r]
      else if r < 2048 then [char_of (192 + r div 64), char_of (128 + r mod 64)]
      else if r < 65536 then [char_of (224 + r div 4096), char_of (128 + r div 64 mod 64), char_of (128 + r mod 64)]
      else [char_of (240 + r div 262144), char_of (128 + r div 4096 mod 64),
            char_of (128 + r div 64 mod 64), char_of (128 + r mod 64)])"

definition RuneError :: nat where "RuneError = 65533"

text \<open>Four hexadecimal digits at the front of a text.\<close>

definition hex4_at :: "string \<Rightarrow> nat option" where
  "hex4_at s = (if length s \<ge> 4 \<and> list_all is_hex (take 4 s) then Some (hex_num (take 4 s)) else None)"

definition is_surrogate :: "nat \<Rightarrow> bool" where
  "is_surrogate r \<longleftrightarrow> 55296 \<le> r \<and> r < 57344"

text \<open>The code point written \<open>\u1234\<close> once its four digits are read, and how many more characters
  it takes: the second half of a surrogate pair, when there is one.\<close>

definition unicode_escape :: "nat \<Rightarrow> string \<Rightarrow> nat \<times> nat" where
  "unicode_escape r rest =
     (if \<not> is_surrogate r then (r, 0)
      else case (if take 2 rest = [CHR 0x5C, CHR ''u''] then hex4_at (drop 2 rest) else None) of
             Some r2 \<Rightarrow> if r < 56320 \<and> 56320 \<le> r2 \<and> r2 < 57344
                        then (65536 + (r - 55296) * 1024 + (r2 - 56320), 6) else (RuneError, 0)
           | None \<Rightarrow> (RuneError, 0))"

definition simple_escape :: "char \<Rightarrow> char option" where
  "simple_escape c =
     (if c = CHR 0x22 \<or> c = CHR 0x5C \<or> c = CHR ''/'' then Some c
      else if c = CHR ''b'' then Some (CHR 0x08) else if c = CHR ''f'' then Some (CHR 0x0C)
      else if c = CHR ''n'' then Some (CHR 0x0A) else if c = CHR ''r'' then Some (CHR 0x0D)
      else if c = CHR ''t'' then Some (CHR 0x09) else None)"

text \<open>The characters of a string up to its closing quote, decoded, and the text after the quote.\<close>

function scan_string :: "string \<Rightarrow> (string \<times> string) option" where
  "scan_string s =
     (case s of
        [] \<Rightarrow> None
      | c # t \<Rightarrow>
          if c = CHR 0x22 then Some ([], t)
          else if byte c < 32 then None
          else if c = CHR 0x5C then
            (case t of
               [] \<Rightarrow> None
             | e # u \<Rightarrow>
                 if e = CHR ''u'' then
                   (case hex4_at u of
                      None \<Rightarrow> None
                    | Some r \<Rightarrow>
                        (case unicode_escape r (drop 4 u) of (code, n) \<Rightarrow>
                           map_option (apfst (\<lambda>x. encode_rune code @ x)) (scan_string (drop (4 + n) u))))
                 else case simple_escape e of
                        None \<Rightarrow> None
                      | Some ch \<Rightarrow> map_option (apfst (\<lambda>x. ch # x)) (scan_string u))
          else if rune_len s = 0 then map_option (apfst (\<lambda>x. encode_rune RuneError @ x)) (scan_string t)
          else map_option (apfst (\<lambda>x. take (rune_len s) s @ x)) (scan_string (drop (rune_len s) s)))"
  by pat_completeness auto
termination by (relation "measure length") auto

declare scan_string.simps [simp del]

text \<open>The number a text begins with, by the grammar of RFC 8259, and the rest.\<close>

definition scan_digits :: "string \<Rightarrow> string \<times> string" where
  "scan_digits s = (takeWhile is_digit s, dropWhile is_digit s)"

definition scan_frac :: "string \<Rightarrow> (string \<times> string) option" where
  "scan_frac s =
     (case s of
        c # t \<Rightarrow> if c = CHR ''.'' then
                   (case scan_digits t of (d, u) \<Rightarrow> if d = [] then None else Some (c # d, u))
                 else Some ([], s)
      | [] \<Rightarrow> Some ([], s))"

definition scan_exp :: "string \<Rightarrow> (string \<times> string) option" where
  "scan_exp s =
     (case s of
        c # t \<Rightarrow>
          if c = CHR ''e'' \<or> c = CHR ''E'' then
            (let sign = (case t of x # _ \<Rightarrow> if x = CHR ''+'' \<or> x = CHR ''-'' then [x] else [] | [] \<Rightarrow> [])
             in case scan_digits (drop (length sign) t) of (d, u) \<Rightarrow>
                  if d = [] then None else Some (c # sign @ d, u))
          else Some ([], s)
      | [] \<Rightarrow> Some ([], s))"

definition scan_number :: "string \<Rightarrow> (string \<times> string) option" where
  "scan_number s =
     (let sign = (case s of x # _ \<Rightarrow> if x = CHR ''-'' then [x] else [] | [] \<Rightarrow> []);
          (d0, u0) = scan_digits (drop (length sign) s);
          (d, u) = (if d0 \<noteq> [] \<and> hd d0 = CHR ''0'' then ([CHR ''0''], tl d0 @ u0) else (d0, u0))
      in if d = [] then None
         else case scan_frac u of
                None \<Rightarrow> None
              | Some (f, v) \<Rightarrow>
                  (case scan_exp v of None \<Rightarrow> None | Some (e, w) \<Rightarrow> Some (sign @ d @ f @ e, w)))"

definition scan_word :: "string \<Rightarrow> json \<Rightarrow> string \<Rightarrow> (json \<times> string) option" where
  "scan_word w v s = (if HasPrefix s w then Some (v, drop (length w) s) else None)"

text \<open>
  One value: \<open>depth\<close> is the nesting the scanner still allows (its limit is 10000), and the first
  argument bounds the number of calls; \<open>scan_fuel_enough\<close> shows that a bound of twice the length of
  the text is never reached.
\<close>

definition maxNestingDepth :: nat where "maxNestingDepth = 10000"

fun scan_value :: "nat \<Rightarrow> nat \<Rightarrow> string \<Rightarrow> (json \<times> string) option"
and scan_elems :: "nat \<Rightarrow> nat \<Rightarrow> string \<Rightarrow> (json list \<times> string) option"
and scan_members :: "nat \<Rightarrow> nat \<Rightarrow> string \<Rightarrow> ((string \<times> json) list \<times> string) option" where
  "scan_value 0 depth s = None"
| "scan_value (Suc n) depth s =
     (case skip_space s of
        [] \<Rightarrow> None
      | c # t \<Rightarrow>
          if c = CHR ''{'' then
            (if depth = 0 then None
             else case skip_space t of
                    [] \<Rightarrow> None
                  | x # u \<Rightarrow> if x = CHR ''}'' then Some (JObj [], u)
                             else map_option (apfst JObj) (scan_members n (depth - 1) (x # u)))
          else if c = CHR ''['' then
            (if depth = 0 then None
             else case skip_space t of
                    [] \<Rightarrow> None
                  | x # u \<Rightarrow> if x = CHR '']'' then Some (JArr [], u)
                             else map_option (apfst JArr) (scan_elems n (depth - 1) (x # u)))
          else if c = CHR 0x22 then map_option (apfst JStr) (scan_string t)
          else if c = CHR ''t'' then scan_word ''true'' (JBool True) (c # t)
          else if c = CHR ''f'' then scan_word ''false'' (JBool False) (c # t)
          else if c = CHR ''n'' then scan_word ''null'' JNull (c # t)
          else map_option (apfst JNum) (scan_number (c # t)))"
| "scan_elems 0 depth s = None"
| "scan_elems (Suc n) depth s =
     (case scan_value n depth s of
        None \<Rightarrow> None
      | Some (v, t) \<Rightarrow>
          (case skip_space t of
             [] \<Rightarrow> None
           | x # u \<Rightarrow> if x = CHR '']'' then Some ([v], u)
                      else if x = CHR '','' then map_option (apfst (\<lambda>vs. v # vs)) (scan_elems n depth u)
                      else None))"
| "scan_members 0 depth s = None"
| "scan_members (Suc n) depth s =
     (case skip_space s of
        [] \<Rightarrow> None
      | q # r \<Rightarrow>
          if q \<noteq> CHR 0x22 then None
          else case scan_string r of
            None \<Rightarrow> None
          | Some (k, t) \<Rightarrow>
              (case skip_space t of
                 [] \<Rightarrow> None
               | x # u \<Rightarrow>
                   if x \<noteq> CHR '':'' then None
                   else case scan_value n depth u of
                     None \<Rightarrow> None
                   | Some (v, w) \<Rightarrow>
                       (case skip_space w of
                          [] \<Rightarrow> None
                        | y # z \<Rightarrow> if y = CHR ''}'' then Some ([(k, v)], z)
                                   else if y = CHR '','' then map_option (apfst (\<lambda>ms. (k, v) # ms)) (scan_members n depth z)
                                   else None)))"

definition scan :: "string \<Rightarrow> (json \<times> string) option" where
  "scan s = scan_value (2 * length s + 1) maxNestingDepth s"

text \<open>\<open>Unmarshal\<close> takes a text that is one value and nothing else; a \<open>Decoder\<close> reads one value after
  another with \<open>scan\<close>.\<close>

definition json_parse :: "string \<Rightarrow> json option" where
  "json_parse s = (case scan s of Some (v, t) \<Rightarrow> if skip_space t = [] then Some v else None | None \<Rightarrow> None)"

section \<open>Decoding into Go values\<close>

fun dec_string :: "json \<Rightarrow> string option" where
  "dec_string JNull = Some []"
| "dec_string (JStr s) = Some s"
| "dec_string _ = None"

fun dec_bool :: "json \<Rightarrow> bool option" where
  "dec_bool JNull = Some False"
| "dec_bool (JBool b) = Some b"
| "dec_bool _ = None"

fun dec_int :: "json \<Rightarrow> int option" where
  "dec_int JNull = Some 0"
| "dec_int (JNum t) = (if snd (Atoi t) then Some (fst (Atoi t)) else None)"
| "dec_int _ = None"

fun dec_list :: "(json \<Rightarrow> 'a option) \<Rightarrow> json \<Rightarrow> 'a list option" where
  "dec_list f JNull = Some []"
| "dec_list f (JArr vs) = those (map f vs)"
| "dec_list f _ = None"

text \<open>A map of raw messages: the later of two equal keys wins.\<close>

fun dec_raw_map :: "json \<Rightarrow> (string, json) go_map option" where
  "dec_raw_map JNull = Some []"
| "dec_raw_map (JObj ms) = Some (fold (\<lambda>(k, v) m. map_put k v m) ms [])"
| "dec_raw_map _ = None"

text \<open>The members of an object to be decoded into a struct; nothing for a null.\<close>

fun members :: "json \<Rightarrow> (string \<times> json) list option" where
  "members JNull = Some []"
| "members (JObj ms) = Some ms"
| "members _ = None"

definition dec_field :: "string \<Rightarrow> (json \<Rightarrow> 'a option) \<Rightarrow> 'a \<Rightarrow> (string \<times> json) list \<Rightarrow> 'a option" where
  "dec_field tag f zero ms =
     fold (\<lambda>(k, v) cur. if EqualFold k tag then (case cur of None \<Rightarrow> None | Some x \<Rightarrow> if v = JNull then cur else f v)
                        else cur) ms (Some zero)"


section \<open>The scanner consumes its text\<close>

lemma length_skip_space [simp]: "length (skip_space s) \<le> length s"
  by (simp add: skip_space_def length_dropWhile_le)

lemma skip_space_Cons: "skip_space s = c # t \<Longrightarrow> length t < length s"
  using length_skip_space [of s] by simp

lemma scan_string_shorter: "scan_string s = Some (x, t) \<Longrightarrow> length t < length s"
proof (induction "length s" arbitrary: s x rule: less_induct)
  case less
  have drops: "length t < length s" if "scan_string (drop k r) = Some (y, t)" "length (drop k r) < length s" for k r y
    using less.hyps [OF that(2) that(1)] that(2) by linarith
  have tails: "length t < length s" if "scan_string r = Some (y, t)" "length r < length s" for r y
    using drops [of 0] that by simp
  from less.prems show ?case
    by (subst (asm) scan_string.simps)
      (auto split: list.splits if_splits option.splits prod.splits dest!: drops tails)
qed

lemma scan_digits_le: "scan_digits s = (d, t) \<Longrightarrow> length d + length t = length s"
  by (auto simp: scan_digits_def simp flip: length_append)

lemma scan_frac_le: "scan_frac s = Some (f, t) \<Longrightarrow> length t \<le> length s"
  by (auto simp: scan_frac_def split: list.splits if_splits prod.splits dest: scan_digits_le)

lemma scan_exp_le: "scan_exp s = Some (f, t) \<Longrightarrow> length t \<le> length s"
  by (auto simp: scan_exp_def Let_def split: list.splits if_splits prod.splits dest!: scan_digits_le)

lemma scan_number_shorter:
  assumes "scan_number s = Some (x, t)"
  shows "length t < length s"
proof -
  define sg where "sg = (case s of x # _ \<Rightarrow> if x = CHR ''-'' then [x] else [] | [] \<Rightarrow> [])"
  obtain d0 u0 where d0: "scan_digits (drop (length sg) s) = (d0, u0)" by fastforce
  obtain d u where d: "(if d0 \<noteq> [] \<and> hd d0 = CHR ''0'' then ([CHR ''0''], tl d0 @ u0) else (d0, u0)) = (d, u)"
    by fastforce
  from assms d0 d have "d \<noteq> []" and "\<exists>f v e. scan_frac u = Some (f, v) \<and> scan_exp v = Some (e, t)"
    by (auto simp: scan_number_def Let_def sg_def [symmetric] split: if_splits option.splits)
  then have "d \<noteq> []" and "length t \<le> length u" by (auto dest!: scan_frac_le scan_exp_le)
  moreover have "length d + length u = length d0 + length u0"
    using d by (cases d0) (auto split: if_splits)
  ultimately show ?thesis using scan_digits_le [OF d0] by (cases d) auto
qed

lemma scan_word_shorter: "scan_word w v s = Some (x, t) \<Longrightarrow> w \<noteq> [] \<Longrightarrow> length t < length s"
  by (cases w) (auto simp: scan_word_def HasPrefix_iff split: if_splits)

lemmas scan_shorter_rules =
  skip_space_Cons scan_string_shorter scan_number_shorter scan_word_shorter

lemma scan_shorter:
  "(scan_value n d s = Some (v, t) \<longrightarrow> length t < length s) \<and>
   (scan_elems n d s = Some (vs, t) \<longrightarrow> length t < length s) \<and>
   (scan_members n d s = Some (ms, t) \<longrightarrow> length t < length s)"
proof (induction n arbitrary: d s v vs ms t)
  case 0
  show ?case by simp
next
  case (Suc n)
  note IHv = Suc.IH [THEN conjunct1, rule_format]
    and IHe = Suc.IH [THEN conjunct2, THEN conjunct1, rule_format]
    and IHm = Suc.IH [THEN conjunct2, THEN conjunct2, rule_format]
  have "length t < length s" if "scan_value (Suc n) d s = Some (v, t)"
    using that
    by (auto split: list.splits if_splits dest!: skip_space_Cons IHe IHm scan_string_shorter scan_number_shorter scan_word_shorter)
  moreover have "length t < length s" if "scan_elems (Suc n) d s = Some (vs, t)"
    using that by (auto split: list.splits if_splits option.splits dest!: skip_space_Cons IHv IHe)
  moreover have "length t < length s" if "scan_members (Suc n) d s = Some (ms, t)"
    using that
    by (auto split: list.splits if_splits option.splits dest!: skip_space_Cons IHv IHm scan_string_shorter)
  ultimately show ?case by blast
qed

lemmas scan_value_shorter = scan_shorter [THEN conjunct1, rule_format]
lemmas scan_elems_shorter = scan_shorter [THEN conjunct2, THEN conjunct1, rule_format]
lemmas scan_members_shorter = scan_shorter [THEN conjunct2, THEN conjunct2, rule_format]


lemma scan_rest_shorter: "scan s = Some (j, t) \<Longrightarrow> length t < length s"
  unfolding scan_def by (rule scan_value_shorter)

section \<open>The bound on the calls is never reached\<close>

lemma scan_fuel:
  "(2 * length s < n \<longrightarrow> 2 * length s < m \<longrightarrow> scan_value n d s = scan_value m d s) \<and>
   (2 * length s + 1 < n \<longrightarrow> 2 * length s + 1 < m \<longrightarrow> scan_elems n d s = scan_elems m d s) \<and>
   (2 * length s + 1 < n \<longrightarrow> 2 * length s + 1 < m \<longrightarrow> scan_members n d s = scan_members m d s)"
proof (induction n arbitrary: m d s)
  case 0
  show ?case by simp
next
  case (Suc n)
  note IHv = Suc.IH [THEN conjunct1, rule_format]
    and IHe = Suc.IH [THEN conjunct2, THEN conjunct1, rule_format]
    and IHm = Suc.IH [THEN conjunct2, THEN conjunct2, rule_format]
  have "scan_value (Suc n) d s = scan_value m d s" if "2 * length s < Suc n" and m: "2 * length s < m"
  proof (cases m)
    case (Suc k)
    have e: "scan_elems n e (x # u) = scan_elems k e (x # u)" "scan_members n e (x # u) = scan_members k e (x # u)"
      if "skip_space s = c # r" "skip_space r = x # u" for c r x u e
      using skip_space_Cons [OF that(1)] skip_space_Cons [OF that(2)] \<open>2 * length s < Suc n\<close> m Suc
      by (auto intro!: IHe IHm)
    show ?thesis unfolding Suc by (simp add: e cong: list.case_cong split: list.split)
  qed (use m in simp)
  moreover have "scan_elems (Suc n) d s = scan_elems m d s"
    if "2 * length s + 1 < Suc n" and m: "2 * length s + 1 < m"
  proof (cases m)
    case (Suc k)
    have v: "scan_value n d s = scan_value k d s" using that Suc by (intro IHv) auto
    have e: "scan_elems n d u = scan_elems k d u" if "scan_value k d s = Some (w, r)" "skip_space r = x # u" for w r x u
      using scan_value_shorter [OF that(1)] skip_space_Cons [OF that(2)] \<open>2 * length s + 1 < Suc n\<close> m Suc
      by (intro IHe) auto
    show ?thesis unfolding Suc by (auto simp: v e split: list.split option.split)
  qed (use m in simp)
  moreover have "scan_members (Suc n) d s = scan_members m d s"
    if "2 * length s + 1 < Suc n" and m: "2 * length s + 1 < m"
  proof (cases m)
    case (Suc k)
    have v: "scan_value n d u = scan_value k d u"
      if "skip_space s = q # r" "scan_string r = Some (key, t)" "skip_space t = x # u" for q r key t x u
      using skip_space_Cons [OF that(1)] scan_string_shorter [OF that(2)] skip_space_Cons [OF that(3)]
        \<open>2 * length s + 1 < Suc n\<close> m Suc by (intro IHv) auto
    have e: "scan_members n d z = scan_members k d z"
      if "skip_space s = q # r" "scan_string r = Some (key, t)" "skip_space t = x # u"
        "scan_value k d u = Some (w, w')" "skip_space w' = y # z" for q r key t x u w w' y z
      using skip_space_Cons [OF that(1)] scan_string_shorter [OF that(2)] skip_space_Cons [OF that(3)]
        scan_value_shorter [OF that(4)] skip_space_Cons [OF that(5)]
        \<open>2 * length s + 1 < Suc n\<close> m Suc by (intro IHm) auto
    show ?thesis unfolding Suc by (auto simp: v e split: list.split option.split)
  qed (use m in simp)
  ultimately show ?case by blast
qed

lemma scan_fuel_enough: "2 * length s < n \<Longrightarrow> scan_value n maxNestingDepth s = scan s"
  unfolding scan_def using scan_fuel [of s n "2 * length s + 1" maxNestingDepth] by simp

section \<open>Reading back what was printed\<close>

text \<open>A compact printing of a value whose strings are ASCII and whose numbers are integers, and the
  proof that the scanner reads it back.\<close>

definition render_char :: "char \<Rightarrow> string" where
  "render_char c =
     (if c = CHR 0x22 \<or> c = CHR 0x5C then [CHR 0x5C, c]
      else if byte c < 32 then [CHR 0x5C, CHR ''u'', CHR ''0'', CHR ''0'', hex_lower (byte c div 16), hex_lower (byte c mod 16)]
      else [c])"

definition render_string :: "string \<Rightarrow> string" where
  "render_string s = [CHR 0x22] @ concat (map render_char s) @ [CHR 0x22]"

fun render :: "json \<Rightarrow> string" where
  "render JNull = ''null''"
| "render (JBool b) = (if b then ''true'' else ''false'')"
| "render (JNum t) = t"
| "render (JStr s) = render_string s"
| "render (JArr vs) = ''['' @ Join '','' (map render vs) @ '']''"
| "render (JObj ms) = ''{'' @ Join '','' (map (\<lambda>(k, v). render_string k @ '':'' @ render v) ms) @ ''}''"

fun printable_json :: "nat \<Rightarrow> json \<Rightarrow> bool" where
  "printable_json d JNull = True"
| "printable_json d (JBool b) = True"
| "printable_json d (JNum t) = (\<exists>i. t = Itoa i)"
| "printable_json d (JStr s) = list_all (\<lambda>c. byte c < 128) s"
| "printable_json d (JArr vs) = (0 < d \<and> list_all (printable_json (d - 1)) vs)"
| "printable_json d (JObj ms) = (0 < d \<and>
     list_all (\<lambda>(k, v). list_all (\<lambda>c. byte c < 128) k \<and> printable_json (d - 1) v) ms)"

text \<open>What may follow a number without becoming part of it.\<close>

definition number_ends :: "string \<Rightarrow> bool" where
  "number_ends r \<longleftrightarrow> (case r of [] \<Rightarrow> True | c # _ \<Rightarrow> \<not> is_digit c \<and> c \<notin> set ''.eE'')"

lemma hex_lower_val: "d < 16 \<Longrightarrow> hex_val (hex_lower d) = Some d"
  by (auto simp: hex_lower_def hex_val_def Let_def)

lemma hex4_control:
  assumes "b < 256"
  shows "hex4_at (CHR ''0'' # CHR ''0'' # hex_lower (b div 16) # hex_lower (b mod 16) # s) = Some b"
proof -
  have "hex_val (hex_lower (b div 16)) = Some (b div 16)" "hex_val (hex_lower (b mod 16)) = Some (b mod 16)"
    using assms by (auto intro!: hex_lower_val)
  moreover have "hex_val (CHR ''0'') = Some 0" by (simp add: hex_val_def)
  ultimately show ?thesis by (simp add: hex4_at_def is_hex_def hex_num_def)
qed

lemma apfst_one: "map_option (apfst ((@) [c])) x = map_option (apfst ((#) c)) x"
  by (cases x) auto

lemma scan_render_char:
  assumes "byte c < 128"
  shows "scan_string (render_char c @ s) = map_option (apfst (\<lambda>x. c # x)) (scan_string s)"
proof -
  consider "c = CHR 0x22 \<or> c = CHR 0x5C" | "byte c < 32" "c \<noteq> CHR 0x22" "c \<noteq> CHR 0x5C"
    | "32 \<le> byte c" "c \<noteq> CHR 0x22" "c \<noteq> CHR 0x5C" by linarith
  then show ?thesis
  proof cases
    case 1
    then show ?thesis by (subst scan_string.simps) (auto simp: render_char_def simple_escape_def)
  next
    case 2
    then show ?thesis
      by (subst scan_string.simps)
        (auto simp: render_char_def hex4_control unicode_escape_def is_surrogate_def encode_rune_def
          apfst_one)
  next
    case 3
    with assms have "rune_len (c # s) = 1" by (simp add: rune_len_def Let_def)
    with 3 show ?thesis by (subst scan_string.simps) (auto simp: render_char_def apfst_one)
  qed
qed

lemma scan_render_string:
  "list_all (\<lambda>c. byte c < 128) s \<Longrightarrow> scan_string (concat (map render_char s) @ CHR 0x22 # r) = Some (s, r)"
proof (induction s)
  case Nil
  show ?case by (subst scan_string.simps) simp
next
  case (Cons c s)
  then show ?case by (simp add: scan_render_char)
qed

lemma nat_text_lead: "hd (nat_text n) = CHR ''0'' \<Longrightarrow> n = 0"
proof (induction n rule: nat_text.induct)
  case (1 n)
  show ?case
  proof (cases "n < 10")
    case True
    with "1.prems" have "digit_char n = CHR ''0''" by (simp add: nat_text.simps [of n])
    then have "(of_char (digit_char n) :: nat) = 48" by simp
    with True show ?thesis by (simp add: of_char_digit_char)
  next
    case False
    with "1.prems" nat_text_digits [of "n div 10"] have "hd (nat_text (n div 10)) = CHR ''0''"
      by (subst (asm) nat_text.simps) auto
    with "1.IH" False show ?thesis by auto
  qed
qed

lemma scan_digits_text:
  assumes "list_all is_digit d" and "number_ends r"
  shows "scan_digits (d @ r) = (d, r)"
  using assms by (induction d) (auto simp: scan_digits_def number_ends_def split: list.splits)

lemma scan_number_tail: "number_ends r \<Longrightarrow> scan_frac r = Some ([], r) \<and> scan_exp r = Some ([], r)"
  by (auto simp: number_ends_def scan_frac_def scan_exp_def split: list.splits)

lemma scan_nat_text:
  assumes "number_ends r"
  shows "scan_number (nat_text n @ r) = Some (nat_text n, r)"
    and "scan_number (CHR ''-'' # nat_text n @ r) = Some (CHR ''-'' # nat_text n, r)"
proof -
  note d = nat_text_digits [of n]
  obtain c t where n: "nat_text n = c # t" "is_digit c" using d by (cases "nat_text n") auto
  have zero: "c = CHR ''0'' \<Longrightarrow> t = []" using nat_text_lead [of n] n by (auto simp: nat_text.simps [of 0])
  have s: "scan_digits (c # t @ r) = (c # t, r)" using scan_digits_text [of "nat_text n" r] d assms n by simp
  from s zero scan_number_tail [OF assms] digit_not_sign [OF n(2)] n(1)
  show "scan_number (nat_text n @ r) = Some (nat_text n, r)"
    and "scan_number (CHR ''-'' # nat_text n @ r) = Some (CHR ''-'' # nat_text n, r)"
    by (auto simp: scan_number_def Let_def)
qed

lemma scan_Itoa: "number_ends r \<Longrightarrow> scan_number (Itoa i @ r) = Some (Itoa i, r)"
  using scan_nat_text by (auto simp: Itoa_def)


definition value_starts :: "string \<Rightarrow> bool" where
  "value_starts s \<longleftrightarrow> (case s of [] \<Rightarrow> False | c # _ \<Rightarrow> \<not> json_space c \<and> c \<notin> set '']},:'')"

lemma skip_space_start [simp]: "\<not> json_space c \<Longrightarrow> skip_space (c # s) = c # s"
  by (simp add: skip_space_def)

lemma json_space_punct [simp]:
  "\<not> json_space (CHR ''{'')" "\<not> json_space (CHR ''['')" "\<not> json_space (CHR ''}'')" "\<not> json_space (CHR '']'')"
  "\<not> json_space (CHR '','')" "\<not> json_space (CHR '':'')" "\<not> json_space (CHR 0x22)"
  "\<not> json_space (CHR ''t'')" "\<not> json_space (CHR ''f'')" "\<not> json_space (CHR ''n'')"
  by (simp_all add: json_space_def)

lemma number_ends_punct [simp]:
  "number_ends (CHR ''}'' # r)" "number_ends (CHR '']'' # r)" "number_ends (CHR '','' # r)" "number_ends []"
  by (simp_all add: number_ends_def is_digit_def)

lemma Itoa_start:
  obtains c t where "Itoa i = c # t" and "c = CHR ''-'' \<or> is_digit c"
proof (cases "Itoa i")
  case (Cons c t)
  moreover have "c = CHR ''-'' \<or> is_digit c"
    using Cons nat_text_digits [of "nat i"] by (auto simp: Itoa_def split: if_splits)
  ultimately show ?thesis by (rule that)
qed simp

lemma digit_no_punct:
  "is_digit c \<Longrightarrow> \<not> json_space c \<and> c \<notin> set ''{}[]tfn,:'' \<and> c \<noteq> CHR 0x22"
  by (auto simp: is_digit_def json_space_def)

lemma render_starts: "printable_json d j \<Longrightarrow> value_starts (render j @ r)"
proof (cases j)
  case (JNum t)
  assume "printable_json d j"
  with JNum obtain i where "t = Itoa i" by auto
  with JNum show ?thesis
    by (cases rule: Itoa_start [of i]) (auto simp: value_starts_def json_space_def dest: digit_no_punct)
qed (auto simp: value_starts_def render_string_def json_space_def)

lemma value_startsE:
  assumes "value_starts s"
  obtains c t where "s = c # t" "\<not> json_space c" "c \<noteq> CHR '']''" "c \<noteq> CHR ''}''"
  using assms by (cases s) (auto simp: value_starts_def)

definition reads_back :: "nat \<Rightarrow> json \<Rightarrow> bool" where
  "reads_back d j \<longleftrightarrow> (\<forall>n r. number_ends r \<longrightarrow> 2 * length (render j @ r) < n \<longrightarrow>
     scan_value n d (render j @ r) = Some (j, r))"

lemma scan_render_elems:
  "\<lbrakk>list_all (reads_back d) vs; vs \<noteq> []; 2 * length (Join '','' (map render vs) @ CHR '']'' # r) + 1 < n\<rbrakk> \<Longrightarrow>
   scan_elems n d (Join '','' (map render vs) @ CHR '']'' # r) = Some (vs, r)"
proof (induction vs arbitrary: n)
  case Nil
  then show ?case by simp
next
  case (Cons v vs)
  then obtain k where n: "n = Suc k" by (cases n) auto
  show ?case
  proof (cases vs)
    case Nil
    with Cons.prems n show ?thesis by (simp add: reads_back_def)
  next
    case (Cons w ws)
    define rest where "rest = Join '','' (map render (w # ws)) @ CHR '']'' # r"
    have "scan_value k d (render v @ CHR '','' # rest) = Some (v, CHR '','' # rest)"
      using Cons.prems n Cons by (simp add: reads_back_def rest_def)
    moreover have "scan_elems k d rest = Some (w # ws, r)"
      using Cons.IH [of k] Cons.prems n Cons by (simp add: rest_def)
    ultimately show ?thesis using n Cons by (simp add: rest_def)
  qed
qed


lemma scan_render_members:
  "\<lbrakk>list_all (\<lambda>(k, v). list_all (\<lambda>c. byte c < 128) k \<and> reads_back d v) ms; ms \<noteq> [];
    2 * length (Join '','' (map (\<lambda>(k, v). render_string k @ '':'' @ render v) ms) @ CHR ''}'' # r) + 1 < n\<rbrakk> \<Longrightarrow>
   scan_members n d (Join '','' (map (\<lambda>(k, v). render_string k @ '':'' @ render v) ms) @ CHR ''}'' # r) = Some (ms, r)"
proof (induction ms arbitrary: n)
  case Nil
  then show ?case by simp
next
  case (Cons kv ms)
  obtain key v where kv: "kv = (key, v)" by fastforce
  from Cons.prems obtain k where n: "n = Suc k" by (cases n) auto
  have key: "scan_string (concat (map render_char key) @ CHR 0x22 # t) = Some (key, t)" for t
    using Cons.prems kv by (simp add: scan_render_string)
  show ?case
  proof (cases ms)
    case Nil
    have "scan_value k d (render v @ CHR ''}'' # r) = Some (v, CHR ''}'' # r)"
      using Cons.prems n Nil kv by (simp add: reads_back_def render_string_def)
    with Nil n kv show ?thesis by (simp add: render_string_def key)
  next
    case (Cons w ws)
    define rest where "rest = Join '','' (map (\<lambda>(k, v). render_string k @ '':'' @ render v) (w # ws)) @ CHR ''}'' # r"
    have "scan_value k d (render v @ CHR '','' # rest) = Some (v, CHR '','' # rest)"
      using Cons.prems n Cons kv by (simp add: reads_back_def rest_def render_string_def)
    moreover have "scan_members k d rest = Some (w # ws, r)"
      using Cons.IH [of k] Cons.prems n Cons kv by (simp add: rest_def)
    moreover have eq: "Join '','' (map (\<lambda>(k, v). render_string k @ '':'' @ render v) (kv # ms)) @ CHR ''}'' # r =
      CHR 0x22 # concat (map render_char key) @ CHR 0x22 # CHR '':'' # render v @ CHR '','' # rest"
      using Cons kv by (simp add: rest_def render_string_def)
    ultimately show ?thesis unfolding eq n Cons kv by (simp add: key)
  qed
qed

lemma reads_backI:
  assumes "\<And>k r. number_ends r \<Longrightarrow> scan_value (Suc k) d (render j @ r) = Some (j, r)"
  shows "reads_back d j"
  unfolding reads_back_def
proof (intro allI impI)
  fix n r
  assume "number_ends r" "2 * length (render j @ r) < n"
  with assms show "scan_value n d (render j @ r) = Some (j, r)" by (cases n) auto
qed

lemma reads_back: "printable_json d j \<Longrightarrow> reads_back d j"
proof (induction j arbitrary: d)
  case (JNum t)
  then obtain i where i: "t = Itoa i" by auto
  obtain c u where c: "Itoa i = c # u" "c = CHR ''-'' \<or> is_digit c" by (rule Itoa_start)
  have "\<not> json_space c \<and> c \<notin> set ''{[tfn'' \<and> c \<noteq> CHR 0x22"
    using c(2) by (auto simp: json_space_def dest: digit_no_punct)
  moreover have "number_ends r \<Longrightarrow> scan_number (c # u @ r) = Some (Itoa i, r)" for r
    using scan_Itoa [of r i] c(1) by simp
  ultimately show ?case
    unfolding i by (intro reads_backI) (auto simp: c(1))
next
  case (JArr vs)
  then have vs: "list_all (reads_back (d - 1)) vs" "0 < d" by (auto simp: list_all_iff)
  show ?case
  proof (cases vs)
    case Nil
    with vs show ?thesis by (intro reads_backI) auto
  next
    case (Cons w ws)
    show ?thesis
      unfolding reads_back_def
    proof (intro allI impI)
      fix n r
      assume n: "2 * length (render (JArr vs) @ r) < n"
      then obtain k where k: "n = Suc k" by (cases n) auto
      have "printable_json (d - 1) w" using JArr.prems Cons by simp
      from render_starts [OF this] have "value_starts (Join '','' (map render vs) @ CHR '']'' # r)"
        using Cons by (cases ws) auto
      then obtain c t where ct: "Join '','' (map render vs) @ CHR '']'' # r = c # t" "\<not> json_space c" "c \<noteq> CHR '']''"
        by (rule value_startsE)
      have "scan_elems k (d - 1) (c # t) = Some (vs, r)"
        using scan_render_elems [OF vs(1), of r k] n k Cons ct(1) by simp
      with ct vs(2) k show "scan_value n d (render (JArr vs) @ r) = Some (JArr vs, r)" by simp
    qed
  qed
next
  case (JObj ms)
  then have ms: "list_all (\<lambda>(k, v). list_all (\<lambda>c. byte c < 128) k \<and> reads_back (d - 1) v) ms" "0 < d"
    by (fastforce simp: list_all_iff)+
  show ?case
  proof (cases ms)
    case Nil
    with ms show ?thesis by (intro reads_backI) auto
  next
    case (Cons w ws)
    obtain key v where kv: "w = (key, v)" by fastforce
    show ?thesis
      unfolding reads_back_def
    proof (intro allI impI)
      fix n r
      assume n: "2 * length (render (JObj ms) @ r) < n"
      then obtain k where k: "n = Suc k" by (cases n) auto
      let ?s = "Join '','' (map (\<lambda>(k, v). render_string k @ '':'' @ render v) ms) @ CHR ''}'' # r"
      obtain t where t: "?s = CHR 0x22 # t" using Cons kv by (cases ws) (auto simp: render_string_def)
      have "scan_members k (d - 1) ?s = Some (ms, r)"
        using scan_render_members [OF ms(1), of r k] n k Cons by simp
      with ms(2) k t show "scan_value n d (render (JObj ms) @ r) = Some (JObj ms, r)" by simp
    qed
  qed
qed (intro reads_backI; auto simp: render_string_def scan_render_string scan_word_def)+

lemma scan_render:
  "printable_json maxNestingDepth j \<Longrightarrow> number_ends r \<Longrightarrow> scan (render j @ r) = Some (j, r)"
  unfolding scan_def by (rule reads_back [unfolded reads_back_def, rule_format]) simp_all

lemma json_parse_render: "printable_json maxNestingDepth j \<Longrightarrow> json_parse (render j) = Some j"
  using scan_render [of j "[]"] by (simp add: json_parse_def skip_space_def)

end
