(* ===== verification/Dog.thy ===== *)
theory Dog
  imports Config Json "HOL-Library.Monad_Syntax"
begin

text \<open>
  The DNS client (\<open>src/dog.go\<close>): the arguments of dog, the decoding of the JSON it prints into a
  \<open>Lookup\<close>, and the retry of a lookup that timed out. The dog process is the parameter \<open>runner\<close>.
\<close>

section \<open>The query\<close>

definition dogArgs :: "string \<Rightarrow> int \<Rightarrow> string \<Rightarrow> string \<Rightarrow> string list" where
  "dogArgs server timeoutSec name qtype =
     [''-J'', ''-Z'', ''ad'', ''--timeout'', Itoa (maxInt 1 timeoutSec)] @
     (if server \<noteq> [] then [''-n'', server] else []) @ [''-q'', name, ''-t'', qtype]"

definition minAttempt :: int where "minAttempt = 1000000000"

text \<open>\<open>firstAttemptContext\<close>: the time the first attempt gets, in nanoseconds, from the time left
  until the deadline of the context. The derived context ends no later than the context itself.\<close>

definition firstAttempt :: "int option \<Rightarrow> int option" where
  "firstAttempt left =
     (case left of
        None \<Rightarrow> None
      | Some t \<Rightarrow> let half = (if t < 0 then - ((- t) div 2) else t div 2)
                  in Some (min t (if half < minAttempt then minAttempt else half)))"

section \<open>The documents dog prints\<close>

record dogRecord =
  dr_Name :: string
  dr_TTL :: int
  dr_Type :: string
  dr_Data :: "(string, json) go_map"

record dogResponse =
  dp_AD :: bool
  dp_Rcode :: string
  dp_Answers :: "dogRecord list"
  dp_Authorities :: "dogRecord list"

record dogOutput =
  do_Responses :: "dogResponse list"
  do_Error :: bool
  do_ErrorMessage :: string

definition dec_record :: "json \<Rightarrow> dogRecord option" where
  "dec_record j = do {
     ms \<leftarrow> members j;
     name \<leftarrow> dec_field ''name'' dec_string [] ms;
     ttl \<leftarrow> dec_field ''ttl'' dec_int 0 ms;
     typ \<leftarrow> dec_field ''type'' dec_string [] ms;
     data \<leftarrow> dec_field ''data'' dec_raw_map [] ms;
     Some \<lparr>dr_Name = name, dr_TTL = ttl, dr_Type = typ, dr_Data = data\<rparr> }"

definition dec_flags :: "json \<Rightarrow> (bool \<times> string) option" where
  "dec_flags j = do {
     ms \<leftarrow> members j;
     ad \<leftarrow> dec_field ''ad'' dec_bool False ms;
     rcode \<leftarrow> dec_field ''rcode'' dec_string [] ms;
     Some (ad, rcode) }"

definition dec_response :: "json \<Rightarrow> dogResponse option" where
  "dec_response j = do {
     ms \<leftarrow> members j;
     flags \<leftarrow> dec_field ''flags'' dec_flags (False, []) ms;
     answers \<leftarrow> dec_field ''answers'' (dec_list dec_record) [] ms;
     authorities \<leftarrow> dec_field ''authorities'' (dec_list dec_record) [] ms;
     Some \<lparr>dp_AD = fst flags, dp_Rcode = snd flags, dp_Answers = answers, dp_Authorities = authorities\<rparr> }"

definition dec_output :: "json \<Rightarrow> dogOutput option" where
  "dec_output j = do {
     ms \<leftarrow> members j;
     responses \<leftarrow> dec_field ''responses'' (dec_list dec_response) [] ms;
     err \<leftarrow> dec_field ''error'' dec_bool False ms;
     msg \<leftarrow> dec_field ''error_message'' dec_string [] ms;
     Some \<lparr>do_Responses = responses, do_Error = err, do_ErrorMessage = msg\<rparr> }"

text \<open>The loop of \<open>firstDogResponse\<close> and \<open>dogErrorMessage\<close>: the documents are decoded one after the
  other until one has what is looked for, or decoding fails.\<close>

function first_doc :: "(dogOutput \<Rightarrow> 'a option) \<Rightarrow> string \<Rightarrow> 'a option" where
  "first_doc pick s =
     (case scan s of
        None \<Rightarrow> None
      | Some (j, rest) \<Rightarrow>
          (case dec_output j of
             None \<Rightarrow> None
           | Some doc \<Rightarrow> (case pick doc of Some x \<Rightarrow> Some x | None \<Rightarrow> first_doc pick rest)))"
  by pat_completeness auto
termination by (relation "measure (length \<circ> snd)") (auto dest: scan_rest_shorter)

declare first_doc.simps [simp del]

definition firstDogResponse :: "string \<Rightarrow> dogResponse option" where
  "firstDogResponse out = first_doc (\<lambda>doc. case do_Responses doc of r # _ \<Rightarrow> Some r | [] \<Rightarrow> None) out"

definition dogErrorMessage :: "string \<Rightarrow> string" where
  "dogErrorMessage err =
     (case first_doc (\<lambda>doc. if do_Error doc \<and> do_ErrorMessage doc \<noteq> [] then Some (do_ErrorMessage doc) else None) err of
        Some msg \<Rightarrow> msg | None \<Rightarrow> [])"

section \<open>Record data\<close>

definition data_str :: "(string, json) go_map \<Rightarrow> string \<Rightarrow> string" where
  "data_str d k = (case Option.bind (map_of d k) dec_string of Some s \<Rightarrow> s | None \<Rightarrow> [])"

definition data_num :: "(string, json) go_map \<Rightarrow> string \<Rightarrow> int" where
  "data_num d k = (case Option.bind (map_of d k) dec_int of Some n \<Rightarrow> n | None \<Rightarrow> 0)"

definition data_flag :: "(string, json) go_map \<Rightarrow> string \<Rightarrow> bool" where
  "data_flag d k = (case Option.bind (map_of d k) dec_bool of Some b \<Rightarrow> b | None \<Rightarrow> False)"

definition data_strs :: "(string, json) go_map \<Rightarrow> string \<Rightarrow> string list" where
  "data_strs d k = (case Option.bind (map_of d k) (dec_list dec_string) of Some ss \<Rightarrow> ss | None \<Rightarrow> [])"

definition upper_char :: "char \<Rightarrow> char" where
  "upper_char c = (if CHR ''a'' \<le> c \<and> c \<le> CHR ''z'' then char_of (byte c - 32) else c)"

definition rdataRenderers :: "(string, (string, json) go_map \<Rightarrow> string) go_map" where
  "rdataRenderers =
     [(''A'', \<lambda>d. data_str d ''address''),
      (''AAAA'', \<lambda>d. data_str d ''address''),
      (''NS'', \<lambda>d. data_str d ''nameserver''),
      (''CNAME'', \<lambda>d. data_str d ''domain''),
      (''PTR'', \<lambda>d. data_str d ''cname''),
      (''MX'', \<lambda>d. Itoa (data_num d ''preference'') @ '' '' @ data_str d ''exchange''),
      (''TXT'', \<lambda>d. Join [] (data_strs d ''messages'')),
      (''CAA'', \<lambda>d. (if data_flag d ''critical'' then ''128'' else ''0'') @ '' '' @ data_str d ''tag'' @ '' '' @
                      Quote (data_str d ''value'')),
      (''TLSA'', \<lambda>d. Itoa (data_num d ''certificate_usage'') @ '' '' @ Itoa (data_num d ''selector'') @ '' '' @
                       Itoa (data_num d ''matching_type'') @ '' '' @ map upper_char (data_str d ''certificate_data'')),
      (''DS'', \<lambda>d. Itoa (data_num d ''key_tag'') @ '' '' @ Itoa (data_num d ''algorithm'') @ '' '' @
                     Itoa (data_num d ''digest_type'') @ '' '' @ map upper_char (data_str d ''digest'')),
      (''DNSKEY'', \<lambda>d. Itoa (data_num d ''flags'') @ '' '' @ Itoa (data_num d ''protocol'') @ '' '' @
                         Itoa (data_num d ''algorithm'') @ '' '' @ data_str d ''public_key''),
      (''SOA'', \<lambda>d. data_str d ''mname'' @ '' '' @ data_str d ''rname'' @ '' '' @ Itoa (data_num d ''serial'') @ '' '' @
                      Itoa (data_num d ''refresh'') @ '' '' @ Itoa (data_num d ''retry'') @ '' '' @
                      Itoa (data_num d ''expire'') @ '' '' @ Itoa (data_num d ''minimum''))]"

definition txtLengthOctets :: "nat \<Rightarrow> nat" where
  "txtLengthOctets n = (if n = 0 then 1 else (n + 254) div 255)"

definition dogRR :: "dogRecord \<Rightarrow> RR option" where
  "dogRR rec =
     (case map_of rdataRenderers (dr_Type rec) of
        None \<Rightarrow> None
      | Some rend \<Rightarrow>
          let d = dr_Data rec; rdata = rend d
          in Some \<lparr>rr_Owner = ToLower (dr_Name rec), rr_TTL = dr_TTL rec, rr_Type = dr_Type rec, rr_RData = rdata,
                   rr_RDLen = (if dr_Type rec = ''TXT''
                               then sum_list (map (\<lambda>s. length s + txtLengthOctets (length s)) (data_strs d ''messages''))
                               else if dr_Type rec = ''CNAME'' then wireNameLen rdata else 0)\<rparr>)"

section \<open>From a response to a lookup\<close>

definition answer_step :: "dogRecord \<Rightarrow> Lookup \<Rightarrow> Lookup" where
  "answer_step rec l =
     (case dogRR rec of
        None \<Rightarrow> l
      | Some rr \<Rightarrow>
          let l1 = l\<lparr>lk_rrs := lk_rrs l @ [rr]\<rparr>
          in if rr_Type rr = lk_Type l then l1\<lparr>lk_Records := lk_Records l @ [rr_RData rr]\<rparr>
             else if rr_Type rr = ''CNAME'' then l1\<lparr>lk_CNAME := lk_CNAME l @ [rr_RData rr]\<rparr>
             else l1)"

definition addAnswers :: "dogRecord list \<Rightarrow> Lookup \<Rightarrow> Lookup" where
  "addAnswers answers l = fold answer_step answers l"

definition setStatus :: "dogResponse \<Rightarrow> Lookup \<Rightarrow> Lookup" where
  "setStatus resp l =
     (let rcode = dp_Rcode resp; trust = (if dp_AD resp then TrustSecure else TrustInsecure)
      in if rcode = ''NXDOMAIN'' then l\<lparr>lk_Status := StatusNXDomain, lk_Trust := trust\<rparr>
         else if rcode \<noteq> ''NOERROR'' then l\<lparr>lk_Status := StatusFailure, lk_Error := ''resolver answered '' @ rcode\<rparr>
         else if length (lk_Records l) > 0 then l\<lparr>lk_Status := StatusOK, lk_Trust := trust\<rparr>
         else l\<lparr>lk_Status := StatusNXRRSet, lk_Trust := trust\<rparr>)"

definition authority_step :: "dogRecord \<Rightarrow> Lookup \<Rightarrow> Lookup" where
  "authority_step rec l =
     (case dogRR rec of
        Some rr \<Rightarrow> if rr_Type rr = ''SOA'' then l\<lparr>lk_rrs := lk_rrs l @ [rr]\<rparr> else l
      | None \<Rightarrow> l)"

definition fillFromResponse :: "dogResponse \<Rightarrow> Lookup \<Rightarrow> Lookup" where
  "fillFromResponse resp l =
     setStatus resp (fold authority_step (dp_Authorities resp) (addAnswers (dp_Answers resp) l))"

definition networkStatus :: "string \<Rightarrow> LookupStatus \<times> string" where
  "networkStatus msg =
     (if Contains (ToLower msg) ''timed out'' then (StatusTimeout, ''dns lookup timed out'')
      else (StatusFailure, ''dog: '' @ msg))"

definition errText :: "(int \<times> string) option \<Rightarrow> string" where
  "errText err = (case err of None \<Rightarrow> [] | Some (code, msg) \<Rightarrow> msg)"

definition parseDogOutput :: "string \<Rightarrow> string \<Rightarrow> (int \<times> string) option \<Rightarrow> string \<Rightarrow> Lookup" where
  "parseDogOutput out err runErr qtype =
     (let l = zero_Lookup\<lparr>lk_Type := qtype\<rparr>
      in case firstDogResponse out of
           Some resp \<Rightarrow> fillFromResponse resp l
         | None \<Rightarrow>
             let msg = dogErrorMessage err
             in if msg \<noteq> [] then l\<lparr>lk_Status := fst (networkStatus msg), lk_Error := snd (networkStatus msg)\<rparr>
                else l\<lparr>lk_Status := StatusFailure,
                       lk_Error := ''dog: '' @ firstNonEmpty [firstLine (TrimSpace err), errText runErr, ''no response'']\<rparr>)"

section \<open>One lookup\<close>

definition dogOptionsError :: int where "dogOptionsError = 3"

definition exitCode :: "(int \<times> string) option \<Rightarrow> int" where
  "exitCode err = (case err of None \<Rightarrow> - 1 | Some (code, msg) \<Rightarrow> code)"

definition timed_out_lookup :: "string \<Rightarrow> string \<Rightarrow> Lookup" where
  "timed_out_lookup name qtype = zero_Lookup\<lparr>lk_Name := name, lk_Type := qtype, lk_Status := StatusTimeout,
     lk_Error := ''dns lookup timed out''\<rparr>"

definition dogOnce :: "runner \<Rightarrow> string \<Rightarrow> string \<Rightarrow> int \<Rightarrow> string \<Rightarrow> string \<Rightarrow> Lookup" where
  "dogOnce run dogPath server timeoutSec name qtype =
     (let r = run dogPath (dogArgs server timeoutSec name qtype)
      in if tool_timeout r then timed_out_lookup name qtype
         else let l = (parseDogOutput (tool_out r) (tool_err r) (tool_error r) qtype)\<lparr>lk_Name := name\<rparr>
              in if exitCode (tool_error r) = dogOptionsError
                 then l\<lparr>lk_unqueryable := True,
                        lk_Error := ''dog cannot query the name: '' @ TrimPrefix (firstLine (TrimSpace (tool_err r))) ''dog: ''\<rparr>
                 else l)"

text \<open>\<open>dnsLookup\<close>: \<open>first\<close> is the runner under the first attempt's context, \<open>again\<close> the runner under the
  whole context, and \<open>alive\<close> says whether that context had not ended after the first attempt.\<close>

definition dnsLookup :: "runner \<Rightarrow> runner \<Rightarrow> bool \<Rightarrow> string \<Rightarrow> string \<Rightarrow> int \<Rightarrow> string \<Rightarrow> string \<Rightarrow> Lookup" where
  "dnsLookup first again alive dogPath server timeoutSec name qtype =
     (let l = dogOnce first dogPath server timeoutSec name qtype
      in if lk_Status l = StatusTimeout \<and> alive
         then (dogOnce again dogPath server timeoutSec name qtype)\<lparr>lk_Retries := 1\<rparr> else l)"


section \<open>Lemmas\<close>

text \<open>The status and the data of a lookup agree: what every function below keeps.\<close>

definition lookup_sound :: "Lookup \<Rightarrow> bool" where
  "lookup_sound l \<longleftrightarrow>
     (lk_Status l = StatusOK \<longrightarrow> lk_Records l \<noteq> []) \<and>
     (lk_Trust l \<noteq> TrustNone \<longrightarrow> Answered l) \<and>
     (Answered l \<longrightarrow> lk_Trust l \<in> {TrustSecure, TrustInsecure}) \<and>
     (lk_Status l \<in> {StatusFailure, StatusTimeout} \<longrightarrow> lk_Error l \<noteq> []) \<and>
     lk_Status l \<noteq> StatusNone"

lemma answer_step_keeps [simp]:
  "lk_Type (answer_step r l) = lk_Type l" "lk_Trust (answer_step r l) = lk_Trust l"
  "lk_Retries (answer_step r l) = lk_Retries l" "lk_Error (answer_step r l) = lk_Error l"
  "lk_Name (answer_step r l) = lk_Name l" "lk_unqueryable (answer_step r l) = lk_unqueryable l"
  by (auto simp: answer_step_def Let_def split: option.split)

lemma authority_step_keeps [simp]:
  "lk_Type (authority_step r l) = lk_Type l" "lk_Trust (authority_step r l) = lk_Trust l"
  "lk_Retries (authority_step r l) = lk_Retries l" "lk_Error (authority_step r l) = lk_Error l"
  "lk_Name (authority_step r l) = lk_Name l" "lk_unqueryable (authority_step r l) = lk_unqueryable l"
  "lk_Records (authority_step r l) = lk_Records l" "lk_CNAME (authority_step r l) = lk_CNAME l"
  by (auto simp: authority_step_def Let_def split: option.split)

lemma fold_keeps:
  "(\<And>x s. f (g x s) = f s) \<Longrightarrow> f (fold g xs s) = f s"
  by (induction xs arbitrary: s) auto

lemma addAnswers_keeps [simp]:
  "lk_Type (addAnswers rs l) = lk_Type l" "lk_Trust (addAnswers rs l) = lk_Trust l"
  "lk_Retries (addAnswers rs l) = lk_Retries l"
  by (simp_all add: addAnswers_def fold_keeps [of lk_Type] fold_keeps [of lk_Trust] fold_keeps [of lk_Retries])

lemma setStatus_sound: "lk_Trust l = TrustNone \<Longrightarrow> lookup_sound (setStatus resp l)"
  by (auto simp: setStatus_def lookup_sound_def Let_def Answered_def)

lemma setStatus_keeps [simp]:
  "lk_Type (setStatus r l) = lk_Type l" "lk_Retries (setStatus r l) = lk_Retries l"
  "lk_Records (setStatus r l) = lk_Records l" "lk_CNAME (setStatus r l) = lk_CNAME l"
  "lk_rrs (setStatus r l) = lk_rrs l"
  by (auto simp: setStatus_def Let_def)

lemma fillFromResponse_sound:
  assumes "lk_Trust l = TrustNone"
  shows "lookup_sound (fillFromResponse resp l) \<and> lk_Type (fillFromResponse resp l) = lk_Type l \<and>
    lk_Retries (fillFromResponse resp l) = lk_Retries l"
  using assms
  by (auto simp: fillFromResponse_def fold_keeps [of lk_Trust] fold_keeps [of lk_Type] fold_keeps [of lk_Retries]
      intro!: setStatus_sound)

lemma networkStatus_cases: "networkStatus msg \<in> {(StatusTimeout, ''dns lookup timed out''), (StatusFailure, ''dog: '' @ msg)}"
  by (simp add: networkStatus_def)

lemma parseDogOutput_sound:
  "lookup_sound (parseDogOutput out err runErr qtype) \<and> lk_Type (parseDogOutput out err runErr qtype) = qtype \<and>
   lk_Retries (parseDogOutput out err runErr qtype) = 0"
proof (cases "firstDogResponse out")
  case None
  then show ?thesis
    using networkStatus_cases [of "dogErrorMessage err"]
    by (auto simp: parseDogOutput_def Let_def lookup_sound_def Answered_def zero_Lookup_def)
next
  case (Some resp)
  then show ?thesis
    using fillFromResponse_sound [of "zero_Lookup\<lparr>lk_Type := qtype\<rparr>" resp]
    by (simp add: parseDogOutput_def Let_def zero_Lookup_def)
qed

lemma dogOnce_sound:
  "lookup_sound (dogOnce run dogPath server t name qtype) \<and> lk_Name (dogOnce run dogPath server t name qtype) = name \<and>
   lk_Type (dogOnce run dogPath server t name qtype) = qtype \<and> lk_Retries (dogOnce run dogPath server t name qtype) = 0"
  using parseDogOutput_sound
  by (auto simp: dogOnce_def Let_def timed_out_lookup_def lookup_sound_def Answered_def zero_Lookup_def)

section \<open>Properties\<close>

text \<open>
  C22. Whatever dog prints and however it exits, a lookup is well formed: it has a status; status ok comes
  with records; an answer (positive or negative) carries the resolver's trust verdict and nothing
  else does; a failure or a timeout carries an error text. It is about the name and type asked, and
  is retried at most once.
\<close>
theorem dnsLookup_sound:
  fixes first again :: runner and alive :: bool and dogPath server name qtype :: string and t :: int
  defines "l \<equiv> dnsLookup first again alive dogPath server t name qtype"
  shows "lookup_sound l \<and> lk_Name l = name \<and> lk_Type l = qtype \<and> lk_Retries l \<le> 1"
  using dogOnce_sound [of first dogPath server t name qtype] dogOnce_sound [of again dogPath server t name qtype]
  by (auto simp: l_def dnsLookup_def Let_def lookup_sound_def Answered_def)

text \<open>
  The length octets of a TXT message: dog joins a character-string of 255 bytes with the one after
  it, and for the message it makes of \<open>k\<close> full strings and a non-empty last one the count is the
  number of strings, so the record data is exactly as long as on the wire.
\<close>
theorem txtLengthOctets_wire:
  assumes "list_all (\<lambda>s. length s = 255) full" and "0 < length lst" and "length lst \<le> 255"
  shows "length (concat (full @ [lst])) + txtLengthOctets (length (concat (full @ [lst]))) =
    sum_list (map (\<lambda>s. 1 + length s) (full @ [lst]))"
proof -
  have f: "length (concat full) = 255 * length full" "sum_list (map (\<lambda>s. 1 + length s) full) = 256 * length full"
    using assms(1) by (induction full) auto
  have "(255 * k + n + 254) div 255 = k + 1" if "0 < n" "n \<le> 255" for k n :: nat
    using that by (auto intro!: div_nat_eqI)
  with assms(2,3) f show ?thesis by (simp add: txtLengthOctets_def)
qed

theorem txtLengthOctets_wire_witness:
  "list_all (\<lambda>s. length s = 255) [replicate 255 CHR ''a''] \<and>
   length (concat [replicate 255 CHR ''a'', replicate 105 CHR ''b'']) + txtLengthOctets 360 = 362"
  using txtLengthOctets_wire [of "[replicate 255 CHR ''a'']" "replicate 105 CHR ''b''"]
  by (simp add: txtLengthOctets_def)


section \<open>Reading what dog prints\<close>

lemma addAnswers_spec:
  "lk_Records (addAnswers rs l) =
     lk_Records l @ map rr_RData (filter (\<lambda>rr. rr_Type rr = lk_Type l) (List.map_filter dogRR rs)) \<and>
   lk_CNAME (addAnswers rs l) =
     lk_CNAME l @ map rr_RData (filter (\<lambda>rr. rr_Type rr = ''CNAME'' \<and> lk_Type l \<noteq> ''CNAME'') (List.map_filter dogRR rs)) \<and>
   lk_rrs (addAnswers rs l) = lk_rrs l @ List.map_filter dogRR rs"
  unfolding addAnswers_def
proof (induction rs arbitrary: l)
  case Nil
  show ?case by (simp add: map_filter_simps)
next
  case (Cons r rs)
  show ?case
    by (cases "dogRR r") (auto simp: Cons.IH answer_step_def [of r] Let_def map_filter_simps)
qed

lemma authority_rrs:
  "lk_rrs (fold authority_step rs l) = lk_rrs l @ filter (\<lambda>rr. rr_Type rr = ''SOA'') (List.map_filter dogRR rs)"
proof (induction rs arbitrary: l)
  case Nil
  show ?case by (simp add: map_filter_simps)
next
  case (Cons r rs)
  show ?case by (cases "dogRR r") (auto simp: Cons.IH authority_step_def [of r] map_filter_simps)
qed

text \<open>
  C23. What a lookup takes from the output of dog. When the output has a response, the first one decides:
  the records are those of its answer section that have the type asked for, in their order, the CNAME
  chain is that of the section, the records kept are those of the section and the SOA records of the
  authority section, the status follows from the response code and the records, and the trust is the AD
  bit of an answer. When it has none, there is neither record nor trust, and the lookup timed out
  exactly when dog's error message says so.
\<close>
theorem parseDogOutput_reads:
  fixes out err qtype :: string and runErr :: "(int \<times> string) option"
  defines "l \<equiv> parseDogOutput out err runErr qtype"
  shows "case firstDogResponse out of
      Some r \<Rightarrow>
        (let rrs = List.map_filter dogRR (dp_Answers r)
         in lk_Records l = map rr_RData (filter (\<lambda>rr. rr_Type rr = qtype) rrs) \<and>
            lk_CNAME l = (if qtype = ''CNAME'' then [] else map rr_RData (filter (\<lambda>rr. rr_Type rr = ''CNAME'') rrs)) \<and>
            lk_rrs l = rrs @ filter (\<lambda>rr. rr_Type rr = ''SOA'') (List.map_filter dogRR (dp_Authorities r)) \<and>
            lk_Status l = (if dp_Rcode r = ''NXDOMAIN'' then StatusNXDomain
                           else if dp_Rcode r \<noteq> ''NOERROR'' then StatusFailure
                           else if list_ex (\<lambda>rr. rr_Type rr = qtype) rrs then StatusOK else StatusNXRRSet) \<and>
            lk_Trust l = (if lk_Status l = StatusFailure then TrustNone
                          else if dp_AD r then TrustSecure else TrustInsecure))
    | None \<Rightarrow> lk_Records l = [] \<and> lk_Trust l = TrustNone \<and>
        lk_Status l = (if Contains (ToLower (dogErrorMessage err)) ''timed out'' then StatusTimeout else StatusFailure)"
proof (cases "firstDogResponse out")
  case None
  have "\<not> Contains (ToLower []) ''timed out''" by (simp add: ToLower_def)
  with None show ?thesis by (auto simp: l_def parseDogOutput_def Let_def networkStatus_def zero_Lookup_def)
next
  case (Some r)
  let ?l = "addAnswers (dp_Answers r) (zero_Lookup\<lparr>lk_Type := qtype\<rparr>)"
  define rrs where "rrs = List.map_filter dogRR (dp_Answers r)"
  have l: "l = setStatus r (fold authority_step (dp_Authorities r) ?l)"
    unfolding l_def by (simp add: parseDogOutput_def Let_def Some fillFromResponse_def)
  have rec: "lk_Records ?l = map rr_RData (filter (\<lambda>rr. rr_Type rr = qtype) rrs)"
    and cn: "lk_CNAME ?l = map rr_RData (filter (\<lambda>rr. rr_Type rr = ''CNAME'' \<and> qtype \<noteq> ''CNAME'') rrs)"
    and kept: "lk_rrs ?l = rrs"
    by (simp_all add: addAnswers_spec rrs_def zero_Lookup_def)
  have ne: "(filter (\<lambda>rr. rr_Type rr = qtype) rrs \<noteq> []) = list_ex (\<lambda>rr. rr_Type rr = qtype) rrs"
    by (auto simp: list_ex_iff filter_empty_conv)
  show ?thesis
    unfolding l Some option.case Let_def rrs_def [symmetric] using rec cn kept ne
    by (auto simp: fold_keeps [of lk_Records] fold_keeps [of lk_CNAME] setStatus_def Let_def authority_rrs
        fold_keeps [of lk_Trust])
qed

text \<open>The output of dog that \<open>src/testdata/dog/www_github_cname.json\<close> keeps, and what it decodes to.\<close>

definition ex_capture :: string where
  "ex_capture = ''{\"responses\":[{\"flags\":{\"qr\":true,\"opcode\":\"QUERY\",\"aa\":false,\"tc\":false,\"rd\":true,\"ra\":true'' @
     '',\"ad\":false,\"cd\":false,\"rcode\":\"NOERROR\"},\"queries\":[{\"name\":\"www.github.com.\",\"class\":\"IN\",'' @
     ''\"type\":\"A\"}],\"answers\":[{\"name\":\"www.github.com.\",\"class\":\"IN\",\"ttl\":3600,\"type\":\"CNAME\",'' @
     ''\"data\":{\"domain\":\"github.com.\"}},{\"name\":\"github.com.\",\"class\":\"IN\",\"ttl\":60,\"type\":\"A\",\"'' @
     ''data\":{\"address\":\"140.82.112.3\"}}],\"authorities\":[],\"additionals\":[]}]}''"

lemma ex_capture_response:
  "firstDogResponse ex_capture = Some \<lparr>dp_AD = False, dp_Rcode = ''NOERROR'',
     dp_Answers = [\<lparr>dr_Name = ''www.github.com.'', dr_TTL = 3600, dr_Type = ''CNAME'', dr_Data = [(''domain'', JStr ''github.com.'')]\<rparr>,
       \<lparr>dr_Name = ''github.com.'', dr_TTL = 60, dr_Type = ''A'', dr_Data = [(''address'', JStr ''140.82.112.3'')]\<rparr>],
     dp_Authorities = []\<rparr>"
  by code_simp

theorem parseDogOutput_reads_witness:
  "lk_Records (parseDogOutput ex_capture [] None ''A'') = [''140.82.112.3''] \<and>
   lk_CNAME (parseDogOutput ex_capture [] None ''A'') = [''github.com.'']"
  using parseDogOutput_reads [of ex_capture "[]" None "''A''"]
  by (simp add: ex_capture_response map_filter_simps dogRR_def rdataRenderers_def data_str_def Let_def)


end
