(* ===== verification/Resolver.thy ===== *)
theory Resolver
  imports Report Dog
begin

text \<open>
  The resolver a run asks (\<open>src/run.go\<close>, \<open>parseResolver\<close> and \<open>serverFamily\<close> of \<open>src/main.go\<close>): the
  \<open>@server\<close> argument, the nameservers of \<open>resolv.conf\<close>, the reachability query per address family,
  whether the resolver validates, and the cache of lookups. The contents of \<open>resolv.conf\<close> and the
  address lookups of package net are parameters.
\<close>

section \<open>The server named on the command line\<close>

text \<open>\<open>net.SplitHostPort\<close>; the errors are not told apart.\<close>

definition SplitHostPort :: "string \<Rightarrow> (string \<times> string) option" where
  "SplitHostPort s =
     (case cut_last CHR '':'' s of
        None \<Rightarrow> None
      | Some (pre, port) \<Rightarrow>
          if s \<noteq> [] \<and> hd s = CHR ''['' then
            (let inner = takeWhile (\<lambda>c. c \<noteq> CHR '']'') s
             in if pre \<noteq> inner @ '']'' \<or> CHR ''['' \<in> set (tl s) \<or> CHR '']'' \<in> set port then None
                else Some (tl inner, port))
          else if CHR '':'' \<in> set pre \<or> CHR ''['' \<in> set s \<or> CHR '']'' \<in> set s then None
          else Some (pre, port))"

definition parseResolver :: "string \<Rightarrow> string + resolver" where
  "parseResolver s =
     (if s = [] then Inl ''empty @server''
      else if ParseAddr s \<noteq> None \<or> CHR '':'' \<notin> set s then Inr \<lparr>res_Host = s, res_Port = 0\<rparr>
      else case SplitHostPort s of
             None \<Rightarrow> Inl (''invalid @server '' @ Quote s @ '': use host, host:port or [v6addr]:port'')
           | Some (host, port) \<Rightarrow>
               (case Atoi port of (p, ok) \<Rightarrow>
                  if \<not> ok \<or> p < 1 \<or> p > 65535 then Inl (''invalid port in @server '' @ Quote s)
                  else Inr \<lparr>res_Host = host, res_Port = p\<rparr>))"

definition serverFamily :: "string \<Rightarrow> string" where
  "serverFamily server =
     (case ParseAddr server of
        None \<Rightarrow> []
      | Some ip \<Rightarrow> if Is4 (Unmap ip) then familyIPv4 else familyIPv6)"

section \<open>The system resolver\<close>

text \<open>The lines a \<open>bufio.Scanner\<close> gives: up to the first one that does not fit its buffer.\<close>

definition scanner_lines :: "string \<Rightarrow> string list" where
  "scanner_lines body = takeWhile (\<lambda>l. length l < 65536) (Split CHR 0x0A body)"

definition nameserver_of :: "string \<Rightarrow> string option" where
  "nameserver_of line =
     (case Fields line of f # g # _ \<Rightarrow> if f = ''nameserver'' then Some g else None | _ \<Rightarrow> None)"

definition resolvConfNameservers :: "string option \<Rightarrow> string list" where
  "resolvConfNameservers conf =
     (case conf of None \<Rightarrow> [] | Some body \<Rightarrow> List.map_filter nameserver_of (scanner_lines body))"

definition resolvConfFamilies :: "string option \<Rightarrow> string list" where
  "resolvConfFamilies conf =
     fold (\<lambda>ns fams. let fam = serverFamily (hd (Split CHR ''%'' ns)) in if fam \<noteq> [] then append_once fam fams else fams)
       (resolvConfNameservers conf) []"

definition resolvConfServer :: "string option \<Rightarrow> string \<Rightarrow> string option" where
  "resolvConfServer conf family =
     find (\<lambda>ns. \<not> Contains ns ''%'' \<and> serverFamily ns = family) (resolvConfNameservers conf)"

definition resolverSupports :: "string option \<Rightarrow> config \<Rightarrow> string \<Rightarrow> bool" where
  "resolverSupports conf cfg family =
     (if cfg_dnsFamily cfg \<noteq> [] then cfg_dnsFamily cfg = family
      else if res_Host (cfg_Resolver cfg) \<noteq> [] then True
      else resolvConfFamilies conf = [] \<or> family \<in> set (resolvConfFamilies conf))"

section \<open>Reachability\<close>

type_synonym ip_lookup = "string \<Rightarrow> string \<Rightarrow> addr list option"

definition serverForFamily :: "string option \<Rightarrow> ip_lookup \<Rightarrow> config \<Rightarrow> string \<Rightarrow> string option" where
  "serverForFamily conf lookupIP cfg family =
     (let res = cfg_Resolver cfg
      in if res_Host res = [] then resolvConfServer conf family
         else if cfg_dnsFamily cfg \<noteq> [] then Some (dogServer res)
         else case lookupIP (if family = familyIPv4 then ''ip4'' else if family = familyIPv6 then ''ip6'' else [])
                   (res_Host res) of
                Some (ip # _) \<Rightarrow>
                  Some (JoinHostPort (Addr_String (Unmap ip)) (Itoa (if res_Port res = 0 then 53 else res_Port res)))
              | _ \<Rightarrow> None)"

definition reachabilityQuery :: string where "reachabilityQuery = ''.''"

text \<open>\<open>checkReachability\<close>; \<open>query server name qtype\<close> is \<open>dnsLookup\<close> of dog at a server.\<close>

definition checkReachability ::
    "string option \<Rightarrow> ip_lookup \<Rightarrow> (string \<Rightarrow> lookupFn) \<Rightarrow> config \<Rightarrow> string \<Rightarrow> Reach \<times> Trust" where
  "checkReachability conf lookupIP query cfg family =
     (if \<not> resolverSupports conf cfg family then (ReachSkipped (''resolver has no '' @ family @ '' address''), TrustNone)
      else case serverForFamily conf lookupIP cfg family of
             None \<Rightarrow> (ReachNo, TrustNone)
           | Some server \<Rightarrow>
               let l = query server reachabilityQuery ''NS''
               in if Answered l then (ReachYes, lk_Trust l) else (ReachNo, TrustNone))"

definition resolverValidates :: "(string, Trust) go_map \<Rightarrow> bool option" where
  "resolverValidates reachTrust =
     (let seen = filter (\<lambda>t. t \<noteq> TrustNone) (map snd reachTrust)
      in if seen = [] then None else Some (list_ex (\<lambda>t. t = TrustSecure) seen))"

section \<open>The lookup cache\<close>

text \<open>The memoised lookups. Beside them the model keeps the questions asked so far, in their order: the
  answer of the resolver to the \<open>i\<close>-th of them is \<open>query i\<close>.\<close>

record lookupCache =
  lc_done :: "(string, Lookup) go_map"
  lc_asked :: "(string \<times> string) list"

definition newLookupCache :: lookupCache where
  "newLookupCache = \<lparr>lc_done = [], lc_asked = []\<rparr>"

definition cache_key :: "string \<times> string \<Rightarrow> string" where
  "cache_key q = fst q @ ''/'' @ snd q"

text \<open>The parts of \<open>get\<close> that hold the mutex. \<open>cache_look\<close>: the answer of a name that cannot be asked or of a
  lookup that is kept, or the question to ask. \<open>cache_store\<close> keeps an answer. Between the two the mutex is
  free, and the question is put to the resolver unless the context of the phase has ended.\<close>

definition cache_look :: "dp_lib \<Rightarrow> string \<times> string \<Rightarrow> lookupCache \<Rightarrow> Lookup + (string \<times> string)" where
  "cache_look lib q c =
     (case dnsName lib (fst q) of
        Inl err \<Rightarrow>
          Inl (zero_Lookup\<lparr>lk_Name := fst q, lk_Type := snd q, lk_Status := StatusFailure,
             lk_Error := ''not a valid DNS name: '' @ err\<rparr>)
      | Inr n \<Rightarrow>
          (case map_of (lc_done c) (cache_key (ASCII n, snd q)) of
             Some l \<Rightarrow> Inl l
           | None \<Rightarrow> Inr (ASCII n, snd q)))"

definition cache_ask :: "string \<times> string \<Rightarrow> lookupCache \<Rightarrow> lookupCache" where
  "cache_ask q c = c\<lparr>lc_asked := lc_asked c @ [q]\<rparr>"

definition cache_store :: "string \<times> string \<Rightarrow> Lookup \<Rightarrow> lookupCache \<Rightarrow> lookupCache" where
  "cache_store q l c = c\<lparr>lc_done := map_put (cache_key q) l (lc_done c)\<rparr>"

text \<open>A call of \<open>get\<close> that no other call comes between; \<open>expired\<close> is whether the context has ended. The
  theory Lookups has the calls that overlap.\<close>

definition cache_get ::
    "dp_lib \<Rightarrow> (nat \<Rightarrow> lookupFn) \<Rightarrow> bool \<Rightarrow> string \<times> string \<Rightarrow> lookupCache \<Rightarrow> Lookup \<times> lookupCache" where
  "cache_get lib query expired q c =
     (case cache_look lib q c of
        Inl l \<Rightarrow> (l, c)
      | Inr k \<Rightarrow>
          if expired then (timed_out_lookup (fst k) (snd k), c)
          else let l = query (length (lc_asked c)) (fst k) (snd k) in (l, cache_store k l (cache_ask k c)))"

definition untrusted :: "Lookup \<Rightarrow> Lookup" where
  "untrusted l = l\<lparr>lk_Trust := TrustNone\<rparr>"

definition cache_dropTrust :: "lookupCache \<Rightarrow> lookupCache" where
  "cache_dropTrust c = c\<lparr>lc_done := map (\<lambda>(k, l). (k, untrusted l)) (lc_done c)\<rparr>"

lemmas cache_defs = cache_look_def cache_ask_def cache_store_def cache_dropTrust_def

section \<open>Properties\<close>

text \<open>
  A lookup made after the phase's budget is spent is answered from the cache when it holds the name,
  and otherwise reports a timeout that is not remembered, so a later phase asks again: the cache and
  the questions asked stay as they were.
\<close>
theorem lookupCache_expired:
  "snd (cache_get lib query True q c) = c \<and>
   (case dnsName lib (fst q) of
      Inl err \<Rightarrow> lk_Status (fst (cache_get lib query True q c)) = StatusFailure
    | Inr n \<Rightarrow> fst (cache_get lib query True q c) =
        (case map_of (lc_done c) (cache_key (ASCII n, snd q)) of
           Some l \<Rightarrow> l | None \<Rightarrow> timed_out_lookup (ASCII n) (snd q)))"
  by (auto simp: cache_get_def cache_look_def split: sum.splits option.splits)

text \<open>
  A resolver given as \<open>:port\<close> is accepted with an empty host, which is the value that stands for the
  system resolver: the port is dropped, dog is given no server, and the report calls it the system
  resolver.
\<close>
theorem parseResolver_empty_host:
  "parseResolver '':5353'' = Inr \<lparr>res_Host = [], res_Port = 5353\<rparr> \<and>
   dogServer \<lparr>res_Host = [], res_Port = 5353\<rparr> = [] \<and>
   resolver_args \<lparr>res_Host = [], res_Port = 5353\<rparr> = [] \<and>
   resolver_String \<lparr>res_Host = [], res_Port = 5353\<rparr> = ''system''"
proof -
  have "parseResolver '':5353'' = Inr \<lparr>res_Host = [], res_Port = 5353\<rparr>" by code_simp
  then show ?thesis by (simp add: dogServer_def resolver_args_def resolver_String_def)
qed

text \<open>
  A host whose only nameserver is a scoped link-local address is reported as having an unreachable
  IPv6 resolver without any query being made: the scoped address counts for the family, and is then
  skipped as a server. The outcome does not depend on what the resolver would have answered.
\<close>
theorem scoped_resolver_unreachable:
  "checkReachability (Some ''nameserver fe80::1%eth0'') lookupIP query zero_config familyIPv6 = (ReachNo, TrustNone)"
proof -
  have f: "resolvConfFamilies (Some ''nameserver fe80::1%eth0'') = [familyIPv6]" by code_simp
  have s: "resolvConfServer (Some ''nameserver fe80::1%eth0'') familyIPv6 = None" by code_simp
  show ?thesis
    by (simp add: checkReachability_def resolverSupports_def serverForFamily_def f s zero_config_def)
qed

end
