(* ===== verification/Gather.thy ===== *)
theory Gather
  imports Resolver Wildcard Mail Nsaudit
begin

text \<open>
  The DNS phase of a run (\<open>src/run.go\<close>): the lookups of the two waves, the wildcard probes, and the
  classification of the zone. The lookups whose answers a wave reports are a \<open>lookupFn\<close>, since no two of its
  tasks ask for the same name and type; each wave has its own, since a lookup cut off by the first wave's
  budget is asked again in the second. The goroutines of a wave write to different places. What they
  leave in the lookup cache depends on how they overlap, and is an argument.
\<close>

section \<open>The lookups of a run\<close>

record dnsResults =
  dn_apex :: lookups
  dn_www :: "lookups option"
  dn_ds :: Lookup
  dn_dnskey :: Lookup
  dn_reach :: "(string, Reach) go_map"
  dn_reachTrust :: "(string, Trust) go_map"
  dn_dmarc :: Lookup
  dn_mtaSTS :: Lookup
  dn_tlsRPT :: Lookup
  dn_wild :: "wildProbe list"
  dn_wildSkip :: string
  dn_caaApex :: Lookup
  dn_caaWWW :: Lookup
  dn_tlsaApex :: Lookup
  dn_tlsaWWW :: Lookup
  dn_cache :: lookupCache

definition zero_dnsResults :: dnsResults where
  "zero_dnsResults = \<lparr>dn_apex = [], dn_www = None, dn_ds = zero_Lookup, dn_dnskey = zero_Lookup, dn_reach = [],
     dn_reachTrust = [], dn_dmarc = zero_Lookup, dn_mtaSTS = zero_Lookup, dn_tlsRPT = zero_Lookup, dn_wild = [],
     dn_wildSkip = [], dn_caaApex = zero_Lookup, dn_caaWWW = zero_Lookup, dn_tlsaApex = zero_Lookup,
     dn_tlsaWWW = zero_Lookup, dn_cache = newLookupCache\<rparr>"

text \<open>The www map, empty when www was not looked up.\<close>

definition www_map :: "dnsResults \<Rightarrow> lookups" where
  "www_map res = (case dn_www res of Some m \<Rightarrow> m | None \<Rightarrow> [])"

definition www_name :: "config \<Rightarrow> string" where
  "www_name cfg = ''www.'' @ cfg_Domain cfg"

definition fixedLookups :: "dp_lib \<Rightarrow> config \<Rightarrow> lookupFn \<Rightarrow> dnsResults \<Rightarrow> dnsResults" where
  "fixedLookups lib cfg get res =
     (let d = cfg_Domain cfg; www = www_name cfg;
          res1 = res\<lparr>dn_apex := map (\<lambda>t. (t, get d t)) apexTypes,
            dn_ds := get d ''DS'', dn_dnskey := get d ''DNSKEY'',
            dn_dmarc := get (''_dmarc.'' @ d) ''TXT'', dn_mtaSTS := get (''_mta-sts.'' @ d) ''TXT'',
            dn_tlsRPT := get (''_smtp._tls.'' @ d) ''TXT'',
            dn_caaApex := get d ''CAA'', dn_tlsaApex := get (''_443._tcp.'' @ d) ''TLSA''\<rparr>
      in if \<not> registrableDomain lib d then res1
         else res1\<lparr>dn_www := Some (map (\<lambda>t. (t, get www t)) wwwTypes),
                   dn_caaWWW := get www ''CAA'', dn_tlsaWWW := get (''_443._tcp.'' @ www) ''TLSA''\<rparr>)"

text \<open>The questions \<open>dependentLookups\<close> asks to warm the cache, but for those of the SPF evaluation and
  the wildcard probes, which ask as they go.\<close>

definition both_types :: "string \<Rightarrow> (string \<times> string) list" where
  "both_types host = [(host, ''A''), (host, ''AAAA'')]"

definition dependentLookups :: "dp_lib \<Rightarrow> config \<Rightarrow> lookupFn \<Rightarrow> dnsResults \<Rightarrow> (string \<times> string) list" where
  "dependentLookups lib cfg get res =
     (if registrySuffix lib (cfg_Domain cfg) then []
      else map (\<lambda>sel. (sel @ ''._domainkey.'' @ cfg_Domain cfg, ''TXT'')) dkimSelectors) @
     concat (map both_types (mxHosts (at (dn_apex res) ''MX''))) @
     concat (map both_types (nsNames lib (at (dn_apex res) ''NS''))) @
     (if sts_Record (parseMTASTSRecord (dn_mtaSTS res)) then both_types (''mta-sts.'' @ cfg_Domain cfg) else []) @
     spf_queries lib (cfg_Domain cfg) (at (dn_apex res) ''TXT'') get"

definition runWildProbe :: "string \<Rightarrow> string \<Rightarrow> lookupFn \<Rightarrow> wildProbe" where
  "runWildProbe label domain get =
     (let name = label @ ''.'' @ domain in \<lparr>pr_label = label, pr_a = get name ''A'', pr_aaaa = get name ''AAAA''\<rparr>)"

definition probeWildcard :: "string list \<Rightarrow> config \<Rightarrow> lookupFn \<Rightarrow> dnsResults \<Rightarrow> dnsResults" where
  "probeWildcard labels cfg get res =
     (let skip = wildcardSkipReason (dn_apex res) (www_map res); res1 = res\<lparr>dn_wildSkip := skip\<rparr>
      in if skip \<noteq> [] then res1
         else let p = runWildProbe (hd labels) (cfg_Domain cfg) get
              in if classifyProbe p \<noteq> probeAnswered then res1\<lparr>dn_wild := [p]\<rparr>
                 else res1\<lparr>dn_wild := p # map (\<lambda>label. runWildProbe label (cfg_Domain cfg) get) (tl labels)\<rparr>)"

definition gather_first ::
    "dp_lib \<Rightarrow> config \<Rightarrow> lookupFn \<Rightarrow> (string \<Rightarrow> Reach \<times> Trust) \<Rightarrow> dnsResults" where
  "gather_first lib cfg get1 reach =
     (fixedLookups lib cfg get1 zero_dnsResults)\<lparr>
        dn_reach := map (\<lambda>fam. (fam, fst (reach fam))) (cfg_Families cfg),
        dn_reachTrust := map (\<lambda>fam. (fam, snd (reach fam))) (cfg_Families cfg)\<rparr>"

definition gatherDNS ::
    "dp_lib \<Rightarrow> config \<Rightarrow> lookupFn \<Rightarrow> lookupFn \<Rightarrow> (string \<Rightarrow> Reach \<times> Trust) \<Rightarrow> string list \<Rightarrow> lookupCache \<Rightarrow> dnsResults" where
  "gatherDNS lib cfg get1 get2 reach labels cache =
     (probeWildcard labels cfg get2 (gather_first lib cfg get1 reach))\<lparr>dn_cache := cache\<rparr>"

section \<open>Trust\<close>

definition untrusted_map :: "lookups \<Rightarrow> lookups" where
  "untrusted_map m = map (\<lambda>(k, l). (k, untrusted l)) m"

definition dropTrust :: "dnsResults \<Rightarrow> dnsResults" where
  "dropTrust d = d\<lparr>dn_apex := untrusted_map (dn_apex d), dn_www := map_option untrusted_map (dn_www d),
     dn_ds := untrusted (dn_ds d), dn_dnskey := untrusted (dn_dnskey d), dn_dmarc := untrusted (dn_dmarc d),
     dn_mtaSTS := untrusted (dn_mtaSTS d), dn_tlsRPT := untrusted (dn_tlsRPT d), dn_caaApex := untrusted (dn_caaApex d),
     dn_caaWWW := untrusted (dn_caaWWW d), dn_tlsaApex := untrusted (dn_tlsaApex d), dn_tlsaWWW := untrusted (dn_tlsaWWW d),
     dn_wild := map (\<lambda>p. p\<lparr>pr_a := untrusted (pr_a p), pr_aaaa := untrusted (pr_aaaa p)\<rparr>) (dn_wild d),
     dn_cache := cache_dropTrust (dn_cache d)\<rparr>"

section \<open>Zone or host\<close>

fun enclosing_scan :: "dp_lib \<Rightarrow> string \<Rightarrow> lookups \<Rightarrow> string list \<Rightarrow> string" where
  "enclosing_scan lib fqdn apex [] = []"
| "enclosing_scan lib fqdn apex (t # ts) =
     (let owner = SOAOwner (at apex t)
      in if owner \<noteq> [] \<and> owner \<noteq> fqdn \<and> HasSuffix fqdn (''.'' @ owner) then bareName lib owner
         else enclosing_scan lib fqdn apex ts)"

definition enclosingZone :: "dp_lib \<Rightarrow> string \<Rightarrow> lookups \<Rightarrow> string" where
  "enclosingZone lib domain apex = enclosing_scan lib (domain @ ''.'') apex apexTypes"

definition anyPositive :: "lookups \<Rightarrow> bool" where
  "anyPositive apex = list_ex (\<lambda>t. t \<noteq> ''NS'' \<and> HasRecords (at apex t)) apexTypes"

definition detectNotAZone :: "dp_lib \<Rightarrow> string \<Rightarrow> lookups \<Rightarrow> Delegation \<Rightarrow> bool \<times> string" where
  "detectNotAZone lib domain apex deleg =
     (if de_ParentNS deleg \<noteq> [] then (False, [])
      else if lk_CNAME (at apex ''NS'') \<noteq> [] then (True, enclosingZone lib domain apex)
      else if lk_Status (at apex ''NS'') \<noteq> StatusNXRRSet then (False, [])
      else let zone = enclosingZone lib domain apex
           in if zone = [] \<and> \<not> anyPositive apex then (False, []) else (True, zone))"

definition classifyZone :: "dp_lib \<Rightarrow> runner \<Rightarrow> config \<Rightarrow> dnsResults \<Rightarrow> Report \<Rightarrow> Report" where
  "classifyZone lib run cfg dns rep0 =
     (let rep = rep0\<lparr>rep_PublicSuffix := \<not> registrableDomain lib (cfg_Domain cfg) \<and> isPublicSuffix lib (cfg_Domain cfg),
                      rep_ReservedName := reservedName lib (cfg_Domain cfg)\<rparr>;
          blank = \<lparr>ds_State = DNSSECUnknown, ds_DS = False, ds_DNSKEY = False, ds_EDE = [], ds_Detail = []\<rparr>;
          why = ''name reserved by '' @ rep_ReservedName rep @ '', outside the global DNS''
      in if rep_ReservedName rep \<noteq> [] then
           rep\<lparr>rep_DNSSEC := blank\<lparr>ds_Detail := why\<rparr>,
               rep_Delegation := zero_Delegation\<lparr>de_Status := DelegationReservedName, de_Error := why @ '': not traced''\<rparr>\<rparr>
         else case detectNotAZone lib (cfg_Domain cfg) (dn_apex dns) (rep_Delegation rep) of (host, zone) \<Rightarrow>
           let rep1 = rep\<lparr>rep_NotAZone := host, rep_EnclosingZone := zone\<rparr>
           in if host then
                rep1\<lparr>rep_DNSSEC := classifyByTrust (dn_apex dns),
                     rep_Delegation := zero_Delegation\<lparr>de_Status := DelegationNotAZone,
                       de_Error := ''name is a host inside '' @ firstNonEmpty [zone, ''another zone'']\<rparr>\<rparr>
              else rep1\<lparr>rep_DNSSEC := classifyDNSSEC (dn_ds dns) (dn_dnskey dns) (dn_apex dns)
                          (Some (newBogusProbe run (cfg_DigPath cfg) (cfg_Resolver cfg) (cfg_TimeoutSec cfg)))\<rparr>)"

definition blind_detail :: string where
  "blind_detail = ''the resolver does not validate DNSSEC (it did not authenticate the signed root zone), so no DNSSEC verdict is possible''"

definition classifyDNS :: "dp_lib \<Rightarrow> runner \<Rightarrow> config \<Rightarrow> dnsResults \<Rightarrow> Report \<Rightarrow> Report \<times> dnsResults" where
  "classifyDNS lib run cfg dns0 rep0 =
     (let validates = resolverValidates (dn_reachTrust dns0); blind = (validates = Some False);
          dns = (if blind then dropTrust dns0 else dns0);
          rep = classifyZone lib run cfg dns
                  (rep0\<lparr>rep_DNS := \<lparr>dns_Apex = dn_apex dns, dns_WWW = www_map dns, dns_ResolverReachable = dn_reach dns,
                                     dns_ResolverValidates = validates\<rparr>\<rparr>)
      in (if blind \<and> rep_ReservedName rep = []
          then rep\<lparr>rep_DNSSEC := \<lparr>ds_State = DNSSECUnknown, ds_DS = HasRecords (dn_ds dns), ds_DNSKEY = HasRecords (dn_dnskey dns),
                                   ds_EDE = [], ds_Detail = blind_detail\<rparr>\<rparr>
          else rep, dns))"


section \<open>Lemmas\<close>

lemma untrusted_simps [simp]:
  "lk_Trust (untrusted l) = TrustNone" "lk_Status (untrusted l) = lk_Status l" "lk_Records (untrusted l) = lk_Records l"
  by (simp_all add: untrusted_def)

lemma untrusted_map_keys: "map fst (untrusted_map m) = map fst m"
  by (simp add: untrusted_map_def case_prod_unfold)

lemma untrusted_map_trust: "list_all (\<lambda>(k, l). lk_Trust l = TrustNone) (untrusted_map m)"
  by (auto simp: untrusted_map_def list_all_iff)

lemma untrusted_map_at: "at (untrusted_map m) t = (if t \<in> fst ` set m then untrusted (at m t) else zero_Lookup)"
  by (induction m) (auto simp: untrusted_map_def map_get_def)

lemma classifyZone_DNS [simp]: "rep_DNS (classifyZone lib run cfg dns rep) = rep_DNS rep"
  by (simp add: classifyZone_def Let_def split: prod.split)

lemma classifyZone_reserved [simp]: "rep_ReservedName (classifyZone lib run cfg dns rep) = reservedName lib (cfg_Domain cfg)"
  by (simp add: classifyZone_def Let_def split: prod.split)

lemma classifyZone_reserved_DNSSEC:
  "reservedName lib (cfg_Domain cfg) \<noteq> [] \<Longrightarrow>
   ds_State (rep_DNSSEC (classifyZone lib run cfg dns rep)) = DNSSECUnknown \<and>
   de_Status (rep_Delegation (classifyZone lib run cfg dns rep)) = DelegationReservedName"
  by (simp add: classifyZone_def Let_def)

lemma enclosing_scan_sound:
  "enclosing_scan lib fqdn apex ts = zone \<Longrightarrow> zone \<noteq> [] \<Longrightarrow>
   \<exists>t owner p. t \<in> set ts \<and> owner = SOAOwner (at apex t) \<and> owner \<noteq> [] \<and> fqdn = p @ ''.'' @ owner \<and> zone = bareName lib owner"
  by (induction ts) (auto simp: Let_def HasSuffix_iff split: if_splits)

lemma HasRecords_untrusted [simp]: "HasRecords (untrusted l) = HasRecords l"
  by (simp add: HasRecords_def)

section \<open>Properties\<close>

text \<open>The lookups that a run keeps one by one.\<close>

definition single_lookups :: "dnsResults \<Rightarrow> Lookup list" where
  "single_lookups d = [dn_ds d, dn_dnskey d, dn_dmarc d, dn_mtaSTS d, dn_tlsRPT d, dn_caaApex d, dn_caaWWW d, dn_tlsaApex d, dn_tlsaWWW d] @
     concat (map (\<lambda>p. [pr_a p, pr_aaaa p]) (dn_wild d))"

lemma single_lookups_dropTrust: "single_lookups (dropTrust d) = map untrusted (single_lookups d)"
proof -
  have "concat (map (\<lambda>p. [pr_a p, pr_aaaa p]) (map (\<lambda>p. p\<lparr>pr_a := untrusted (pr_a p), pr_aaaa := untrusted (pr_aaaa p)\<rparr>) ps)) =
      map untrusted (concat (map (\<lambda>p. [pr_a p, pr_aaaa p]) ps))" for ps
    by (induction ps) auto
  then show ?thesis by (simp add: single_lookups_def dropTrust_def)
qed

text \<open>
  C24. A resolver that answers for the signed root without authenticating it gives no DNSSEC verdict: the
  state is unknown, and every lookup the run holds or reports loses its trust level and nothing else,
  those of the apex and of www, the single ones, the wildcard probes and the ones kept in the lookup
  cache. With any other resolver all of them stay, and are reported, as they came.
\<close>
theorem blind_resolver_no_verdict:
  fixes lib :: dp_lib and run :: runner and cfg :: config and dns :: dnsResults and rep :: Report
  defines "r \<equiv> classifyDNS lib run cfg dns rep"
  shows "dns_ResolverValidates (rep_DNS (fst r)) = resolverValidates (dn_reachTrust dns) \<and>
    dns_Apex (rep_DNS (fst r)) = dn_apex (snd r) \<and> dns_WWW (rep_DNS (fst r)) = www_map (snd r) \<and>
    (if resolverValidates (dn_reachTrust dns) = Some False
     then ds_State (rep_DNSSEC (fst r)) = DNSSECUnknown \<and>
       dn_apex (snd r) = map (\<lambda>(t, l). (t, l\<lparr>lk_Trust := TrustNone\<rparr>)) (dn_apex dns) \<and>
       dn_www (snd r) = map_option (map (\<lambda>(t, l). (t, l\<lparr>lk_Trust := TrustNone\<rparr>))) (dn_www dns) \<and>
       single_lookups (snd r) = map (\<lambda>l. l\<lparr>lk_Trust := TrustNone\<rparr>) (single_lookups dns) \<and>
       lc_done (dn_cache (snd r)) = map (\<lambda>(k, l). (k, l\<lparr>lk_Trust := TrustNone\<rparr>)) (lc_done (dn_cache dns))
     else snd r = dns)"
proof -
  have one: "untrusted = (\<lambda>l. l\<lparr>lk_Trust := TrustNone\<rparr>)" by (rule ext) (simp add: untrusted_def)
  have many: "untrusted_map = map (\<lambda>(t, l). (t, l\<lparr>lk_Trust := TrustNone\<rparr>))" by (rule ext) (simp add: untrusted_map_def one)
  have "dn_apex (dropTrust dns) = untrusted_map (dn_apex dns)" "dn_www (dropTrust dns) = map_option untrusted_map (dn_www dns)"
    "lc_done (dn_cache (dropTrust dns)) = map (\<lambda>(k, l). (k, untrusted l)) (lc_done (dn_cache dns))"
    by (simp_all add: dropTrust_def cache_dropTrust_def)
  then show ?thesis
    by (auto simp: r_def classifyDNS_def Let_def single_lookups_dropTrust one many classifyZone_reserved_DNSSEC)
qed

text \<open>
  A name is called a host inside a zone only when its parent does not delegate it and its NS query
  came back with a CNAME or with no NS records; and the enclosing zone named, when one is, is the owner
  of an SOA record that came with one of the lookups and lies above the name.
\<close>
theorem detectNotAZone_sound:
  assumes "detectNotAZone lib domain apex deleg = (True, zone)"
  shows "de_ParentNS deleg = [] \<and> (lk_CNAME (at apex ''NS'') \<noteq> [] \<or> lk_Status (at apex ''NS'') = StatusNXRRSet) \<and>
    (zone = [] \<or> (\<exists>t owner p. t \<in> set apexTypes \<and> owner = SOAOwner (at apex t) \<and> owner \<noteq> [] \<and>
       domain @ ''.'' = p @ ''.'' @ owner \<and> zone = bareName lib owner))"
proof -
  have "zone = [] \<or> enclosing_scan lib (domain @ ''.'') apex apexTypes = zone"
    using assms by (auto simp: detectNotAZone_def enclosingZone_def Let_def split: if_splits)
  then have "zone = [] \<or> (\<exists>t owner p. t \<in> set apexTypes \<and> owner = SOAOwner (at apex t) \<and> owner \<noteq> [] \<and>
      domain @ ''.'' = p @ ''.'' @ owner \<and> zone = bareName lib owner)"
    using enclosing_scan_sound by blast
  then show ?thesis
    using assms by (auto simp: detectNotAZone_def Let_def split: if_splits)
qed

definition ex_host :: lookups where
  "ex_host = [(''NS'', zero_Lookup\<lparr>lk_Status := StatusNXRRSet,
     lk_rrs := [\<lparr>rr_Owner = ''org.'', rr_TTL = 60, rr_Type = ''SOA'', rr_RData = [], rr_RDLen = 0\<rparr>]\<rparr>)]"

lemma ex_host_detected: "detectNotAZone ex_lib ''d.org'' ex_host zero_Delegation = (True, ''org.'')"
  by code_simp

theorem detectNotAZone_sound_witness:
  "lk_Status (at ex_host ''NS'') = StatusNXRRSet \<and> de_ParentNS zero_Delegation = []"
  using detectNotAZone_sound [OF ex_host_detected] by (simp add: ex_host_def map_get_def zero_Delegation_def)

text \<open>
  C31. A wildcard is reported as present exactly when nothing already rules it out and three different
  random names under the domain were all answered: one or two answers are never enough, and a probe
  that was denied or did not come back leaves the verdict absent or unknown.
\<close>
theorem wildcard_needs_three:
  fixes lib :: dp_lib and cfg :: config and get :: lookupFn and res :: dnsResults and a aaaa :: Lookup
  assumes "randomLabels draw wildcardProbeCount = Some labels"
  defines "r \<equiv> probeWildcard labels cfg get (res\<lparr>dn_wild := []\<rparr>)"
  shows "distinct labels \<and> length labels = 3 \<and>
    (wr_Status (assessWildcard lib (dn_wild r) (dn_wildSkip r) a aaaa) = WildcardPresent \<longleftrightarrow>
     wildcardSkipReason (dn_apex res) (www_map res) = [] \<and>
     list_all (\<lambda>label. classifyProbe (runWildProbe label (cfg_Domain cfg) get) = probeAnswered) labels)"
proof -
  have l: "distinct labels" "length labels = 3"
    using label_loop_sound [of draw 3 0 "[]" labels] assms(1)
    by (simp_all add: randomLabels_def wildcardProbeCount_def)
  then obtain x xs where xs: "labels = x # xs" by (cases labels) auto
  have w: "www_map (res\<lparr>dn_wild := []\<rparr>) = www_map res" by (simp add: www_map_def)
  let ?probe = "\<lambda>label. runWildProbe label (cfg_Domain cfg) get"
  let ?skip = "wildcardSkipReason (dn_apex res) (www_map res)"
  have r: "dn_wildSkip r = ?skip \<and> dn_wild r = (if ?skip \<noteq> [] then []
      else if classifyProbe (?probe x) \<noteq> probeAnswered then [?probe x] else map ?probe labels)"
    by (simp add: r_def probeWildcard_def Let_def w xs)
  have "wr_Status (assessWildcard lib (dn_wild r) (dn_wildSkip r) a aaaa) = WildcardPresent \<longleftrightarrow>
      ?skip = [] \<and> list_all (\<lambda>label. classifyProbe (?probe label) = probeAnswered) labels"
  proof (cases "?skip = [] \<and> classifyProbe (?probe x) = probeAnswered")
    case True
    then have "dn_wild r = map ?probe labels" "dn_wildSkip r = []" using r by simp_all
    moreover have "c = probeAnswered \<longleftrightarrow> c \<noteq> probeDenied \<and> c \<noteq> probeUnresolved" for c by (cases c) simp_all
    ultimately show ?thesis using True xs by (auto simp: wildcard_verdict list_all_iff)
  next
    case False
    then show ?thesis using r xs by (cases "classifyProbe (?probe x)") (auto simp: wildcard_verdict)
  qed
  with l show ?thesis by blast
qed

definition ex_draw :: "nat \<Rightarrow> string" where
  "ex_draw i = replicate (Suc i) CHR ''a''"

lemma ex_labels: "randomLabels ex_draw wildcardProbeCount = Some [''a'', ''aa'', ''aaa'']"
  unfolding randomLabels_def wildcardProbeCount_def
  by (simp add: label_loop.simps [of _ _ 0] label_loop.simps [of _ _ "Suc _"] ex_draw_def)

definition ex_catch_all :: lookupFn where
  "ex_catch_all name qtype = zero_Lookup\<lparr>lk_Status := StatusOK, lk_Records := [''192.0.2.1'']\<rparr>"

lemma ex_catch_all_answers:
  "classifyProbe (runWildProbe label d ex_catch_all) = probeAnswered"
proof -
  have "ParseAddr ''192.0.2.1'' \<noteq> None" by code_simp
  then show ?thesis
    by (auto simp: classifyProbe_def runWildProbe_def ex_catch_all_def Let_def probeAddrs_def Addrs_def map_filter_simps
        HasRecords_def)
qed

theorem wildcard_needs_three_witness:
  "wr_Status (assessWildcard ex_lib
     (dn_wild (probeWildcard [''a'', ''aa'', ''aaa''] zero_config ex_catch_all (zero_dnsResults\<lparr>dn_wild := []\<rparr>)))
     (dn_wildSkip (probeWildcard [''a'', ''aa'', ''aaa''] zero_config ex_catch_all (zero_dnsResults\<lparr>dn_wild := []\<rparr>)))
     zero_Lookup zero_Lookup) = WildcardPresent"
  using wildcard_needs_three [OF ex_labels, of ex_lib zero_config ex_catch_all zero_dnsResults zero_Lookup zero_Lookup]
  by (simp add: ex_catch_all_answers wildcardSkipReason_def zero_dnsResults_def www_map_def map_get_def)

end
