(* ===== verification/Tlsprobe.thy ===== *)
theory Tlsprobe
  imports Web
begin

text \<open>
  The judgement of a certificate chain: \<open>src/tlsprobe.go\<close>. The handshake is an argument, its
  outcome; verification and signatures are those of package crypto, the record \<open>x509_lib\<close>.
  \<open>aiaFetch\<close> is the function \<open>fetch\<close> from an issuer URL to a certificate (None: the fetch failed).
  It may be one, because \<open>fetchAIACached\<close> of \<open>src/aia.go\<close> gives one answer per URL in a run.
\<close>

definition isSelfSigned :: "x509_lib \<Rightarrow> certificate \<Rightarrow> bool" where
  "isSelfSigned x c = (if crt_RawIssuer c \<noteq> crt_RawSubject c then False else x509_CheckSignature x c)"

definition maxAIADepth :: nat where "maxAIADepth = 3"

type_synonym issuer_fetch = "string \<Rightarrow> certificate option"

text \<open>The loop of \<open>completeViaAIA\<close>, with the number of fetches left, \<open>maxAIADepth\<close> at first.\<close>

fun aia_loop ::
    "x509_lib \<Rightarrow> issuer_fetch \<Rightarrow> certificate \<Rightarrow> string \<Rightarrow> nat \<Rightarrow> certificate \<Rightarrow> certificate list \<Rightarrow> string list \<Rightarrow>
     string list \<times> bool" where
  "aia_loop x fetch leaf host 0 cert pool fetched = (fetched, False)"
| "aia_loop x fetch leaf host (Suc n) cert pool fetched =
     (case crt_IssuingCertificateURL cert of
        [] \<Rightarrow> (fetched, False)
      | url # _ \<Rightarrow>
          if isSelfSigned x cert then (fetched, False)
          else case fetch url of
                 None \<Rightarrow> (fetched, False)
               | Some issuer \<Rightarrow>
                   if x509_Verify x leaf (pool @ [issuer]) host = None then (fetched @ [url], True)
                   else aia_loop x fetch leaf host n issuer (pool @ [issuer]) (fetched @ [url]))"

definition completeViaAIA ::
    "x509_lib \<Rightarrow> issuer_fetch \<Rightarrow> certificate \<Rightarrow> certificate list \<Rightarrow> string \<Rightarrow> string list \<times> bool" where
  "completeViaAIA x fetch leaf intermediates host = aia_loop x fetch leaf host maxAIADepth leaf intermediates []"

definition classifyVerifyError ::
    "x509_lib \<Rightarrow> issuer_fetch \<Rightarrow> verify_error \<Rightarrow> certificate list \<Rightarrow> string \<Rightarrow> ChainState \<times> string" where
  "classifyVerifyError x fetch err chain host =
     (case err of
        HostnameError t \<Rightarrow> (ChainHostnameMismatch, scrubProbeError t)
      | UnknownAuthorityError t \<Rightarrow>
          if isSelfSigned x (hd chain) then (ChainSelfSigned, ''self-signed certificate'')
          else (case completeViaAIA x fetch (hd chain) (tl chain) host of
                  (fetched, True) \<Rightarrow>
                    (ChainIncomplete, ''server did not send the intermediate certificate (fetched via AIA: '' @
                       Join '', '' fetched @ '')'')
                | (fetched, False) \<Rightarrow> (ChainUntrustedRoot, scrubProbeError t))
      | OtherVerifyError t \<Rightarrow> (ChainInvalid, scrubProbeError t))"

definition classifyChain ::
    "x509_lib \<Rightarrow> time_fmt \<Rightarrow> issuer_fetch \<Rightarrow> int \<Rightarrow> certificate list \<Rightarrow> string \<Rightarrow> ChainState \<times> string" where
  "classifyChain x tf fetch now chain host =
     (let leaf = hd chain
      in if now > crt_NotAfter leaf then
           (ChainExpired, ''certificate expired '' @ RFC3339_Format tf (crt_NotAfter leaf div second))
         else if now < crt_NotBefore leaf then
           (ChainNotYetValid, ''certificate not valid before '' @ RFC3339_Format tf (crt_NotBefore leaf div second))
         else case x509_Verify x leaf (tl chain) host of
                None \<Rightarrow> (ChainValid, [])
              | Some err \<Rightarrow> classifyVerifyError x fetch err chain host)"

definition chainProblems :: "x509_lib \<Rightarrow> int \<Rightarrow> ChainState \<Rightarrow> certificate \<Rightarrow> string \<Rightarrow> ChainState list" where
  "chainProblems x now headline leaf host =
     (if headline \<noteq> ChainValid then [headline] else []) @
     filter (\<lambda>p. p \<noteq> headline)
       ((if now > crt_NotAfter leaf then [ChainExpired] else []) @
        (if now < crt_NotBefore leaf then [ChainNotYetValid] else []) @
        (if \<not> x509_VerifyHostname x leaf host then [ChainHostnameMismatch] else []) @
        (if isSelfSigned x leaf then [ChainSelfSigned] else []))"

section \<open>What is reported of the leaf\<close>

definition issuerName :: "certificate \<Rightarrow> string" where
  "issuerName c =
     (if crt_IssuerCN c \<noteq> [] then crt_IssuerCN c
      else if length (crt_IssuerOrgs c) > 0 then hd (crt_IssuerOrgs c)
      else crt_IssuerText c)"

definition issuerOrg :: "certificate \<Rightarrow> string" where
  "issuerOrg c = (if length (crt_IssuerOrgs c) > 0 then hd (crt_IssuerOrgs c) else crt_IssuerCN c)"

fun key_text :: "public_key \<Rightarrow> string" where
  "key_text (RSAKey n) = ''RSA '' @ nat_text n"
| "key_text (ECDSAKey curve) = ''ECDSA '' @ curve"
| "key_text Ed25519Key = ''Ed25519''"
| "key_text (OtherKey alg) = alg"

definition keyDescription :: "certificate \<Rightarrow> string" where
  "keyDescription c = key_text (crt_PublicKey c)"

text \<open>\<open>time.Until\<close> in nanoseconds saturates at the width of a Duration; the conversion of the
  quotient to \<open>int\<close> truncates towards zero. The rounding of the floating-point quotient is not
  modelled: it matters within a nanosecond of a whole day.\<close>

definition days_until :: "int \<Rightarrow> int \<Rightarrow> int" where
  "days_until now t =
     (let d = max min_int64 (min max_int64 (t - now)); day = 86400 * second
      in if d \<ge> 0 then d div day else - ((- d) div day))"

definition hex_byte :: "char \<Rightarrow> string" where
  "hex_byte c = (let n = of_char c :: nat in [hex_lower (n div 16), hex_lower (n mod 16)])"

definition hex_encode :: "string \<Rightarrow> string" where
  "hex_encode s = concat (map hex_byte s)"

definition certInfo :: "x509_lib \<Rightarrow> sha_lib \<Rightarrow> time_fmt \<Rightarrow> int \<Rightarrow> certificate \<Rightarrow> string \<Rightarrow> string \<Rightarrow> CertInfo" where
  "certInfo x sha tf now leaf apex www =
     \<lparr>ci_Subject = (if crt_SubjectCN leaf = [] \<and> length (crt_DNSNames leaf) > 0 then hd (crt_DNSNames leaf)
                    else crt_SubjectCN leaf),
      ci_Issuer = issuerName leaf,
      ci_NotBefore = RFC3339_Format tf (crt_NotBefore leaf div second),
      ci_NotAfter = RFC3339_Format tf (crt_NotAfter leaf div second),
      ci_DaysRemaining = days_until now (crt_NotAfter leaf),
      ci_SANs = crt_DNSNames leaf,
      ci_CoversApex = x509_VerifyHostname x leaf apex,
      ci_CoversWWW = x509_VerifyHostname x leaf www,
      ci_Wildcard = list_ex (\<lambda>n. HasPrefix n ''*.'') (crt_DNSNames leaf),
      ci_Key = keyDescription leaf,
      ci_Fingerprint = hex_encode (Sum256 sha (crt_Raw leaf))\<rparr>"

section \<open>One handshake\<close>

definition hex4 :: "nat \<Rightarrow> string" where
  "hex4 v = [hex_lower (v div 4096 mod 16), hex_lower (v div 256 mod 16), hex_lower (v div 16 mod 16), hex_lower (v mod 16)]"

definition formatTLSVersion :: "16 word \<Rightarrow> string" where
  "formatTLSVersion v =
     (if v = 0x0304 then ''TLS 1.3'' else if v = 0x0303 then ''TLS 1.2''
      else if v = 0x0302 then ''TLS 1.1'' else if v = 0x0301 then ''TLS 1.0''
      else ''0x'' @ hex4 (unat v))"

record conn_state =
  cs_Version :: "16 word"
  cs_Cipher :: string
  cs_Peer :: "certificate list"

definition noALPNAlert :: "string \<Rightarrow> bool" where
  "noALPNAlert err \<longleftrightarrow> Contains err ''no application protocol''"

text \<open>The fields that are not set; every result sets its chain state.\<close>

definition zero_TLSResult :: TLSResult where
  "zero_TLSResult = \<lparr>tl_Chain = ChainValid, tl_Problems = [], tl_Version = [], tl_Cipher = [], tl_TLS10 = None,
     tl_TLS11 = None, tl_Cert = None, tl_ChainLength = 0, tl_Error = [], tl_chain = [], tl_pkixValid = False,
     tl_noALPN = False\<rparr>"

text \<open>\<open>probeTLS\<close>: whether there is a connection to go on with, and the result. The clock is read
  three times, by \<open>classifyChain\<close>, \<open>chainProblems\<close> and \<open>certInfo\<close>.\<close>

definition probeTLS ::
    "x509_lib \<Rightarrow> sha_lib \<Rightarrow> time_fmt \<Rightarrow> issuer_fetch \<Rightarrow> int \<times> int \<times> int \<Rightarrow> string + conn_state \<Rightarrow>
     string \<Rightarrow> string \<Rightarrow> string \<Rightarrow> bool \<times> TLSResult" where
  "probeTLS x sha tf fetch clock hs host apex www =
     (case clock of (t1, t2, t3) \<Rightarrow>
        (case hs of
           Inl err \<Rightarrow>
             (False, zero_TLSResult\<lparr>tl_Chain := ChainHandshakeFailed, tl_Error := scrubProbeError err,
                tl_noALPN := noALPNAlert err\<rparr>)
         | Inr st \<Rightarrow>
             let res = zero_TLSResult\<lparr>tl_Version := formatTLSVersion (cs_Version st), tl_Cipher := cs_Cipher st,
                   tl_ChainLength := length (cs_Peer st), tl_chain := cs_Peer st\<rparr>
             in if cs_Peer st = [] then
                  (True, res\<lparr>tl_Chain := ChainInvalid, tl_Error := ''server sent no certificate'',
                     tl_Problems := [ChainInvalid]\<rparr>)
                else let leaf = hd (cs_Peer st); (chain, err) = classifyChain x tf fetch t1 (cs_Peer st) host
                     in (True, res\<lparr>tl_Chain := chain, tl_Error := err,
                           tl_Problems := chainProblems x t2 chain leaf host, tl_pkixValid := (chain = ChainValid),
                           tl_Cert := Some (certInfo x sha tf t3 leaf apex www)\<rparr>)))"

text \<open>A handshake on a connection of its own: no connection, an error (with whether it is a
  timeout), or the protocol agreed on. \<open>expired\<close> is whether the context has ended.\<close>

datatype handshake_result = NotDialed | HandshakeError string bool | HandshakeDone string

definition acceptsVersion :: "bool \<Rightarrow> handshake_result \<Rightarrow> bool option" where
  "acceptsVersion expired r =
     (case r of
        NotDialed \<Rightarrow> None
      | HandshakeDone _ \<Rightarrow> boolPtr True
      | HandshakeError err timeout \<Rightarrow> if expired \<or> timeout then None else boolPtr False)"

definition acceptsALPN :: "string \<Rightarrow> handshake_result \<Rightarrow> bool option" where
  "acceptsALPN proto r =
     (case r of
        NotDialed \<Rightarrow> None
      | HandshakeDone negotiated \<Rightarrow> boolPtr (negotiated = proto)
      | HandshakeError err _ \<Rightarrow> if noALPNAlert err then boolPtr False else None)"

section \<open>Lemmas\<close>

lemma aia_loop_spec:
  assumes "aia_loop x fetch leaf host n cert pool fetched = (urls, ok)"
  shows "\<exists>new certs. urls = fetched @ new \<and> length new \<le> n \<and> map fetch new = map Some certs \<and>
    (ok \<longrightarrow> new \<noteq> [] \<and> x509_Verify x leaf (pool @ certs) host = None)"
  using assms
proof (induction n arbitrary: cert pool fetched)
  case (Suc n)
  show ?case
  proof (cases "crt_IssuingCertificateURL cert = [] \<or> isSelfSigned x cert \<or>
      fetch (hd (crt_IssuingCertificateURL cert)) = None")
    case True
    then have "urls = fetched \<and> \<not> ok" using Suc.prems by (auto split: list.splits if_splits)
    then show ?thesis by (intro exI [of _ "[]"]) simp
  next
    case False
    then obtain url rest issuer where u: "crt_IssuingCertificateURL cert = url # rest" "\<not> isSelfSigned x cert"
      "fetch url = Some issuer"
      by (cases "crt_IssuingCertificateURL cert") auto
    show ?thesis
    proof (cases "x509_Verify x leaf (pool @ [issuer]) host = None")
      case True
      then have "urls = fetched @ [url]" using Suc.prems u by simp
      then show ?thesis using True u by (intro exI [of _ "[url]"] exI [of _ "[issuer]"]) simp
    next
      case False
      then obtain new certs where n: "urls = (fetched @ [url]) @ new" "length new \<le> n" "map fetch new = map Some certs"
        "ok \<longrightarrow> new \<noteq> [] \<and> x509_Verify x leaf ((pool @ [issuer]) @ certs) host = None"
        using Suc.IH [of issuer "pool @ [issuer]" "fetched @ [url]"] Suc.prems u by auto
      then show ?thesis using u by (intro exI [of _ "url # new"] exI [of _ "issuer # certs"]) simp
    qed
  qed
qed simp

lemma classifyVerifyError_not_valid: "fst (classifyVerifyError x fetch err chain host) \<notin> {ChainValid, ChainExpired}"
  by (auto simp: classifyVerifyError_def split: verify_error.split prod.split bool.split)

section \<open>Properties\<close>

text \<open>
  A chain is called valid exactly when the clock is within the leaf's dates and the chain as
  the server sent it verifies for the name; a repair by fetched issuers never makes it valid.
\<close>
theorem classifyChain_valid_iff:
  "fst (classifyChain x tf fetch now chain host) = ChainValid \<longleftrightarrow>
     crt_NotBefore (hd chain) \<le> now \<and> now \<le> crt_NotAfter (hd chain) \<and>
     x509_Verify x (hd chain) (tl chain) host = None"
  using classifyVerifyError_not_valid [of x fetch _ chain host]
  by (auto simp: classifyChain_def Let_def split: option.split)

text \<open>
  The repair of an incomplete chain makes at most three fetches, and reports success only for
  a chain that verifies once the certificates it fetched are added, in the order of the URLs it
  names.
\<close>
theorem completeViaAIA_sound:
  assumes "completeViaAIA x fetch leaf intermediates host = (urls, ok)"
  shows "length urls \<le> maxAIADepth \<and>
    (\<exists>certs. map fetch urls = map Some certs \<and>
       (ok \<longrightarrow> urls \<noteq> [] \<and> x509_Verify x leaf (intermediates @ certs) host = None))"
  using aia_loop_spec [of x fetch leaf host maxAIADepth leaf intermediates "[]" urls ok] assms
  by (auto simp: completeViaAIA_def)

definition ex_x509 :: x509_lib where
  "ex_x509 = \<lparr>x509_Verify = (\<lambda>leaf pool host. if pool = [] then Some (UnknownAuthorityError ''unknown authority'') else None),
     x509_VerifyHostname = (\<lambda>c h. h \<in> set (crt_DNSNames c)), x509_CheckSignature = (\<lambda>c. False)\<rparr>"

theorem completeViaAIA_sound_witness:
  "length [''http://ca/i''] \<le> maxAIADepth \<and>
   (\<exists>certs. map (\<lambda>u. Some ex_crt) [''http://ca/i''] = map Some certs \<and>
      (True \<longrightarrow> [''http://ca/i''] \<noteq> [] \<and> x509_Verify ex_x509 ex_crt ([] @ certs) ''d'' = None))"
proof (rule completeViaAIA_sound)
  show "completeViaAIA ex_x509 (\<lambda>u. Some ex_crt) ex_crt [] ''d'' = ([''http://ca/i''], True)"
    by (simp add: completeViaAIA_def maxAIADepth_def eval_nat_numeral ex_crt_def ex_x509_def isSelfSigned_def)
qed

text \<open>
  The list of problems begins with the headline of a chain that is not valid, names no problem
  twice, and never names a valid chain as one.
\<close>
theorem chainProblems_headline:
  "distinct (chainProblems x now headline leaf host) \<and> ChainValid \<notin> set (chainProblems x now headline leaf host) \<and>
   (case chainProblems x now headline leaf host of
      [] \<Rightarrow> headline = ChainValid
    | p # ps \<Rightarrow> headline = ChainValid \<or> p = headline)"
  by (auto simp: chainProblems_def split: list.split)

text \<open>
  A certificate that is not called expired has a number of days left that is not negative, if
  the three readings of the clock are less than a day apart: the sentinel of the expiry warning
  is never mistaken for a certificate.
\<close>
theorem probeTLS_days:
  assumes "probeTLS x sha tf fetch (t1, t2, t3) hs host apex www = (ok, res)"
    and "tl_Chain res \<noteq> ChainExpired" and "tl_Cert res = Some c" and "t3 \<le> t1 + 86399 * second"
  shows "0 \<le> ci_DaysRemaining c"
proof (cases hs)
  case (Inr st)
  show ?thesis
  proof (cases "cs_Peer st = []")
    case False
    then have c: "c = certInfo x sha tf t3 (hd (cs_Peer st)) apex www"
      and "tl_Chain res = fst (classifyChain x tf fetch t1 (cs_Peer st) host)"
      using assms(1,3) Inr by (auto simp: probeTLS_def Let_def case_prod_beta)
    then have "t1 \<le> crt_NotAfter (hd (cs_Peer st))"
      using assms(2) by (auto simp: classifyChain_def Let_def not_less split: if_splits)
    then have "crt_NotAfter (hd (cs_Peer st)) - t3 \<ge> - 86399 * second" using assms(4) by simp
    then have "0 \<le> days_until t3 (crt_NotAfter (hd (cs_Peer st)))"
      by (auto simp: days_until_def Let_def second_def max_int64_def min_int64_def max_def min_def)
    then show ?thesis by (simp add: c certInfo_def)
  qed (use assms(1,3) Inr in \<open>auto simp: probeTLS_def zero_TLSResult_def Let_def\<close>)
qed (use assms(1,3) in \<open>auto simp: probeTLS_def zero_TLSResult_def\<close>)

definition ex_state :: conn_state where
  "ex_state = \<lparr>cs_Version = 0x0304, cs_Cipher = [], cs_Peer = [ex_crt, ex_crt]\<rparr>"

definition ex_shown :: TLSResult where
  "ex_shown = snd (probeTLS ex_x509 \<lparr>Sum256 = id, Sum512 = id\<rparr> \<lparr>RFC3339_Format = Itoa, RFC3339_Parse = (\<lambda>s. None)\<rparr>
     (\<lambda>u. None) (86400 * second, 86400 * second, 86401 * second) (Inr ex_state) ''d'' ''d'' ''www.d'')"

theorem probeTLS_days_witness:
  "tl_Chain ex_shown = ChainValid \<and> 0 \<le> ci_DaysRemaining (the (tl_Cert ex_shown))"
proof -
  have v: "tl_Chain ex_shown = ChainValid"
    by (simp add: ex_shown_def probeTLS_def ex_state_def classifyChain_def ex_x509_def ex_crt_def second_def Let_def)
  obtain c where c: "tl_Cert ex_shown = Some c"
    by (simp add: ex_shown_def probeTLS_def ex_state_def Let_def case_prod_beta)
  have "0 \<le> ci_DaysRemaining c"
    by (rule probeTLS_days [of ex_x509 "\<lparr>Sum256 = id, Sum512 = id\<rparr>" "\<lparr>RFC3339_Format = Itoa, RFC3339_Parse = (\<lambda>s. None)\<rparr>"
      "\<lambda>u. None" "86400 * second" "86400 * second" "86401 * second" "Inr ex_state" "''d''" "''d''" "''www.d''"
      True ex_shown])
      (use c v in \<open>auto simp: ex_shown_def probeTLS_def ex_state_def second_def Let_def case_prod_beta\<close>)
  then show ?thesis using v c by simp
qed

end
