(* ===== verification/Memo.thy ===== *)
theory Memo
  imports Go_Prelude
begin

text \<open>
  What a memo table promises, and what its clients may rely on: the contract of the issuer certificate
  cache of \<open>src/aia.go\<close>. A request \<open>q\<close> is made
  under the key \<open>key q\<close>; \<open>asked\<close> lists the keys that were really asked for, in order.
\<close>

fun get_all :: "('q \<Rightarrow> 's \<Rightarrow> 'v \<times> 's) \<Rightarrow> 'q list \<Rightarrow> 's \<Rightarrow> 'v list \<times> 's" where
  "get_all get [] s = ([], s)"
| "get_all get (q # qs) s =
     (case get q s of (v, s1) \<Rightarrow> (case get_all get qs s1 of (vs, s2) \<Rightarrow> (v # vs, s2)))"

locale memo =
  fixes get :: "'q \<Rightarrow> 's \<Rightarrow> 'v \<times> 's"
    and key :: "'q \<Rightarrow> 'k"
    and stored :: "'s \<Rightarrow> 'k \<Rightarrow> 'v option"
    and asked :: "'s \<Rightarrow> 'k list"
  assumes hit: "stored s (key q) = Some v \<Longrightarrow> get q s = (v, s)"
    and miss_stored: "stored s (key q) = None \<Longrightarrow> stored (snd (get q s)) = (stored s)(key q \<mapsto> fst (get q s))"
    and miss_asked: "stored s (key q) = None \<Longrightarrow> asked (snd (get q s)) = asked s @ [key q]"
begin

definition memo_ok :: "'s \<Rightarrow> bool" where
  "memo_ok s \<longleftrightarrow> distinct (asked s) \<and> set (asked s) = dom (stored s)"

lemma get_ok:
  assumes "memo_ok s" and "get q s = (v, s')"
  shows "memo_ok s' \<and> stored s' (key q) = Some v \<and> stored s \<subseteq>\<^sub>m stored s' \<and>
    set (asked s') = insert (key q) (set (asked s))"
proof (cases "stored s (key q)")
  case None
  then have "key q \<notin> set (asked s)" using assms(1) by (auto simp: memo_ok_def)
  with None assms miss_stored [of s q] miss_asked [of s q] show ?thesis
    by (auto simp: memo_ok_def map_le_def)
next
  case (Some w)
  with hit [of s q w] assms show ?thesis by (auto simp: memo_ok_def)
qed

lemma get_all_ok:
  "memo_ok s \<Longrightarrow> get_all get qs s = (vs, s') \<Longrightarrow>
   memo_ok s' \<and> map (stored s' \<circ> key) qs = map Some vs \<and> stored s \<subseteq>\<^sub>m stored s' \<and>
   set (asked s') = key ` set qs \<union> set (asked s)"
proof (induction qs arbitrary: s vs)
  case Nil
  then show ?case by simp
next
  case (Cons q qs)
  obtain v s1 where 1: "get q s = (v, s1)" by fastforce
  obtain vs1 where 2: "get_all get qs s1 = (vs1, s')" and vs: "vs = v # vs1"
    using Cons.prems 1 by (auto split: prod.splits)
  note ok = get_ok [OF Cons.prems(1) 1]
  note IH = Cons.IH [OF _ 2]
  from ok IH have "stored s' (key q) = Some v" by (metis domI map_le_def)
  moreover have "stored s \<subseteq>\<^sub>m stored s'" using ok IH by (auto intro: map_le_trans)
  ultimately show ?case using ok IH vs by auto
qed

text \<open>From an empty table: every key is asked for once, and all requests under one key get the one
  value kept for it, so the answers are those of a function of the key.\<close>

lemma get_all_functional:
  assumes "asked s = []" and "stored s = Map.empty" and "get_all get qs s = (vs, s')"
  shows "distinct (asked s') \<and> set (asked s') = key ` set qs \<and>
    vs = map (\<lambda>q. the (stored s' (key q))) qs"
proof -
  have "memo_ok s" using assms(1,2) by (simp add: memo_ok_def)
  note r = get_all_ok [OF this assms(3)]
  then have "map the (map (stored s' \<circ> key) qs) = vs" by (simp add: comp_def)
  then have "vs = map (\<lambda>q. the (stored s' (key q))) qs" by (simp add: comp_def)
  with r assms(1) show ?thesis by (auto simp: memo_ok_def)
qed

end

end
