(* ===== verification/Probe.thy ===== *)
theory Probe
  imports Tlsprobe Hosts Mail Memo
begin

text \<open>
  The probes of one address (\<open>src/tcp.go\<close>, \<open>httpRequest\<close> of \<open>src/httpprobe.go\<close>, \<open>probeOldVersions\<close>
  of \<open>src/tlsprobe.go\<close>) and the fetching of issuer certificates (\<open>src/aia.go\<close>). The network is a
  parameter: what each dial, handshake and exchange of an address gives. The goroutines of one
  address write different fields, so their order does not show.
\<close>

section \<open>One HTTP exchange\<close>

text \<open>What the peer of an open connection does: the error of the write, if any, and the successive
  responses, each an error or a status and its header.\<close>

record http_response =
  rs_Status :: int
  rs_Header :: "string \<Rightarrow> string"

record exchange =
  io_write :: "string option"
  io_read :: "nat \<Rightarrow> string + http_response"

definition http_get :: "string \<Rightarrow> string \<Rightarrow> string" where
  "http_get host path =
     (let crlf = [CHR 0x0D, CHR 0x0A]
      in ''GET '' @ path @ '' HTTP/1.1'' @ crlf @ ''Host: '' @ host @ crlf @
         ''User-Agent: domaintest/1 (+https://github.com/DataPulse/domaintest)'' @ crlf @
         ''Accept: */*'' @ crlf @ ''Connection: close'' @ crlf @ crlf)"

definition response_result :: "http_response \<Rightarrow> HTTPResult" where
  "response_result r =
     (let h = rs_Header r ''Strict-Transport-Security''
      in \<lparr>ht_Status = rs_Status r, ht_Location = rs_Header r ''Location'', ht_Server = rs_Header r ''Server'',
          ht_HSTS = (if h \<noteq> [] then Some (parseHSTS h) else None), ht_AltSvc = rs_Header r ''Alt-Svc'', ht_Error = []\<rparr>)"

text \<open>\<open>httpRequest\<close>: the peer's behaviour is a function of the request it gets.\<close>

definition httpRequest :: "(string \<Rightarrow> exchange) \<Rightarrow> string \<Rightarrow> string \<Rightarrow> HTTPResult" where
  "httpRequest peer host path =
     (let x = peer (http_get host path)
      in case io_write x of
           Some err \<Rightarrow> zero_HTTPResult\<lparr>ht_Error := stageError ''write'' err\<rparr>
         | None \<Rightarrow>
             (case readFinalResponse (\<lambda>i. map_sum id rs_Status (io_read x i)) of
                (n, Inl err) \<Rightarrow> zero_HTTPResult\<lparr>ht_Error := stageError ''read'' err\<rparr>
              | (n, Inr code) \<Rightarrow>
                  (case io_read x (n - 1) of
                     Inr r \<Rightarrow> response_result r
                   | Inl err \<Rightarrow> zero_HTTPResult\<lparr>ht_Error := stageError ''read'' err\<rparr>)))"

section \<open>One address\<close>

text \<open>The network as the probe of one name at one address meets it: the dials, the exchanges on
  port 80 and inside TLS, the main handshake, and the handshakes that test HTTP/2, TLS 1.0 and
  TLS 1.1, with whether the context had ended when the last two did.\<close>

record addr_net =
  an_dial :: "nat \<Rightarrow> dial_error option"
  an_http :: "string \<Rightarrow> exchange"
  an_tls :: "string + conn_state"
  an_clock :: "int \<times> int \<times> int"
  an_https :: "string \<Rightarrow> exchange"
  an_h2 :: handshake_result
  an_tls10 :: "bool \<times> handshake_result"
  an_tls11 :: "bool \<times> handshake_result"

definition dialPort :: "addr_net \<Rightarrow> nat \<Rightarrow> PortState" where
  "dialPort net port = (case an_dial net port of None \<Rightarrow> PortOpen | Some err \<Rightarrow> classifyDialError err)"

definition probeHTTPPort :: "addr_net \<Rightarrow> string \<Rightarrow> PortState \<times> HTTPResult option" where
  "probeHTTPPort net host =
     (let st = dialPort net 80
      in if an_dial net 80 \<noteq> None then (st, None) else (st, Some (httpRequest (an_http net) host ''/'')))"

definition probeOldVersions :: "addr_net \<Rightarrow> bool option \<times> bool option" where
  "probeOldVersions net =
     (acceptsVersion (fst (an_tls10 net)) (snd (an_tls10 net)), acceptsVersion (fst (an_tls11 net)) (snd (an_tls11 net)))"

definition probeHTTPSPort ::
    "x509_lib \<Rightarrow> sha_lib \<Rightarrow> time_fmt \<Rightarrow> issuer_fetch \<Rightarrow> addr_net \<Rightarrow> string \<Rightarrow> string \<Rightarrow> string \<Rightarrow> addrProbe \<Rightarrow> addrProbe" where
  "probeHTTPSPort x sha tf fetch net host apex www p =
     (let st = dialPort net 443; p1 = p\<lparr>ap_HTTPS := st\<rparr>
      in if an_dial net 443 \<noteq> None then (if st = PortRefused then p1\<lparr>ap_http2 := boolPtr False\<rparr> else p1)
         else case probeTLS x sha tf fetch (an_clock net) (an_tls net) host apex www of (tc, tlsRes) \<Rightarrow>
           let ok = (tc \<and> tl_Chain tlsRes \<noteq> ChainHandshakeFailed);
               tlsRes' = (if ok then tlsRes\<lparr>tl_TLS10 := fst (probeOldVersions net), tl_TLS11 := snd (probeOldVersions net)\<rparr>
                          else tlsRes)
           in p1\<lparr>ap_http2 := acceptsALPN ''h2'' (an_h2 net),
                 ap_HTTPSRes := (if ok then Some (httpRequest (an_https net) host ''/'') else None),
                 ap_TLS := Some tlsRes'\<rparr>)"

definition new_addrProbe :: "addr \<Rightarrow> addrProbe" where
  "new_addrProbe ip = \<lparr>ap_IP = ip, ap_HTTP = PortError, ap_HTTPS = PortError, ap_HTTPRes = None, ap_HTTPSRes = None,
     ap_TLS = None, ap_http2 = None\<rparr>"

definition probeAddress ::
    "x509_lib \<Rightarrow> sha_lib \<Rightarrow> time_fmt \<Rightarrow> issuer_fetch \<Rightarrow> addr_net \<Rightarrow> addr \<Rightarrow> string \<Rightarrow> string \<Rightarrow> string \<Rightarrow> addrProbe" where
  "probeAddress x sha tf fetch net ip host apex www =
     (case probeHTTPPort net host of (st, res) \<Rightarrow>
        probeHTTPSPort x sha tf fetch net host apex www ((new_addrProbe ip)\<lparr>ap_HTTP := st, ap_HTTPRes := res\<rparr>))"

text \<open>\<open>ioDeadline\<close>, on times in nanoseconds; the context may have no deadline.\<close>

definition ioDeadline :: "int option \<Rightarrow> int \<Rightarrow> int \<Rightarrow> int" where
  "ioDeadline ctx now timeout =
     (let d = now + timeout in case ctx of Some cd \<Rightarrow> if cd < d then cd else d | None \<Rightarrow> d)"

section \<open>Issuer certificates\<close>

definition maxAIABytes :: nat where "maxAIABytes = 65536"

definition dialPublic :: "dp_lib \<Rightarrow> (string \<Rightarrow> string + addr list) \<Rightarrow> URL \<Rightarrow> string + addr list \<times> nat" where
  "dialPublic lib resolve u =
     (case (if Port u \<noteq> [] then parsePort (Port u) else Inr 80) of
        Inl err \<Rightarrow> Inl err
      | Inr port \<Rightarrow>
          (case resolve (Hostname u) of
             Inl err \<Rightarrow> Inl err
           | Inr as \<Rightarrow>
               (case splitReserved lib as of (public, reserved) \<Rightarrow>
                  if public = [] then
                    (if reserved \<noteq> [] then Inl (''issuer host has only reserved addresses ('' @ Join '', '' reserved @ '')'')
                     else Inl ''issuer host has no address'')
                  else Inr (public, port))))"

fun pem_certs :: "(string \<Rightarrow> string + certificate) \<Rightarrow> (string \<times> string) list \<Rightarrow> certificate list \<Rightarrow> string + certificate list" where
  "pem_certs parse [] certs = (if certs = [] then Inl ''no CERTIFICATE blocks'' else Inr certs)"
| "pem_certs parse ((typ, der) # blocks) certs =
     (if typ \<noteq> ''CERTIFICATE'' then pem_certs parse blocks certs
      else case parse der of Inl err \<Rightarrow> Inl err | Inr c \<Rightarrow> pem_certs parse blocks (certs @ [c]))"

definition parseCertificate ::
    "(string \<Rightarrow> string + certificate) \<Rightarrow> (string \<Rightarrow> (string \<times> string) list) \<Rightarrow> string \<Rightarrow> string + certificate" where
  "parseCertificate parse pem b =
     (case parse b of
        Inr c \<Rightarrow> Inr c
      | Inl _ \<Rightarrow>
          (case pem_certs parse (pem b) [] of
             Inl _ \<Rightarrow> Inl ''not a DER or PEM certificate''
           | Inr certs \<Rightarrow> if certs = [] then Inl ''not a DER or PEM certificate'' else Inr (hd certs)))"

text \<open>The HTTP client of a fetch: given the addresses and port it may dial and the URL, an error, or
  the status, the body, and the error that reading the body ended with.\<close>

type_synonym aia_client = "addr list \<times> nat \<Rightarrow> string \<Rightarrow> string + int \<times> string \<times> string option"

definition fetchAIA ::
    "dp_lib \<Rightarrow> (string \<Rightarrow> string + addr list) \<Rightarrow> aia_client \<Rightarrow> (string \<Rightarrow> string + certificate) \<Rightarrow>
     (string \<Rightarrow> (string \<times> string) list) \<Rightarrow> string \<Rightarrow> string + certificate" where
  "fetchAIA lib resolve client parse pem rawURL =
     (case url_Parse rawURL of
        None \<Rightarrow> Inl (''parse '' @ Quote rawURL)
      | Some u \<Rightarrow>
          if url_Scheme u \<noteq> ''http'' \<or> Hostname u = [] then Inl (''issuer URL '' @ Quote rawURL @ '' is not plain http'')
          else case dialPublic lib resolve u of
            Inl err \<Rightarrow> Inl err
          | Inr targets \<Rightarrow>
              (case client targets rawURL of
                 Inl err \<Rightarrow> Inl err
               | Inr (code, body, err) \<Rightarrow>
                   if code \<noteq> 200 then Inl (''issuer URL answered HTTP '' @ Itoa code)
                   else case err of Some e \<Rightarrow> Inl e | None \<Rightarrow> parseCertificate parse pem (take maxAIABytes body)))"

text \<open>\<open>fetchAIACached\<close>: the entries done, with the URLs fetched so far; \<open>i\<close>-th fetch gives \<open>fetch i\<close>.\<close>

record aia_cache =
  ac_done :: "(string, string + certificate) go_map"
  ac_fetched :: "string list"

definition fetchAIACached ::
    "(nat \<Rightarrow> string \<Rightarrow> string + certificate) \<Rightarrow> string \<Rightarrow> aia_cache \<Rightarrow> (string + certificate) \<times> aia_cache" where
  "fetchAIACached fetch rawURL c =
     (case map_of (ac_done c) rawURL of
        Some e \<Rightarrow> (e, c)
      | None \<Rightarrow>
          let e = fetch (length (ac_fetched c)) rawURL
          in (e, c\<lparr>ac_done := map_put rawURL e (ac_done c), ac_fetched := ac_fetched c @ [rawURL]\<rparr>))"

section \<open>Lemmas\<close>

lemma classifyDialError_not_open [simp]: "classifyDialError err \<noteq> PortOpen"
  by (simp add: classifyDialError_def)

lemma dialPort_open_iff [simp]: "dialPort net port = PortOpen \<longleftrightarrow> an_dial net port = None"
  by (cases "an_dial net port") (simp_all add: dialPort_def)

lemma dialPort_connected [simp]: "an_dial net port = None \<Longrightarrow> dialPort net port = PortOpen"
  by (simp add: dialPort_def)

interpretation aia: memo "fetchAIACached fetch" id "\<lambda>c. map_of (ac_done c)" ac_fetched
  by unfold_locales (auto simp: fetchAIACached_def Let_def)

section \<open>Properties\<close>

text \<open>
  C35. What the probe of an address records fits together: a port counts as open exactly when its own
  result is present; there is a TLS result exactly when port 443 opened, an HTTPS response exactly when
  the handshake on it succeeded as well, and the answers about old TLS versions only with it; and a
  refused port 443 settles that HTTP/2 is not offered.
\<close>
theorem probeAddress_consistent:
  fixes x :: x509_lib and sha :: sha_lib and tf :: time_fmt and fetch :: issuer_fetch and net :: addr_net
    and ip :: addr and host apex www :: string
  defines "p \<equiv> probeAddress x sha tf fetch net ip host apex www"
  shows "(ap_HTTP p = PortOpen \<longleftrightarrow> ap_HTTPRes p \<noteq> None) \<and>
    (ap_HTTPS p = PortOpen \<longleftrightarrow> ap_TLS p \<noteq> None) \<and>
    (ap_HTTPSRes p \<noteq> None \<longleftrightarrow> (\<exists>t. ap_TLS p = Some t \<and> tl_Chain t \<noteq> ChainHandshakeFailed)) \<and>
    (case ap_TLS p of
       Some t \<Rightarrow> (if tl_Chain t = ChainHandshakeFailed then (tl_TLS10 t, tl_TLS11 t) = (None, None) else True)
     | None \<Rightarrow> True) \<and>
    (if ap_HTTPS p = PortRefused then ap_http2 p = Some False else True) \<and> ap_IP p = ip"
proof -
  have tc: "fst (probeTLS x sha tf fetch clock hs host apex www) \<or>
      tl_Chain (snd (probeTLS x sha tf fetch clock hs host apex www)) = ChainHandshakeFailed" for clock hs
    by (auto simp: probeTLS_def Let_def split: prod.split sum.split)
  have old: "tl_TLS10 (snd (probeTLS x sha tf fetch clock hs host apex www)) = None \<and>
      tl_TLS11 (snd (probeTLS x sha tf fetch clock hs host apex www)) = None" for clock hs
    by (auto simp: probeTLS_def zero_TLSResult_def Let_def split: prod.split sum.split)
  show ?thesis
    using tc [of "an_clock net" "an_tls net"] old [of "an_clock net" "an_tls net"]
    by (auto simp: p_def probeAddress_def probeHTTPPort_def probeHTTPSPort_def new_addrProbe_def boolPtr_def Let_def
        split: prod.split)
qed

text \<open>
  An issuer URL is fetched once however often it is asked for: after any sequence of requests, from
  whichever addresses they come, the URLs fetched are distinct and exactly those asked for, and every
  request for a URL got the one result kept for it.
\<close>
theorem fetchAIACached_once:
  fixes fetch :: "nat \<Rightarrow> string \<Rightarrow> string + certificate" and us :: "string list"
  defines "r \<equiv> get_all (fetchAIACached fetch) us \<lparr>ac_done = [], ac_fetched = []\<rparr>"
  shows "distinct (ac_fetched (snd r)) \<and> set (ac_fetched (snd r)) = set us \<and>
    fst r = map (\<lambda>u. the (map_of (ac_done (snd r)) u)) us"
  using aia.get_all_functional [of "\<lparr>ac_done = [], ac_fetched = []\<rparr>" fetch us "fst r" "snd r"]
  by (simp add: r_def)

text \<open>
  C36. A certificate that an issuer fetch returns came over plain HTTP from a connection to public
  addresses only: the client is never handed a reserved address, whatever the URL and its DNS say.
\<close>
theorem fetchAIA_public:
  assumes "fetchAIA lib resolve client parse pem rawURL = Inr c"
  shows "\<exists>u as port body. url_Parse rawURL = Some u \<and> url_Scheme u = ''http'' \<and>
    as \<noteq> [] \<and> list_all (\<lambda>ip. reservedReason lib ip = []) as \<and>
    client (as, port) rawURL = Inr (200, body, None) \<and>
    parseCertificate parse pem (take maxAIABytes body) = Inr c"
proof -
  from assms obtain u where u: "url_Parse rawURL = Some u" "url_Scheme u = ''http''"
    by (auto simp: fetchAIA_def split: option.splits if_splits)
  with assms obtain as port where d: "dialPublic lib resolve u = Inr (as, port)"
    by (auto simp: fetchAIA_def split: if_splits sum.splits)
  then have "as \<noteq> [] \<and> (\<exists>all. as = fst (splitReserved lib all))"
    by (auto simp: dialPublic_def split: sum.splits prod.splits if_splits) (metis fst_conv)+
  then have "as \<noteq> []" "list_all (\<lambda>ip. reservedReason lib ip = []) as"
    by (auto simp: splitReserved_public list_all_iff)
  moreover from assms u d have "\<exists>body. client (as, port) rawURL = Inr (200, body, None) \<and>
      parseCertificate parse pem (take maxAIABytes body) = Inr c"
    by (auto simp: fetchAIA_def split: if_splits sum.splits option.splits)
  ultimately show ?thesis using u by blast
qed


definition ex_issuer :: "string + certificate" where
  "ex_issuer = fetchAIA ex_lib (\<lambda>h. Inr [IPv4 0x08080808]) (\<lambda>targets url. Inr (200, ''der'', None))
     (\<lambda>b. if b = ''der'' then Inr ex_crt else Inl ''bad'') (\<lambda>b. []) ''http://ca.example/i.crt''"

lemma ex_issuer: "ex_issuer = Inr ex_crt"
  by code_simp

theorem fetchAIA_public_witness:
  "\<exists>u. url_Parse ''http://ca.example/i.crt'' = Some u \<and> url_Scheme u = ''http''"
  using fetchAIA_public [OF ex_issuer [unfolded ex_issuer_def]] by blast

end
