(* ===== verification/Steps.thy ===== *)
theory Steps
  imports Main
begin

text \<open>
  The contracts of the step relations of the development: an invariant that every step keeps, and a
  rank that every step lowers together with a step in every state that is not final. What they give
  about runs is proved here once, for the limited runner, the slots of the address probes, the
  processes that share the preload cache, and the goroutines of a run.
\<close>

locale invariant_steps =
  fixes step :: "'s \<Rightarrow> 's \<Rightarrow> bool" and inv :: "'s \<Rightarrow> bool"
  assumes preserves: "inv s \<Longrightarrow> step s t \<Longrightarrow> inv t"
begin

lemma reach_inv:
  assumes "rtranclp step s t" and "inv s"
  shows "inv t"
  using assms by (induction rule: rtranclp_induct) (auto intro: preserves)

end

locale ranked_steps = invariant_steps +
  fixes rank :: "'s \<Rightarrow> nat" and final :: "'s \<Rightarrow> bool"
  assumes decreases: "inv s \<Longrightarrow> step s t \<Longrightarrow> rank t < rank s"
    and progress: "inv s \<Longrightarrow> \<not> final s \<Longrightarrow> \<exists>t. step s t"
begin

lemma steps_bound:
  assumes "(step ^^ k) s t" and "inv s"
  shows "inv t \<and> k + rank t \<le> rank s"
  using assms(1)
proof (induction k arbitrary: t)
  case 0
  with assms(2) show ?case by simp
next
  case (Suc k)
  then obtain u where u: "(step ^^ k) s u" "step u t" by auto
  with Suc.IH have "inv u" "k + rank u \<le> rank s" by auto
  with preserves [of u t] decreases [of u t] u(2) show ?case by auto
qed

lemma completes:
  assumes "inv s"
  shows "\<exists>t. rtranclp step s t \<and> final t"
  using assms
proof (induction "rank s" arbitrary: s rule: less_induct)
  case less
  show ?case
  proof (cases "final s")
    case False
    then obtain u where u: "step s u" using progress less.prems by blast
    with less.hyps [OF decreases [OF less.prems u] preserves [OF less.prems u]] show ?thesis
      by (meson converse_rtranclp_into_rtranclp)
  qed blast
qed

end

end
