(* ===== verification/Runner.thy ===== *)
theory Runner
  imports Config Steps
begin

text \<open>
  The running of external tools (\<open>src/runner.go\<close>): the capped output buffers, what a run returns
  when its context has ended, the lookup of a required tool, and the runner that lets at most
  \<open>n\<close> tools run at once. The operating system is a parameter: a process run is the chunks it
  writes, its exit, and the state of the context when it has ended. The calls that share a limited
  runner are a transition system, since they are made from many goroutines.
\<close>

section \<open>Output buffers\<close>

record cappedBuffer =
  cb_buf :: string
  cb_max :: int

text \<open>\<open>Write\<close>: the number of bytes reported as written, and the buffer.\<close>

definition cb_Write :: "cappedBuffer \<Rightarrow> string \<Rightarrow> nat \<times> cappedBuffer" where
  "cb_Write b p =
     (let room = cb_max b - int (length (cb_buf b))
      in (length p,
          if room > 0 then b\<lparr>cb_buf := cb_buf b @ take (nat (min (int (length p)) room)) p\<rparr> else b))"

definition cb_Bytes :: "cappedBuffer \<Rightarrow> string" where
  "cb_Bytes b = cb_buf b"

definition maxToolOutput :: int where
  "maxToolOutput = push_bit 20 1"

definition captured :: "string list \<Rightarrow> cappedBuffer" where
  "captured writes = fold (\<lambda>p b. snd (cb_Write b p)) writes \<lparr>cb_buf = [], cb_max = maxToolOutput\<rparr>"

section \<open>One run\<close>

datatype ctx_err = DeadlineExceeded | Canceled

fun ctx_text :: "ctx_err \<Rightarrow> string" where
  "ctx_text DeadlineExceeded = ''context deadline exceeded''"
| "ctx_text Canceled = ''context canceled''"

text \<open>What the operating system did with a command: the chunks written to the two pipes, the error
  of the process, and whether the context had ended when it returned.\<close>

record process_run =
  pr_stdout :: "string list"
  pr_stderr :: "string list"
  pr_error :: "(int \<times> string) option"
  pr_ctx :: "ctx_err option"

definition ctx_failure :: "string \<Rightarrow> string \<Rightarrow> string \<Rightarrow> ctx_err \<Rightarrow> tool_result" where
  "ctx_failure name out err e =
     \<lparr>tool_out = out, tool_err = err, tool_timeout = (e = DeadlineExceeded),
      tool_error = Some (- 1, name @ '': '' @ ctx_text e)\<rparr>"

definition execRunner_Run :: "(string \<Rightarrow> string list \<Rightarrow> process_run) \<Rightarrow> runner" where
  "execRunner_Run os name args =
     (let p = os name args;
          out = cb_Bytes (captured (pr_stdout p)); err = cb_Bytes (captured (pr_stderr p))
      in case pr_ctx p of
           Some e \<Rightarrow> ctx_failure name out err e
         | None \<Rightarrow> \<lparr>tool_out = out, tool_err = err, tool_timeout = False, tool_error = pr_error p\<rparr>)"

definition requireTool :: "(string \<Rightarrow> string + string) \<Rightarrow> string \<Rightarrow> string \<Rightarrow> string + string" where
  "requireTool LookPath explicit name =
     (let candidate = (if explicit \<noteq> [] then explicit else name)
      in case LookPath candidate of
           Inl e \<Rightarrow> Inl (''required tool \"'' @ candidate @ ''\" not found: '' @ e)
         | Inr path \<Rightarrow> Inr path)"

section \<open>The limited runner\<close>

text \<open>
  The calls sharing one semaphore channel: a call waits for a slot, runs the inner runner, and has
  returned. \<open>pl_sem\<close> is the number of tokens in the channel, whose capacity is \<open>pl_cap\<close>.
\<close>

datatype call = Waiting | Running | Returned tool_result

record pool =
  pl_cap :: nat
  pl_sem :: nat
  pl_calls :: "call list"

definition limitRunner :: "int \<Rightarrow> nat \<Rightarrow> pool option" where
  "limitRunner n calls =
     (if n \<le> 0 then None
      else Some \<lparr>pl_cap = nat n, pl_sem = 0, pl_calls = replicate calls Waiting\<rparr>)"

text \<open>One step of \<open>limitedRunner.Run\<close> in some goroutine: the two cases of its \<open>select\<close>, and the return
  of the inner runner followed by the deferred receive.\<close>

inductive limited_step :: "runner \<Rightarrow> (string \<times> string list) list \<Rightarrow> pool \<Rightarrow> pool \<Rightarrow> bool"
  for inner :: runner and reqs :: "(string \<times> string list) list" where
  acquire: "\<lbrakk>i < length (pl_calls s); pl_calls s ! i = Waiting; pl_sem s < pl_cap s\<rbrakk> \<Longrightarrow>
     limited_step inner reqs s (s\<lparr>pl_sem := pl_sem s + 1, pl_calls := (pl_calls s)[i := Running]\<rparr>)"
| give_up: "\<lbrakk>i < length (pl_calls s); pl_calls s ! i = Waiting\<rbrakk> \<Longrightarrow>
     limited_step inner reqs s
       (s\<lparr>pl_calls := (pl_calls s)[i := Returned (ctx_failure (fst (reqs ! i)) [] [] e)]\<rparr>)"
| finish: "\<lbrakk>i < length (pl_calls s); pl_calls s ! i = Running\<rbrakk> \<Longrightarrow>
     limited_step inner reqs s
       (s\<lparr>pl_sem := pl_sem s - 1,
          pl_calls := (pl_calls s)[i := Returned (inner (fst (reqs ! i)) (snd (reqs ! i)))]\<rparr>)"

inductive_cases limited_stepE: "limited_step inner reqs s t"

definition in_flight :: "pool \<Rightarrow> nat" where
  "in_flight s = count_list (pl_calls s) Running"

definition work_left :: "pool \<Rightarrow> nat" where
  "work_left s = 2 * count_list (pl_calls s) Waiting + in_flight s"

definition call_ok :: "runner \<Rightarrow> string \<times> string list \<Rightarrow> call \<Rightarrow> bool" where
  "call_ok inner req c =
     (case c of Returned r \<Rightarrow> r = inner (fst req) (snd req) \<or>
                              r \<in> ctx_failure (fst req) [] [] ` {DeadlineExceeded, Canceled}
      | _ \<Rightarrow> True)"

definition pool_ok :: "runner \<Rightarrow> (string \<times> string list) list \<Rightarrow> pool \<Rightarrow> bool" where
  "pool_ok inner reqs s \<longleftrightarrow> pl_sem s = in_flight s \<and> pl_sem s \<le> pl_cap s \<and>
     list_all2 (call_ok inner) reqs (pl_calls s)"

section \<open>Lemmas\<close>

lemma cb_Write_eq:
  assumes "length (cb_buf b) \<le> nat (cb_max b)" and "0 \<le> cb_max b"
  shows "snd (cb_Write b p) = b\<lparr>cb_buf := take (nat (cb_max b)) (cb_buf b @ p)\<rparr>"
  using assms by (cases b) (auto simp: cb_Write_def Let_def min_def nat_diff_distrib)

lemma take_absorb: "take m (take m xs @ ys) = take m (xs @ ys)"
  by (cases "length xs \<le> m") auto

lemma cb_fold_eq:
  assumes "length (cb_buf b) \<le> nat (cb_max b)" and "0 \<le> cb_max b"
  shows "fold (\<lambda>p b. snd (cb_Write b p)) writes b = b\<lparr>cb_buf := take (nat (cb_max b)) (cb_buf b @ concat writes)\<rparr>"
  using assms
proof (induction writes arbitrary: b)
  case Nil
  then show ?case by (cases b) simp
next
  case (Cons p ps)
  then show ?case by (simp add: cb_Write_eq Cons.IH take_absorb del: take_append)
qed

lemma count_list_update:
  assumes "i < length xs" and "xs ! i = a"
  shows "count_list (xs[i := b]) c + (if c = a then 1 else 0) = count_list xs c + (if c = b then 1 else 0)"
  using assms
proof (induction xs arbitrary: i)
  case Nil
  then show ?case by simp
next
  case (Cons x xs)
  then show ?case by (cases i) (auto split: if_splits)
qed

lemma list_all2_update:
  "list_all2 P xs ys \<Longrightarrow> i < length ys \<Longrightarrow> P (xs ! i) y \<Longrightarrow> list_all2 P xs (ys[i := y])"
  by (auto simp: list_all2_conv_all_nth nth_list_update)

lemmas pool_defs = pool_ok_def in_flight_def work_left_def call_ok_def

lemma limited_step_ok:
  assumes "limited_step inner reqs s t" and "pool_ok inner reqs s"
  shows "pool_ok inner reqs t \<and> pl_cap t = pl_cap s \<and> work_left t < work_left s"
  using assms(1)
proof cases
  case (acquire i)
  note u = count_list_update [OF acquire(2,3), of Running]
  from acquire assms(2) show ?thesis
    using u [of Running] u [of Waiting] by (auto simp: pool_defs intro!: list_all2_update)
next
  case (give_up i e)
  note u = count_list_update [OF give_up(2,3), of "Returned (ctx_failure (fst (reqs ! i)) [] [] e)"]
  have "e \<in> {DeadlineExceeded, Canceled}" by (cases e) auto
  with give_up assms(2) show ?thesis
    using u [of Running] u [of Waiting] by (auto simp: pool_defs intro!: list_all2_update)
next
  case (finish i)
  note u = count_list_update [OF finish(2,3), of "Returned (inner (fst (reqs ! i)) (snd (reqs ! i)))"]
  from finish assms(2) show ?thesis
    using u [of Running] u [of Waiting] by (auto simp: pool_defs intro!: list_all2_update)
qed

lemma limitRunner_ok:
  assumes "limitRunner n (length reqs) = Some s"
  shows "pool_ok inner reqs s \<and> pl_cap s = nat n \<and> 0 < n \<and> work_left s = 2 * length reqs"
proof -
  have "count_list (replicate k Waiting) Running = 0" "count_list (replicate k Waiting) Waiting = k" for k
    by (induction k) auto
  with assms show ?thesis
    by (auto simp: limitRunner_def pool_defs list_all2_conv_all_nth split: if_splits)
qed

lemma pool_progress:
  assumes "pool_ok inner reqs s" and "0 < pl_cap s" and "0 < work_left s"
  shows "\<exists>t. limited_step inner reqs s t \<and> in_flight s \<noteq> in_flight t"
proof (cases "in_flight s = 0")
  case True
  with assms(3) have "Waiting \<in> set (pl_calls s)"
    using count_list_0_iff [of "pl_calls s" Waiting] by (auto simp: work_left_def)
  then obtain i where i: "i < length (pl_calls s)" "pl_calls s ! i = Waiting" by (auto simp: in_set_conv_nth)
  moreover have "pl_sem s < pl_cap s" using True assms by (simp add: pool_ok_def)
  ultimately show ?thesis
    using limited_step.acquire [of i s inner reqs] count_list_update [OF i, of Running Running]
    by (fastforce simp: in_flight_def)
next
  case False
  then have "Running \<in> set (pl_calls s)" by (auto simp: in_flight_def count_list_0_iff)
  then obtain i where i: "i < length (pl_calls s)" "pl_calls s ! i = Running" by (auto simp: in_set_conv_nth)
  show ?thesis
    using limited_step.finish [OF i, of inner reqs]
      count_list_update [OF i, of "Returned (inner (fst (reqs ! i)) (snd (reqs ! i)))" Running]
    by (fastforce simp: in_flight_def)
qed

interpretation limited: ranked_steps "limited_step inner reqs" "\<lambda>s. pool_ok inner reqs s \<and> 0 < pl_cap s"
    work_left "\<lambda>s. work_left s = 0" for inner reqs
  by unfold_locales (use limited_step_ok pool_progress in fastforce)+

lemma limitRunner_steps:
  assumes "limitRunner n (length reqs) = Some s" and "(limited_step inner reqs ^^ k) s t"
  shows "pool_ok inner reqs t" and "0 < pl_cap t" and "pl_cap t = nat n" and "k + work_left t \<le> 2 * length reqs"
proof -
  note s = limitRunner_ok [OF assms(1), of inner]
  with limited.steps_bound [OF assms(2)] show "pool_ok inner reqs t" "0 < pl_cap t" "k + work_left t \<le> 2 * length reqs"
    by auto
  have "pl_cap t = pl_cap s" using assms(2)
  proof (induction k arbitrary: t)
    case (Suc k)
    then obtain u where "(limited_step inner reqs ^^ k) s u" "limited_step inner reqs u t" by auto
    with Suc.IH [of u] show ?case by (auto elim: limited_stepE)
  qed simp
  with s show "pl_cap t = nat n" by simp
qed

section \<open>Properties\<close>

text \<open>
  Whatever the chunks a tool writes, the buffer ends with exactly the first mebibyte of their
  concatenation, and every write reports that all its bytes were taken (so the tool never sees a
  short write).
\<close>
theorem captured_prefix:
  "cb_Bytes (captured writes) = take (2 ^ 20) (concat writes) \<and> fst (cb_Write b p) = length p"
proof
  show "cb_Bytes (captured writes) = take (2 ^ 20) (concat writes)"
    by (simp add: captured_def cb_Bytes_def cb_fold_eq maxToolOutput_def)
  show "fst (cb_Write b p) = length p" by (simp add: cb_Write_def Let_def)
qed

text \<open>
  C17. In every state that calls sharing a limited runner can reach, at most \<open>n\<close> tools run at once, and
  the semaphore holds exactly one token for each of them; every call that has returned gave the
  inner runner's result for its own request, or the error of its ended context under its own name;
  and no more than two steps per call have been taken.
\<close>
theorem limitedRunner_bounded:
  assumes "limitRunner n (length reqs) = Some s" and "(limited_step inner reqs ^^ k) s t"
  shows "int (in_flight t) \<le> n \<and> pl_sem t = in_flight t \<and>
    list_all2 (call_ok inner) reqs (pl_calls t) \<and> k + work_left t \<le> 2 * length reqs"
proof -
  from limitRunner_steps [OF assms] limitRunner_ok [OF assms(1), of inner] show ?thesis by (auto simp: pool_ok_def)
qed

definition ex_inner :: runner where
  "ex_inner name args = \<lparr>tool_out = name, tool_err = [], tool_timeout = False, tool_error = None\<rparr>"

definition ex_calls :: "(string \<times> string list) list" where
  "ex_calls = [(''dog'', []), (''dig'', [])]"

definition ex_pool :: "nat \<Rightarrow> call list \<Rightarrow> pool" where
  "ex_pool k cs = \<lparr>pl_cap = 1, pl_sem = k, pl_calls = cs\<rparr>"

lemma ex_acquire: "limited_step ex_inner ex_calls (ex_pool 0 [Waiting, Waiting]) (ex_pool 1 [Waiting, Running])"
  using limited_step.acquire [of 1 "ex_pool 0 [Waiting, Waiting]" ex_inner ex_calls]
  by (simp add: ex_pool_def)

lemma ex_one:
  "(limited_step ex_inner ex_calls ^^ 1) (ex_pool 0 [Waiting, Waiting]) (ex_pool 1 [Waiting, Running])"
  using ex_acquire by (simp add: relcompp.simps)

theorem limitedRunner_bounded_witness:
  "limitRunner 1 (length ex_calls) = Some (ex_pool 0 [Waiting, Waiting]) \<and>
   (limited_step ex_inner ex_calls ^^ 1) (ex_pool 0 [Waiting, Waiting]) (ex_pool 1 [Waiting, Running]) \<and>
   int (in_flight (ex_pool 1 [Waiting, Running])) \<le> 1"
proof -
  have s: "limitRunner 1 (length ex_calls) = Some (ex_pool 0 [Waiting, Waiting])"
    by (simp add: limitRunner_def ex_calls_def ex_pool_def)
  from limitedRunner_bounded [OF s ex_one] s ex_one show ?thesis by simp
qed

text \<open>
  C18. Calls sharing a limited runner never block each other for good: as long as some call has not
  returned, some call can take a slot or release one, without any context having to end; and when
  all have returned every slot is free again.
\<close>
theorem limitedRunner_live:
  assumes "limitRunner n (length reqs) = Some s" and "(limited_step inner reqs ^^ k) s t"
  shows "if work_left t = 0 then pl_sem t = 0
    else \<exists>u. limited_step inner reqs t u \<and> in_flight t \<noteq> in_flight u"
proof -
  from limitRunner_steps [OF assms] have "pool_ok inner reqs t" "0 < pl_cap t" by auto
  with pool_progress [of inner reqs t] show ?thesis by (auto simp: pool_ok_def work_left_def)
qed

theorem limitedRunner_live_witness:
  "limitRunner 1 (length ex_calls) = Some (ex_pool 0 [Waiting, Waiting]) \<and>
   (\<exists>u. limited_step ex_inner ex_calls (ex_pool 1 [Waiting, Running]) u \<and> in_flight u \<noteq> 1)"
proof -
  have s: "limitRunner 1 (length ex_calls) = Some (ex_pool 0 [Waiting, Waiting])"
    by (simp add: limitRunner_def ex_calls_def ex_pool_def)
  from limitedRunner_live [OF s ex_one] s show ?thesis
    by (auto simp: ex_pool_def work_left_def in_flight_def)
qed

end
