(* ===== verification/Paths.thy ===== *)
theory Paths
  imports Go_Prelude
begin

text \<open>
  What the code uses of Go's package path/filepath on Unix: \<open>Clean\<close>, \<open>Join\<close> and \<open>Dir\<close>. A path is split at
  its slashes, and the elements already kept are a stack, the last one on top.
\<close>

definition clean_step :: "bool \<Rightarrow> string \<Rightarrow> string list \<Rightarrow> string list" where
  "clean_step rooted e out =
     (if e = [] \<or> e = ''.'' then out
      else if e = ''..'' then
        (case out of
           x # rest \<Rightarrow> if x \<noteq> ''..'' then rest else e # out
         | [] \<Rightarrow> if rooted then [] else [e])
      else e # out)"

definition clean_elements :: "bool \<Rightarrow> string list \<Rightarrow> string list" where
  "clean_elements rooted es = rev (fold (clean_step rooted) es [])"

definition Clean :: "string \<Rightarrow> string" where
  "Clean p =
     (let rooted = HasPrefix p ''/''; body = Join ''/'' (clean_elements rooted (Split CHR ''/'' p))
      in if rooted then ''/'' @ body else if body = [] then ''.'' else body)"

definition path_Join :: "string list \<Rightarrow> string" where
  "path_Join es = (let rest = dropWhile (\<lambda>e. e = []) es in if rest = [] then [] else Clean (Join ''/'' rest))"

definition Dir :: "string \<Rightarrow> string" where
  "Dir p = Clean (rev (dropWhile (\<lambda>c. c \<noteq> CHR ''/'') (rev p)))"

section \<open>Lemmas\<close>

text \<open>The stack of a path: proper elements above leading \<open>..\<close>, of which a rooted path has none.\<close>

definition proper :: "string \<Rightarrow> bool" where
  "proper e \<longleftrightarrow> e \<noteq> [] \<and> e \<noteq> ''.'' \<and> e \<noteq> ''..'' \<and> CHR ''/'' \<notin> set e"

definition clean_stack :: "bool \<Rightarrow> string list \<Rightarrow> bool" where
  "clean_stack rooted out \<longleftrightarrow>
     (\<exists>n es. out = es @ replicate n ''..'' \<and> list_all proper es \<and> (if rooted then n = 0 else True))"

lemma clean_step_stack:
  assumes "clean_stack rooted out" and "CHR ''/'' \<notin> set e"
  shows "clean_stack rooted (clean_step rooted e out)"
proof -
  from assms(1) obtain n es where out: "out = es @ replicate n ''..''" "list_all proper es" "if rooted then n = 0 else True"
    unfolding clean_stack_def by blast
  consider "e = [] \<or> e = ''.''" | "e = ''..''" | "proper e" using assms(2) by (auto simp: proper_def)
  then show ?thesis
  proof cases
    case 1
    with assms(1) show ?thesis by (simp add: clean_step_def)
  next
    case 2
    show ?thesis
    proof (cases es)
      case Nil
      then have "clean_step rooted e out = [] @ replicate (if rooted then 0 else Suc n) ''..''"
        using out 2 by (cases n) (auto simp: clean_step_def)
      then show ?thesis
        unfolding clean_stack_def by (intro exI [of _ "if rooted then 0 else Suc n"] exI [of _ "[]"]) simp
    next
      case (Cons x xs)
      then have "clean_step rooted e out = xs @ replicate n ''..''" "list_all proper xs"
        using out 2 by (auto simp: clean_step_def proper_def)
      with out(3) show ?thesis unfolding clean_stack_def by blast
    qed
  next
    case 3
    then have "clean_step rooted e out = (e # es) @ replicate n ''..''" using out by (auto simp: clean_step_def proper_def)
    moreover have "list_all proper (e # es)" using 3 out by simp
    ultimately show ?thesis using out(3) unfolding clean_stack_def by blast
  qed
qed

lemma clean_fold_stack:
  "clean_stack rooted out \<Longrightarrow> list_all (\<lambda>e. CHR ''/'' \<notin> set e) es \<Longrightarrow> clean_stack rooted (fold (clean_step rooted) es out)"
  by (induction es arbitrary: out) (simp_all add: clean_step_stack)

lemma clean_elements_stack: "list_all (\<lambda>e. CHR ''/'' \<notin> set e) es \<Longrightarrow> clean_stack rooted (rev (clean_elements rooted es))"
  unfolding clean_elements_def rev_rev_ident
  by (rule clean_fold_stack) (auto simp: clean_stack_def intro!: exI [of _ "0 :: nat"] exI [of _ "[]"])

text \<open>Cleaning what is clean changes nothing.\<close>

lemma fold_dots: "\<not> rooted \<Longrightarrow> fold (clean_step rooted) (replicate n ''..'') (replicate m ''..'') = replicate (n + m) ''..''"
proof (induction n arbitrary: m)
  case (Suc n)
  have "clean_step rooted ''..'' (replicate m ''..'') = replicate (Suc m) ''..''"
    using Suc.prems by (cases m) (simp_all add: clean_step_def)
  with Suc.IH [of "Suc m"] Suc.prems show ?case by simp
qed simp

lemma fold_proper: "list_all proper es \<Longrightarrow> fold (clean_step rooted) es out = rev es @ out"
  by (induction es arbitrary: out) (auto simp: clean_step_def proper_def)

lemma clean_elements_clean:
  assumes "clean_stack rooted (rev es)" shows "clean_elements rooted es = es"
proof -
  from assms obtain n ps where es: "rev es = ps @ replicate n ''..''" "list_all proper ps" "if rooted then n = 0 else True"
    unfolding clean_stack_def by blast
  from arg_cong [OF es(1), of rev] have "es = replicate n ''..'' @ rev ps" by (simp add: rev_replicate)
  moreover have "fold (clean_step rooted) (replicate n ''..'') [] = replicate n ''..''"
    using fold_dots [of rooted n 0] es(3) by (cases rooted) auto
  ultimately show ?thesis using es(2)
    by (simp add: clean_elements_def fold_proper)
qed

lemma clean_stack_elements:
  assumes "clean_stack rooted (rev es)" and "e \<in> set es"
  shows "e \<noteq> [] \<and> e \<noteq> ''.'' \<and> CHR ''/'' \<notin> set e"
proof -
  from assms(1) obtain n ps where es: "rev es = ps @ replicate n ''..''" and ps: "list_all proper ps"
    unfolding clean_stack_def by blast
  from assms(2) have "e \<in> set (rev es)" by simp
  then have "e \<in> set ps \<or> e = ''..''" unfolding es
    by (simp only: set_append set_replicate_conv_if Un_iff singleton_iff empty_iff split: if_splits) blast+
  then show ?thesis
  proof
    assume "e \<in> set ps"
    with ps have "proper e" by (simp add: list_all_iff)
    then show ?thesis by (simp add: proper_def)
  qed simp
qed

lemma clean_elements_Nil: "clean_elements rooted ([] # es) = clean_elements rooted es"
  by (simp add: clean_elements_def clean_step_def)

lemma Join_slash_head:
  assumes "es \<noteq> []" and "\<And>e. e \<in> set es \<Longrightarrow> e \<noteq> [] \<and> CHR ''/'' \<notin> set e"
  shows "Join ''/'' es \<noteq> []" and "\<not> HasPrefix (Join ''/'' es) ''/''"
proof -
  obtain e rest where es: "es = e # rest" using assms(1) by (cases es) auto
  then obtain c cs where e: "e = c # cs" "c \<noteq> CHR ''/''" using assms(2) [of e] by (cases e) auto
  then have "\<exists>t. Join ''/'' es = c # t" using es by (cases rest) auto
  then show "Join ''/'' es \<noteq> []" "\<not> HasPrefix (Join ''/'' es) ''/''" using e(2) by (auto simp: HasPrefix_def)
qed

section \<open>Properties\<close>

text \<open>
  \<open>Clean\<close> is idempotent: its result is a path that it leaves alone, with no empty element, no \<open>.\<close> and
  no \<open>..\<close> after a name.
\<close>
theorem Clean_idem: "Clean (Clean p) = Clean p"
proof -
  let ?rooted = "HasPrefix p ''/''" and ?s = "Split CHR ''/'' p"
  define es where "es = clean_elements ?rooted ?s"
  have stack: "clean_stack ?rooted (rev es)" unfolding es_def
    by (rule clean_elements_stack) (auto simp: list_all_iff dest: Split_parts)
  note parts = clean_stack_elements [OF stack]
  have same: "clean_elements ?rooted es = es" by (rule clean_elements_clean) (rule stack)
  have split: "Split CHR ''/'' (Join ''/'' es) = es" if "es \<noteq> []" using that parts by (intro Split_Join) auto
  have Clean_p: "Clean p = (if ?rooted then ''/'' @ Join ''/'' es else if Join ''/'' es = [] then ''.'' else Join ''/'' es)"
    by (simp add: Clean_def es_def Let_def)
  consider (rooted) "?rooted" | (dot) "\<not> ?rooted" "es = []" | (rel) "\<not> ?rooted" "es \<noteq> []" by blast
  then show ?thesis
  proof cases
    case rooted
    have "clean_elements True (Split CHR ''/'' (''/'' @ Join ''/'' es)) = es"
      using split same rooted by (cases "es = []") (simp_all add: clean_elements_Nil)
    with rooted show ?thesis unfolding Clean_p by (simp add: Clean_def HasPrefix_def)
  next
    case dot
    have "Clean ''.'' = ''.''" by code_simp
    with dot show ?thesis unfolding Clean_p by simp
  next
    case rel
    then show ?thesis unfolding Clean_p
      using Join_slash_head [OF rel(2)] parts split same by (simp add: Clean_def)
  qed
qed

end
