(* ===== verification/Quic.thy ===== *)
theory Quic
  imports Web Runner Json Paths "HOL-Library.Monad_Syntax"
begin

unbundle bit_operations_syntax

text \<open>
  The QUIC probe (\<open>src/quic.go\<close>): finding the quicprobe binary, running it against one address, and
  decoding the object it prints. What the operating system says is in the record
  \<open>os_env\<close>: the paths of the executable and of the working directory, symbolic links, and the mode of a
  file.
\<close>

definition zero_QUICResult :: QUICResult where
  "zero_QUICResult = \<lparr>qu_Supported = False, qu_ALPN = [], qu_TLSVersion = [], qu_ServerAddr = [], qu_Family = [],
     qu_TargetIP = [], qu_HandshakeMs = 0, qu_Reason = [], qu_TLSAlert = [], qu_TLSAlertCode = 0, qu_Error = []\<rparr>"

definition quicprobeName :: string where "quicprobeName = ''quicprobe''"

record os_env =
  os_Executable :: "string option"
  os_EvalSymlinks :: "string \<Rightarrow> string option"
  os_Getwd :: "string option"
  os_Stat :: "string \<Rightarrow> (bool \<times> 32 word) option"

definition candidateDirs :: "os_env \<Rightarrow> string list" where
  "candidateDirs os =
     (case os_Executable os of
        Some exe \<Rightarrow> [Dir (case os_EvalSymlinks os exe of Some real \<Rightarrow> real | None \<Rightarrow> exe)]
      | None \<Rightarrow> []) @
     (case os_Getwd os of Some cwd \<Rightarrow> [cwd] | None \<Rightarrow> [])"

definition isExecutable :: "os_env \<Rightarrow> string \<Rightarrow> bool" where
  "isExecutable os p = (case os_Stat os p of Some (isDir, mode) \<Rightarrow> \<not> isDir \<and> mode AND 0x49 \<noteq> 0 | None \<Rightarrow> False)"

definition findQuicprobe :: "(string \<Rightarrow> string + string) \<Rightarrow> os_env \<Rightarrow> string \<Rightarrow> string + string" where
  "findQuicprobe LookPath os explicit =
     (if explicit \<noteq> [] then requireTool LookPath explicit quicprobeName
      else case LookPath quicprobeName of
             Inr p \<Rightarrow> Inr p
           | Inl _ \<Rightarrow>
               let tried = map (\<lambda>dir. path_Join [dir, ''..'', quicprobeName, quicprobeName]) (candidateDirs os)
               in case find (isExecutable os) tried of
                    Some p \<Rightarrow> Inr p
                  | None \<Rightarrow> Inl (''quicprobe not found on PATH or at '' @ Join '', '' tried @ '' (use -quicprobe)''))"

definition quicArgs :: "string \<Rightarrow> addr \<Rightarrow> int \<Rightarrow> string list" where
  "quicArgs host ip timeoutSec = [''-ip'', Addr_String ip, ''-t'', Itoa (maxInt 1 timeoutSec), host]"

definition dec_quic :: "json \<Rightarrow> QUICResult option" where
  "dec_quic j = do {
     ms \<leftarrow> members j;
     supported \<leftarrow> dec_field ''supported'' dec_bool False ms;
     alpn \<leftarrow> dec_field ''alpn'' dec_string [] ms;
     version \<leftarrow> dec_field ''tls_version'' dec_string [] ms;
     server \<leftarrow> dec_field ''server_addr'' dec_string [] ms;
     family \<leftarrow> dec_field ''family'' dec_string [] ms;
     target \<leftarrow> dec_field ''target_ip'' dec_string [] ms;
     msecs \<leftarrow> dec_field ''handshake_ms'' dec_int 0 ms;
     reason \<leftarrow> dec_field ''reason'' dec_string [] ms;
     alert \<leftarrow> dec_field ''tls_alert'' dec_string [] ms;
     code \<leftarrow> dec_field ''tls_alert_code'' dec_int 0 ms;
     err \<leftarrow> dec_field ''error'' dec_string [] ms;
     Some \<lparr>qu_Supported = supported, qu_ALPN = alpn, qu_TLSVersion = version, qu_ServerAddr = server,
           qu_Family = family, qu_TargetIP = target, qu_HandshakeMs = msecs, qu_Reason = reason,
           qu_TLSAlert = alert, qu_TLSAlertCode = code, qu_Error = err\<rparr> }"

definition parseQUIC :: "string \<Rightarrow> QUICResult" where
  "parseQUIC out =
     (if TrimSpace out = [] then zero_QUICResult\<lparr>qu_Error := ''quicprobe produced no output''\<rparr>
      else case Option.bind (json_parse out) dec_quic of
             None \<Rightarrow> zero_QUICResult\<lparr>qu_Error := ''quicprobe output not JSON: '' @ firstLine out\<rparr>
           | Some q \<Rightarrow> q)"

definition probeQUIC :: "runner \<Rightarrow> string \<Rightarrow> string \<Rightarrow> addr \<Rightarrow> int \<Rightarrow> QUICResult" where
  "probeQUIC run path host ip timeoutSec =
     (let r = run path (quicArgs host ip timeoutSec)
      in if tool_timeout r then zero_QUICResult\<lparr>qu_Error := ''quicprobe timed out''\<rparr>
         else case tool_error r of
                Some (code, msg) \<Rightarrow> zero_QUICResult\<lparr>qu_Error := ''quicprobe: '' @ msg @ '': '' @ TrimSpace (tool_err r)\<rparr>
              | None \<Rightarrow> parseQUIC (tool_out r))"

section \<open>Reading what quicprobe prints\<close>

definition enc_quic :: "QUICResult \<Rightarrow> json" where
  "enc_quic q = JObj
     [(''supported'', JBool (qu_Supported q)), (''alpn'', JStr (qu_ALPN q)), (''tls_version'', JStr (qu_TLSVersion q)),
      (''server_addr'', JStr (qu_ServerAddr q)), (''family'', JStr (qu_Family q)), (''target_ip'', JStr (qu_TargetIP q)),
      (''handshake_ms'', JNum (Itoa (qu_HandshakeMs q))), (''reason'', JStr (qu_Reason q)),
      (''tls_alert'', JStr (qu_TLSAlert q)), (''tls_alert_code'', JNum (Itoa (qu_TLSAlertCode q))),
      (''error'', JStr (qu_Error q))]"

definition quic_ok :: "QUICResult \<Rightarrow> bool" where
  "quic_ok q \<longleftrightarrow>
     list_all (list_all (\<lambda>c. byte c < 128))
       [qu_ALPN q, qu_TLSVersion q, qu_ServerAddr q, qu_Family q, qu_TargetIP q, qu_Reason q, qu_TLSAlert q, qu_Error q] \<and>
     min_int64 \<le> qu_HandshakeMs q \<and> qu_HandshakeMs q \<le> max_int64 \<and>
     min_int64 \<le> qu_TLSAlertCode q \<and> qu_TLSAlertCode q \<le> max_int64"

lemma dec_quic_enc: "quic_ok q \<Longrightarrow> dec_quic (enc_quic q) = Some q"
  by (simp add: quic_ok_def dec_quic_def enc_quic_def dec_field_def EqualFold_def ToLower_def lower_char_def Atoi_Itoa)

text \<open>
  Probing an address gives back exactly the result that quicprobe prints as its JSON object when it
  exits with 0 in time, every field included; a probe that was cut off or failed never counts as
  QUIC being supported, and says why.
\<close>
theorem probeQUIC_reads:
  fixes run :: runner and path host :: string and ip :: addr and t :: int
  defines "r \<equiv> run path (quicArgs host ip t)"
  assumes "quic_ok q" and "tool_out r = render (enc_quic q)"
  shows "if tool_timeout r \<or> tool_error r \<noteq> None
    then \<not> qu_Supported (probeQUIC run path host ip t) \<and> qu_Error (probeQUIC run path host ip t) \<noteq> []
    else probeQUIC run path host ip t = q"
proof -
  have parse: "json_parse (render (enc_quic q)) = Some (enc_quic q)"
    using assms(2) by (intro json_parse_render) (auto simp: quic_ok_def enc_quic_def maxNestingDepth_def)
  have "TrimSpace (render (enc_quic q)) \<noteq> []"
    by (auto simp: TrimSpace_def TrimFunc_def TrimLeftFunc_def TrimRightFunc_def enc_quic_def is_space_def)
  then show ?thesis
    using assms(3) dec_quic_enc [OF assms(2)] parse
    by (cases "tool_error r") (auto simp: probeQUIC_def r_def [symmetric] Let_def parseQUIC_def zero_QUICResult_def)
qed

definition ex_quic :: QUICResult where
  "ex_quic = zero_QUICResult\<lparr>qu_Supported := True, qu_ALPN := ''h3'', qu_HandshakeMs := 12\<rparr>"

definition ex_quic_run :: runner where
  "ex_quic_run name args = \<lparr>tool_out = render (enc_quic ex_quic), tool_err = [], tool_timeout = False, tool_error = None\<rparr>"

theorem probeQUIC_reads_witness:
  "quic_ok ex_quic \<and> probeQUIC ex_quic_run ''quicprobe'' ''d'' (IPv4 1) 5 = ex_quic"
proof -
  have q: "quic_ok ex_quic" by (simp add: quic_ok_def ex_quic_def zero_QUICResult_def min_int64_def max_int64_def)
  from probeQUIC_reads [OF q, of ex_quic_run "''quicprobe''" "''d''" "IPv4 1" 5] q show ?thesis
    by (simp add: ex_quic_run_def)
qed

end
