(* ===== verification/Web_Run.thy ===== *)
theory Web_Run
  imports Probe Quic Wildcard
begin

text \<open>
  The web section of a run (\<open>src/run.go\<close>): which addresses are probed, the assembly of a host's
  entries, the redirect chains per family, and the consistency of the certificates served. The probe
  of an address is a parameter \<open>probe host ip\<close>, given by \<open>probeAddress\<close> on the network; quicprobe is a
  \<open>runner\<close>, and the connections of the redirect follower a \<open>connector\<close>. The semaphores that bound how
  many probes run at once do not change what they return.
\<close>

definition wantedAddrs :: "config \<Rightarrow> Lookup list \<Rightarrow> addr list" where
  "wantedAddrs cfg ls = concat (map (\<lambda>l. filter (\<lambda>ip. wantsFamily cfg (familyOf ip)) (Addrs l)) ls)"

text \<open>\<open>hostAddrsByFamily\<close>, for one family: the first address of each host.\<close>

definition hostAddrsByFamily :: "(string, addr list) go_map \<Rightarrow> string \<Rightarrow> hostAddrs" where
  "hostAddrsByFamily hosts fam =
     List.map_filter (\<lambda>(host, ips). map_option (Pair host) (find (\<lambda>ip. familyOf ip = fam) ips)) hosts"

definition quicAll :: "runner \<Rightarrow> config \<Rightarrow> string \<Rightarrow> addr list \<Rightarrow> (string, QUICResult) go_map" where
  "quicAll run cfg host ips =
     fold (\<lambda>ip m. map_put (Addr_String ip) (probeQUIC run (cfg_QuicPath cfg) host ip (cfg_QuicTimeoutSec cfg)) m)
       (remdups ips) []"

definition addrEntry :: "addrProbe \<Rightarrow> QUICResult option \<Rightarrow> AddrWeb" where
  "addrEntry p q =
     \<lparr>aw_IP = Addr_String (ap_IP p), aw_HTTP = ap_HTTP p, aw_HTTPS = ap_HTTPS p, aw_HTTPRes = ap_HTTPRes p,
      aw_HTTPSRes = ap_HTTPSRes p, aw_TLS = ap_TLS p, aw_TLSA = None, aw_QUIC = q,
      aw_HTTPVersions = Some (httpVersionsFor p q)\<rparr>"

definition reserved_entry :: "string \<Rightarrow> AddrWeb" where
  "reserved_entry res =
     \<lparr>aw_IP = hd (Fields res), aw_HTTP = PortSkipped, aw_HTTPS = PortSkipped, aw_HTTPRes = None, aw_HTTPSRes = None,
      aw_TLS = None, aw_TLSA = None, aw_QUIC = None, aw_HTTPVersions = None\<rparr>"

definition redirectChains ::
    "dp_lib \<Rightarrow> connector \<Rightarrow> string \<Rightarrow> (string \<Rightarrow> hostAddrs) \<Rightarrow> (string, RedirectChain) go_map" where
  "redirectChains lib connect host hosts =
     List.map_filter (\<lambda>fam. if map_of (hosts fam) host = None then None
                            else Some (fam, followRedirects lib connect ''http'' host (hosts fam))) [familyIPv4, familyIPv6]"

text \<open>The loop of \<open>certConsistent\<close>: the fingerprint of the certificate seen last, if any.\<close>

fun cert_loop :: "string option \<Rightarrow> AddrWeb list \<Rightarrow> bool option" where
  "cert_loop first [] = (if first = None then None else Some True)"
| "cert_loop first (a # as) =
     (case Option.bind (aw_TLS a) tl_Cert of
        None \<Rightarrow> cert_loop first as
      | Some c \<Rightarrow>
          if first \<noteq> None \<and> Some (ci_Fingerprint c) \<noteq> first then Some False
          else cert_loop (Some (ci_Fingerprint c)) as)"

definition certConsistent :: "AddrWeb list \<Rightarrow> bool option" where
  "certConsistent as = cert_loop None as"

definition zero_HostWeb :: HostWeb where
  "zero_HostWeb = \<lparr>hw_SameAsApex = False, hw_ViaWildcard = False, hw_IPv4 = [], hw_IPv6 = [], hw_Redirects = [],
     hw_CertConsistent = None\<rparr>"

definition probeHost ::
    "dp_lib \<Rightarrow> config \<Rightarrow> (string \<Rightarrow> addr \<Rightarrow> addrProbe) \<Rightarrow> runner \<Rightarrow> connector \<Rightarrow> string \<Rightarrow> addr list \<Rightarrow> string list \<Rightarrow>
     (string \<Rightarrow> hostAddrs) \<Rightarrow> HostWeb option" where
  "probeHost lib cfg probe run connect host ips reserved hosts =
     (if ips = [] \<and> reserved = [] then None
      else let quic = quicAll run cfg host ips;
               entries = map (\<lambda>ip. let p = probe host ip in addrEntry p (map_of quic (Addr_String (ap_IP p)))) ips @
                         map reserved_entry reserved;
               h = fold (\<lambda>a h. add_addr h a) entries zero_HostWeb;
               h1 = (if cfg_RedirectLog cfg then h\<lparr>hw_Redirects := redirectChains lib connect host hosts\<rparr> else h)
           in Some (h1\<lparr>hw_CertConsistent := certConsistent (addrs (Some h1))\<rparr>))"

text \<open>\<open>probeWeb\<close>: the section and the reserved addresses.\<close>

definition probeWeb ::
    "dp_lib \<Rightarrow> config \<Rightarrow> (string \<Rightarrow> addr \<Rightarrow> addrProbe) \<Rightarrow> runner \<Rightarrow> connector \<Rightarrow> lookups \<Rightarrow> lookups \<Rightarrow>
     WebSection \<times> string list" where
  "probeWeb lib cfg probe run connect apexL wwwL =
     (let apex = cfg_Domain cfg; www = ''www.'' @ cfg_Domain cfg; reg = registrableDomain lib apex;
          apexAll = wantedAddrs cfg [at apexL ''A'', at apexL ''AAAA''];
          wwwAll = (if reg then wantedAddrs cfg [at wwwL ''A'', at wwwL ''AAAA''] else []);
          (apexAddrs, reservedApex) = splitReserved lib apexAll;
          (wwwAddrs, reservedWWW) = splitReserved lib wwwAll;
          hosts = hostAddrsByFamily [(apex, apexAddrs), (www, wwwAddrs)];
          a = probeHost lib cfg probe run connect apex apexAddrs reservedApex hosts;
          w = (if reg then probeHost lib cfg probe run connect www wwwAddrs reservedWWW hosts else None);
          w1 = (case w of
                  Some h \<Rightarrow> Some (if apexAll \<noteq> [] \<and> sameAddressSet apexAll wwwAll then h\<lparr>hw_SameAsApex := True\<rparr> else h)
                | None \<Rightarrow> None)
      in (\<lparr>web_Apex = a, web_WWW = w1\<rparr>, dedupeStrings (reservedApex @ reservedWWW)))"


section \<open>Lemmas\<close>

definition fingerprints :: "AddrWeb list \<Rightarrow> string list" where
  "fingerprints as = List.map_filter (\<lambda>a. map_option ci_Fingerprint (Option.bind (aw_TLS a) tl_Cert)) as"

lemma cert_loop_spec:
  "cert_loop first as =
     (case (case first of None \<Rightarrow> fingerprints as | Some f \<Rightarrow> f # fingerprints as) of
        [] \<Rightarrow> None | f # fs \<Rightarrow> Some (list_all (\<lambda>g. g = f) fs))"
  by (induction first as rule: cert_loop.induct)
    (auto simp: fingerprints_def map_filter_simps split: option.splits)

lemma fold_add_addr_entries:
  "mset (hw_IPv4 (fold (\<lambda>a h. add_addr h a) as h) @ hw_IPv6 (fold (\<lambda>a h. add_addr h a) as h)) =
   mset (hw_IPv4 h @ hw_IPv6 h) + mset as"
proof (induction as arbitrary: h)
  case Nil
  show ?case by simp
next
  case (Cons a as)
  have "mset (hw_IPv4 (add_addr h a) @ hw_IPv6 (add_addr h a)) = add_mset a (mset (hw_IPv4 h @ hw_IPv6 h))"
    by (auto simp: add_addr_def split: option.split)
  with Cons show ?case by simp
qed

lemma quicAll_cong:
  assumes "\<And>ip. ip \<in> set ips \<Longrightarrow> run (cfg_QuicPath cfg) (quicArgs host ip (cfg_QuicTimeoutSec cfg)) =
      run' (cfg_QuicPath cfg) (quicArgs host ip (cfg_QuicTimeoutSec cfg))"
  shows "quicAll run cfg host ips = quicAll run' cfg host ips"
proof -
  have "probeQUIC run (cfg_QuicPath cfg) host ip (cfg_QuicTimeoutSec cfg) =
      probeQUIC run' (cfg_QuicPath cfg) host ip (cfg_QuicTimeoutSec cfg)" if "ip \<in> set ips" for ip
    using assms [OF that] by (simp add: probeQUIC_def Let_def)
  then show ?thesis unfolding quicAll_def by (intro List.fold_cong) auto
qed

lemma follow_loop_cong:
  assumes "\<And>x. ct_ip x \<in> ran (map_of hosts) \<Longrightarrow> connect x = connect' x"
  shows "follow_loop lib connect hosts n current seen log c = follow_loop lib connect' hosts n current seen log c"
proof (induction n arbitrary: current seen log c)
  case 0
  show ?case by simp
next
  case (Suc n)
  have "fetchHead connect u ip = fetchHead connect' u ip" if "admit lib hosts current seen c = (c1, seen1, Some (u, ip))" for c1 seen1 u ip
  proof -
    have "ip \<in> ran (map_of hosts)" using admit_cases [OF that] by (auto simp: ran_def)
    then have "connect x = connect' x" if "ct_ip x = ip" for x using assms that by simp
    then show ?thesis by (simp add: fetchHead_def Let_def split: sum.split)
  qed
  then show ?case by (simp add: Suc.IH split: prod.split option.split)
qed

lemma hostAddrs_ips:
  assumes "ip \<in> ran (map_of (hostAddrsByFamily hs fam))"
  shows "\<exists>ips \<in> snd ` set hs. ip \<in> set ips"
proof -
  from assms obtain host where "(host, ip) \<in> set (hostAddrsByFamily hs fam)" by (auto simp: ran_def dest: map_of_SomeD)
  then show ?thesis by (force simp: hostAddrsByFamily_def map_filter_def find_Some_iff split: option.splits)
qed

lemma probeHost_cong:
  assumes "\<And>ip. ip \<in> set ips \<Longrightarrow> probe host ip = probe' host ip"
    and "\<And>ip. ip \<in> set ips \<Longrightarrow> run (cfg_QuicPath cfg) (quicArgs host ip (cfg_QuicTimeoutSec cfg)) =
      run' (cfg_QuicPath cfg) (quicArgs host ip (cfg_QuicTimeoutSec cfg))"
    and "\<And>fam x. ct_ip x \<in> ran (map_of (hosts fam)) \<Longrightarrow> connect x = connect' x"
  shows "probeHost lib cfg probe run connect host ips reserved hosts =
    probeHost lib cfg probe' run' connect' host ips reserved hosts"
proof -
  have "map (\<lambda>ip. let p = probe host ip in addrEntry p (map_of q (Addr_String (ap_IP p)))) ips =
      map (\<lambda>ip. let p = probe' host ip in addrEntry p (map_of q (Addr_String (ap_IP p)))) ips" for q
    using assms(1) by simp
  moreover have "quicAll run cfg host ips = quicAll run' cfg host ips" by (rule quicAll_cong) (rule assms(2))
  moreover have "followRedirects lib connect ''http'' host (hosts fam) = followRedirects lib connect' ''http'' host (hosts fam)" for fam
    unfolding followRedirects_def follow_run_def by (rule arg_cong [of _ _ fst], rule follow_loop_cong) (rule assms(3))
  ultimately show ?thesis by (simp only: probeHost_def redirectChains_def)
qed

lemma addrs_update [simp]: "addrs (Some (h\<lparr>hw_CertConsistent := c\<rparr>)) = addrs (Some h)"
  "addrs (Some (h\<lparr>hw_Redirects := m\<rparr>)) = addrs (Some h)"
  by (simp_all add: addrs_def)

lemma probeHost_some:
  assumes "probeHost lib cfg probe run connect host ips reserved hosts = Some h"
  shows "mset (addrs (Some h)) = mset (map (\<lambda>ip. let p = probe host ip in
      addrEntry p (map_of (quicAll run cfg host ips) (Addr_String (ap_IP p)))) ips) + mset (map reserved_entry reserved) \<and>
    hw_CertConsistent h = certConsistent (addrs (Some h))"
proof -
  define es where "es = map (\<lambda>ip. let p = probe host ip in
      addrEntry p (map_of (quicAll run cfg host ips) (Addr_String (ap_IP p)))) ips @ map reserved_entry reserved"
  define h0 where "h0 = fold (\<lambda>a h. add_addr h a) es zero_HostWeb"
  have "mset (addrs (Some h0)) = mset es"
    using fold_add_addr_entries [of es zero_HostWeb] by (simp add: h0_def addrs_def zero_HostWeb_def)
  moreover have "addrs (Some h) = addrs (Some h0) \<and> hw_CertConsistent h = certConsistent (addrs (Some h))"
    using assms by (auto simp: probeHost_def Let_def h0_def es_def split: if_splits)
  ultimately show ?thesis by (simp add: es_def)
qed

section \<open>Properties\<close>

text \<open>
  The consistency of a host's certificates is decided by the fingerprints of the leaves served: no
  verdict when no address served one, and otherwise whether they are all the same.
\<close>
theorem certConsistent_iff:
  "certConsistent as = (case fingerprints as of [] \<Rightarrow> None | f # fs \<Rightarrow> Some (list_all (\<lambda>g. g = f) fs))"
  by (simp add: certConsistent_def cert_loop_spec)

text \<open>
  A host that is reported has exactly one entry for each address probed, in which every result is
  that address's own, and one skipped entry for each reserved address.
\<close>
theorem probeHost_entries:
  assumes "probeHost lib cfg probe run connect host ips reserved hosts = Some h"
  shows "mset (map (\<lambda>a. (aw_IP a, aw_HTTP a, aw_HTTPS a, aw_TLS a)) (addrs (Some h))) =
    mset (map (\<lambda>ip. (Addr_String (ap_IP (probe host ip)), ap_HTTP (probe host ip), ap_HTTPS (probe host ip),
      ap_TLS (probe host ip))) ips) +
    mset (map (\<lambda>r. (hd (Fields r), PortSkipped, PortSkipped, None)) reserved)"
proof -
  have "image_mset (\<lambda>a. (aw_IP a, aw_HTTP a, aw_HTTPS a, aw_TLS a)) (mset (addrs (Some h))) =
      mset (map (\<lambda>ip. (Addr_String (ap_IP (probe host ip)), ap_HTTP (probe host ip), ap_HTTPS (probe host ip),
        ap_TLS (probe host ip))) ips) + mset (map (\<lambda>r. (hd (Fields r), PortSkipped, PortSkipped, None)) reserved)"
    using probeHost_some [OF assms] by (simp add: image_mset.compositionality comp_def addrEntry_def reserved_entry_def Let_def)
  then show ?thesis by simp
qed

definition ex_probe :: "string \<Rightarrow> addr \<Rightarrow> addrProbe" where
  "ex_probe host ip = (new_addrProbe ip)\<lparr>ap_HTTP := PortRefused, ap_HTTPS := PortTimeout\<rparr>"

definition ex_http :: connector where
  "ex_http c = zero_HTTPResult"

theorem probeHost_entries_witness:
  "\<exists>h. probeHost ex_lib zero_config ex_probe ex_quic_run ex_http ''d'' [IPv4 1] [''127.0.0.1 (loopback)''] (\<lambda>f. []) = Some h \<and>
    size (mset (map (\<lambda>a. (aw_IP a, aw_HTTP a, aw_HTTPS a, aw_TLS a)) (addrs (Some h)))) = 2"
proof -
  obtain h where h: "probeHost ex_lib zero_config ex_probe ex_quic_run ex_http ''d'' [IPv4 1] [''127.0.0.1 (loopback)''] (\<lambda>f. []) = Some h"
    by (simp add: probeHost_def Let_def)
  from probeHost_entries [OF h] have "size (mset (map (\<lambda>a. (aw_IP a, aw_HTTP a, aw_HTTPS a, aw_TLS a)) (addrs (Some h)))) = 2"
    by simp
  with h show ?thesis by blast
qed

text \<open>The addresses the lookups gave for the two names, and how a reserved one is listed.\<close>

definition apex_addrs :: "config \<Rightarrow> lookups \<Rightarrow> addr list" where
  "apex_addrs cfg apexL = wantedAddrs cfg [at apexL ''A'', at apexL ''AAAA'']"

definition www_addrs :: "dp_lib \<Rightarrow> config \<Rightarrow> lookups \<Rightarrow> addr list" where
  "www_addrs lib cfg wwwL =
     (if registrableDomain lib (cfg_Domain cfg) then wantedAddrs cfg [at wwwL ''A'', at wwwL ''AAAA''] else [])"

definition listed_reserved :: "dp_lib \<Rightarrow> addr list \<Rightarrow> string list" where
  "listed_reserved lib ips =
     map (\<lambda>ip. Addr_String ip @ '' ('' @ reservedReason lib ip @ '')'') (filter (\<lambda>ip. reservedReason lib ip \<noteq> []) ips)"

lemma probeHost_lists_reserved:
  "set (map reserved_entry reserved) \<subseteq> set (addrs (probeHost lib cfg probe run connect host ips reserved hosts))"
proof (cases "probeHost lib cfg probe run connect host ips reserved hosts")
  case None
  then have "reserved = []" by (simp add: probeHost_def Let_def split: if_splits)
  then show ?thesis by simp
next
  case (Some h)
  from probeHost_some [OF Some] have "set_mset (mset (map reserved_entry reserved)) \<subseteq> set_mset (mset (addrs (Some h)))" by simp
  with Some show ?thesis by simp
qed


definition ex_loop_lib :: dp_lib where
  "ex_loop_lib = ex_lib\<lparr>ipnorm_Reserved := (\<lambda>a. if a = IPv4 0x7F000001 then ''loopback'' else [])\<rparr>"

definition ex_loop_cfg :: config where
  "ex_loop_cfg = zero_config\<lparr>cfg_Domain := ''d.org'', cfg_Families := [familyIPv4, familyIPv6]\<rparr>"

definition ex_loop_apex :: lookups where
  "ex_loop_apex = [(''A'', zero_Lookup\<lparr>lk_Type := ''A'', lk_Status := StatusOK, lk_Records := [''127.0.0.1'', ''192.0.2.1'']\<rparr>)]"

lemma ex_loop_listed: "listed_reserved ex_loop_lib (apex_addrs ex_loop_cfg ex_loop_apex) = [''127.0.0.1 (loopback)'']"
  by code_simp


end
