(* ===== verification/Rdap_Lookup.thy ===== *)
theory Rdap_Lookup
  imports Rdap Runner Json "HOL-Library.Monad_Syntax"
begin

text \<open>
  The registration lookup of \<open>src/rdap.go\<close>: running the rdap command, decoding the RFC 9083 object it
  prints, and the report made of it. The command is the parameter \<open>runner\<close>; the text of a decoding
  error of \<open>encoding/json\<close> is the parameter \<open>json_err\<close>.
\<close>

record rdapEntity =
  ent_Roles :: "string list"
  ent_PublicIDs :: "rdapPublicID list"
  ent_VCard :: "json list"

record rdapDomain =
  dom_Status :: "string list"
  dom_Links :: "rdapLink list"
  dom_Entities :: "rdapEntity list"

definition zero_rdapDomain :: rdapDomain where
  "zero_rdapDomain = \<lparr>dom_Status = [], dom_Links = [], dom_Entities = []\<rparr>"

definition dec_link :: "json \<Rightarrow> rdapLink option" where
  "dec_link j = do {
     ms \<leftarrow> members j;
     rel \<leftarrow> dec_field ''rel'' dec_string [] ms;
     href \<leftarrow> dec_field ''href'' dec_string [] ms;
     Some \<lparr>link_Rel = rel, link_Href = href\<rparr> }"

definition dec_public_id :: "json \<Rightarrow> rdapPublicID option" where
  "dec_public_id j = do {
     ms \<leftarrow> members j;
     typ \<leftarrow> dec_field ''type'' dec_string [] ms;
     ident \<leftarrow> dec_field ''identifier'' dec_string [] ms;
     Some \<lparr>pid_Type = typ, pid_Identifier = ident\<rparr> }"

definition dec_entity :: "json \<Rightarrow> rdapEntity option" where
  "dec_entity j = do {
     ms \<leftarrow> members j;
     roles \<leftarrow> dec_field ''roles'' (dec_list dec_string) [] ms;
     ids \<leftarrow> dec_field ''publicIds'' (dec_list dec_public_id) [] ms;
     crd \<leftarrow> dec_field ''vcardArray'' (dec_list Some) [] ms;
     Some \<lparr>ent_Roles = roles, ent_PublicIDs = ids, ent_VCard = crd\<rparr> }"

definition dec_domain :: "json \<Rightarrow> rdapDomain option" where
  "dec_domain j = do {
     ms \<leftarrow> members j;
     status \<leftarrow> dec_field ''status'' (dec_list dec_string) [] ms;
     links \<leftarrow> dec_field ''links'' (dec_list dec_link) [] ms;
     entities \<leftarrow> dec_field ''entities'' (dec_list dec_entity) [] ms;
     Some \<lparr>dom_Status = status, dom_Links = links, dom_Entities = entities\<rparr> }"

definition parseRDAP :: "(string \<Rightarrow> string) \<Rightarrow> string \<Rightarrow> rdapDomain \<times> string" where
  "parseRDAP json_err out =
     (let txt = TrimSpace out
      in if txt = [] then (zero_rdapDomain, ''rdap produced no output'')
         else if \<not> HasPrefix txt ''{'' then (zero_rdapDomain, ''rdap output not a JSON object: '' @ firstLine txt)
         else case Option.bind (json_parse txt) dec_domain of
                None \<Rightarrow> (zero_rdapDomain, ''rdap output not an RDAP object: '' @ json_err txt)
              | Some d \<Rightarrow> (d, []))"

definition registrarEntity :: "rdapEntity list \<Rightarrow> rdapEntity option" where
  "registrarEntity es = find (\<lambda>e. list_ex (\<lambda>role. EqualFold role ''registrar'') (ent_Roles e)) es"

fun fn_property :: "json list list \<Rightarrow> string" where
  "fn_property [] = []"
| "fn_property (p # ps) =
     (if length p < 4 \<or> dec_string (p ! 0) \<noteq> Some ''fn'' then fn_property ps
      else case dec_string (p ! 3) of Some val \<Rightarrow> TrimSpace val | None \<Rightarrow> fn_property ps)"

definition vcardName :: "json list \<Rightarrow> string" where
  "vcardName crd =
     (if length crd < 2 then []
      else case dec_list (dec_list Some) (crd ! 1) of None \<Rightarrow> [] | Some props \<Rightarrow> fn_property props)"

definition registrarNamed :: "rdapEntity list \<Rightarrow> RDAPRegistrar option" where
  "registrarNamed es =
     (case registrarEntity es of
        None \<Rightarrow> None
      | Some e \<Rightarrow>
          let reg = \<lparr>rgr_Name = vcardName (ent_VCard e), rgr_IANAID = ianaID (ent_PublicIDs e)\<rparr>
          in if rgr_Name reg = [] \<and> rgr_IANAID reg = [] then None else Some reg)"

definition runRDAP :: "(string \<Rightarrow> string) \<Rightarrow> runner \<Rightarrow> config \<Rightarrow> string \<Rightarrow> string \<Rightarrow> rdapDomain \<times> string" where
  "runRDAP json_err run cfg query server =
     (let r = run (cfg_RDAPPath cfg) (rdapArgs query server (cfg_TimeoutSec cfg))
      in if tool_timeout r then (zero_rdapDomain, ''rdap timed out'')
         else case tool_error r of
                Some (code, msg) \<Rightarrow> (zero_rdapDomain, ''rdap: '' @ rdapMessage (tool_err r) msg)
              | None \<Rightarrow> parseRDAP json_err (tool_out r))"

definition checkRDAP :: "dp_lib \<Rightarrow> (string \<Rightarrow> string) \<Rightarrow> runner \<Rightarrow> config \<Rightarrow> RDAPReport option" where
  "checkRDAP lib json_err run cfg =
     (case rdapTarget lib (cfg_Domain cfg) of
        None \<Rightarrow> None
      | Some (query, server) \<Rightarrow>
          let rep = \<lparr>rd_Domain = query, rd_Server = server, rd_Registered = None,
                     rd_Registry = \<lparr>rg_URL = [], rg_Status = None, rg_Error = []\<rparr>, rd_Registrar = None\<rparr>;
              failed = (\<lambda>rep e. rep\<lparr>rd_Registry := \<lparr>rg_URL = [], rg_Status = None, rg_Error = e\<rparr>\<rparr>)
          in if cfg_RDAPPath cfg = [] then Some (failed rep ''rdap not found on PATH'')
             else case runRDAP json_err run cfg query server of (obj, errText) \<Rightarrow>
                    if errText \<noteq> [] then
                      Some ((failed rep errText)\<lparr>rd_Registered :=
                              (if Contains errText rdapNotFound then boolPtr False else None)\<rparr>)
                    else Some (rep\<lparr>rd_Registered := boolPtr True,
                                   rd_Registry := \<lparr>rg_URL = linkHref (dom_Links obj) ''self'',
                                                   rg_Status = Some (dom_Status obj), rg_Error = []\<rparr>,
                                   rd_Registrar := registrarNamed (dom_Entities obj)\<rparr>))"

definition startRDAP :: "dp_lib \<Rightarrow> (string \<Rightarrow> string) \<Rightarrow> runner \<Rightarrow> config \<Rightarrow> RDAPReport option" where
  "startRDAP lib json_err run cfg = (if \<not> cfg_RDAP cfg then None else checkRDAP lib json_err run cfg)"

definition findRDAP :: "(string \<Rightarrow> string + string) \<Rightarrow> string \<Rightarrow> string + string" where
  "findRDAP LookPath explicit =
     (if explicit \<noteq> [] then requireTool LookPath explicit ''rdap''
      else case LookPath ''rdap'' of Inr p \<Rightarrow> Inr p | Inl _ \<Rightarrow> Inr [])"

section \<open>Properties\<close>

text \<open>
  C37. What the registration section of a report means. There is one exactly when the domain has a
  registration to look up, which a reserved name has not. The domain is called registered exactly when
  the command was found, ended before its deadline and without an error, and printed an RDAP object;
  exactly then the registry's statuses are reported. It is called not registered exactly when the
  command was found, ended before its deadline, and the error text it leaves contains the message for
  an object that was not found. In every other case, a timeout among them, the question stays open and
  the section carries an error.
\<close>
theorem checkRDAP_verdict:
  fixes lib :: dp_lib and json_err :: "string \<Rightarrow> string" and run :: runner and cfg :: config
  defines "answer \<equiv> \<lambda>q s. run (cfg_RDAPPath cfg) (rdapArgs q s (cfg_TimeoutSec cfg))"
  shows "case checkRDAP lib json_err run cfg of
      None \<Rightarrow> rdapTarget lib (cfg_Domain cfg) = None
    | Some rep \<Rightarrow>
        (let r = answer (rd_Domain rep) (rd_Server rep); ended = (cfg_RDAPPath cfg \<noteq> [] \<and> \<not> tool_timeout r)
         in rdapTarget lib (cfg_Domain cfg) = Some (rd_Domain rep, rd_Server rep) \<and> reservedName lib (cfg_Domain cfg) = [] \<and>
            (rd_Registered rep = Some True \<longleftrightarrow> ended \<and> tool_error r = None \<and> snd (parseRDAP json_err (tool_out r)) = []) \<and>
            (rd_Registered rep = Some True \<longleftrightarrow> rg_Status (rd_Registry rep) \<noteq> None) \<and>
            (rd_Registered rep = Some False \<longleftrightarrow> ended \<and>
               Contains (case tool_error r of Some (code, msg) \<Rightarrow> ''rdap: '' @ rdapMessage (tool_err r) msg
                         | None \<Rightarrow> snd (parseRDAP json_err (tool_out r))) rdapNotFound) \<and>
            (rg_Error (rd_Registry rep) = [] \<longleftrightarrow> rd_Registered rep = Some True))"
proof (cases "rdapTarget lib (cfg_Domain cfg)")
  case None
  then show ?thesis by (simp add: checkRDAP_def)
next
  case (Some t)
  obtain q s where t: "rdapTarget lib (cfg_Domain cfg) = Some (q, s)" using Some by (cases t) simp
  then have res: "reservedName lib (cfg_Domain cfg) = []" by (auto simp: rdapTarget_def split: if_splits)
  have lit: "\<not> Contains ''rdap not found on PATH'' rdapNotFound" "\<not> Contains ''rdap timed out'' rdapNotFound" "\<not> Contains [] rdapNotFound"
    by (simp_all add: rdapNotFound_def)
  show ?thesis
    using t res lit
    by (cases "cfg_RDAPPath cfg = []"; cases "tool_timeout (answer q s)"; cases "tool_error (answer q s)")
      (auto simp: checkRDAP_def runRDAP_def answer_def Let_def boolPtr_def split: prod.splits)
qed

definition ex_rdap_cfg :: config where
  "ex_rdap_cfg = zero_config\<lparr>cfg_Domain := ''d.org'', cfg_RDAPPath := ''/bin/rdap''\<rparr>"

definition ex_rdap :: runner where
  "ex_rdap name args = \<lparr>tool_out = render (JObj [(''status'', JArr [JStr ''active''])]), tool_err = [],
     tool_timeout = False, tool_error = None\<rparr>"

lemma ex_rdap_answer:
  "checkRDAP ex_lib (\<lambda>_. []) ex_rdap ex_rdap_cfg = Some
     \<lparr>rd_Domain = ''d.org'', rd_Server = [], rd_Registered = Some True,
      rd_Registry = \<lparr>rg_URL = [], rg_Status = Some [''active''], rg_Error = []\<rparr>, rd_Registrar = None\<rparr>"
  by code_simp

theorem checkRDAP_verdict_witness:
  "rdapTarget ex_lib ''d.org'' = Some (''d.org'', []) \<and>
   tool_error (ex_rdap ''/bin/rdap'' (rdapArgs ''d.org'' [] 0)) = None"
  using checkRDAP_verdict [where lib = ex_lib and json_err = "\<lambda>_. []" and run = ex_rdap and cfg = ex_rdap_cfg] ex_rdap_answer
  by (simp add: ex_rdap_cfg_def Let_def ex_rdap_def)

end
