(* ===== verification/Preload_Fetch.thy ===== *)
theory Preload_Fetch
  imports Preload Mail Json "HOL-Library.Monad_Syntax"
begin

text \<open>
  The download of the preload list (\<open>src/preloadlist.go\<close>): one request, the retries, the decoding of
  Chromium's commented JSON, and the warming of the cache. The HTTP client is a parameter: the
  outcome of each request and of each wait between them; so are the texts of decoding errors.
\<close>

section \<open>Chromium's JSON\<close>

definition dec_entry :: "json \<Rightarrow> preloadEntry option" where
  "dec_entry j = do {
     ms \<leftarrow> members j;
     name \<leftarrow> dec_field ''name'' dec_string [] ms;
     mode \<leftarrow> dec_field ''mode'' dec_string [] ms;
     sub \<leftarrow> dec_field ''include_subdomains'' dec_bool False ms;
     policy \<leftarrow> dec_field ''policy'' dec_string [] ms;
     Some \<lparr>pe_Name = name, pe_Mode = mode, pe_IncludeSubdomains = sub, pe_Policy = policy\<rparr> }"

definition dec_entries :: "json \<Rightarrow> preloadEntry list option" where
  "dec_entries j = do { ms \<leftarrow> members j; dec_field ''entries'' (dec_list dec_entry) [] ms }"

definition parsePreloadJSON :: "(string \<Rightarrow> string) \<Rightarrow> int \<Rightarrow> string \<Rightarrow> string + preloadList" where
  "parsePreloadJSON json_err now body =
     (case Option.bind (json_parse (stripLineComments body)) dec_entries of
        None \<Rightarrow> Inl (''parsing the preload list: '' @ json_err (stripLineComments body))
      | Some es \<Rightarrow> derive_list es now)"

section \<open>Requests and retries\<close>

text \<open>The outcome of \<open>client.Do\<close>: an error, with whether it is a reset connection; the status and the whole
  body; or the status and the error that cut the body short while it was being read, with whether that is
  a reset connection.\<close>

datatype http_reply = ReplyError string bool | Reply int string | ReplyCut int string bool

text \<open>An error with the marks that \<open>errors.Is\<close> finds in its chain.\<close>

datatype error_mark = errRetryableFetch | ECONNRESET

datatype fetch_error = FetchError string "error_mark set"

fun fetch_text :: "fetch_error \<Rightarrow> string" where
  "fetch_text (FetchError msg marks) = msg"

fun retryableFetch :: "fetch_error \<Rightarrow> bool" where
  "retryableFetch (FetchError msg marks) \<longleftrightarrow> errRetryableFetch \<in> marks \<or> ECONNRESET \<in> marks"

definition reset_mark :: "bool \<Rightarrow> error_mark set" where
  "reset_mark reset = (if reset then {ECONNRESET} else {})"

text \<open>The status of a response that has no list for its body.\<close>

definition bad_status :: "int \<Rightarrow> fetch_error option" where
  "bad_status st =
     (if st \<ge> 500 then Some (FetchError (''HTTP '' @ Itoa st @ '' from chromium.googlesource.com: retryable'') {errRetryableFetch})
      else if st \<noteq> 200 then Some (FetchError (''HTTP '' @ Itoa st @ '' from chromium.googlesource.com'') {})
      else None)"

definition fetchOnce :: "(string \<Rightarrow> string) \<Rightarrow> (string \<Rightarrow> string) \<Rightarrow> int \<Rightarrow> http_reply \<Rightarrow> fetch_error + preloadList" where
  "fetchOnce json_err b64_err now reply =
     (case reply of
        ReplyError msg reset \<Rightarrow> Inl (FetchError msg (reset_mark reset))
      | ReplyCut st msg reset \<Rightarrow>
          (case bad_status st of
             Some e \<Rightarrow> Inl e
           | None \<Rightarrow> Inl (FetchError (''decoding the preload list: '' @ msg) (reset_mark reset)))
      | Reply st body \<Rightarrow>
          (case bad_status st of
             Some e \<Rightarrow> Inl e
           | None \<Rightarrow>
               (case base64_decode body of
                  None \<Rightarrow> Inl (FetchError (''decoding the preload list: '' @ b64_err body) {})
                | Some txt \<Rightarrow>
                    (case parsePreloadJSON json_err now txt of
                       Inl msg \<Rightarrow> Inl (FetchError msg {})
                     | Inr l \<Rightarrow> Inr l))))"

definition fetchAttempts :: nat where "fetchAttempts = 3"

text \<open>The loop of \<open>fetchPreloadList\<close> from attempt \<open>i\<close> on, with the error of the attempt before; the
  result, and how many requests were made in all.\<close>

function fetch_loop ::
    "(nat \<Rightarrow> fetch_error + preloadList) \<Rightarrow> (nat \<Rightarrow> bool) \<Rightarrow> nat \<Rightarrow> fetch_error \<Rightarrow> (fetch_error + preloadList) \<times> nat" where
  "fetch_loop request sleepCtx i err =
     (if fetchAttempts \<le> i then (Inl err, i)
      else if i > 0 \<and> \<not> sleepCtx i then (Inl err, i)
      else case request i of
             Inr l \<Rightarrow> (Inr l, Suc i)
           | Inl e \<Rightarrow> if \<not> retryableFetch e then (Inl e, Suc i) else fetch_loop request sleepCtx (Suc i) e)"
  by pat_completeness auto
termination by (relation "measure (\<lambda>(_, _, i, _). fetchAttempts - i)") auto

declare fetch_loop.simps [simp del]

definition fetchPreloadList :: "(nat \<Rightarrow> fetch_error + preloadList) \<Rightarrow> (nat \<Rightarrow> bool) \<Rightarrow> (fetch_error + preloadList) \<times> nat" where
  "fetchPreloadList request sleepCtx = fetch_loop request sleepCtx 0 (FetchError [] {})"

section \<open>Warming the cache\<close>

definition warmPreloadCache ::
    "time_fmt \<Rightarrow> string \<Rightarrow> string \<Rightarrow> preload_world \<Rightarrow> (string + string) \<times> preload_world" where
  "warmPreloadCache tf cachePath lock w =
     (if cachePath = [] \<or> cachePath = noCachePath then (Inl ''no cache path: nothing to warm'', w)
      else case lock_world w of
             Inl err \<Rightarrow> (Inl (''waiting for the preload cache lock '' @ lock @ '': '' @ err), w)
           | Inr w1 \<Rightarrow>
               if (case cachedList tf w1 of Some l \<Rightarrow> fresh l (pw_now w1) | None \<Rightarrow> False)
               then (Inr (''preload cache already present at '' @ cachePath @ '' (lock '' @ lock @ '')''), w1)
               else case do_fetch w1 of
                      (Inl err, w2) \<Rightarrow> (Inl err, w2)
                    | (Inr l, w2) \<Rightarrow>
                        (case write_cache tf l w2 of
                           (Some err, w3) \<Rightarrow> (Inl (''writing '' @ cachePath @ '': '' @ os_Error err), w3)
                         | (None, w3) \<Rightarrow>
                             (Inr (''preload cache written to '' @ cachePath @ '' ('' @ nat_text (length (pl_entries l)) @
                                   '' entries, lock '' @ lock @ '')''), w3)))"

section \<open>Lemmas\<close>

definition retried :: "(nat \<Rightarrow> fetch_error + preloadList) \<Rightarrow> (nat \<Rightarrow> bool) \<Rightarrow> nat \<Rightarrow> bool" where
  "retried request sleepCtx i \<longleftrightarrow> (case request i of Inl e \<Rightarrow> retryableFetch e | Inr _ \<Rightarrow> False) \<and> sleepCtx (Suc i)"

lemma fetch_loop_stop:
  "fetchAttempts \<le> i \<or> 0 < i \<and> \<not> sleepCtx i \<Longrightarrow> fetch_loop request sleepCtx i err = (Inl err, i)"
  by (subst fetch_loop.simps) auto

lemma fetch_loop_step:
  "i < fetchAttempts \<Longrightarrow> (0 < i \<Longrightarrow> sleepCtx i) \<Longrightarrow>
   fetch_loop request sleepCtx i err =
     (case request i of
        Inr l \<Rightarrow> (Inr l, Suc i)
      | Inl e \<Rightarrow> if Suc i < fetchAttempts \<and> retried request sleepCtx i then fetch_loop request sleepCtx (Suc i) e
                 else (Inl e, Suc i))"
  by (subst fetch_loop.simps)
    (auto simp: retried_def fetch_loop_stop split: sum.split)

lemma fetch_loop_bound: "i \<le> fetchAttempts \<Longrightarrow> snd (fetch_loop request sleepCtx i err) \<le> fetchAttempts"
proof (induction "fetchAttempts - i" arbitrary: i err)
  case 0
  then show ?case by (subst fetch_loop.simps) auto
next
  case (Suc d)
  then show ?case by (subst fetch_loop.simps) (auto split: sum.split)
qed

lemma warm_path: "warmPreloadCache tf cachePath lock w = (Inr msg, w') \<Longrightarrow> cachePath \<noteq> [] \<and> cachePath \<noteq> noCachePath"
  by (auto simp: warmPreloadCache_def split: if_splits)

section \<open>Properties\<close>

text \<open>
  C40. The download makes at most three requests, and succeeds exactly when one of them does and every one
  before it failed in a way worth retrying with the wait after it not cut short by the context. What is
  worth retrying of a request is a 5xx status or a connection that was reset, before the response or
  while the body of a response was read.
\<close>
theorem fetchPreloadList_retries:
  "snd (fetchPreloadList request sleepCtx) \<le> 3 \<and>
   (fst (fetchPreloadList request sleepCtx) = Inr l \<longleftrightarrow>
     list_ex (\<lambda>k. request k = Inr l \<and> list_all (retried request sleepCtx) [0..<k]) [0..<3]) \<and>
   ((case fetchOnce json_err b64_err now reply of Inl e \<Rightarrow> retryableFetch e | Inr _ \<Rightarrow> False) \<longleftrightarrow>
     (case reply of ReplyError msg reset \<Rightarrow> reset | Reply st body \<Rightarrow> st \<ge> 500 | ReplyCut st msg reset \<Rightarrow> st \<ge> 500 \<or> st = 200 \<and> reset))"
proof (intro conjI)
  show "(case fetchOnce json_err b64_err now reply of Inl e \<Rightarrow> retryableFetch e | Inr _ \<Rightarrow> False) \<longleftrightarrow>
     (case reply of ReplyError msg reset \<Rightarrow> reset | Reply st body \<Rightarrow> st \<ge> 500 | ReplyCut st msg reset \<Rightarrow> st \<ge> 500 \<or> st = 200 \<and> reset)"
    by (auto simp: fetchOnce_def bad_status_def reset_mark_def split: http_reply.split option.split sum.split)
  show "snd (fetchPreloadList request sleepCtx) \<le> 3"
    using fetch_loop_bound [of 0] by (simp add: fetchPreloadList_def fetchAttempts_def)
  have r: "retried request sleepCtx i \<Longrightarrow> sleepCtx (Suc i) \<and> (\<exists>e. request i = Inl e)" for i
    by (auto simp: retried_def split: sum.splits)
  show "fst (fetchPreloadList request sleepCtx) = Inr l \<longleftrightarrow>
     list_ex (\<lambda>k. request k = Inr l \<and> list_all (retried request sleepCtx) [0..<k]) [0..<3]"
    using r [of 0] r [of 1]
    by (auto simp: fetchPreloadList_def fetch_loop_step [of 0] fetch_loop_step [of "Suc 0"]
        fetch_loop_step [of "Suc (Suc 0)"] fetchAttempts_def upt_rec split: sum.splits)
qed

text \<open>
  Warming the cache reports success only when the cache file then holds a fresh list: either it
  already did, or the list just fetched was written to it.
\<close>
theorem warm_then_present:
  assumes "warmPreloadCache tf cachePath lock w = (Inr msg, w')"
  shows "(\<exists>l. cachedList tf w' = Some l \<and> fresh l (pw_now w') \<and> pw_fetches w' = pw_fetches w) \<or>
    (\<exists>l. pw_fetch w = Inr l \<and> pw_cache w' = Some (marshalCache tf l (pw_now w')) \<and> pw_fetches w' = pw_fetches w + 1)"
proof -
  from warm_path [OF assms] have p: "cachePath \<noteq> []" "cachePath \<noteq> noCachePath" by auto
  from assms p obtain w1 where w1: "lock_world w = Inr w1"
    by (auto simp: warmPreloadCache_def split: sum.splits)
  then have k: "pw_fetch w1 = pw_fetch w" "pw_fetches w1 = pw_fetches w"
    by (auto simp: lock_world_def split: sum.splits)
  show ?thesis
  proof (cases "case cachedList tf w1 of Some l \<Rightarrow> fresh l (pw_now w1) | None \<Rightarrow> False")
    case True
    with assms p w1 have "w' = w1" by (auto simp: warmPreloadCache_def)
    with True k show ?thesis by (auto split: option.splits)
  next
    case False
    with assms p w1 k show ?thesis
      by (auto simp: warmPreloadCache_def do_fetch_def write_cache_def split: sum.splits option.splits)
  qed
qed


lemma ex_two: "nat_text (Suc (Suc 0)) = ''2''"
  by code_simp

lemma ex_warm:
  "warmPreloadCache ex_time ''hsts.tsv'' ''l'' ex_world =
     (Inr ''preload cache written to hsts.tsv (2 entries, lock l)'',
      ex_world\<lparr>pw_fetches := 1, pw_cache := Some (marshalCache ex_time ex_list 7)\<rparr>)"
  by (simp add: warmPreloadCache_def noCachePath_def lock_world_def cachedList_def do_fetch_def write_cache_def
      ex_world_def ex_list_def ex_two)

theorem warm_then_present_witness:
  "pw_cache (snd (warmPreloadCache ex_time ''hsts.tsv'' ''l'' ex_world)) = Some (marshalCache ex_time ex_list 7)"
  using warm_then_present [OF ex_warm] unfolding ex_warm by (auto simp: ex_world_def)

end
