(* ===== verification/Run.thy ===== *)
theory Run
  imports Verdict Gather Web_Run Rdap_Lookup Preload_Fetch
begin

text \<open>
  The run (\<open>src/run.go\<close>): the sections made from the lookups and probes, the order of the phases, the
  early end for a zone no server answers for, and the finished report. Everything a run learns from
  outside is in the record \<open>run_env\<close>; the tasks run in parallel write different fields of the report.
\<close>

section \<open>The new report\<close>

definition newReport :: "string \<Rightarrow> config \<Rightarrow> Report" where
  "newReport version cfg = zero_Report\<lparr>rep_Domain := cfg_Domain cfg, rep_Version := version,
     rep_UnicodeDomain := cfg_UnicodeDomain cfg, rep_Resolver := resolver_String (cfg_Resolver cfg),
     rep_Families := cfg_Families cfg, rep_TimeoutSec := cfg_TimeoutSec cfg, rep_TCPTimeoutSec := cfg_TCPTimeoutSec cfg,
     rep_QuicTimeoutSec := cfg_QuicTimeoutSec cfg, rep_MaxTimeSec := cfg_MaxTimeSec cfg,
     rep_DNSConcurrency := cfg_DNSConcurrency cfg, rep_RedirectLog := cfg_RedirectLog cfg\<rparr>"

section \<open>Nameservers and mail\<close>

definition auditNameservers ::
    "dp_lib \<Rightarrow> (string \<times> addr \<Rightarrow> NSServer) \<Rightarrow> runner \<Rightarrow> config \<Rightarrow> dnsResults \<Rightarrow> lookupFn \<Rightarrow> Report \<Rightarrow> NSReport option" where
  "auditNameservers lib audit run cfg dns get rep =
     (if rep_NotAZone rep \<or> rep_ReservedName rep \<noteq> [] then None
      else let own = nsNames lib (at (dn_apex dns) ''NS'');
               names = (if own = [] then de_ParentNS (rep_Delegation rep) else own)
           in if names = [] then None
              else let ns = auditAll lib audit (resolveNS lib names get) (cfg_Families cfg); de = rep_Delegation rep
                   in if de_ParentServer de \<noteq> [] \<and> de_Status de \<noteq> DelegationSameServers
                      then Some (ns\<lparr>nr_Glue := checkGlue lib
                             (runDig run (cfg_DigPath cfg) (glueArgs (de_ParentServer de) (traceFamily cfg) (cfg_TimeoutSec cfg) (cfg_Domain cfg)))
                             (cfg_Domain cfg) names (nr_addrs ns)\<rparr>)
                      else Some ns)"

definition noMailPossible :: "dp_lib \<Rightarrow> Report \<Rightarrow> dnsResults \<Rightarrow> bool" where
  "noMailPossible lib rep dns \<longleftrightarrow>
     rep_NotAZone rep \<or> rep_ReservedName rep \<noteq> [] \<or> registrySuffix lib (rep_Domain rep) \<or> nameDoesNotExist (dn_apex dns)"

text \<open>What the mail section needs from outside: key parsing, the random DKIM label, and the HTTP
  client that fetches an MTA-STS policy.\<close>

record mail_env =
  me_keys :: x509_keys
  me_label :: string
  me_client :: policy_client

definition assessMail :: "dp_lib \<Rightarrow> mail_env \<Rightarrow> config \<Rightarrow> dnsResults \<Rightarrow> lookupFn \<Rightarrow> bool \<Rightarrow> MailReport option" where
  "assessMail lib me cfg dns get skip =
     (if skip then None
      else let d = cfg_Domain cfg; mx = at (dn_apex dns) ''MX'';
               sts = checkMTASTS lib (fetchMTASTSPolicy lib (me_client me)) d (dn_mtaSTS dns) (mxHosts mx) get;
               rpt = hasTLSRPT (dn_tlsRPT dns)
           in Some \<lparr>mail_DMARC = parseDMARC (dn_dmarc dns), mail_SPF = evaluateSPF lib d (at (dn_apex dns) ''TXT'') get,
                    mail_MX = checkMX lib mx get, mail_DKIM = probeDKIM (me_keys me) (me_label me) d get,
                    mail_MTASTS = Some sts, mail_TLSRPT = rpt,
                    mail_mtaSTSAbsent = Answered (dn_mtaSTS dns) \<and> \<not> sts_Record sts,
                    mail_tlsRPTAbsent = Answered (dn_tlsRPT dns) \<and> \<not> rpt\<rparr>)"

section \<open>The preload list\<close>

record preloadFacts =
  pf_status :: PreloadStatus
  pf_coveredBy :: string
  pf_policy :: string
  pf_problem :: string
  pf_includeSubdomains :: "bool option"

definition checkPreload :: "dp_lib \<Rightarrow> time_fmt \<Rightarrow> preload_world \<Rightarrow> config \<Rightarrow> preloadFacts" where
  "checkPreload lib tf w cfg =
     (let none = \<lparr>pf_status = PreloadNone, pf_coveredBy = [], pf_policy = [], pf_problem = [], pf_includeSubdomains = None\<rparr>
      in if \<not> cfg_HSTSPreload cfg then none
         else case fst (loadPreloadList tf (cfg_HSTSCache cfg) w) of
                Inl err \<Rightarrow> none\<lparr>pf_status := PreloadUnknown, pf_problem := scrubResolver err\<rparr>
              | Inr l \<Rightarrow>
                  (case status lib (Some l) (cfg_Domain cfg) of (st, covered, policy) \<Rightarrow>
                     \<lparr>pf_status = st, pf_coveredBy = covered, pf_policy = policy, pf_problem = scrubResolver (pl_note l),
                      pf_includeSubdomains =
                        (if st \<noteq> PreloadPreloaded then None
                         else if covered \<noteq> [] then boolPtr True
                         else boolPtr (pl_includeSubdomains
                                (map_get \<lparr>pl_includeSubdomains = False, pl_policy = []\<rparr> (pl_entries l) (bareName lib (cfg_Domain cfg)))))\<rparr>))"

section \<open>Wildcard, CAA and TLSA\<close>

text \<open>\<open>wildcardSection\<close> stamps the www host through its pointer.\<close>

definition wildcardSection :: "dp_lib \<Rightarrow> dnsResults \<Rightarrow> WebSection \<Rightarrow> WildcardReport \<times> WebSection" where
  "wildcardSection lib dns web =
     (let w = assessWildcard lib (dn_wild dns) (dn_wildSkip dns) (at (www_map dns) ''A'') (at (www_map dns) ''AAAA'')
      in (w, if wr_WWWViaWildcard w then web\<lparr>web_WWW := map_option (\<lambda>h. h\<lparr>hw_ViaWildcard := True\<rparr>) (web_WWW web)\<rparr> else web))"

definition servedLeaf :: "HostWeb option \<Rightarrow> servedCert" where
  "servedLeaf h =
     (case find (\<lambda>a. case aw_TLS a of Some t \<Rightarrow> tl_chain t \<noteq> [] | None \<Rightarrow> False) (addrs h) of
        None \<Rightarrow> \<lparr>sc_issuer = [], sc_wildcard = False\<rparr>
      | Some a \<Rightarrow>
          let t = the (aw_TLS a)
          in \<lparr>sc_issuer = issuerOrg (hd (tl_chain t)),
              sc_wildcard = (case tl_Cert t of Some c \<Rightarrow> ci_Wildcard c | None \<Rightarrow> False)\<rparr>)"

definition tlsaSigned :: "Lookup \<Rightarrow> bool" where
  "tlsaSigned l \<longleftrightarrow> lk_Trust l = TrustSecure"

definition tlsaResult :: "bool \<times> bool \<Rightarrow> TLSAOutcome" where
  "tlsaResult r = (case r of (anyMatch, anyChecked) \<Rightarrow>
     if \<not> anyChecked then TLSAUnverified else if anyMatch then TLSAMatch else TLSAMismatch)"

definition stamp_addr :: "sha_lib \<Rightarrow> tlsaRecord list \<Rightarrow> AddrWeb \<Rightarrow> AddrWeb" where
  "stamp_addr sha records a =
     (case aw_TLS a of
        None \<Rightarrow> a
      | Some t \<Rightarrow> if tl_chain t = [] then a
                  else a\<lparr>aw_TLSA := Some (matchTLSA sha records (tl_chain t) (tl_pkixValid t))\<rparr>)"

definition checked_addrs :: "AddrWeb list \<Rightarrow> AddrWeb list" where
  "checked_addrs as = filter (\<lambda>a. case aw_TLS a of Some t \<Rightarrow> tl_chain t \<noteq> [] | None \<Rightarrow> False) as"

text \<open>\<open>stampHost\<close>: the host with its addresses stamped, whether any matched and whether any was checked.\<close>

definition stampHost :: "sha_lib \<Rightarrow> HostWeb \<Rightarrow> tlsaRecord list \<Rightarrow> HostWeb \<times> bool \<times> bool" where
  "stampHost sha h records =
     (let h1 = h\<lparr>hw_IPv4 := map (stamp_addr sha records) (hw_IPv4 h), hw_IPv6 := map (stamp_addr sha records) (hw_IPv6 h)\<rparr>;
          checked = checked_addrs (hw_IPv4 h1 @ hw_IPv6 h1)
      in (h1, list_ex (\<lambda>a. aw_TLSA a = Some TLSAMatch) checked, checked \<noteq> []))"

definition stamp_pair :: "sha_lib \<Rightarrow> HostWeb option \<Rightarrow> Lookup \<Rightarrow> HostWeb option \<times> bool \<times> bool" where
  "stamp_pair sha h rec =
     (let records = parseTLSARecords (lk_Records rec)
      in case h of
           None \<Rightarrow> (None, False, False)
         | Some w \<Rightarrow> if records = [] then (Some w, False, False)
                     else case stampHost sha w records of (w1, m, c) \<Rightarrow> (Some w1, m, c))"

definition stampHosts :: "sha_lib \<Rightarrow> Lookup \<Rightarrow> Lookup \<Rightarrow> WebSection \<Rightarrow> WebSection \<times> bool \<times> bool" where
  "stampHosts sha apexRec wwwRec web =
     (case stamp_pair sha (web_Apex web) apexRec of (a, m1, c1) \<Rightarrow>
        (case stamp_pair sha (web_WWW web) wwwRec of (w, m2, c2) \<Rightarrow>
           (\<lparr>web_Apex = a, web_WWW = w\<rparr>, m1 \<or> m2, c1 \<or> c2)))"

definition wwwRecords :: "TLSAReport \<Rightarrow> string list" where
  "wwwRecords t = (case ta_WWW t of None \<Rightarrow> [] | Some r \<Rightarrow> r)"

definition assessTLSA :: "sha_lib \<Rightarrow> Lookup \<Rightarrow> Lookup \<Rightarrow> WebSection \<Rightarrow> bool \<Rightarrow> TLSAReport \<times> WebSection" where
  "assessTLSA sha apexRec wwwRec0 web wwwProbed =
     (let wwwRec = (if wwwProbed then wwwRec0 else apexRec);
          rep = \<lparr>ta_Apex = lk_Records apexRec, ta_WWW = (if wwwProbed then Some (lk_Records wwwRec0) else None),
                 ta_Signed = tlsaSigned apexRec \<and> tlsaSigned wwwRec, ta_Result = TLSANone\<rparr>
      in if length (lk_Records apexRec) + length (wwwRecords rep) = 0 then
           (if \<not> Answered apexRec \<or> \<not> Answered wwwRec then rep\<lparr>ta_Result := TLSAUnknown, ta_Signed := False\<rparr> else rep, web)
         else case stampHosts sha apexRec (if wwwProbed then wwwRec else zero_Lookup) web of (web1, verdict) \<Rightarrow>
                (rep\<lparr>ta_Result := tlsaResult verdict\<rparr>, web1))"

definition assessCertPolicies ::
    "sha_lib \<Rightarrow> dnsResults \<Rightarrow> Report \<Rightarrow> (CAAReport option \<times> TLSAReport option) \<times> WebSection" where
  "assessCertPolicies sha dns rep =
     (if apexAbsent (dns_Apex (rep_DNS rep)) then ((None, None), rep_Web rep)
      else let probed = (dn_www dns \<noteq> None);
               caa = assessCAA (dn_caaApex dns) (dn_caaWWW dns) (servedLeaf (web_Apex (rep_Web rep)))
                       (servedLeaf (web_WWW (rep_Web rep))) probed;
               (tlsa, web) = assessTLSA sha (dn_tlsaApex dns) (dn_tlsaWWW dns) (rep_Web rep) probed
           in ((Some caa, Some tlsa), web))"

section \<open>The run\<close>

record run_env =
  env_lib :: dp_lib
  env_sha :: sha_lib
  env_tf :: time_fmt
  env_version :: string
  env_start :: int
  env_dig :: runner
  env_traceAlive :: bool
  env_conf :: "string option"
  env_lookupIP :: ip_lookup
  env_dog :: runner
  env_dog2 :: runner
  env_dogAlive :: bool
  env_get1 :: lookupFn
  env_get2 :: lookupFn
  env_get3 :: lookupFn
  env_get4 :: lookupFn
  env_cache :: lookupCache
  env_labels :: "string list"
  env_dig2 :: runner
  env_auditAlive :: "string \<times> addr \<Rightarrow> bool"
  env_x509 :: x509_lib
  env_issuer :: issuer_fetch
  env_net :: "string \<Rightarrow> addr \<Rightarrow> addr_net"
  env_quic :: runner
  env_connect :: connector
  env_mail :: mail_env
  env_preload :: preload_world
  env_rdap :: runner
  env_jsonErr :: "string \<Rightarrow> string"
  env_deadline :: bool
  env_elapsed :: int

text \<open>The calls the phases make, on what the environment gives them: the probe of the resolver over
  one server, the audit of one server (whose first and second attempt run under their own contexts),
  the probe of one address, and the late lookups. The lookups of the first wave, of the second, of the
  audit and of the mail section are four functions of name and type: they run under different contexts,
  or at the same time. The late ones, of the audit and the mail section, go through the cache as the
  waves left it. Calls of one of these that overlap are taken to get the same answer.\<close>

definition run_ask :: "run_env \<Rightarrow> config \<Rightarrow> string \<Rightarrow> lookupFn" where
  "run_ask env cfg server = dnsLookup (env_dog env) (env_dog2 env) (env_dogAlive env) (cfg_DogPath cfg) server (cfg_TimeoutSec cfg)"

definition late_get :: "dp_lib \<Rightarrow> dnsResults \<Rightarrow> lookupFn \<Rightarrow> lookupFn" where
  "late_get lib dns get name qtype = fst (cache_get lib (\<lambda>i. get) False (name, qtype) (dn_cache dns))"

definition audit_one :: "run_env \<Rightarrow> config \<Rightarrow> string \<times> addr \<Rightarrow> NSServer" where
  "audit_one env cfg t =
     (case auditServer (env_dig env) (env_dig2 env) (env_auditAlive env t) (cfg_DigPath cfg) (fst t) (snd t)
             (cfg_Domain cfg) (cfg_TimeoutSec cfg) of
        Some s \<Rightarrow> s
      | None \<Rightarrow> new_NSServer (fst t) (snd t))"

definition probe_one :: "run_env \<Rightarrow> config \<Rightarrow> string \<Rightarrow> addr \<Rightarrow> addrProbe" where
  "probe_one env cfg host ip =
     probeAddress (env_x509 env) (env_sha env) (env_tf env) (env_issuer env) (env_net env host ip) ip host
       (cfg_Domain cfg) (''www.'' @ cfg_Domain cfg)"

definition finishReport :: "dp_lib \<Rightarrow> bool \<Rightarrow> int \<Rightarrow> Report \<Rightarrow> Report" where
  "finishReport lib deadline elapsed rep =
     (let rep1 = buildFindings lib (rep\<lparr>rep_DeadlineReached := deadline\<rparr>);
          (web, certs) = hoistCertNames (rep_Web rep1) (rep_Certificates rep1)
      in rep1\<lparr>rep_Web := web, rep_Certificates := certs, rep_ElapsedMs := elapsed\<rparr>)"

text \<open>The first half of a run: the trace, the lookups and the classification. The web probes start
  as soon as the first wave is in; they write the reserved addresses of the report.\<close>

definition run_dns :: "run_env \<Rightarrow> config \<Rightarrow> Report \<times> dnsResults" where
  "run_dns env cfg =
     (let lib = env_lib env; reserved = (reservedName lib (cfg_Domain cfg) \<noteq> []);
          rep0 = (newReport (env_version env) cfg)\<lparr>rep_Timestamp := RFC3339_Format (env_tf env) (env_start env)\<rparr>;
          rep1 = (if reserved then rep0
                  else rep0\<lparr>rep_Delegation := traceDelegation lib (env_dig env) (env_traceAlive env) (cfg_DigPath cfg)
                              (traceFamily cfg) (cfg_TimeoutSec cfg) (cfg_Domain cfg)\<rparr>);
          dns = gatherDNS lib cfg (env_get1 env) (env_get2 env)
                  (checkReachability (env_conf env) (env_lookupIP env) (run_ask env cfg) cfg) (env_labels env) (env_cache env)
      in classifyDNS lib (env_dig env) cfg dns rep1)"

definition run_web :: "run_env \<Rightarrow> config \<Rightarrow> WebSection \<times> string list" where
  "run_web env cfg =
     (let lib = env_lib env; first = gather_first lib cfg (env_get1 env) (\<lambda>fam. (ReachNo, TrustNone))
      in if reservedName lib (cfg_Domain cfg) \<noteq> [] then (\<lparr>web_Apex = None, web_WWW = None\<rparr>, [])
         else probeWeb lib cfg (probe_one env cfg) (env_quic env) (env_connect env) (dn_apex first) (www_map first))"

text \<open>The second half, for a zone that some server answers for.\<close>

definition run_probes :: "run_env \<Rightarrow> config \<Rightarrow> dnsResults \<Rightarrow> WebSection \<Rightarrow> NSReport option \<Rightarrow> Report \<Rightarrow> Report" where
  "run_probes env cfg dns web ns rep =
     (let lib = env_lib env;
          p = checkPreload lib (env_tf env) (env_preload env) cfg;
          (wild, web1) = wildcardSection lib dns web;
          rep1 = rep\<lparr>rep_Web := web1, rep_Nameservers := ns,
                     rep_Mail := assessMail lib (env_mail env) cfg dns (late_get lib dns (env_get4 env)) (noMailPossible lib rep dns),
                     rep_HSTSPreload := pf_status p, rep_HSTSPreloadCoveredBy := pf_coveredBy p,
                     rep_HSTSPreloadPolicy := pf_policy p, rep_HSTSPreloadError := pf_problem p,
                     rep_HSTSPreloadIncludeSubdomains := pf_includeSubdomains p, rep_Wildcard := Some wild\<rparr>;
          ((caa, tlsa), web2) = assessCertPolicies (env_sha env) dns rep1
      in rep1\<lparr>rep_Web := web2, rep_CAA := caa, rep_TLSA := tlsa\<rparr>)"

definition run :: "run_env \<Rightarrow> config \<Rightarrow> Report" where
  "run env cfg =
     (let lib = env_lib env;
          (rep1, dns) = run_dns env cfg;
          (web, reserved) = run_web env cfg;
          rep = rep1\<lparr>rep_ReservedAddresses := reserved\<rparr>;
          rdap = startRDAP lib (env_jsonErr env) (env_rdap env) cfg;
          audit = (\<lambda>r. auditNameservers lib (audit_one env cfg) (env_dig env) cfg dns (late_get lib dns (env_get3 env)) r);
          finished = (\<lambda>r. finishReport lib (env_deadline env) (env_elapsed env) (r\<lparr>rep_RDAP := rdap\<rparr>))
      in if delegationSilent (rep_Delegation rep) (at (dn_apex dns) ''NS'') then
           (let ns = audit rep; rep2 = rep\<lparr>rep_Nameservers := ns\<rparr>
            in if zoneUnreachable rep2 then finished rep2
               else finished (run_probes env cfg dns web ns rep2))
         else finished (run_probes env cfg dns web (audit rep) rep))"


section \<open>Lemmas\<close>

lemma finishReport_verdict [simp]:
  "rep_Findings (finishReport lib d e rep) = rep_Findings (buildFindings lib (rep\<lparr>rep_DeadlineReached := d\<rparr>))"
  "rep_Errors (finishReport lib d e rep) = rep_Errors (buildFindings lib (rep\<lparr>rep_DeadlineReached := d\<rparr>))"
  "rep_Warnings (finishReport lib d e rep) = rep_Warnings (buildFindings lib (rep\<lparr>rep_DeadlineReached := d\<rparr>))"
  "rep_OK (finishReport lib d e rep) = rep_OK (buildFindings lib (rep\<lparr>rep_DeadlineReached := d\<rparr>))"
  by (simp_all add: finishReport_def Let_def split: prod.split)

lemma finishReport_keeps [simp]:
  "rep_ReservedName (finishReport lib d e rep) = rep_ReservedName rep"
  "rep_NotAZone (finishReport lib d e rep) = rep_NotAZone rep"
  "rep_Delegation (finishReport lib d e rep) = rep_Delegation rep"
  "rep_DNS (finishReport lib d e rep) = rep_DNS rep" "rep_DNSSEC (finishReport lib d e rep) = rep_DNSSEC rep"
  "rep_Nameservers (finishReport lib d e rep) = rep_Nameservers rep"
  "rep_Mail (finishReport lib d e rep) = rep_Mail rep" "rep_CAA (finishReport lib d e rep) = rep_CAA rep"
  "rep_TLSA (finishReport lib d e rep) = rep_TLSA rep" "rep_Wildcard (finishReport lib d e rep) = rep_Wildcard rep"
  by (simp_all add: finishReport_def Let_def buildFindings_alt finish_def split: prod.split)

lemma finishReport_web:
  "rep_Web (finishReport lib d e rep) = fst (hoistCertNames (rep_Web rep) (rep_Certificates rep))"
  by (simp add: finishReport_def Let_def buildFindings_alt finish_def split: prod.split)

lemma zoneUnreachable_fields:
  "zoneUnreachable rep \<longleftrightarrow> rep_ReservedName rep = [] \<and> \<not> rep_NotAZone rep \<and>
     delegationSilent (rep_Delegation rep) (at (dns_Apex (rep_DNS rep)) ''NS'') \<and> noServerAnswers (rep_Nameservers rep)"
  by (rule zoneUnreachable_def)

lemma zoneUnreachable_finish [simp]: "zoneUnreachable (finishReport lib d e rep) = zoneUnreachable rep"
  by (simp add: zoneUnreachable_fields)

lemma zoneUnreachable_update [simp]:
  "zoneUnreachable (rep\<lparr>rep_RDAP := r\<rparr>) = zoneUnreachable rep"
  "zoneUnreachable (rep\<lparr>rep_DeadlineReached := d\<rparr>) = zoneUnreachable rep"
  by (simp_all add: zoneUnreachable_fields)

lemma run_probes_keeps [simp]:
  "rep_ReservedName (run_probes env cfg dns web ns rep) = rep_ReservedName rep"
  "rep_NotAZone (run_probes env cfg dns web ns rep) = rep_NotAZone rep"
  "rep_Delegation (run_probes env cfg dns web ns rep) = rep_Delegation rep"
  "rep_DNS (run_probes env cfg dns web ns rep) = rep_DNS rep"
  "rep_DNSSEC (run_probes env cfg dns web ns rep) = rep_DNSSEC rep"
  "rep_Nameservers (run_probes env cfg dns web ns rep) = ns"
  by (simp_all add: run_probes_def Let_def split: prod.split)

lemma run_dns_apex: "dns_Apex (rep_DNS (fst (run_dns env cfg))) = dn_apex (snd (run_dns env cfg))"
  by (simp add: run_dns_def classifyDNS_def Let_def)

lemma run_dns_reserved: "rep_ReservedName (fst (run_dns env cfg)) = reservedName (env_lib env) (cfg_Domain cfg)"
  by (simp add: run_dns_def classifyDNS_def Let_def)

text \<open>A run ends in one of two ways: early, for a dead zone, or with every section assessed.\<close>

definition run_base :: "run_env \<Rightarrow> config \<Rightarrow> Report" where
  "run_base env cfg = (fst (run_dns env cfg))\<lparr>rep_ReservedAddresses := snd (run_web env cfg)\<rparr>"

definition run_audit :: "run_env \<Rightarrow> config \<Rightarrow> NSReport option" where
  "run_audit env cfg = auditNameservers (env_lib env) (audit_one env cfg) (env_dig env) cfg (snd (run_dns env cfg))
     (late_get (env_lib env) (snd (run_dns env cfg)) (env_get3 env)) (run_base env cfg)"

definition run_finish :: "run_env \<Rightarrow> config \<Rightarrow> Report \<Rightarrow> Report" where
  "run_finish env cfg rep = finishReport (env_lib env) (env_deadline env) (env_elapsed env)
     (rep\<lparr>rep_RDAP := startRDAP (env_lib env) (env_jsonErr env) (env_rdap env) cfg\<rparr>)"

lemma run_eq:
  "run env cfg =
     (if delegationSilent (rep_Delegation (run_base env cfg)) (at (dn_apex (snd (run_dns env cfg))) ''NS'') then
        (if zoneUnreachable ((run_base env cfg)\<lparr>rep_Nameservers := run_audit env cfg\<rparr>)
         then run_finish env cfg ((run_base env cfg)\<lparr>rep_Nameservers := run_audit env cfg\<rparr>)
         else run_finish env cfg (run_probes env cfg (snd (run_dns env cfg)) (fst (run_web env cfg)) (run_audit env cfg)
                ((run_base env cfg)\<lparr>rep_Nameservers := run_audit env cfg\<rparr>)))
      else run_finish env cfg (run_probes env cfg (snd (run_dns env cfg)) (fst (run_web env cfg)) (run_audit env cfg)
             (run_base env cfg)))"
  by (simp add: run_def Let_def run_finish_def run_base_def run_audit_def split: prod.split)

lemma run_cases:
  obtains (dead) "zoneUnreachable ((run_base env cfg)\<lparr>rep_Nameservers := run_audit env cfg\<rparr>)"
      "run env cfg = run_finish env cfg ((run_base env cfg)\<lparr>rep_Nameservers := run_audit env cfg\<rparr>)"
  | (alive) rep where "\<not> zoneUnreachable ((run_base env cfg)\<lparr>rep_Nameservers := run_audit env cfg\<rparr>)"
      "rep \<in> {run_base env cfg, (run_base env cfg)\<lparr>rep_Nameservers := run_audit env cfg\<rparr>}"
      "run env cfg = run_finish env cfg
         (run_probes env cfg (snd (run_dns env cfg)) (fst (run_web env cfg)) (run_audit env cfg) rep)"
proof -
  let ?ns = "(run_base env cfg)\<lparr>rep_Nameservers := run_audit env cfg\<rparr>"
  let ?probed = "\<lambda>rep. run_finish env cfg
     (run_probes env cfg (snd (run_dns env cfg)) (fst (run_web env cfg)) (run_audit env cfg) rep)"
  let ?silent = "delegationSilent (rep_Delegation (run_base env cfg)) (at (dn_apex (snd (run_dns env cfg))) ''NS'')"
  note r = run_eq [of env cfg]
  have "\<not> ?silent \<Longrightarrow> \<not> zoneUnreachable ?ns"
    by (simp add: zoneUnreachable_fields run_base_def run_dns_apex)
  note loud = this
  show ?thesis
  proof (cases "zoneUnreachable ?ns")
    case True
    with loud have "?silent" by blast
    from r [unfolded if_P [OF this] if_P [OF True]] show ?thesis by (rule dead [OF True])
  next
    case False
    show ?thesis
    proof (cases ?silent)
      case True
      from r [unfolded if_P [OF this] if_not_P [OF False]] show ?thesis
        by (rule alive [OF False insertI2 [OF singletonI]])
    next
      case False': False
      from r [unfolded if_not_P [OF this]] show ?thesis by (rule alive [OF False insertI1])
    qed
  qed
qed

lemma run_finish_verdict:
  "\<exists>rep'. rep_Findings (run_finish env cfg rep) = rep_Findings (buildFindings (env_lib env) rep') \<and>
     rep_Errors (run_finish env cfg rep) = rep_Errors (buildFindings (env_lib env) rep') \<and>
     rep_Warnings (run_finish env cfg rep) = rep_Warnings (buildFindings (env_lib env) rep') \<and>
     rep_OK (run_finish env cfg rep) = rep_OK (buildFindings (env_lib env) rep') \<and>
     zoneUnreachable rep' = zoneUnreachable rep"
  unfolding run_finish_def
  by (rule exI [of _ "rep\<lparr>rep_RDAP := startRDAP (env_lib env) (env_jsonErr env) (env_rdap env) cfg,
        rep_DeadlineReached := env_deadline env\<rparr>"]) simp

lemma run_finished: "\<exists>rep. run env cfg = run_finish env cfg rep"
  by (rule run_cases [of env cfg]) blast+

lemma unreachable_not_ok:
  assumes "zoneUnreachable rep"
  shows "\<not> rep_OK (buildFindings lib rep)"
proof -
  from assms obtain x where x: "x \<in> set (rep_Findings (buildFindings lib rep))" "fi_Code x = ''zone_unreachable''"
    using zone_unreachable_iff [of lib rep] by auto
  then have "(''zone_unreachable'', fi_Severity x) \<in> set catalogue"
    using buildFindings_catalogue [of lib rep] by (force simp: list_all_iff)
  moreover have "(''zone_unreachable'', SeverityFail) \<in> set catalogue" by (simp add: catalogue_def)
  ultimately have "fi_Severity x = SeverityFail" using catalogue_distinct by (meson eq_key_imp_eq_value)
  with x show ?thesis using buildFindings_mirror [of lib rep] by (metis image_eqI)
qed

lemma hoist_empty: "fst (hoistCertNames \<lparr>web_Apex = None, web_WWW = None\<rparr> m) = \<lparr>web_Apex = None, web_WWW = None\<rparr>"
  by (simp add: hoistCertNames_def hoist_host_def)

lemma run_base_empty:
  "rep_Web (run_base env cfg) = \<lparr>web_Apex = None, web_WWW = None\<rparr>" "rep_Mail (run_base env cfg) = None"
  "rep_CAA (run_base env cfg) = None" "rep_TLSA (run_base env cfg) = None" "rep_Wildcard (run_base env cfg) = None"
  by (simp_all add: run_base_def run_dns_def classifyDNS_def classifyZone_def newReport_def zero_Report_def Let_def
      split: prod.split)

text \<open>Below a name that is not registrable, www is left alone at every stage.\<close>

lemma gather_no_www: "\<not> registrableDomain lib (cfg_Domain cfg) \<Longrightarrow> dn_www (gatherDNS lib cfg get1 get2 reach labels cache) = None"
  by (simp add: gatherDNS_def gather_first_def fixedLookups_def probeWildcard_def zero_dnsResults_def Let_def)

lemma run_dns_no_www:
  assumes "\<not> registrableDomain (env_lib env) (cfg_Domain cfg)"
  shows "dn_www (snd (run_dns env cfg)) = None" and "dns_WWW (rep_DNS (fst (run_dns env cfg))) = []"
proof -
  show www: "dn_www (snd (run_dns env cfg)) = None"
    by (simp add: run_dns_def classifyDNS_def Let_def dropTrust_def gather_no_www [OF assms])
  show "dns_WWW (rep_DNS (fst (run_dns env cfg))) = []"
    by (simp add: run_dns_def classifyDNS_def Let_def dropTrust_def www_map_def gather_no_www [OF assms])
qed

lemma run_web_no_www:
  "\<not> registrableDomain (env_lib env) (cfg_Domain cfg) \<Longrightarrow> web_WWW (fst (run_web env cfg)) = None"
  by (simp add: run_web_def probeWeb_def Let_def split: prod.split)

lemma hoist_no_www: "web_WWW web = None \<Longrightarrow> web_WWW (fst (hoistCertNames web m)) = None"
  by (simp add: hoistCertNames_def hoist_host_def split: prod.split)

lemma assessTLSA_no_www:
  "ta_WWW (fst (assessTLSA sha a w web False)) = None"
  "web_WWW web = None \<Longrightarrow> web_WWW (snd (assessTLSA sha a w web p)) = None"
  by (simp_all add: assessTLSA_def stampHosts_def stamp_pair_def Let_def split: prod.split)

lemma assessCAA_no_www: "fst ` set (caa_Hosts (assessCAA a w ac wc False)) = {''apex''}"
  by (simp add: assessCAA_def Let_def)

definition no_www :: "Report \<Rightarrow> bool" where
  "no_www rep \<longleftrightarrow> web_WWW (rep_Web rep) = None \<and> dns_WWW (rep_DNS rep) = [] \<and>
     (case rep_CAA rep of Some c \<Rightarrow> fst ` set (caa_Hosts c) = {''apex''} | None \<Rightarrow> True) \<and>
     (case rep_TLSA rep of Some t \<Rightarrow> ta_WWW t = None | None \<Rightarrow> True)"

lemma finish_no_www: "no_www rep \<Longrightarrow> no_www (run_finish env cfg rep)"
  by (simp add: no_www_def run_finish_def finishReport_web hoist_no_www)

lemma probes_no_www:
  assumes "dn_www dns = None" and "web_WWW web = None" and "dns_WWW (rep_DNS rep) = []"
  shows "no_www (run_probes env cfg dns web ns rep)"
proof -
  have "web_WWW (snd (wildcardSection (env_lib env) dns web)) = None"
    using assms(2) by (simp add: wildcardSection_def Let_def)
  with assms assessTLSA_no_www [where sha = "env_sha env"] assessCAA_no_www show ?thesis
    by (simp add: no_www_def run_probes_def assessCertPolicies_def Let_def case_prod_beta)
qed

section \<open>Properties\<close>

text \<open>
  C1. The verdict of a run: whatever the network answers, the errors and warnings of the report are the
  messages of its failing and warning findings, in order; the report is ok exactly when no finding
  fails; and every finding carries a code of the catalogue with the severity listed for it.
\<close>
theorem run_verdict:
  fixes env :: run_env and cfg :: config
  defines "rep \<equiv> run env cfg"
  shows "rep_Errors rep = map fi_Message (filter (\<lambda>x. fi_Severity x = SeverityFail) (rep_Findings rep)) \<and>
    rep_Warnings rep = map fi_Message (filter (\<lambda>x. fi_Severity x = SeverityWarn) (rep_Findings rep)) \<and>
    (rep_OK rep \<longleftrightarrow> SeverityFail \<notin> fi_Severity ` set (rep_Findings rep)) \<and>
    (\<lambda>x. (fi_Code x, fi_Severity x)) ` set (rep_Findings rep) \<subseteq> set catalogue"
proof -
  obtain rep1 where 1: "run env cfg = run_finish env cfg rep1" using run_finished by blast
  from run_finish_verdict obtain rep' where
    "rep_Findings (run_finish env cfg rep1) = rep_Findings (buildFindings (env_lib env) rep')"
    "rep_Errors (run_finish env cfg rep1) = rep_Errors (buildFindings (env_lib env) rep')"
    "rep_Warnings (run_finish env cfg rep1) = rep_Warnings (buildFindings (env_lib env) rep')"
    "rep_OK (run_finish env cfg rep1) = rep_OK (buildFindings (env_lib env) rep')" by blast
  then show ?thesis
    using buildFindings_mirror [of "env_lib env" rep'] buildFindings_catalogue [of "env_lib env" rep']
    by (simp add: rep_def 1)
qed

text \<open>
  C2. A zone that no delegated server answers for ends the run early, and only such a zone does: the
  finding \<open>zone_unreachable\<close> is in the report exactly when the delegation was silent to the trace and no
  nameserver answered the audit. The report then fails, and says nothing about the web, mail, CAA,
  TLSA or wildcards of a zone that could not be read.
\<close>
theorem run_dead_zone:
  fixes env :: run_env and cfg :: config
  defines "rep \<equiv> run env cfg"
  shows "(''zone_unreachable'' \<in> fi_Code ` set (rep_Findings rep) \<longleftrightarrow> zoneUnreachable rep) \<and>
    (if zoneUnreachable rep
     then \<not> rep_OK rep \<and> rep_Web rep = \<lparr>web_Apex = None, web_WWW = None\<rparr> \<and> rep_Nameservers rep \<noteq> None \<and>
       rep_Mail rep = None \<and> rep_CAA rep = None \<and> rep_TLSA rep = None \<and> rep_Wildcard rep = None
     else rep_Wildcard rep \<noteq> None)"
proof -
  have code: "''zone_unreachable'' \<in> fi_Code ` set (rep_Findings (run_finish env cfg r)) \<longleftrightarrow> zoneUnreachable r" for r
  proof -
    from run_finish_verdict [of env cfg r] obtain rep' where
      "rep_Findings (run_finish env cfg r) = rep_Findings (buildFindings (env_lib env) rep')"
      "zoneUnreachable rep' = zoneUnreachable r" by blast
    then show ?thesis using zone_unreachable_iff [of "env_lib env" rep'] by simp
  qed
  have keep: "zoneUnreachable (run_finish env cfg r) = zoneUnreachable r" for r
    by (simp add: run_finish_def)
  have ok: "zoneUnreachable r \<Longrightarrow> \<not> rep_OK (run_finish env cfg r)" for r
    by (simp add: run_finish_def unreachable_not_ok)
  show ?thesis
  proof (rule run_cases [of env cfg])
    assume dead: "zoneUnreachable ((run_base env cfg)\<lparr>rep_Nameservers := run_audit env cfg\<rparr>)"
      and r: "run env cfg = run_finish env cfg ((run_base env cfg)\<lparr>rep_Nameservers := run_audit env cfg\<rparr>)"
    have "run_audit env cfg \<noteq> None" using dead by (auto simp: zoneUnreachable_fields noServerAnswers_def split: option.splits)
    with dead ok [OF dead] show ?thesis
      unfolding rep_def r code keep
      by (simp add: run_finish_def finishReport_web hoist_empty run_base_empty)
  next
    fix r
    assume alive: "\<not> zoneUnreachable ((run_base env cfg)\<lparr>rep_Nameservers := run_audit env cfg\<rparr>)"
      and r: "r \<in> {run_base env cfg, (run_base env cfg)\<lparr>rep_Nameservers := run_audit env cfg\<rparr>}"
      and eq: "run env cfg = run_finish env cfg
         (run_probes env cfg (snd (run_dns env cfg)) (fst (run_web env cfg)) (run_audit env cfg) r)"
    have "\<not> zoneUnreachable (run_probes env cfg (snd (run_dns env cfg)) (fst (run_web env cfg)) (run_audit env cfg) r)"
      using alive r by (auto simp: zoneUnreachable_fields)
    moreover have "rep_Wildcard (run_probes env cfg (snd (run_dns env cfg)) (fst (run_web env cfg)) (run_audit env cfg) r) \<noteq> None"
      by (simp add: run_probes_def Let_def split: prod.split)
    ultimately show ?thesis unfolding rep_def eq code keep by (simp add: run_finish_def)
  qed
qed


text \<open>
  C11. A run on a reserved name asks nothing but the resolver and, unless the preload check is off, the
  HSTS preload list: the report is the same whatever dig, the addresses the resolver gave, QUIC, the
  redirects, the nameservers, the late lookups, the registry or an MTA-STS host would have answered,
  and, with the check off, whatever the preload cache or its download would have been.
\<close>
theorem run_reserved_quiet:
  assumes "reservedName (env_lib env) (cfg_Domain cfg) \<noteq> []"
  shows "run (env\<lparr>env_dig := dig, env_traceAlive := alive, env_dig2 := dig2, env_auditAlive := again, env_x509 := x,
      env_issuer := issuer, env_net := net, env_quic := quic, env_connect := connect, env_mail := mail, env_rdap := rdap,
      env_get3 := audit_lookups, env_get4 := mail_lookups,
      env_preload := (if cfg_HSTSPreload cfg then env_preload env else preload)\<rparr>) cfg = run env cfg"
proof -
  let ?env = "env\<lparr>env_dig := dig, env_traceAlive := alive, env_dig2 := dig2, env_auditAlive := again, env_x509 := x,
      env_issuer := issuer, env_net := net, env_quic := quic, env_connect := connect, env_mail := mail, env_rdap := rdap,
      env_get3 := audit_lookups, env_get4 := mail_lookups,
      env_preload := (if cfg_HSTSPreload cfg then env_preload env else preload)\<rparr>"
  have zone: "classifyZone (env_lib env) dig cfg dns rep = classifyZone (env_lib env) (env_dig env) cfg dns rep" for dns rep
    using assms by (simp add: classifyZone_def Let_def)
  have ask: "run_ask ?env cfg = run_ask env cfg" by (rule ext) (simp add: run_ask_def)
  have dns: "run_dns ?env cfg = run_dns env cfg"
    using assms by (simp add: run_dns_def classifyDNS_def zone ask Let_def)
  have web: "run_web ?env cfg = run_web env cfg" using assms by (simp add: run_web_def Let_def)
  have base: "run_base ?env cfg = run_base env cfg" by (simp add: run_base_def dns web)
  have name: "rep_ReservedName (run_base env cfg) \<noteq> []" using assms by (simp add: run_base_def run_dns_reserved)
  have audit: "run_audit ?env cfg = None" "run_audit env cfg = None"
    using name by (simp_all add: run_audit_def base auditNameservers_def)
  have rdap: "startRDAP (env_lib env) (env_jsonErr env) r cfg = None" for r
    using assms by (simp add: startRDAP_def checkRDAP_def rdapTarget_def)
  have finish: "run_finish ?env cfg r = run_finish env cfg r" for r by (simp add: run_finish_def rdap)
  have probes: "run_probes ?env cfg d w n r = run_probes env cfg d w n r" if "rep_ReservedName r \<noteq> []" for d w n r
    using that by (simp add: run_probes_def assessMail_def noMailPossible_def checkPreload_def Let_def)
  have silent: "\<not> delegationSilent (rep_Delegation (run_base env cfg)) l" for l
    using assms by (simp add: run_base_def run_dns_def classifyDNS_def classifyZone_def Let_def delegationSilent_def)
  have eq: "run e cfg = run_finish e cfg
      (run_probes e cfg (snd (run_dns e cfg)) (fst (run_web e cfg)) (run_audit e cfg) (run_base e cfg))"
    if "run_base e cfg = run_base env cfg" for e
  proof -
    have "\<not> delegationSilent (rep_Delegation (run_base e cfg)) (at (dn_apex (snd (run_dns e cfg))) ''NS'')"
      using silent that by simp
    then show ?thesis by (simp add: run_eq [of e cfg])
  qed
  show ?thesis
    using eq [OF base] eq [OF refl] probes [OF name] by (simp add: base dns web audit finish)
qed

definition ex_net :: addr_net where
  "ex_net = (let refused = \<lparr>err_DeadlineExceeded = False, err_IsTimeout = False, err_ECONNREFUSED = True, err_unreachable = False,
       err_netTimeout = False, err_text = ''connection refused''\<rparr>; silent = (\<lambda>r. \<lparr>io_write = None, io_read = (\<lambda>i. Inl ''EOF'')\<rparr>)
     in \<lparr>an_dial = (\<lambda>p. Some refused), an_http = silent, an_tls = Inl ''EOF'', an_clock = (0, 0, 0), an_https = silent,
         an_h2 = NotDialed, an_tls10 = (False, NotDialed), an_tls11 = (False, NotDialed)\<rparr>)"

definition ex_env :: run_env where
  "ex_env = \<lparr>env_lib = ex_lib, env_sha = \<lparr>Sum256 = id, Sum512 = id\<rparr>, env_tf = ex_time, env_version = ''devel'', env_start = 7,
     env_dig = ex_inner, env_traceAlive = True, env_conf = None, env_lookupIP = (\<lambda>n h. None), env_dog = ex_inner, env_dog2 = ex_inner, env_dogAlive = True,
     env_get1 = ex_catch_all, env_get2 = ex_catch_all, env_get3 = ex_catch_all, env_get4 = ex_catch_all, env_cache = newLookupCache, env_labels = [''a'', ''aa'', ''aaa''],
     env_dig2 = ex_inner, env_auditAlive = (\<lambda>t. True), env_x509 = ex_x509, env_issuer = (\<lambda>u. None), env_net = (\<lambda>h ip. ex_net),
     env_quic = ex_quic_run, env_connect = ex_http,
     env_mail = \<lparr>me_keys = \<lparr>ParsePKIXPublicKey = (\<lambda>b. None), ParsePKCS1PublicKey = (\<lambda>b. None)\<rparr>, me_label = ''q'',
       me_client = (\<lambda>as u. Inl ''none'')\<rparr>,
     env_preload = ex_world, env_rdap = ex_rdap, env_jsonErr = (\<lambda>t. []), env_deadline = False, env_elapsed = 12\<rparr>"

definition ex_local :: config where
  "ex_local = zero_config\<lparr>cfg_Domain := ''localhost''\<rparr>"

theorem run_reserved_quiet_witness:
  "run (ex_env\<lparr>env_dig := ex_quic_run, env_traceAlive := False, env_dig2 := ex_quic_run, env_auditAlive := (\<lambda>t. False),
      env_x509 := ex_x509, env_issuer := (\<lambda>u. Some ex_crt), env_net := (\<lambda>h ip. ex_net\<lparr>an_dial := (\<lambda>p. None)\<rparr>), env_quic := ex_inner,
      env_connect := ex_http, env_mail := env_mail ex_env, env_rdap := ex_inner, env_get3 := (\<lambda>n t. zero_Lookup),
      env_get4 := (\<lambda>n t. zero_Lookup), env_preload := (if cfg_HSTSPreload ex_local then env_preload ex_env else ex_world)\<rparr>)
     ex_local = run ex_env ex_local"
proof (rule run_reserved_quiet)
  have "reservedName ex_lib ''localhost'' \<noteq> []" by code_simp
  then show "reservedName (env_lib ex_env) (cfg_Domain ex_local) \<noteq> []" by (simp add: ex_env_def ex_local_def)
qed

lemma not_own_suffix: "d \<noteq> CHR ''w'' # CHR ''w'' # CHR ''w'' # CHR ''.'' # d"
proof
  assume "d = CHR ''w'' # CHR ''w'' # CHR ''w'' # CHR ''.'' # d"
  then have "length d = length (CHR ''w'' # CHR ''w'' # CHR ''w'' # CHR ''.'' # d)" by (rule arg_cong)
  then show False by simp
qed

lemma gather_first_no_www:
  assumes "\<not> registrableDomain lib (cfg_Domain cfg)"
    and "\<And>n t. n \<notin> {www_name cfg, ''_443._tcp.'' @ www_name cfg} \<Longrightarrow> get n t = get' n t"
  shows "gather_first lib cfg get reach = gather_first lib cfg get' reach"
  using assms not_own_suffix [of "cfg_Domain cfg"]
  by (simp add: gather_first_def fixedLookups_def Let_def www_name_def)

text \<open>
  C12. For a name that is not a registrable domain, the report has no section for www in the DNS records,
  the web hosts, the CAA verdicts or the TLSA records, whatever the network answers; and the first wave
  asks nothing about www: no part of the report depends on what it would have been told of the
  addresses, the CAA or the TLSA records of www.
\<close>
theorem run_www_registrable:
  assumes "\<not> registrableDomain (env_lib env) (cfg_Domain cfg)"
    and "\<And>n t. n \<notin> {www_name cfg, ''_443._tcp.'' @ www_name cfg} \<Longrightarrow> get n t = env_get1 env n t"
  shows "web_WWW (rep_Web (run env cfg)) = None \<and> dns_WWW (rep_DNS (run env cfg)) = [] \<and>
    (case rep_CAA (run env cfg) of Some c \<Rightarrow> fst ` set (caa_Hosts c) = {''apex''} | None \<Rightarrow> True) \<and>
    (case rep_TLSA (run env cfg) of Some t \<Rightarrow> ta_WWW t = None | None \<Rightarrow> True) \<and>
    run (env\<lparr>env_get1 := get\<rparr>) cfg = run env cfg"
proof -
  have "no_www (run env cfg)"
  proof (cases rule: run_cases [of env cfg])
    case dead
    have "no_www ((run_base env cfg)\<lparr>rep_Nameservers := run_audit env cfg\<rparr>)"
      by (simp add: no_www_def run_base_empty) (simp add: run_base_def run_dns_no_www(2) [OF assms(1)])
    with dead(2) finish_no_www show ?thesis by simp
  next
    case (alive rep)
    then have "dns_WWW (rep_DNS rep) = []" by (auto simp: run_base_def run_dns_no_www(2) [OF assms(1)])
    with alive(3) show ?thesis
      by (simp add: finish_no_www probes_no_www run_dns_no_www(1) [OF assms(1)] run_web_no_www [OF assms(1)])
  qed
  moreover have "run (env\<lparr>env_get1 := get\<rparr>) cfg = run env cfg"
  proof -
    let ?env = "env\<lparr>env_get1 := get\<rparr>"
    have first: "gather_first (env_lib env) cfg get reach = gather_first (env_lib env) cfg (env_get1 env) reach" for reach
      using assms(1) by (rule gather_first_no_www) (rule assms(2))
    have ask: "run_ask ?env cfg = run_ask env cfg" by (rule ext) (simp add: run_ask_def)
    have audit: "audit_one ?env cfg = audit_one env cfg" by (rule ext) (simp add: audit_one_def)
    have probe: "probe_one ?env cfg = probe_one env cfg" by (intro ext) (simp add: probe_one_def)
    have dns: "run_dns ?env cfg = run_dns env cfg" by (simp add: run_dns_def gatherDNS_def first ask Let_def)
    have web: "run_web ?env cfg = run_web env cfg" by (simp add: run_web_def first probe Let_def)
    have probes: "run_probes ?env cfg d w n r = run_probes env cfg d w n r" for d w n r by (simp add: run_probes_def)
    show ?thesis by (simp add: run_def dns web probes audit Let_def split: prod.split)
  qed
  ultimately show ?thesis by (simp add: no_www_def)
qed

definition ex_suffix_lib :: dp_lib where
  "ex_suffix_lib = ex_lib\<lparr>psl_Lookup := (\<lambda>s b. \<lparr>Suffix = ''co.uk'', Registrable = [], ICANN = True\<rparr>)\<rparr>"

theorem run_www_registrable_witness:
  "web_WWW (rep_Web (run (ex_env\<lparr>env_lib := ex_suffix_lib\<rparr>) (zero_config\<lparr>cfg_Domain := ''co.uk''\<rparr>))) = None \<and>
   run (ex_env\<lparr>env_lib := ex_suffix_lib, env_get1 := (\<lambda>n t. if n = ''www.co.uk'' then zero_Lookup else ex_catch_all n t)\<rparr>)
     (zero_config\<lparr>cfg_Domain := ''co.uk''\<rparr>) = run (ex_env\<lparr>env_lib := ex_suffix_lib\<rparr>) (zero_config\<lparr>cfg_Domain := ''co.uk''\<rparr>)"
proof -
  let ?env = "ex_env\<lparr>env_lib := ex_suffix_lib\<rparr>" and ?cfg = "zero_config\<lparr>cfg_Domain := ''co.uk''\<rparr>"
  have "\<not> registrableDomain (env_lib ?env) (cfg_Domain ?cfg)" by (simp add: registrableDomain_def ex_suffix_lib_def)
  from run_www_registrable [OF this, of "\<lambda>n t. if n = ''www.co.uk'' then zero_Lookup else ex_catch_all n t"] show ?thesis
    by (simp add: www_name_def ex_env_def)
qed

text \<open>
  C38. DANE: the verdict of the TLSA section is match exactly when some address that served a chain
  matches a record of its own host; it is unknown exactly when no record was seen and a lookup for
  them got no answer; and the name www decides only when it was looked up.
\<close>
theorem assessTLSA_verdict:
  fixes sha :: sha_lib and a w :: Lookup and web :: WebSection and probed :: bool
  defines "r \<equiv> ta_Result (fst (assessTLSA sha a w web probed))"
    and "matches \<equiv> \<lambda>h rec. list_ex (\<lambda>x. case aw_TLS x of None \<Rightarrow> False
      | Some t \<Rightarrow> tl_chain t \<noteq> [] \<and>
          matchTLSA sha (parseTLSARecords (lk_Records rec)) (tl_chain t) (tl_pkixValid t) = TLSAMatch) (addrs h)"
  shows "(r = TLSAMatch \<longleftrightarrow> matches (web_Apex web) a \<or> probed \<and> matches (web_WWW web) w) \<and>
    (r = TLSAUnknown \<longleftrightarrow> lk_Records a = [] \<and> (if probed then lk_Records w = [] else True) \<and>
       \<not> (Answered a \<and> (if probed then Answered w else True)))"
proof -
  have stamp: "fst (snd (stamp_pair sha h rec)) = matches h rec" for h rec
  proof (cases h)
    case None
    then show ?thesis by (simp add: stamp_pair_def matches_def addrs_def)
  next
    case (Some hw)
    show ?thesis
    proof (cases "parseTLSARecords (lk_Records rec) = []")
      case True
      then show ?thesis
        by (auto simp: Some stamp_pair_def matches_def matchTLSA_def list_ex_iff Let_def split: option.splits)
    next
      case False
      have "list_ex (\<lambda>x. aw_TLSA x = Some TLSAMatch) (checked_addrs (map (stamp_addr sha recs) xs)) =
          list_ex (\<lambda>x. case aw_TLS x of None \<Rightarrow> False
            | Some t \<Rightarrow> tl_chain t \<noteq> [] \<and> matchTLSA sha recs (tl_chain t) (tl_pkixValid t) = TLSAMatch) xs" for recs xs
        by (induction xs) (auto simp: checked_addrs_def stamp_addr_def split: option.splits)
      from this [of "parseTLSARecords (lk_Records rec)" "hw_IPv4 hw @ hw_IPv6 hw"] False show ?thesis
        by (simp add: Some stamp_pair_def stampHost_def matches_def addrs_def Let_def)
    qed
  qed
  have none: "\<not> matches h rec" if "lk_Records rec = []" for h rec
    using that
    by (auto simp: matches_def parseTLSARecords_def map_filter_simps matchTLSA_def list_ex_iff split: option.splits)
  have res: "tlsaResult v = TLSAMatch \<longleftrightarrow> fst v \<and> snd v" "tlsaResult v \<noteq> TLSAUnknown" "tlsaResult v \<noteq> TLSANone" for v
    by (auto simp: tlsaResult_def split: prod.split)
  have checked: "fst (snd (stamp_pair sha h rec)) \<Longrightarrow> snd (snd (stamp_pair sha h rec))" for h rec
    by (auto simp: stamp_pair_def stampHost_def Let_def split: option.splits if_splits)
  have hosts: "tlsaResult (snd (stampHosts sha x y web)) = TLSAMatch \<longleftrightarrow> matches (web_Apex web) x \<or> matches (web_WWW web) y" for x y
    using checked [of "web_Apex web" x] checked [of "web_WWW web" y]
    by (auto simp: res stampHosts_def stamp [symmetric] split: prod.splits)
  show ?thesis
  proof (cases "lk_Records a = [] \<and> (probed \<longrightarrow> lk_Records w = [])")
    case True
    then show ?thesis by (auto simp: r_def assessTLSA_def wwwRecords_def Let_def none)
  next
    case False
    then have "r = tlsaResult (snd (stampHosts sha a (if probed then w else zero_Lookup) web))"
      by (auto simp: r_def assessTLSA_def wwwRecords_def Let_def split: prod.split)
    with False show ?thesis by (auto simp: hosts res(2) none)
  qed
qed

end
