(* ===== verification/Parallel.thy ===== *)
theory Parallel
  imports Go_Prelude
begin

text \<open>
  \<open>parallel\<close> of \<open>src/run.go\<close>: a goroutine for each function, and a return when all have ended. A task
  computes on its own and then stores its result in the shared state under the lock, so it is a
  function of that state; the tasks end in any order. The locale \<open>independent_tasks\<close> is the contract
  under which the order does not show in what is observed of the state.
\<close>

inductive parallel_step :: "('s \<Rightarrow> 's) list \<Rightarrow> nat set \<times> 's \<Rightarrow> nat set \<times> 's \<Rightarrow> bool"
  for fns :: "('s \<Rightarrow> 's) list" where
  complete: "\<lbrakk>i < length fns; i \<notin> D\<rbrakk> \<Longrightarrow> parallel_step fns (D, s) (insert i D, (fns ! i) s)"

inductive_cases parallel_stepE: "parallel_step fns (D, s) u"

definition parallel :: "('s \<Rightarrow> 's) list \<Rightarrow> 's \<Rightarrow> 's \<Rightarrow> bool" where
  "parallel fns s t \<longleftrightarrow> rtranclp (parallel_step fns) ({}, s) ({..<length fns}, t)"

lemma parallel_trace:
  assumes "rtranclp (parallel_step fns) ({}, s) (D, t)"
  shows "\<exists>order. distinct order \<and> set order = D \<and> D \<subseteq> {..<length fns} \<and> t = fold (\<lambda>i. fns ! i) order s"
  using assms
proof (induction rule: rtranclp_induct2)
  case refl
  show ?case by (intro exI [of _ "[]"]) simp
next
  case (step D t D' t')
  then obtain order where "distinct order" "set order = D" "D \<subseteq> {..<length fns}" "t = fold (\<lambda>i. fns ! i) order s"
    by blast
  moreover obtain i where "i < length fns" "i \<notin> D" "D' = insert i D" "t' = (fns ! i) t"
    using step.hyps(2) by (auto elim: parallel_stepE)
  ultimately show ?case by (intro exI [of _ "order @ [i]"]) auto
qed

lemma fold_nth: "fold (\<lambda>i. fns ! i) [0..<length fns] s = fold (\<lambda>f. f) fns s"
  by (subst (2) map_nth [symmetric]) (simp only: fold_map o_def)

text \<open>One possible order is the order of the list: \<open>parallel\<close> always has an outcome.\<close>

lemma parallel_sequential: "parallel fns s (fold (\<lambda>f. f) fns s)"
proof -
  have "rtranclp (parallel_step fns) ({}, s) ({..<n}, fold (\<lambda>i. fns ! i) [0..<n] s)" if "n \<le> length fns" for n
    using that
  proof (induction n)
    case (Suc n)
    then have "parallel_step fns ({..<n}, fold (\<lambda>i. fns ! i) [0..<n] s)
        (insert n {..<n}, (fns ! n) (fold (\<lambda>i. fns ! i) [0..<n] s))"
      by (intro parallel_step.complete) auto
    with Suc show ?case by (simp add: lessThan_Suc)
  qed simp
  from this [of "length fns"] show ?thesis by (simp add: parallel_def fold_nth)
qed

text \<open>Stores of a function of the key into a map: their order does not matter to the map.\<close>

lemma upd_swap: "m(k \<mapsto> f k, k' \<mapsto> f k') = m(k' \<mapsto> f k', k \<mapsto> f k)"
  by (simp add: fun_upd_def fun_eq_iff)

lemma map_of_fold_put: "map_of (fold (\<lambda>k. map_put k (f k)) ks m) = map_of m ++ (\<lambda>k. if k \<in> set ks then Some (f k) else None)"
  by (induction ks arbitrary: m) (auto simp: fun_eq_iff map_add_def)

locale independent_tasks =
  fixes fns :: "('s \<Rightarrow> 's) list" and obs :: "'s \<Rightarrow> 'o"
  assumes obs_cong: "i < length fns \<Longrightarrow> obs s = obs t \<Longrightarrow> obs ((fns ! i) s) = obs ((fns ! i) t)"
    and obs_commute: "i < j \<Longrightarrow> j < length fns \<Longrightarrow> obs ((fns ! i) ((fns ! j) s)) = obs ((fns ! j) ((fns ! i) s))"
begin

text \<open>The tasks seen through \<open>obs\<close> are functions on observations, which commute.\<close>

lemma any_order:
  assumes "parallel fns s t"
  shows "obs t = obs (fold (\<lambda>f. f) fns s)"
proof -
  define g where "g i o' = (if o' \<in> range obs then obs ((fns ! i) (inv obs o')) else o')" for i o'
  have g: "g i (obs u) = obs ((fns ! i) u)" if "i < length fns" for i u
    using obs_cong [OF that, of "inv obs (obs u)" u] by (simp add: g_def f_inv_into_f)
  have swap: "obs ((fns ! i) ((fns ! j) u)) = obs ((fns ! j) ((fns ! i) u))" if "i < length fns" "j < length fns" for i j u
    using that obs_commute [of i j] obs_commute [of j i] by (cases i j rule: linorder_cases) auto
  have commute: "g i \<circ> g j = g j \<circ> g i" if ij: "i < length fns" "j < length fns" for i j
  proof
    fix o' show "(g i \<circ> g j) o' = (g j \<circ> g i) o'"
    proof (cases "o' \<in> range obs")
      case True
      then obtain u where "o' = obs u" by blast
      with ij swap g show ?thesis by simp
    qed (simp add: g_def)
  qed
  have fold_g: "obs (fold (\<lambda>i. fns ! i) order u) = fold g order (obs u)" if "set order \<subseteq> {..<length fns}" for order u
    using that by (induction order arbitrary: u) (simp_all add: g)
  from parallel_trace [OF assms [unfolded parallel_def]]
  obtain order where order: "distinct order" "set order = {..<length fns}" "t = fold (\<lambda>i. fns ! i) order s" by auto
  then have "mset order = mset [0..<length fns]"
    using set_eq_iff_mset_eq_distinct [of order "[0..<length fns]"] by (simp add: atLeast0LessThan)
  with order(2) have "fold g order = fold g [0..<length fns]" by (intro fold_multiset_equiv commute) auto
  with order fold_g show ?thesis by (simp add: fold_nth [symmetric] atLeast0LessThan)
qed

end

end
