(* ===== verification/Schedule.thy ===== *)
theory Schedule
  imports Run Parallel Steps
begin

text \<open>
  The goroutines of a run (\<open>src/run.go\<close>). The first wave of lookups is the list of tasks it is in the
  code. The run is a step relation over the goroutines it starts: the trace and the lookups, the web
  probes that begin after the first wave (\<open>earlyWeb\<close>), the registration lookup, and the four tasks of
  the last phase. The theorems relate every schedule to the functions of the theories Gather and Run.
\<close>

section \<open>The first wave\<close>

text \<open>\<open>store\<close> and the closure \<open>set\<close> of \<open>fixedLookups\<close>: each task stores one answer.\<close>

definition store_apex :: "lookupFn \<Rightarrow> string \<Rightarrow> string \<Rightarrow> dnsResults \<Rightarrow> dnsResults" where
  "store_apex get d t r = r\<lparr>dn_apex := map_put t (get d t) (dn_apex r)\<rparr>"

definition store_www :: "lookupFn \<Rightarrow> string \<Rightarrow> string \<Rightarrow> dnsResults \<Rightarrow> dnsResults" where
  "store_www get www t r = r\<lparr>dn_www := map_option (map_put t (get www t)) (dn_www r)\<rparr>"

definition store_reach :: "(string \<Rightarrow> Reach \<times> Trust) \<Rightarrow> string \<Rightarrow> dnsResults \<Rightarrow> dnsResults" where
  "store_reach reach fam r = r\<lparr>dn_reach := map_put fam (fst (reach fam)) (dn_reach r),
     dn_reachTrust := map_put fam (snd (reach fam)) (dn_reachTrust r)\<rparr>"

definition fixed_tasks :: "dp_lib \<Rightarrow> config \<Rightarrow> lookupFn \<Rightarrow> (dnsResults \<Rightarrow> dnsResults) list" where
  "fixed_tasks lib cfg get =
     (let d = cfg_Domain cfg; www = www_name cfg;
          tasks = map (store_apex get d) apexTypes @
            [\<lambda>r. r\<lparr>dn_ds := get d ''DS''\<rparr>, \<lambda>r. r\<lparr>dn_dnskey := get d ''DNSKEY''\<rparr>,
             \<lambda>r. r\<lparr>dn_dmarc := get (''_dmarc.'' @ d) ''TXT''\<rparr>, \<lambda>r. r\<lparr>dn_mtaSTS := get (''_mta-sts.'' @ d) ''TXT''\<rparr>,
             \<lambda>r. r\<lparr>dn_tlsRPT := get (''_smtp._tls.'' @ d) ''TXT''\<rparr>, \<lambda>r. r\<lparr>dn_caaApex := get d ''CAA''\<rparr>,
             \<lambda>r. r\<lparr>dn_tlsaApex := get (''_443._tcp.'' @ d) ''TLSA''\<rparr>]
      in if \<not> registrableDomain lib d then tasks
         else tasks @ map (store_www get www) wwwTypes @
            [\<lambda>r. r\<lparr>dn_caaWWW := get www ''CAA''\<rparr>, \<lambda>r. r\<lparr>dn_tlsaWWW := get (''_443._tcp.'' @ www) ''TLSA''\<rparr>])"

definition wave_tasks ::
    "dp_lib \<Rightarrow> config \<Rightarrow> lookupFn \<Rightarrow> (string \<Rightarrow> Reach \<times> Trust) \<Rightarrow> (dnsResults \<Rightarrow> dnsResults) list" where
  "wave_tasks lib cfg get reach = fixed_tasks lib cfg get @ map (store_reach reach) (cfg_Families cfg)"

definition wave_start :: "dp_lib \<Rightarrow> config \<Rightarrow> dnsResults" where
  "wave_start lib cfg = zero_dnsResults\<lparr>dn_www := (if registrableDomain lib (cfg_Domain cfg) then Some [] else None)\<rparr>"

text \<open>What can be seen of the results: a Go map has no order.\<close>

definition seen_dns ::
    "dnsResults \<Rightarrow> dnsResults \<times> (string \<rightharpoonup> Lookup) \<times> (string \<rightharpoonup> Lookup) option \<times> (string \<rightharpoonup> Reach) \<times> (string \<rightharpoonup> Trust)" where
  "seen_dns r = (r\<lparr>dn_apex := [], dn_www := None, dn_reach := [], dn_reachTrust := []\<rparr>,
     map_of (dn_apex r), map_option map_of (dn_www r), map_of (dn_reach r), map_of (dn_reachTrust r))"

section \<open>The last phase\<close>

text \<open>The four tasks of the last \<open>parallel\<close>. Each reads the report when it runs.\<close>

definition probe_tasks :: "run_env \<Rightarrow> config \<Rightarrow> dnsResults \<Rightarrow> WebSection \<Rightarrow> bool \<Rightarrow> (Report \<Rightarrow> Report) list" where
  "probe_tasks env cfg dns web audited =
     [\<lambda>r. r\<lparr>rep_Web := web\<rparr>,
      \<lambda>r. if audited then r
           else r\<lparr>rep_Nameservers := auditNameservers (env_lib env) (audit_one env cfg) (env_dig env) cfg dns
             (late_get (env_lib env) dns (env_get3 env)) r\<rparr>,
      \<lambda>r. r\<lparr>rep_Mail := assessMail (env_lib env) (env_mail env) cfg dns (late_get (env_lib env) dns (env_get4 env)) (noMailPossible (env_lib env) r dns)\<rparr>,
      \<lambda>r. let p = checkPreload (env_lib env) (env_tf env) (env_preload env) cfg
           in r\<lparr>rep_HSTSPreload := pf_status p, rep_HSTSPreloadCoveredBy := pf_coveredBy p,
                rep_HSTSPreloadPolicy := pf_policy p, rep_HSTSPreloadError := pf_problem p,
                rep_HSTSPreloadIncludeSubdomains := pf_includeSubdomains p\<rparr>]"

definition assemble :: "run_env \<Rightarrow> dnsResults \<Rightarrow> Report \<Rightarrow> Report" where
  "assemble env dns rep =
     (let (wild, web1) = wildcardSection (env_lib env) dns (rep_Web rep);
          rep1 = rep\<lparr>rep_Web := web1, rep_Wildcard := Some wild\<rparr>;
          ((caa, tlsa), web2) = assessCertPolicies (env_sha env) dns rep1
      in rep1\<lparr>rep_Web := web2, rep_CAA := caa, rep_TLSA := tlsa\<rparr>)"

section \<open>The goroutines\<close>

text \<open>The goroutine of \<open>earlyWeb\<close>: not started, started, past its write of the reserved addresses, and
  ended with its result (the channel \<open>done\<close> is closed).\<close>

datatype web_goroutine = WebIdle | WebStarted | WebProbing | WebDone WebSection

text \<open>Where the run is. \<open>Probing audited D\<close> is its last phase with the tasks \<open>D\<close> ended; \<open>Draining\<close> is the
  wait of \<open>stop\<close> in a dead zone, \<open>Exiting\<close> the wait of the deferred \<open>stop\<close>.\<close>

datatype run_pc =
    Gathering bool nat
  | Classified
  | Audited
  | Draining
  | Probing bool "nat set"
  | Joining
  | Deferred
  | Exiting
  | Over

record run_state =
  rs_pc :: run_pc
  rs_rep :: Report
  rs_dns :: dnsResults
  rs_web :: web_goroutine
  rs_cancelled :: bool
  rs_rdap :: "RDAPReport option option"

definition run_start :: "run_env \<Rightarrow> config \<Rightarrow> run_state" where
  "run_start env cfg = \<lparr>rs_pc = Gathering False 0,
     rs_rep = (newReport (env_version env) cfg)\<lparr>rep_Timestamp := RFC3339_Format (env_tf env) (env_start env)\<rparr>,
     rs_dns = zero_dnsResults, rs_web = WebIdle, rs_cancelled = False, rs_rdap = (if cfg_RDAP cfg then None else Some None)\<rparr>"

fun web_running :: "web_goroutine \<Rightarrow> bool" where
  "web_running WebIdle = False"
| "web_running (WebDone w) = False"
| "web_running _ = True"

fun web_result :: "web_goroutine \<Rightarrow> WebSection" where
  "web_result (WebDone w) = w"
| "web_result _ = \<lparr>web_Apex = None, web_WWW = None\<rparr>"

definition is_reserved :: "run_env \<Rightarrow> config \<Rightarrow> bool" where
  "is_reserved env cfg \<longleftrightarrow> reservedName (env_lib env) (cfg_Domain cfg) \<noteq> []"

definition runTrace :: "run_env \<Rightarrow> config \<Rightarrow> Delegation" where
  "runTrace env cfg = traceDelegation (env_lib env) (env_dig env) (env_traceAlive env) (cfg_DigPath cfg)
     (traceFamily cfg) (cfg_TimeoutSec cfg) (cfg_Domain cfg)"

definition auditFirst :: "run_env \<Rightarrow> config \<Rightarrow> dnsResults \<Rightarrow> Report \<Rightarrow> NSReport option" where
  "auditFirst env cfg dns rep =
     auditNameservers (env_lib env) (audit_one env cfg) (env_dig env) cfg dns (late_get (env_lib env) dns (env_get3 env)) rep"

definition run_gather :: "run_env \<Rightarrow> config \<Rightarrow> dnsResults" where
  "run_gather env cfg = gatherDNS (env_lib env) cfg (env_get1 env) (env_get2 env)
     (checkReachability (env_conf env) (env_lookupIP env) (run_ask env cfg) cfg) (env_labels env) (env_cache env)"

text \<open>One step of one goroutine. The web probes end with their result, or, once they are cancelled,
  with anything.\<close>

inductive run_step :: "run_env \<Rightarrow> config \<Rightarrow> run_state \<Rightarrow> run_state \<Rightarrow> bool"
  for env :: run_env and cfg :: config where
  trace: "rs_pc s = Gathering False n \<Longrightarrow>
     run_step env cfg s (s\<lparr>rs_pc := Gathering True n, 
       rs_rep := (if is_reserved env cfg then rs_rep s else (rs_rep s)\<lparr>rep_Delegation := runTrace env cfg\<rparr>)\<rparr>)"
| first_wave: "rs_pc s = Gathering b 0 \<Longrightarrow>
     run_step env cfg s (s\<lparr>rs_pc := Gathering b 1, rs_web := (if is_reserved env cfg then rs_web s else WebStarted)\<rparr>)"
| second_wave: "rs_pc s = Gathering b 1 \<Longrightarrow>
     run_step env cfg s (s\<lparr>rs_pc := Gathering b 2, rs_dns := run_gather env cfg\<rparr>)"
| classify: "\<lbrakk>rs_pc s = Gathering True 2; classifyDNS (env_lib env) (env_dig env) cfg (rs_dns s) (rs_rep s) = (rep, dns)\<rbrakk> \<Longrightarrow>
     run_step env cfg s (s\<lparr>rs_pc := Classified, rs_rep := rep, rs_dns := dns\<rparr>)"
| web_reserved: "rs_web s = WebStarted \<Longrightarrow>
     run_step env cfg s (s\<lparr>rs_web := WebProbing, rs_rep := (rs_rep s)\<lparr>rep_ReservedAddresses := snd (run_web env cfg)\<rparr>\<rparr>)"
| web_ends: "\<lbrakk>rs_web s = WebProbing; rs_cancelled s \<or> w = fst (run_web env cfg)\<rbrakk> \<Longrightarrow>
     run_step env cfg s (s\<lparr>rs_web := WebDone w\<rparr>)"
| rdap_ends: "rs_rdap s = None \<Longrightarrow>
     run_step env cfg s (s\<lparr>rs_rdap := Some (startRDAP (env_lib env) (env_jsonErr env) (env_rdap env) cfg)\<rparr>)"
| audit_first: "\<lbrakk>rs_pc s = Classified; delegationSilent (rep_Delegation (rs_rep s)) (at (dn_apex (rs_dns s)) ''NS'')\<rbrakk> \<Longrightarrow>
     run_step env cfg s (s\<lparr>rs_pc := Audited, 
       rs_rep := (rs_rep s)\<lparr>rep_Nameservers := auditFirst env cfg (rs_dns s) (rs_rep s)\<rparr>\<rparr>)"
| audit_later: "\<lbrakk>rs_pc s = Classified; \<not> delegationSilent (rep_Delegation (rs_rep s)) (at (dn_apex (rs_dns s)) ''NS'')\<rbrakk> \<Longrightarrow>
     run_step env cfg s (s\<lparr>rs_pc := Probing False {}\<rparr>)"
| dead_zone: "\<lbrakk>rs_pc s = Audited; zoneUnreachable (rs_rep s)\<rbrakk> \<Longrightarrow>
     run_step env cfg s (s\<lparr>rs_pc := Draining, rs_cancelled := (rs_web s \<noteq> WebIdle)\<rparr>)"
| live_zone: "\<lbrakk>rs_pc s = Audited; \<not> zoneUnreachable (rs_rep s)\<rbrakk> \<Longrightarrow>
     run_step env cfg s (s\<lparr>rs_pc := Probing True {}\<rparr>)"
| drained: "\<lbrakk>rs_pc s = Draining; \<not> web_running (rs_web s)\<rbrakk> \<Longrightarrow> run_step env cfg s (s\<lparr>rs_pc := Joining\<rparr>)"
| web_wait: "\<lbrakk>rs_pc s = Probing a D; 0 \<notin> D; \<not> web_running (rs_web s)\<rbrakk> \<Longrightarrow>
     run_step env cfg s (s\<lparr>rs_pc := Probing a (insert 0 D), rs_cancelled := (rs_web s \<noteq> WebIdle),
       rs_rep := (probe_tasks env cfg (rs_dns s) (web_result (rs_web s)) a ! 0) (rs_rep s)\<rparr>)"
| probe: "\<lbrakk>rs_pc s = Probing a D; i \<in> {1, 2, 3}; i \<notin> D\<rbrakk> \<Longrightarrow>
     run_step env cfg s (s\<lparr>rs_pc := Probing a (insert i D),
       rs_rep := (probe_tasks env cfg (rs_dns s) (web_result (rs_web s)) a ! i) (rs_rep s)\<rparr>)"
| probed: "rs_pc s = Probing a {0, 1, 2, 3} \<Longrightarrow>
     run_step env cfg s (s\<lparr>rs_pc := Joining, rs_rep := assemble env (rs_dns s) (rs_rep s)\<rparr>)"
| join_rdap: "\<lbrakk>rs_pc s = Joining; rs_rdap s = Some rdap\<rbrakk> \<Longrightarrow>
     run_step env cfg s (s\<lparr>rs_pc := Deferred,
       rs_rep := finishReport (env_lib env) (env_deadline env) (env_elapsed env) ((rs_rep s)\<lparr>rep_RDAP := rdap\<rparr>)\<rparr>)"
| deferred: "rs_pc s = Deferred \<Longrightarrow>
     run_step env cfg s (s\<lparr>rs_pc := Exiting, rs_cancelled := (rs_web s \<noteq> WebIdle)\<rparr>)"
| exit_run: "\<lbrakk>rs_pc s = Exiting; \<not> web_running (rs_web s)\<rbrakk> \<Longrightarrow> run_step env cfg s (s\<lparr>rs_pc := Over\<rparr>)"

inductive_cases run_stepE: "run_step env cfg s t"

text \<open>How many steps are left at most.\<close>

definition tasks_left :: "nat set \<Rightarrow> nat" where
  "tasks_left D = card ({0, 1, 2, 3} - D)"

fun pc_left :: "run_pc \<Rightarrow> nat" where
  "pc_left (Gathering b n) = 12 + (if b then 0 else 1) + 3 * (2 - n)"
| "pc_left Classified = 11"
| "pc_left Audited = 10"
| "pc_left Draining = 5"
| "pc_left (Probing a D) = 5 + tasks_left D"
| "pc_left Joining = 4"
| "pc_left Deferred = 3"
| "pc_left Exiting = 2"
| "pc_left Over = 0"

fun web_left :: "web_goroutine \<Rightarrow> nat" where
  "web_left WebStarted = 2"
| "web_left WebProbing = 1"
| "web_left _ = 0"

definition run_left :: "run_state \<Rightarrow> nat" where
  "run_left s = pc_left (rs_pc s) + web_left (rs_web s) + (if rs_rdap s = None then 1 else 0)"


section \<open>Lemmas\<close>

text \<open>The reserved addresses are written by one goroutine and read by no task.\<close>

abbreviation with_reserved :: "string list \<Rightarrow> Report \<Rightarrow> Report" where
  "with_reserved ra rep \<equiv> rep\<lparr>rep_ReservedAddresses := ra\<rparr>"

lemma auditNameservers_fields:
  assumes "rep_NotAZone r = rep_NotAZone r'" and "rep_ReservedName r = rep_ReservedName r'" and "rep_Delegation r = rep_Delegation r'"
  shows "auditNameservers lib audit dig cfg dns get r = auditNameservers lib audit dig cfg dns get r'"
  using assms by (simp add: auditNameservers_def Let_def)

lemma auditNameservers_writes [simp]:
  "auditNameservers lib audit dig cfg dns get (r\<lparr>rep_ReservedAddresses := a\<rparr>) = auditNameservers lib audit dig cfg dns get r"
  "auditNameservers lib audit dig cfg dns get (r\<lparr>rep_Web := w\<rparr>) = auditNameservers lib audit dig cfg dns get r"
  "auditNameservers lib audit dig cfg dns get (r\<lparr>rep_Mail := m\<rparr>) = auditNameservers lib audit dig cfg dns get r"
  "auditNameservers lib audit dig cfg dns get (r\<lparr>rep_HSTSPreload := p, rep_HSTSPreloadCoveredBy := c,
     rep_HSTSPreloadPolicy := q, rep_HSTSPreloadError := e, rep_HSTSPreloadIncludeSubdomains := i\<rparr>) =
   auditNameservers lib audit dig cfg dns get r"
  by (rule auditNameservers_fields; simp)+

lemma noMailPossible_writes [simp]:
  "noMailPossible lib (r\<lparr>rep_ReservedAddresses := a\<rparr>) dns = noMailPossible lib r dns"
  "noMailPossible lib (r\<lparr>rep_Web := w\<rparr>) dns = noMailPossible lib r dns"
  "noMailPossible lib (r\<lparr>rep_Nameservers := n\<rparr>) dns = noMailPossible lib r dns"
  "noMailPossible lib (r\<lparr>rep_HSTSPreload := p, rep_HSTSPreloadCoveredBy := c,
     rep_HSTSPreloadPolicy := q, rep_HSTSPreloadError := e, rep_HSTSPreloadIncludeSubdomains := i\<rparr>) dns =
   noMailPossible lib r dns"
  by (simp_all add: noMailPossible_def)

lemma classifyZone_reserved_addresses:
  "classifyZone lib dig cfg dns (with_reserved a r) = with_reserved a (classifyZone lib dig cfg dns r)"
proof (cases "reservedName lib (cfg_Domain cfg) = []")
  case True
  show ?thesis
  proof (cases "detectNotAZone lib (cfg_Domain cfg) (dn_apex dns) (rep_Delegation r)")
    case (Pair host zone)
    with True show ?thesis by (cases host) (simp_all add: classifyZone_def Let_def)
  qed
qed (simp add: classifyZone_def Let_def)

lemma classifyDNS_reserved_addresses:
  "classifyDNS lib dig cfg dns (with_reserved a r) =
     (with_reserved a (fst (classifyDNS lib dig cfg dns r)), snd (classifyDNS lib dig cfg dns r))"
proof -
  have swap: "(with_reserved a r)\<lparr>rep_DNS := d\<rparr> = with_reserved a (r\<lparr>rep_DNS := d\<rparr>)" for d by simp
  show ?thesis
    by (cases "resolverValidates (dn_reachTrust dns) = Some False")
      (simp_all only: classifyDNS_def Let_def swap classifyZone_reserved_addresses, simp_all)
qed

lemma probe_tasks_web: "i \<in> {1, 2, 3} \<Longrightarrow> probe_tasks env cfg dns w a ! i = probe_tasks env cfg dns w' a ! i"
  by (auto simp: probe_tasks_def)

lemma probe_task_reserved:
  "i \<in> {0, 1, 2, 3} \<Longrightarrow>
     (probe_tasks env cfg dns w a ! i) (with_reserved ra r) = with_reserved ra ((probe_tasks env cfg dns w a ! i) r)"
  by (auto simp: probe_tasks_def Let_def)

interpretation probes: independent_tasks "probe_tasks env cfg dns w a" "\<lambda>r. r" for env cfg dns w a
proof
  fix i j and s :: Report assume "i < j" "j < length (probe_tasks env cfg dns w a)"
  then have "(i, j) \<in> {(0, 1), (0, 2), (0, 3), (1, 2), (1, 3), (2, 3)}" by (auto simp: probe_tasks_def less_Suc_eq numeral_eq_Suc)
  then show "(probe_tasks env cfg dns w a ! i) ((probe_tasks env cfg dns w a ! j) s) =
      (probe_tasks env cfg dns w a ! j) ((probe_tasks env cfg dns w a ! i) s)"
    by (auto simp: probe_tasks_def Let_def)
qed simp

text \<open>The tasks of a wave store under different keys, or the same answer under one key.\<close>

lemmas wave_defs = seen_dns_def store_apex_def store_www_def store_reach_def

lemma wave_task_cases:
  assumes "f \<in> set (wave_tasks lib cfg get reach)"
  obtains (apex) t where "f = store_apex get (cfg_Domain cfg) t"
  | (www) t where "f = store_www get (www_name cfg) t"
  | (reach) fam where "f = store_reach reach fam"
  | (ds) l where "f = (\<lambda>r. r\<lparr>dn_ds := l\<rparr>)" "l = get (cfg_Domain cfg) ''DS''"
  | (dnskey) l where "f = (\<lambda>r. r\<lparr>dn_dnskey := l\<rparr>)" "l = get (cfg_Domain cfg) ''DNSKEY''"
  | (dmarc) l where "f = (\<lambda>r. r\<lparr>dn_dmarc := l\<rparr>)" "l = get (''_dmarc.'' @ cfg_Domain cfg) ''TXT''"
  | (sts) l where "f = (\<lambda>r. r\<lparr>dn_mtaSTS := l\<rparr>)" "l = get (''_mta-sts.'' @ cfg_Domain cfg) ''TXT''"
  | (rpt) l where "f = (\<lambda>r. r\<lparr>dn_tlsRPT := l\<rparr>)" "l = get (''_smtp._tls.'' @ cfg_Domain cfg) ''TXT''"
  | (caa) l where "f = (\<lambda>r. r\<lparr>dn_caaApex := l\<rparr>)" "l = get (cfg_Domain cfg) ''CAA''"
  | (tlsa) l where "f = (\<lambda>r. r\<lparr>dn_tlsaApex := l\<rparr>)" "l = get (''_443._tcp.'' @ cfg_Domain cfg) ''TLSA''"
  | (caa_www) l where "f = (\<lambda>r. r\<lparr>dn_caaWWW := l\<rparr>)" "l = get (www_name cfg) ''CAA''"
  | (tlsa_www) l where "f = (\<lambda>r. r\<lparr>dn_tlsaWWW := l\<rparr>)" "l = get (''_443._tcp.'' @ www_name cfg) ''TLSA''"
  using assms unfolding wave_tasks_def fixed_tasks_def Let_def
  by (simp split: if_splits) (elim disjE imageE; blast)+

lemma wave_commute:
  assumes f: "f \<in> set (wave_tasks lib cfg get reach)" and g: "g \<in> set (wave_tasks lib cfg get reach)"
  shows "seen_dns (f (g s)) = seen_dns (g (f s))"
  by (rule wave_task_cases [OF f]; rule wave_task_cases [OF g];
    simp add: wave_defs option.map_comp comp_def upd_swap upd_swap [where f = "\<lambda>x. fst (reach x)"] upd_swap [where f = "\<lambda>x. snd (reach x)"])

lemma wave_cong:
  assumes f: "f \<in> set (wave_tasks lib cfg get reach)" and "seen_dns s = seen_dns t"
  shows "seen_dns (f s) = seen_dns (f t)"
proof -
  from assms(2) have "s\<lparr>dn_apex := [], dn_www := None, dn_reach := [], dn_reachTrust := []\<rparr> =
      t\<lparr>dn_apex := [], dn_www := None, dn_reach := [], dn_reachTrust := []\<rparr>"
    and "map_of (dn_apex s) = map_of (dn_apex t)" "map_option map_of (dn_www s) = map_option map_of (dn_www t)"
    and "map_of (dn_reach s) = map_of (dn_reach t)" "map_of (dn_reachTrust s) = map_of (dn_reachTrust t)"
    by (simp_all add: seen_dns_def)
  then show ?thesis
    by (cases s, cases t) (rule wave_task_cases [OF f]; cases "dn_www s"; cases "dn_www t"; simp add: wave_defs)
qed

interpretation wave: independent_tasks "wave_tasks lib cfg get reach" seen_dns for lib cfg get reach
proof
  show "seen_dns ((wave_tasks lib cfg get reach ! i) s) = seen_dns ((wave_tasks lib cfg get reach ! i) t)"
    if "i < length (wave_tasks lib cfg get reach)" "seen_dns s = seen_dns t" for i s t
    using wave_cong nth_mem that by blast
  show "seen_dns ((wave_tasks lib cfg get reach ! i) ((wave_tasks lib cfg get reach ! j) s)) =
      seen_dns ((wave_tasks lib cfg get reach ! j) ((wave_tasks lib cfg get reach ! i) s))"
    if "i < j" "j < length (wave_tasks lib cfg get reach)" for i j s
    using wave_commute nth_mem that less_trans by metis
qed

lemma fold_store_apex:
  "fold (\<lambda>f. f) (map (store_apex get d) ts) r = r\<lparr>dn_apex := fold (\<lambda>t. map_put t (get d t)) ts (dn_apex r)\<rparr>"
  by (induction ts arbitrary: r) (simp_all add: store_apex_def)

lemma fold_store_www:
  "fold (\<lambda>f. f) (map (store_www get www) ts) r = r\<lparr>dn_www := map_option (fold (\<lambda>t. map_put t (get www t)) ts) (dn_www r)\<rparr>"
  by (induction ts arbitrary: r) (simp_all add: store_www_def option.map_comp option.map_id0 comp_def option.map_ident)

lemma fold_store_reach:
  "fold (\<lambda>f. f) (map (store_reach reach) ts) r =
     r\<lparr>dn_reach := fold (\<lambda>t. map_put t (fst (reach t))) ts (dn_reach r),
       dn_reachTrust := fold (\<lambda>t. map_put t (snd (reach t))) ts (dn_reachTrust r)\<rparr>"
  by (induction ts arbitrary: r) (simp_all add: store_reach_def)

lemma map_of_pairs: "map_of (map (\<lambda>k. (k, f k)) ks) = (\<lambda>k. if k \<in> set ks then Some (f k) else None)"
  by (induction ks) (auto simp: fun_eq_iff)

lemma wave_in_order: "seen_dns (fold (\<lambda>f. f) (wave_tasks lib cfg get reach) (wave_start lib cfg)) = seen_dns (gather_first lib cfg get reach)"
  by (cases "registrableDomain lib (cfg_Domain cfg)")
    (simp_all add: wave_tasks_def fixed_tasks_def Let_def fold_store_apex fold_store_www fold_store_reach wave_start_def
      gather_first_def fixedLookups_def zero_dnsResults_def seen_dns_def map_of_fold_put map_of_pairs)

section \<open>The invariant of a run\<close>

definition rep_start :: "run_env \<Rightarrow> config \<Rightarrow> Report" where
  "rep_start env cfg = (newReport (env_version env) cfg)\<lparr>rep_Timestamp := RFC3339_Format (env_tf env) (env_start env)\<rparr>"

definition rep_traced :: "run_env \<Rightarrow> config \<Rightarrow> Report" where
  "rep_traced env cfg =
     (if is_reserved env cfg then rep_start env cfg else (rep_start env cfg)\<lparr>rep_Delegation := runTrace env cfg\<rparr>)"

definition rep_audited :: "run_env \<Rightarrow> config \<Rightarrow> bool \<Rightarrow> Report" where
  "rep_audited env cfg a =
     (if a then (fst (run_dns env cfg))\<lparr>rep_Nameservers := run_audit env cfg\<rparr> else fst (run_dns env cfg))"

text \<open>The report when the tasks \<open>D\<close> have ended.\<close>

definition rep_probed :: "run_env \<Rightarrow> config \<Rightarrow> bool \<Rightarrow> nat set \<Rightarrow> Report" where
  "rep_probed env cfg a D =
     fold (\<lambda>i r. if i \<in> D then (probe_tasks env cfg (snd (run_dns env cfg)) (fst (run_web env cfg)) a ! i) r else r)
       [0, 1, 2, 3] (rep_audited env cfg a)"

definition silent_zone :: "run_env \<Rightarrow> config \<Rightarrow> bool" where
  "silent_zone env cfg \<longleftrightarrow>
     delegationSilent (rep_Delegation (fst (run_dns env cfg))) (at (dn_apex (snd (run_dns env cfg))) ''NS'')"

definition written :: "run_env \<Rightarrow> config \<Rightarrow> web_goroutine \<Rightarrow> string list" where
  "written env cfg w = (if w = WebIdle \<or> w = WebStarted then [] else snd (run_web env cfg))"

fun pc_inv :: "run_env \<Rightarrow> config \<Rightarrow> run_pc \<Rightarrow> run_state \<Rightarrow> bool" where
  "pc_inv env cfg (Gathering b n) s \<longleftrightarrow> n \<le> 2 \<and> (n = 2 \<longrightarrow> rs_dns s = run_gather env cfg) \<and>
     rs_rep s = with_reserved (written env cfg (rs_web s)) (if b then rep_traced env cfg else rep_start env cfg)"
| "pc_inv env cfg Classified s \<longleftrightarrow> rs_dns s = snd (run_dns env cfg) \<and>
     rs_rep s = with_reserved (written env cfg (rs_web s)) (fst (run_dns env cfg))"
| "pc_inv env cfg Audited s \<longleftrightarrow> rs_dns s = snd (run_dns env cfg) \<and> silent_zone env cfg \<and>
     rs_rep s = with_reserved (written env cfg (rs_web s)) (rep_audited env cfg True)"
| "pc_inv env cfg Draining s \<longleftrightarrow> silent_zone env cfg \<and> zoneUnreachable (rep_audited env cfg True) \<and>
     rs_rep s = with_reserved (written env cfg (rs_web s)) (rep_audited env cfg True)"
| "pc_inv env cfg (Probing a D) s \<longleftrightarrow> rs_dns s = snd (run_dns env cfg) \<and> a = silent_zone env cfg \<and>
     (a \<longrightarrow> \<not> zoneUnreachable (rep_audited env cfg True)) \<and> D \<subseteq> {0, 1, 2, 3} \<and> (0 \<in> D \<longrightarrow> \<not> web_running (rs_web s)) \<and>
     rs_rep s = with_reserved (written env cfg (rs_web s)) (rep_probed env cfg a D)"
| "pc_inv env cfg Joining s \<longleftrightarrow> run_finish env cfg (rs_rep s) = run env cfg \<and> \<not> web_running (rs_web s)"
| "pc_inv env cfg _ s \<longleftrightarrow> rs_rep s = run env cfg \<and> \<not> web_running (rs_web s) \<and> rs_rdap s \<noteq> None"

fun may_cancel :: "run_pc \<Rightarrow> bool" where
  "may_cancel (Gathering b n) = False"
| "may_cancel Classified = False"
| "may_cancel Audited = False"
| "may_cancel (Probing a D) = (0 \<in> D)"
| "may_cancel _ = True"

fun started :: "run_pc \<Rightarrow> bool" where
  "started (Gathering b n) = (n \<noteq> 0)"
| "started _ = True"

definition goroutines_ok :: "run_env \<Rightarrow> config \<Rightarrow> run_state \<Rightarrow> bool" where
  "goroutines_ok env cfg s \<longleftrightarrow>
     (rs_web s = WebIdle \<longleftrightarrow> is_reserved env cfg \<or> \<not> started (rs_pc s)) \<and>
     (\<forall>w. rs_web s = WebDone w \<longrightarrow> rs_cancelled s \<or> w = fst (run_web env cfg)) \<and>
     (rs_cancelled s \<longrightarrow> may_cancel (rs_pc s)) \<and>
     rs_rdap s \<in> {None, Some (startRDAP (env_lib env) (env_jsonErr env) (env_rdap env) cfg)}"

lemma run_web_reserved: "is_reserved env cfg \<Longrightarrow> run_web env cfg = (\<lparr>web_Apex = None, web_WWW = None\<rparr>, [])"
  by (simp add: is_reserved_def run_web_def Let_def)

lemma run_dns_classify:
  "run_dns env cfg = classifyDNS (env_lib env) (env_dig env) cfg (run_gather env cfg) (rep_traced env cfg)"
  by (simp add: run_dns_def Let_def rep_traced_def rep_start_def runTrace_def run_gather_def is_reserved_def)

lemma run_audit_first: "run_audit env cfg = auditFirst env cfg (snd (run_dns env cfg)) (with_reserved a (fst (run_dns env cfg)))"
  by (simp add: run_audit_def auditFirst_def run_base_def)

lemma web_over:
  assumes "goroutines_ok env cfg s" and "started (rs_pc s)" and "\<not> web_running (rs_web s)"
  shows "written env cfg (rs_web s) = snd (run_web env cfg)"
    and "\<not> rs_cancelled s \<Longrightarrow> web_result (rs_web s) = fst (run_web env cfg)"
proof -
  from assms show "written env cfg (rs_web s) = snd (run_web env cfg)"
    by (cases "rs_web s") (auto simp: goroutines_ok_def written_def run_web_reserved)
  from assms show "web_result (rs_web s) = fst (run_web env cfg)" if "\<not> rs_cancelled s"
    using that by (cases "rs_web s") (auto simp: goroutines_ok_def run_web_reserved)
qed

lemma zoneUnreachable_reserved_addresses [simp]: "zoneUnreachable (with_reserved a r) = zoneUnreachable r"
  by (simp add: zoneUnreachable_fields)

lemma rep_probed_insert:
  assumes "i \<in> {0, 1, 2, 3}" and "i \<notin> D"
  shows "(probe_tasks env cfg (snd (run_dns env cfg)) (fst (run_web env cfg)) a ! i) (rep_probed env cfg a D) =
    rep_probed env cfg a (insert i D)"
proof -
  define T where "T = probe_tasks env cfg (snd (run_dns env cfg)) (fst (run_web env cfg)) a"
  have swap: "(T ! j) ((T ! k) r) = (T ! k) ((T ! j) r)" if "k < j" "j < 4" for j k r
    using probes.obs_commute [of k j env cfg "snd (run_dns env cfg)" "fst (run_web env cfg)" a r] that
    by (simp add: T_def probe_tasks_def)
  show ?thesis using assms unfolding rep_probed_def T_def [symmetric]
    by (auto simp: swap)
qed

lemma assemble_probed:
  "assemble env (snd (run_dns env cfg)) (with_reserved ra (rep_probed env cfg a {0, 1, 2, 3})) =
     run_probes env cfg (snd (run_dns env cfg)) (fst (run_web env cfg)) (run_audit env cfg) (with_reserved ra (rep_audited env cfg a))"
proof -
  have "auditNameservers (env_lib env) (audit_one env cfg) (env_dig env) cfg (snd (run_dns env cfg))
      (late_get (env_lib env) (snd (run_dns env cfg)) (env_get3 env)) (fst (run_dns env cfg)) = run_audit env cfg"
    by (simp add: run_audit_def run_base_def)
  then show ?thesis
    by (cases a) (simp_all add: assemble_def run_probes_def rep_probed_def rep_audited_def probe_tasks_def
        assessCertPolicies_def Let_def split: prod.split)
qed

text \<open>The two ends of a run.\<close>

lemma dead_end:
  assumes "silent_zone env cfg" and "zoneUnreachable (rep_audited env cfg True)"
  shows "run_finish env cfg (with_reserved (snd (run_web env cfg)) (rep_audited env cfg True)) = run env cfg"
proof -
  have same: "with_reserved (snd (run_web env cfg)) (rep_audited env cfg True) =
      (run_base env cfg)\<lparr>rep_Nameservers := run_audit env cfg\<rparr>"
    by (simp add: rep_audited_def run_base_def)
  have "zoneUnreachable ((run_base env cfg)\<lparr>rep_Nameservers := run_audit env cfg\<rparr>)"
    using assms(2) unfolding same [symmetric] by simp
  then have "run env cfg = run_finish env cfg ((run_base env cfg)\<lparr>rep_Nameservers := run_audit env cfg\<rparr>)"
    by (cases env cfg rule: run_cases) simp_all
  with same show ?thesis by simp
qed

lemma live_end:
  assumes "a = silent_zone env cfg" and "a \<Longrightarrow> \<not> zoneUnreachable (rep_audited env cfg True)"
  shows "run_finish env cfg (run_probes env cfg (snd (run_dns env cfg)) (fst (run_web env cfg)) (run_audit env cfg)
      (with_reserved (snd (run_web env cfg)) (rep_audited env cfg a))) = run env cfg"
proof -
  have same: "with_reserved (snd (run_web env cfg)) (rep_audited env cfg a) =
      (if a then (run_base env cfg)\<lparr>rep_Nameservers := run_audit env cfg\<rparr> else run_base env cfg)"
    by (simp add: rep_audited_def run_base_def)
  have silent: "a = delegationSilent (rep_Delegation (run_base env cfg)) (at (dn_apex (snd (run_dns env cfg))) ''NS'')"
    using assms(1) by (simp add: silent_zone_def run_base_def)
  have "\<not> zoneUnreachable ((run_base env cfg)\<lparr>rep_Nameservers := run_audit env cfg\<rparr>)" if a
  proof -
    have "zoneUnreachable ((run_base env cfg)\<lparr>rep_Nameservers := run_audit env cfg\<rparr>) = zoneUnreachable (rep_audited env cfg True)"
      by (simp add: zoneUnreachable_fields rep_audited_def run_base_def)
    with assms(2) that show ?thesis by blast
  qed
  then show ?thesis unfolding run_eq [of env cfg] silent [symmetric] same by (cases a) simp_all
qed

lemma goroutines_step:
  assumes "run_step env cfg s t" and "goroutines_ok env cfg s" and "pc_inv env cfg (rs_pc s) s"
  shows "goroutines_ok env cfg t"
  using assms by (cases rule: run_step.cases) (auto simp: goroutines_ok_def)

lemma pc_inv_frame:
  assumes "pc_inv env cfg pc s" and "rs_pc t = pc" and "rs_dns t = rs_dns s" and "rs_rep t = rs_rep s"
    and "written env cfg (rs_web t) = written env cfg (rs_web s)" and "web_running (rs_web t) \<Longrightarrow> web_running (rs_web s)"
    and "rs_rdap s \<noteq> None \<Longrightarrow> rs_rdap t \<noteq> None"
  shows "pc_inv env cfg pc t"
  using assms by (cases pc) auto

lemma pc_inv_step:
  assumes "run_step env cfg s t" and inv: "pc_inv env cfg (rs_pc s) s" and ok: "goroutines_ok env cfg s"
  shows "pc_inv env cfg (rs_pc t) t"
  using assms(1)
proof (cases rule: run_step.cases)
  case (trace n)
  with inv show ?thesis by (auto simp: rep_traced_def)
next
  case (first_wave b)
  with inv ok show ?thesis by (auto simp: goroutines_ok_def written_def)
next
  case (second_wave b)
  with inv show ?thesis by auto
next
  case (classify rep dns)
  with inv have "classifyDNS (env_lib env) (env_dig env) cfg (run_gather env cfg)
      (with_reserved (written env cfg (rs_web s)) (rep_traced env cfg)) = (rep, dns)" by auto
  then have "rep = with_reserved (written env cfg (rs_web s)) (fst (run_dns env cfg))" "dns = snd (run_dns env cfg)"
    by (simp_all add: classifyDNS_reserved_addresses run_dns_classify)
  with classify show ?thesis by simp
next
  case web_reserved
  then have "web_running (rs_web s)" by simp
  with inv web_reserved show ?thesis by (cases "rs_pc s") (auto simp: written_def)
next
  case (web_ends w)
  then show ?thesis by (auto intro!: pc_inv_frame [OF inv] simp: written_def)
next
  case rdap_ends
  then show ?thesis by (auto intro!: pc_inv_frame [OF inv])
next
  case audit_first
  with inv show ?thesis
    by (simp add: silent_zone_def rep_audited_def run_audit_first [symmetric])
next
  case audit_later
  with inv show ?thesis by (simp add: silent_zone_def rep_audited_def rep_probed_def)
next
  case dead_zone
  with inv show ?thesis by simp
next
  case live_zone
  with inv show ?thesis by (simp add: rep_probed_def)
next
  case drained
  with inv web_over(1) [OF ok] show ?thesis by (simp add: dead_end)
next
  case (web_wait a D)
  then have "\<not> rs_cancelled s" using ok by (auto simp: goroutines_ok_def)
  with web_wait web_over [OF ok] inv show ?thesis
    by (simp add: probe_task_reserved rep_probed_insert)
next
  case (probe a D i)
  then have "probe_tasks env cfg (rs_dns s) (web_result (rs_web s)) a ! i = probe_tasks env cfg (rs_dns s) (fst (run_web env cfg)) a ! i"
    by (intro probe_tasks_web)
  with probe inv show ?thesis by (auto simp: probe_task_reserved rep_probed_insert)
next
  case (probed a)
  with inv web_over(1) [OF ok] show ?thesis by (simp add: assemble_probed live_end del: One_nat_def)
next
  case (join_rdap rdap)
  with inv ok show ?thesis by (auto simp: goroutines_ok_def run_finish_def)
qed (use inv in auto)

lemma run_start_inv: "pc_inv env cfg (rs_pc (run_start env cfg)) (run_start env cfg)" "goroutines_ok env cfg (run_start env cfg)"
  by (simp_all add: run_start_def rep_start_def written_def newReport_def zero_Report_def goroutines_ok_def startRDAP_def)

lemma tasks_left_insert: "i \<in> {0, 1, 2, 3} \<Longrightarrow> i \<notin> D \<Longrightarrow> tasks_left (insert i D) < tasks_left D"
  unfolding tasks_left_def by (rule psubset_card_mono) (simp, blast)

lemma tasks_left_empty [simp]: "tasks_left {} = 4"
  by (simp add: tasks_left_def)

lemma run_step_left: "run_step env cfg s t \<Longrightarrow> run_left t < run_left s"
  by (erule run_stepE) (auto simp: run_left_def tasks_left_insert [simplified])

lemma web_progress:
  assumes "web_running (rs_web s)" shows "\<exists>t. run_step env cfg s t"
  using assms by (cases "rs_web s") (auto intro: run_step.web_reserved run_step.web_ends)

lemma run_progress:
  assumes inv: "pc_inv env cfg (rs_pc s) s" and "rs_pc s \<noteq> Over"
  shows "\<exists>t. run_step env cfg s t"
proof (cases "web_running (rs_web s)")
  case False
  show ?thesis
  proof (cases "rs_pc s")
    case (Gathering b n)
    with inv have "n = 0 \<or> n = 1 \<or> n = 2" by auto
    with Gathering show ?thesis
      by (cases b) (auto intro: run_step.trace run_step.first_wave run_step.second_wave [simplified] run_step.classify [OF _ surjective_pairing])
  next
    case (Probing a D)
    show ?thesis
    proof (cases "D = {0, 1, 2, 3}")
      case True
      with Probing have "rs_pc s = Probing a {0, 1, 2, 3}" by (simp only:)
      then show ?thesis by (blast intro: run_step.probed)
    next
      case ne: False
      from inv Probing have "D \<subseteq> {0, 1, 2, 3}" by (simp del: One_nat_def)
      with ne obtain i where i: "i \<in> {0, 1, 2, 3}" "i \<notin> D" by blast
      show ?thesis
      proof (cases "i = 0")
        case True
        with i have "0 \<notin> D" by simp
        with Probing False show ?thesis by (blast intro: run_step.web_wait)
      next
        case pos: False
        with i have "i \<in> {1, 2, 3}" by blast
        with i Probing show ?thesis by (blast intro: run_step.probe)
      qed
    qed
  next
    case Classified
    then show ?thesis by (blast intro: run_step.audit_first run_step.audit_later)
  next
    case Audited
    then show ?thesis by (blast intro: run_step.dead_zone run_step.live_zone)
  next
    case Draining
    with False show ?thesis by (blast intro: run_step.drained)
  next
    case Joining
    then show ?thesis by (cases "rs_rdap s") (blast intro: run_step.rdap_ends run_step.join_rdap)+
  next
    case Deferred
    then show ?thesis by (blast intro: run_step.deferred)
  next
    case Exiting
    with False show ?thesis by (blast intro: run_step.exit_run)
  qed (use assms(2) in simp)
qed (rule web_progress)

interpretation sched: ranked_steps "run_step env cfg" "\<lambda>s. pc_inv env cfg (rs_pc s) s \<and> goroutines_ok env cfg s"
    run_left "\<lambda>s. rs_pc s = Over" for env cfg
  by unfold_locales (use pc_inv_step goroutines_step run_step_left run_progress in blast)+

lemmas run_reach_inv = sched.reach_inv [OF _ conjI [OF run_start_inv]]
lemmas run_completes = sched.completes [OF conjI [OF run_start_inv]]

section \<open>Properties\<close>

text \<open>
  C13. The order in which the lookups of the first wave come in does not matter: whatever order its tasks
  end in, the maps and fields they leave are those of \<open>gather_first\<close>, which makes them in the order of
  the code.
\<close>
theorem gather_any_order:
  assumes "parallel (wave_tasks lib cfg get reach) (wave_start lib cfg) t"
  shows "seen_dns t = seen_dns (gather_first lib cfg get reach)"
  using wave.any_order [OF assms] by (simp add: wave_in_order)

theorem gather_any_order_witness:
  "\<exists>t. parallel (wave_tasks ex_lib ex_local ex_catch_all (\<lambda>f. (ReachNo, TrustNone))) (wave_start ex_lib ex_local) t \<and>
     seen_dns t = seen_dns (gather_first ex_lib ex_local ex_catch_all (\<lambda>f. (ReachNo, TrustNone)))"
  by (intro exI conjI) (rule parallel_sequential, rule gather_any_order, rule parallel_sequential)

text \<open>
  C4. Every schedule gives the report of \<open>run\<close>: however the trace, the two waves, the web probes, the
  registration lookup and the tasks of the last phase interleave, a run that is over has the report
  that the functions of the model compute, and none of its goroutines is left behind: the web probes
  are not running and the registration lookup has ended.
\<close>
theorem run_any_schedule:
  assumes "rtranclp (run_step env cfg) (run_start env cfg) s" and "rs_pc s = Over"
  shows "rs_rep s = run env cfg \<and> \<not> web_running (rs_web s) \<and> rs_rdap s \<noteq> None"
  using run_reach_inv [OF assms(1)] assms(2) by simp

theorem run_any_schedule_witness:
  "\<exists>s. rtranclp (run_step ex_env ex_local) (run_start ex_env ex_local) s \<and> rs_pc s = Over \<and>
     rs_rep s = run ex_env ex_local"
proof -
  obtain s where s: "rtranclp (run_step ex_env ex_local) (run_start ex_env ex_local) s" "rs_pc s = Over"
    using run_completes by blast
  with run_any_schedule [OF s] show ?thesis by (intro exI [of _ s]) simp
qed

text \<open>
  C9. A run always ends: after at most twenty steps of its goroutines it is over, and until then some
  goroutine can take a step, so no wait on the web probes or on the registration lookup blocks for
  good.
\<close>
theorem run_ends:
  assumes "(run_step env cfg ^^ k) (run_start env cfg) s"
  shows "k \<le> 20 \<and> (if rs_pc s = Over then \<not> web_running (rs_web s) else \<exists>t. run_step env cfg s t)"
proof -
  have reach: "rtranclp (run_step env cfg) (run_start env cfg) s" using assms by (rule relpowp_imp_rtranclp)
  have "k \<le> 20" using sched.steps_bound [OF assms conjI [OF run_start_inv]] by (simp add: run_left_def run_start_def split: if_splits)
  with run_reach_inv [OF reach] run_progress show ?thesis by auto
qed

theorem run_ends_witness:
  "\<exists>t. run_step ex_env ex_local (run_start ex_env ex_local) t"
  using run_ends [of 0 ex_env ex_local "run_start ex_env ex_local"] by (simp add: run_start_def)

end
