(* ===== verification/Json_Print.thy ===== *)
theory Json_Print
  imports Json
begin

text \<open>
  The encoder of Go's \<open>encoding/json\<close>: strings with the escapes of its default HTML-safe mode, compact
  and indented layout, and the fields of a struct by their tags. What it prints, the scanner of the
  theory Json reads back, with bytes that are not UTF-8 replaced.
\<close>

section \<open>Strings\<close>

definition escape_char :: "char \<Rightarrow> string" where
  "escape_char c =
     (if c = CHR 0x22 \<or> c = CHR 0x5C then [CHR 0x5C, c]
      else if c = CHR 0x08 then [CHR 0x5C, CHR ''b'']
      else if c = CHR 0x0C then [CHR 0x5C, CHR ''f'']
      else if c = CHR 0x0A then [CHR 0x5C, CHR ''n'']
      else if c = CHR 0x0D then [CHR 0x5C, CHR ''r'']
      else if c = CHR 0x09 then [CHR 0x5C, CHR ''t'']
      else if byte c < 32 \<or> c = CHR ''<'' \<or> c = CHR ''>'' \<or> c = CHR 0x26
      then [CHR 0x5C, CHR ''u'', CHR ''0'', CHR ''0'', hex_lower (byte c div 16), hex_lower (byte c mod 16)]
      else [c])"

text \<open>U+2028 and U+2029, which JavaScript takes for line ends, are escaped.\<close>

definition escape_rune :: "string \<Rightarrow> string" where
  "escape_rune r =
     (if r = [CHR 0xE2, CHR 0x80, CHR 0xA8] then CHR 0x5C # ''u2028''
      else if r = [CHR 0xE2, CHR 0x80, CHR 0xA9] then CHR 0x5C # ''u2029'' else r)"

function encode_body :: "string \<Rightarrow> string" where
  "encode_body s =
     (case s of
        [] \<Rightarrow> []
      | c # t \<Rightarrow>
          if byte c < 128 then escape_char c @ encode_body t
          else if rune_len s = 0 then (CHR 0x5C # ''ufffd'') @ encode_body t
          else escape_rune (take (rune_len s) s) @ encode_body (drop (rune_len s) s))"
  by pat_completeness auto
termination by (relation "measure length") auto

declare encode_body.simps [simp del]

definition encode_string :: "string \<Rightarrow> string" where
  "encode_string s = [CHR 0x22] @ encode_body s @ [CHR 0x22]"

text \<open>What a reader gets: each byte that begins no rune becomes U+FFFD.\<close>

function valid_text :: "string \<Rightarrow> string" where
  "valid_text s =
     (case s of
        [] \<Rightarrow> []
      | c # t \<Rightarrow>
          if rune_len s = 0 then [CHR 0xEF, CHR 0xBF, CHR 0xBD] @ valid_text t
          else take (rune_len s) s @ valid_text (drop (rune_len s) s))"
  by pat_completeness auto
termination by (relation "measure length") auto

declare valid_text.simps [simp del]

section \<open>Values\<close>

text \<open>The line break and indentation before a value at a level: none in the compact layout.\<close>

definition line :: "bool \<Rightarrow> nat \<Rightarrow> string" where
  "line pretty level = (if pretty then CHR 0x0A # replicate (2 * level) CHR '' '' else [])"

definition colon :: "bool \<Rightarrow> string" where
  "colon pretty = (if pretty then '': '' else '':'')"

fun print_json :: "bool \<Rightarrow> nat \<Rightarrow> json \<Rightarrow> string" where
  "print_json pretty level JNull = ''null''"
| "print_json pretty level (JBool b) = (if b then ''true'' else ''false'')"
| "print_json pretty level (JNum t) = t"
| "print_json pretty level (JStr s) = encode_string s"
| "print_json pretty level (JArr vs) =
     (if vs = [] then ''[]''
      else ''['' @ line pretty (level + 1) @
        Join ('','' @ line pretty (level + 1)) (map (print_json pretty (level + 1)) vs) @ line pretty level @ '']'')"
| "print_json pretty level (JObj ms) =
     (if ms = [] then ''{}''
      else ''{'' @ line pretty (level + 1) @
        Join ('','' @ line pretty (level + 1))
          (map (\<lambda>(k, v). encode_string k @ colon pretty @ print_json pretty (level + 1) v) ms) @ line pretty level @ ''}'')"

text \<open>\<open>Encoder.Encode\<close>: the value and a newline.\<close>

definition Encode :: "bool \<Rightarrow> json \<Rightarrow> string" where
  "Encode pretty j = print_json pretty 0 j @ [CHR 0x0A]"

fun valid_json :: "json \<Rightarrow> json" where
  "valid_json (JStr s) = JStr (valid_text s)"
| "valid_json (JArr vs) = JArr (map valid_json vs)"
| "valid_json (JObj ms) = JObj (map (\<lambda>(k, v). (valid_text k, valid_json v)) ms)"
| "valid_json j = j"

text \<open>Numbers that are integers, and a nesting of at most \<open>d\<close>.\<close>

fun fits :: "nat \<Rightarrow> json \<Rightarrow> bool" where
  "fits d (JNum t) = (\<exists>i. t = Itoa i)"
| "fits d (JArr vs) = (0 < d \<and> list_all (fits (d - 1)) vs)"
| "fits d (JObj ms) = (0 < d \<and> list_all (\<lambda>(k, v). fits (d - 1) v) ms)"
| "fits d j = True"

section \<open>Fields of a struct\<close>

text \<open>The fields of a struct as the encoder sees them: a field with \<open>omitempty\<close> is left out when it is
  false, zero, an empty string, slice or map, or a nil pointer; a nil pointer without it is null.\<close>

definition JInt :: "int \<Rightarrow> json" where "JInt i = JNum (Itoa i)"

definition JStrs :: "string list \<Rightarrow> json" where "JStrs xs = JArr (map JStr xs)"

definition JMap :: "('a \<Rightarrow> json) \<Rightarrow> (string, 'a) go_map \<Rightarrow> json" where
  "JMap f m = JObj (map (\<lambda>(k, v). (k, f v)) (sort_key fst m))"

fun JPtr :: "('a \<Rightarrow> json) \<Rightarrow> 'a option \<Rightarrow> json" where
  "JPtr f None = JNull"
| "JPtr f (Some x) = f x"

definition omit :: "bool \<Rightarrow> string \<Rightarrow> json \<Rightarrow> (string \<times> json) list" where
  "omit z k j = (if z then [] else [(k, j)])"

definition opt_str :: "string \<Rightarrow> string \<Rightarrow> (string \<times> json) list" where "opt_str k s = omit (s = []) k (JStr s)"
definition opt_int :: "string \<Rightarrow> int \<Rightarrow> (string \<times> json) list" where "opt_int k i = omit (i = 0) k (JInt i)"
definition opt_bool :: "string \<Rightarrow> bool \<Rightarrow> (string \<times> json) list" where "opt_bool k b = omit (\<not> b) k (JBool b)"
definition opt_strs :: "string \<Rightarrow> string list \<Rightarrow> (string \<times> json) list" where "opt_strs k xs = omit (xs = []) k (JStrs xs)"
definition opt_ptr :: "string \<Rightarrow> ('a \<Rightarrow> json) \<Rightarrow> 'a option \<Rightarrow> (string \<times> json) list" where
  "opt_ptr k f p = omit (p = None) k (JPtr f p)"

section \<open>Lemmas\<close>

lemma rune_len_le: "rune_len s \<le> length s"
  by (auto simp: rune_len_def Let_def split: list.split)

lemma rune_len_take:
  assumes "0 < rune_len s"
  shows "rune_len (take (rune_len s) s @ x) = rune_len s"
proof (cases s)
  case Nil
  with assms show ?thesis by (simp add: rune_len_def)
next
  case (Cons c t)
  show ?thesis
  proof (cases t)
    case t: Nil
    with assms Cons show ?thesis by (auto simp: rune_len_def Let_def split: if_splits)
  next
    case t: (Cons d u)
    show ?thesis
    proof (cases u)
      case Nil
      with assms Cons t show ?thesis by (auto simp: rune_len_def Let_def split: if_splits)
    next
      case u: (Cons e v)
      show ?thesis
        using assms Cons t u by (cases v) (auto simp: rune_len_def Let_def nth_Cons' split: if_splits)
    qed
  qed
qed

text \<open>The scanner on what the encoder writes of one character, of a bad byte and of a rune.\<close>

lemma scan_escape_char:
  assumes "byte c < 128"
  shows "scan_string (escape_char c @ s) = map_option (apfst (\<lambda>x. c # x)) (scan_string s)"
proof -
  define plain where "plain \<longleftrightarrow> 32 \<le> byte c \<and> c \<notin> {CHR 0x22, CHR 0x5C, CHR ''<'', CHR ''>'', CHR 0x26}"
  consider (named) "c \<in> {CHR 0x22, CHR 0x5C, CHR 0x08, CHR 0x0C, CHR 0x0A, CHR 0x0D, CHR 0x09}" | (plain) plain
    | (hex) "c \<notin> {CHR 0x22, CHR 0x5C, CHR 0x08, CHR 0x0C, CHR 0x0A, CHR 0x0D, CHR 0x09}" "\<not> plain" by blast
  then show ?thesis
  proof cases
    case named
    then show ?thesis by (subst scan_string.simps) (auto simp: escape_char_def simple_escape_def)
  next
    case plain
    with assms have "rune_len (c # s) = 1" by (simp add: rune_len_def Let_def)
    moreover from plain have p: "c \<noteq> CHR 0x22" "c \<noteq> CHR 0x5C" "c \<noteq> CHR ''<''" "c \<noteq> CHR ''>''" "c \<noteq> CHR 0x26" "\<not> byte c < 32"
      by (simp_all add: plain_def)
    moreover from p(6) have "c \<noteq> CHR 0x08" "c \<noteq> CHR 0x0C" "c \<noteq> CHR 0x0A" "c \<noteq> CHR 0x0D" "c \<noteq> CHR 0x09" by fastforce+
    ultimately show ?thesis by (subst scan_string.simps) (simp add: escape_char_def apfst_one)
  next
    case hex
    then have "byte c < 32 \<or> c = CHR ''<'' \<or> c = CHR ''>'' \<or> c = CHR 0x26" by (simp add: plain_def) linarith
    with hex(1) have e: "escape_char c =
        [CHR 0x5C, CHR ''u'', CHR ''0'', CHR ''0'', hex_lower (byte c div 16), hex_lower (byte c mod 16)]"
      by (simp add: escape_char_def)
    have h: "hex4_at ([CHR ''0'', CHR ''0'', hex_lower (byte c div 16), hex_lower (byte c mod 16)] @ s) = Some (byte c)"
      using assms by (simp add: hex4_control)
    have "encode_rune (byte c) = [c]" using assms by (simp add: encode_rune_def)
    with h e assms show ?thesis
      by (subst scan_string.simps) (simp add: unicode_escape_def is_surrogate_def apfst_one)
  qed
qed

lemma scan_bad_byte:
  "scan_string (CHR 0x5C # ''ufffd'' @ s) = map_option (apfst (\<lambda>x. [CHR 0xEF, CHR 0xBF, CHR 0xBD] @ x)) (scan_string s)"
proof -
  have "hex4_at (''fffd'' @ s) = Some 65533" by (simp add: hex4_at_def is_hex_def hex_num_def hex_val_def)
  moreover have "encode_rune 65533 = [CHR 0xEF, CHR 0xBF, CHR 0xBD]" by code_simp
  ultimately show ?thesis
    by (subst scan_string.simps) (simp add: unicode_escape_def is_surrogate_def)
qed

lemma scan_line_separator:
  "scan_string (CHR 0x5C # ''u2028'' @ s) = map_option (apfst (\<lambda>x. [CHR 0xE2, CHR 0x80, CHR 0xA8] @ x)) (scan_string s)"
  "scan_string (CHR 0x5C # ''u2029'' @ s) = map_option (apfst (\<lambda>x. [CHR 0xE2, CHR 0x80, CHR 0xA9] @ x)) (scan_string s)"
proof -
  have "hex4_at (''2028'' @ s) = Some 8232" "hex4_at (''2029'' @ s) = Some 8233"
    by (simp_all add: hex4_at_def is_hex_def hex_num_def hex_val_def)
  moreover have "encode_rune 8232 = [CHR 0xE2, CHR 0x80, CHR 0xA8]" "encode_rune 8233 = [CHR 0xE2, CHR 0x80, CHR 0xA9]"
    by code_simp+
  ultimately show
    "scan_string (CHR 0x5C # ''u2028'' @ s) = map_option (apfst (\<lambda>x. [CHR 0xE2, CHR 0x80, CHR 0xA8] @ x)) (scan_string s)"
    "scan_string (CHR 0x5C # ''u2029'' @ s) = map_option (apfst (\<lambda>x. [CHR 0xE2, CHR 0x80, CHR 0xA9] @ x)) (scan_string s)"
    by (subst scan_string.simps, simp add: unicode_escape_def is_surrogate_def)+
qed

lemma scan_rune:
  assumes "s = c # t" and "128 \<le> byte c" and "0 < rune_len s"
  shows "scan_string (escape_rune (take (rune_len s) s) @ x) =
    map_option (apfst (\<lambda>y. take (rune_len s) s @ y)) (scan_string x)"
proof -
  define r where "r = take (rune_len s) s"
  obtain r' where r: "r = c # r'" using assms(1,3) by (cases "rune_len s") (auto simp: r_def)
  have len: "length r = rune_len s" using rune_len_le [of s] by (simp add: r_def)
  have "rune_len (r @ x) = length r" using rune_len_take [OF assms(3), of x] len by (simp add: r_def)
  then have plain: "scan_string (r @ x) = map_option (apfst (\<lambda>y. r @ y)) (scan_string x)"
    using assms(2) r by (subst scan_string.simps) auto
  have "scan_string (escape_rune r @ x) = map_option (apfst (\<lambda>y. r @ y)) (scan_string x)"
    using plain scan_line_separator [of x] by (cases "scan_string x") (auto simp: escape_rune_def)
  then show ?thesis by (simp add: r_def)
qed

lemma scan_encode_body: "scan_string (encode_body s @ CHR 0x22 # r) = Some (valid_text s, r)"
proof (induction s rule: encode_body.induct)
  case (1 s)
  show ?case
  proof (cases s)
    case Nil
    then show ?thesis by (subst scan_string.simps) (simp add: encode_body.simps valid_text.simps)
  next
    case (Cons c t)
    consider "byte c < 128" | "128 \<le> byte c" "rune_len s = 0" | "128 \<le> byte c" "0 < rune_len s" by linarith
    then show ?thesis
    proof cases
      case 1
      then have "rune_len s = 1" using Cons by (simp add: rune_len_def Let_def)
      with 1 Cons "1.IH"(1) show ?thesis
        by (simp add: encode_body.simps [of "c # t"] valid_text.simps [of "c # t"] scan_escape_char)
    next
      case 2
      with Cons "1.IH"(2) show ?thesis
        using scan_bad_byte [of "encode_body t @ CHR 0x22 # r"]
        by (simp add: encode_body.simps [of "c # t"] valid_text.simps [of "c # t"])
    next
      case 3
      with Cons "1.IH"(3) show ?thesis
        using scan_rune [OF Cons 3, of "encode_body (drop (rune_len s) s) @ CHR 0x22 # r"]
        by (simp add: encode_body.simps [of "c # t"] valid_text.simps [of "c # t"])
    qed
  qed
qed

lemma scan_encode_string: "scan_string (tl (encode_string s) @ r) = Some (valid_text s, r)"
  using scan_encode_body [of s r] by (simp add: encode_string_def)

lemma skip_space_append: "list_all json_space w \<Longrightarrow> skip_space (w @ s) = skip_space s"
  by (induction w) (auto simp: skip_space_def)

lemma scan_value_space: "list_all json_space w \<Longrightarrow> scan_value n d (w @ s) = scan_value n d s"
  by (cases n) (simp_all add: skip_space_append)

lemma scan_elems_space: "list_all json_space w \<Longrightarrow> scan_elems n d (w @ s) = scan_elems n d s"
  by (cases n) (simp_all add: scan_value_space)

lemma scan_members_space: "list_all json_space w \<Longrightarrow> scan_members n d (w @ s) = scan_members n d s"
  by (cases n) (simp_all add: skip_space_append)

lemma line_space [simp]: "list_all json_space (line pretty level)"
  by (auto simp: line_def json_space_def list_all_iff)

lemma number_ends_line [simp]: "number_ends (line pretty level @ CHR '']'' # r)" "number_ends (line pretty level @ CHR ''}'' # r)"
  by (auto simp: line_def number_ends_def is_digit_def)

text \<open>Reading back a value at a level of the layout.\<close>

lemma print_starts: "fits d j \<Longrightarrow> value_starts (print_json pretty level j @ r)"
proof (cases j)
  case (JNum t)
  assume "fits d j"
  with JNum obtain i where "t = Itoa i" by auto
  with JNum show ?thesis
    by (cases rule: Itoa_start [of i]) (auto simp: value_starts_def json_space_def dest: digit_no_punct)
qed (auto simp: value_starts_def encode_string_def json_space_def)

definition print_reads :: "bool \<Rightarrow> nat \<Rightarrow> nat \<Rightarrow> json \<Rightarrow> bool" where
  "print_reads pretty level d j \<longleftrightarrow>
     (\<forall>n r. number_ends r \<longrightarrow> 2 * length (print_json pretty level j @ r) < n \<longrightarrow>
        scan_value n d (print_json pretty level j @ r) = Some (valid_json j, r))"

lemma print_readsD:
  "print_reads pretty level d j \<Longrightarrow> number_ends r \<Longrightarrow> 2 * length (print_json pretty level j @ r) < n \<Longrightarrow>
     scan_value n d (print_json pretty level j @ r) = Some (valid_json j, r)"
  by (simp add: print_reads_def)

lemma print_readsI:
  assumes "\<And>k r. number_ends r \<Longrightarrow> scan_value (Suc k) d (print_json pretty level j @ r) = Some (valid_json j, r)"
  shows "print_reads pretty level d j"
  unfolding print_reads_def
proof (intro allI impI)
  fix n r
  assume "number_ends r" "2 * length (print_json pretty level j @ r) < n"
  with assms show "scan_value n d (print_json pretty level j @ r) = Some (valid_json j, r)" by (cases n) auto
qed

lemma scan_print_elems:
  assumes "list_all (print_reads pretty level d) vs" and "vs \<noteq> []"
    and "2 * length (Join ('','' @ line pretty level) (map (print_json pretty level) vs) @ line pretty l0 @ CHR '']'' # r) + 1 < n"
  shows "scan_elems n d (Join ('','' @ line pretty level) (map (print_json pretty level) vs) @ line pretty l0 @ CHR '']'' # r) =
    Some (map valid_json vs, r)"
  using assms
proof (induction vs arbitrary: n)
  case (Cons v vs)
  from Cons.prems(3) obtain k where n: "n = Suc k" by (cases n) auto
  from Cons.prems(1) have v: "print_reads pretty level d v" by simp
  show ?case
  proof (cases vs)
    case Nil
    have "scan_value k d (print_json pretty level v @ line pretty l0 @ CHR '']'' # r) =
        Some (valid_json v, line pretty l0 @ CHR '']'' # r)"
      using Cons.prems(3) n Nil by (intro print_readsD [OF v]) auto
    with Nil n show ?thesis by (simp add: skip_space_append)
  next
    case (Cons w ws)
    define rest where "rest = Join ('','' @ line pretty level) (map (print_json pretty level) vs) @ line pretty l0 @ CHR '']'' # r"
    have whole: "Join ('','' @ line pretty level) (map (print_json pretty level) (v # vs)) @ line pretty l0 @ CHR '']'' # r =
        print_json pretty level v @ CHR '','' # line pretty level @ rest"
      by (simp add: rest_def Cons)
    note len = Cons.prems(3) [unfolded whole n]
    have "scan_value k d (print_json pretty level v @ CHR '','' # line pretty level @ rest) =
        Some (valid_json v, CHR '','' # line pretty level @ rest)"
      using len by (intro print_readsD [OF v]) auto
    moreover have "scan_elems k d (line pretty level @ rest) = Some (map valid_json vs, r)"
      unfolding scan_elems_space [OF line_space] rest_def
      using Cons.prems(1) len Cons by (intro Cons.IH) (auto simp: rest_def)
    ultimately show ?thesis unfolding whole n by simp
  qed
qed simp

abbreviation print_member :: "bool \<Rightarrow> nat \<Rightarrow> string \<times> json \<Rightarrow> string" where
  "print_member pretty level \<equiv> \<lambda>(k, v). encode_string k @ colon pretty @ print_json pretty level v"

lemma scan_member_value:
  assumes "print_reads pretty level d v" and "number_ends r"
    and "2 * length (print_member pretty level (key, v) @ r) < n"
  shows "\<exists>t. print_member pretty level (key, v) @ r = CHR 0x22 # tl (encode_string key) @ CHR '':'' # t \<and>
    scan_value n d t = Some (valid_json v, r)"
proof -
  define w where "w = (if pretty then '' '' else [])"
  have c: "colon pretty = CHR '':'' # w" by (simp add: colon_def w_def)
  have "scan_value n d (w @ print_json pretty level v @ r) = Some (valid_json v, r)"
    using assms(3) scan_value_space [of w] by (simp add: print_readsD [OF assms(1,2)] w_def json_space_def)
  moreover have "print_member pretty level (key, v) @ r =
      CHR 0x22 # tl (encode_string key) @ CHR '':'' # w @ print_json pretty level v @ r"
    by (simp add: c encode_string_def)
  ultimately show ?thesis by blast
qed

lemma scan_members_first:
  "scan_members (Suc k) d (CHR 0x22 # tl (encode_string key) @ CHR '':'' # t) =
     (case scan_value k d t of
        None \<Rightarrow> None
      | Some (v, w) \<Rightarrow>
          (case skip_space w of
             [] \<Rightarrow> None
           | y # z \<Rightarrow> if y = CHR ''}'' then Some ([(valid_text key, v)], z)
                      else if y = CHR '','' then map_option (apfst (\<lambda>ms. (valid_text key, v) # ms)) (scan_members k d z)
                      else None))"
  by (simp add: scan_encode_string)

lemma scan_print_members:
  assumes "list_all (\<lambda>(k, v). print_reads pretty level d v) ms" and "ms \<noteq> []"
    and "2 * length (Join ('','' @ line pretty level) (map (print_member pretty level) ms) @ line pretty l0 @ CHR ''}'' # r) + 1 < n"
  shows "scan_members n d (Join ('','' @ line pretty level) (map (print_member pretty level) ms) @ line pretty l0 @ CHR ''}'' # r) =
    Some (map (\<lambda>(k, v). (valid_text k, valid_json v)) ms, r)"
  using assms
proof (induction ms arbitrary: n)
  case (Cons kv ms)
  obtain key v where kv: "kv = (key, v)" by fastforce
  from Cons.prems(3) obtain k where n: "n = Suc k" by (cases n) auto
  from Cons.prems(1) have v: "print_reads pretty level d v" by (simp add: kv)
  show ?case
  proof (cases ms)
    case Nil
    have "2 * length (print_member pretty level (key, v) @ line pretty l0 @ CHR ''}'' # r) < k"
      using Cons.prems(3) by (simp add: Nil kv n)
    from scan_member_value [OF v number_ends_line(2) this] obtain t where
      "print_member pretty level (key, v) @ line pretty l0 @ CHR ''}'' # r = CHR 0x22 # tl (encode_string key) @ CHR '':'' # t"
      "scan_value k d t = Some (valid_json v, line pretty l0 @ CHR ''}'' # r)" by blast
    then show ?thesis unfolding Nil kv n list.map Join.simps
      by (simp only: scan_members_first) (simp add: skip_space_append)
  next
    case (Cons w ws)
    define rest where "rest = Join ('','' @ line pretty level) (map (print_member pretty level) ms) @ line pretty l0 @ CHR ''}'' # r"
    have whole: "Join ('','' @ line pretty level) (map (print_member pretty level) (kv # ms)) @ line pretty l0 @ CHR ''}'' # r =
        print_member pretty level (key, v) @ CHR '','' # line pretty level @ rest"
      by (simp add: rest_def Cons kv)
    note len = Cons.prems(3) [unfolded whole n]
    have "2 * length (print_member pretty level (key, v) @ CHR '','' # line pretty level @ rest) < k" using len by simp
    from scan_member_value [OF v number_ends_punct(3) this] obtain t where
      "print_member pretty level (key, v) @ CHR '','' # line pretty level @ rest = CHR 0x22 # tl (encode_string key) @ CHR '':'' # t"
      "scan_value k d t = Some (valid_json v, CHR '','' # line pretty level @ rest)" by blast
    moreover have "scan_members k d (line pretty level @ rest) = Some (map (\<lambda>(k, v). (valid_text k, valid_json v)) ms, r)"
      unfolding scan_members_space [OF line_space] rest_def
      using Cons.prems(1) len Cons by (intro Cons.IH) (auto simp: rest_def)
    ultimately show ?thesis unfolding whole n by (simp only: scan_members_first) (simp add: kv)
  qed
qed simp

lemma print_reads_arr:
  assumes "list_all (print_reads pretty (level + 1) (d - 1)) vs" and "fits d (JArr vs)"
  shows "print_reads pretty level d (JArr vs)"
proof (cases vs)
  case Nil
  with assms(2) show ?thesis by (intro print_readsI) auto
next
  case (Cons w ws)
  show ?thesis
    unfolding print_reads_def
  proof (intro allI impI)
    fix n r
    assume n: "2 * length (print_json pretty level (JArr vs) @ r) < n"
    then obtain k where k: "n = Suc k" by (cases n) auto
    define s where "s = Join ('','' @ line pretty (level + 1)) (map (print_json pretty (level + 1)) vs) @ line pretty level @ CHR '']'' # r"
    have p: "print_json pretty level (JArr vs) @ r = CHR ''['' # line pretty (level + 1) @ s" by (simp add: s_def Cons)
    have "fits (d - 1) w" using assms(2) Cons by simp
    from print_starts [OF this] have "value_starts s" using Cons by (cases ws) (auto simp: s_def)
    then obtain c t where ct: "s = c # t" "\<not> json_space c" "c \<noteq> CHR '']''" by (rule value_startsE)
    have "scan_elems k (d - 1) s = Some (map valid_json vs, r)"
      unfolding s_def using n k p assms(1) Cons by (intro scan_print_elems) (auto simp: s_def)
    with ct assms(2) k show "scan_value n d (print_json pretty level (JArr vs) @ r) = Some (valid_json (JArr vs), r)"
      unfolding p by (simp add: skip_space_append)
  qed
qed

lemma print_reads_obj:
  assumes "list_all (\<lambda>(k, v). print_reads pretty (level + 1) (d - 1) v) ms" and "fits d (JObj ms)"
  shows "print_reads pretty level d (JObj ms)"
proof (cases ms)
  case Nil
  with assms(2) show ?thesis by (intro print_readsI) auto
next
  case (Cons w ws)
  show ?thesis
    unfolding print_reads_def
  proof (intro allI impI)
    fix n r
    assume n: "2 * length (print_json pretty level (JObj ms) @ r) < n"
    then obtain k where k: "n = Suc k" by (cases n) auto
    define s where "s = Join ('','' @ line pretty (level + 1)) (map (print_member pretty (level + 1)) ms) @ line pretty level @ CHR ''}'' # r"
    have p: "print_json pretty level (JObj ms) @ r = CHR ''{'' # line pretty (level + 1) @ s" by (simp add: s_def Cons)
    obtain t where t: "s = CHR 0x22 # t" using Cons by (cases w; cases ws) (auto simp: s_def encode_string_def)
    have "scan_members k (d - 1) s = Some (map (\<lambda>(k, v). (valid_text k, valid_json v)) ms, r)"
      unfolding s_def using n k p assms(1) Cons by (intro scan_print_members) (auto simp: s_def)
    with t assms(2) k show "scan_value n d (print_json pretty level (JObj ms) @ r) = Some (valid_json (JObj ms), r)"
      unfolding p by (simp add: skip_space_append)
  qed
qed

lemma print_reads: "fits d j \<Longrightarrow> print_reads pretty level d j"
proof (induction j arbitrary: d level)
  case (JNum t)
  then obtain i where i: "t = Itoa i" by auto
  obtain c u where c: "Itoa i = c # u" "c = CHR ''-'' \<or> is_digit c" by (rule Itoa_start)
  have "\<not> json_space c \<and> c \<notin> set ''{[tfn'' \<and> c \<noteq> CHR 0x22"
    using c(2) by (auto simp: json_space_def dest: digit_no_punct)
  moreover have "number_ends r \<Longrightarrow> scan_number (c # u @ r) = Some (Itoa i, r)" for r
    using scan_Itoa [of r i] c(1) by simp
  ultimately show ?case
    unfolding i by (intro print_readsI) (auto simp: c(1))
next
  case (JStr s)
  show ?case by (intro print_readsI) (simp add: encode_string_def scan_encode_body)
next
  case (JArr vs)
  then show ?case by (intro print_reads_arr) (auto simp: list_all_iff)
next
  case (JObj ms)
  then show ?case by (intro print_reads_obj) (fastforce simp: list_all_iff)+
qed (intro print_readsI; auto simp: scan_word_def)+

lemma json_parse_Encode:
  assumes "fits maxNestingDepth j"
  shows "json_parse (Encode pretty j) = Some (valid_json j)"
proof -
  have "scan (Encode pretty j) = Some (valid_json j, [CHR 0x0A])"
    unfolding scan_def Encode_def
    by (rule print_readsD [OF print_reads [OF assms]]) (simp_all add: number_ends_def is_digit_def)
  then show ?thesis by (simp add: json_parse_def skip_space_def json_space_def)
qed

end
