(* ===== verification/Output.thy ===== *)
theory Output
  imports Report Json_Print
begin

text \<open>
  The printed report: the struct tags of every section (the types of \<open>src/report.go\<close>, \<open>src/records.go\<close>,
  \<open>src/dnssec.go\<close>, \<open>src/trace.go\<close>, \<open>src/httpprobe.go\<close>, \<open>src/tlsprobe.go\<close>, \<open>src/mail.go\<close>,
  \<open>src/nsaudit.go\<close>, \<open>src/caa.go\<close>, \<open>src/wildcard.go\<close>, \<open>src/rdap.go\<close>, \<open>src/run.go\<close>) and \<open>writeReport\<close> of
  \<open>src/main.go\<close>. A slice that the code sets is empty rather than nil, so it prints as \<open>[]\<close>; the two that
  it leaves nil are \<open>rg_Status\<close> of a lookup that failed, which the model keeps as None, and the problems
  of a handshake that failed.
\<close>

section \<open>The values of the enumerations\<close>

fun Trust_text :: "Trust \<Rightarrow> string" where
  "Trust_text TrustNone = []"
| "Trust_text TrustSecure = ''secure''"
| "Trust_text TrustInsecure = ''insecure''"
| "Trust_text TrustBogus = ''bogus''"

fun LookupStatus_text :: "LookupStatus \<Rightarrow> string" where
  "LookupStatus_text StatusNone = []"
| "LookupStatus_text StatusOK = ''ok''"
| "LookupStatus_text StatusNXRRSet = ''nxrrset''"
| "LookupStatus_text StatusNXDomain = ''nxdomain''"
| "LookupStatus_text StatusFailure = ''failure''"
| "LookupStatus_text StatusTimeout = ''timeout''"

fun DNSSECState_text :: "DNSSECState \<Rightarrow> string" where
  "DNSSECState_text DNSSECNone = []"
| "DNSSECState_text DNSSECSecure = ''secure''"
| "DNSSECState_text DNSSECInsecure = ''insecure''"
| "DNSSECState_text DNSSECIsland = ''island''"
| "DNSSECState_text DNSSECBogus = ''bogus''"
| "DNSSECState_text DNSSECServfail = ''servfail''"
| "DNSSECState_text DNSSECUnknown = ''unknown''"
| "DNSSECState_text DNSSECNonexistent = ''nonexistent''"

fun DelegationStatus_text :: "DelegationStatus \<Rightarrow> string" where
  "DelegationStatus_text DelegationNone = []"
| "DelegationStatus_text DelegationMatch = ''match''"
| "DelegationStatus_text DelegationMismatch = ''mismatch''"
| "DelegationStatus_text DelegationNotDelegated = ''not_delegated''"
| "DelegationStatus_text DelegationNoChildAnswer = ''no_child_answer''"
| "DelegationStatus_text DelegationSameServers = ''same_servers''"
| "DelegationStatus_text DelegationChildNoNS = ''child_no_ns''"
| "DelegationStatus_text DelegationNotAZone = ''not_a_zone''"
| "DelegationStatus_text DelegationReservedName = ''reserved_name''"
| "DelegationStatus_text DelegationError = ''error''"

fun WildcardStatus_text :: "WildcardStatus \<Rightarrow> string" where
  "WildcardStatus_text WildcardPresent = ''present''"
| "WildcardStatus_text WildcardAbsent = ''absent''"
| "WildcardStatus_text WildcardUnknown = ''unknown''"

fun ProbeOutcome_text :: "ProbeOutcome \<Rightarrow> string" where
  "ProbeOutcome_text probeAnswered = ''answered''"
| "ProbeOutcome_text probeDenied = ''denied''"
| "ProbeOutcome_text probeUnresolved = ''unresolved''"

fun TLSAOutcome_text :: "TLSAOutcome \<Rightarrow> string" where
  "TLSAOutcome_text TLSANone = ''none''"
| "TLSAOutcome_text TLSAUnknown = ''unknown''"
| "TLSAOutcome_text TLSAMatch = ''match''"
| "TLSAOutcome_text TLSAMismatch = ''mismatch''"
| "TLSAOutcome_text TLSAUnverified = ''unverified''"

fun PreloadStatus_text :: "PreloadStatus \<Rightarrow> string" where
  "PreloadStatus_text PreloadNone = []"
| "PreloadStatus_text PreloadPreloaded = ''preloaded''"
| "PreloadStatus_text PreloadAbsent = ''absent''"
| "PreloadStatus_text PreloadUnknown = ''unknown''"

fun Severity_text :: "Severity \<Rightarrow> string" where
  "Severity_text SeverityFail = ''fail''"
| "Severity_text SeverityWarn = ''warn''"
| "Severity_text SeverityInfo = ''info''"

fun RedirectEnd_text :: "RedirectEnd \<Rightarrow> string" where
  "RedirectEnd_text RedirectOngoing = []"
| "RedirectEnd_text RedirectFinal = ''final''"
| "RedirectEnd_text RedirectExternal = ''external''"
| "RedirectEnd_text RedirectLoop = ''loop''"
| "RedirectEnd_text RedirectHopLimit = ''hop_limit''"
| "RedirectEnd_text RedirectFailed = ''error''"

fun Reach_text :: "Reach \<Rightarrow> string" where
  "Reach_text ReachYes = ''yes''"
| "Reach_text ReachNo = ''no''"
| "Reach_text (ReachSkipped reason) = ''skipped: '' @ reason"

section \<open>The sections\<close>

text \<open>The fields of a struct, each a list of at most one member.\<close>

definition struct :: "(string \<times> json) list list \<Rightarrow> json" where
  "struct parts = JObj (concat parts)"

definition j_Lookup :: "Lookup \<Rightarrow> json" where
  "j_Lookup l = struct [
     [(''status'', JStr (LookupStatus_text (lk_Status l)))],
     opt_str ''trust'' (Trust_text (lk_Trust l)),
     opt_strs ''records'' (lk_Records l),
     opt_strs ''cname'' (lk_CNAME l),
     opt_str ''error'' (lk_Error l),
     opt_int ''retries'' (int (lk_Retries l))]"

definition j_DNSSection :: "DNSSection \<Rightarrow> json" where
  "j_DNSSection d = struct [
     [(''apex'', JMap j_Lookup (dns_Apex d))],
     omit (dns_WWW d = []) ''www'' (JMap j_Lookup (dns_WWW d)),
     omit (dns_ResolverReachable d = []) ''resolver_reachable'' (JMap (\<lambda>r. JStr (Reach_text r)) (dns_ResolverReachable d)),
     [(''resolver_validates'', JPtr JBool (dns_ResolverValidates d))]]"

definition j_DNSSECReport :: "DNSSECReport \<Rightarrow> json" where
  "j_DNSSECReport d = struct [
     [(''state'', JStr (DNSSECState_text (ds_State d))), (''ds'', JBool (ds_DS d)), (''dnskey'', JBool (ds_DNSKEY d))],
     opt_str ''ede'' (ds_EDE d),
     opt_str ''detail'' (ds_Detail d)]"

definition j_Delegation :: "Delegation \<Rightarrow> json" where
  "j_Delegation d = struct [
     [(''status'', JStr (DelegationStatus_text (de_Status d)))],
     opt_strs ''parent_ns'' (de_ParentNS d),
     opt_str ''parent_server'' (de_ParentServer d),
     opt_strs ''child_ns'' (de_ChildNS d),
     opt_str ''child_server'' (de_ChildServer d),
     opt_strs ''parent_only'' (de_ParentOnly d),
     opt_strs ''child_only'' (de_ChildOnly d),
     opt_str ''error'' (de_Error d)]"

definition j_HSTS :: "HSTS \<Rightarrow> json" where
  "j_HSTS h = struct [
     [(''max_age'', JInt (hs_MaxAge h)), (''include_subdomains'', JBool (hs_IncludeSubdomains h)),
      (''preload'', JBool (hs_Preload h))]]"

definition j_HTTPResult :: "HTTPResult \<Rightarrow> json" where
  "j_HTTPResult r = struct [
     opt_int ''status'' (ht_Status r),
     opt_str ''location'' (ht_Location r),
     opt_str ''server'' (ht_Server r),
     opt_ptr ''hsts'' j_HSTS (ht_HSTS r),
     opt_str ''alt_svc'' (ht_AltSvc r),
     opt_str ''error'' (ht_Error r)]"

definition j_RedirectHop :: "RedirectHop \<Rightarrow> json" where
  "j_RedirectHop h = struct [
     [(''url'', JStr (hop_URL h)), (''status'', JInt (hop_Status h))],
     opt_str ''location'' (hop_Location h)]"

definition j_RedirectChain :: "RedirectChain \<Rightarrow> json" where
  "j_RedirectChain c = struct [
     [(''hops'', JArr (map j_RedirectHop (rc_Hops c))), (''ended'', JStr (RedirectEnd_text (rc_Ended c)))],
     opt_str ''final_url'' (rc_FinalURL c),
     opt_str ''external'' (rc_External c),
     [(''loop'', JBool (rc_Loop c))],
     opt_str ''error'' (rc_Error c)]"

definition j_HTTPVersions :: "HTTPVersions \<Rightarrow> json" where
  "j_HTTPVersions v = struct [
     [(''http1_1'', JPtr JBool (hv_HTTP1_1 v)), (''http2'', JPtr JBool (hv_HTTP2 v)),
      (''http3'', JPtr JBool (hv_HTTP3 v)), (''h3_advertised'', JPtr JBool (hv_H3Advertised v))]]"

definition j_CertInfo :: "CertInfo \<Rightarrow> json" where
  "j_CertInfo c = struct [
     [(''subject'', JStr (ci_Subject c)), (''issuer'', JStr (ci_Issuer c)), (''not_before'', JStr (ci_NotBefore c)),
      (''not_after'', JStr (ci_NotAfter c)), (''days_remaining'', JInt (ci_DaysRemaining c))],
     opt_strs ''sans'' (ci_SANs c),
     [(''covers_apex'', JBool (ci_CoversApex c)), (''covers_www'', JBool (ci_CoversWWW c)),
      (''wildcard'', JBool (ci_Wildcard c)), (''key'', JStr (ci_Key c)), (''fingerprint_sha256'', JStr (ci_Fingerprint c))]]"

definition j_TLSResult :: "TLSResult \<Rightarrow> json" where
  "j_TLSResult t = struct [
     [(''chain'', JStr (chain_text (tl_Chain t))),
      (''chain_problems'', if tl_Chain t = ChainHandshakeFailed then JNull else JStrs (map chain_text (tl_Problems t)))],
     opt_str ''version'' (tl_Version t),
     opt_str ''cipher'' (tl_Cipher t),
     [(''tls10'', JPtr JBool (tl_TLS10 t)), (''tls11'', JPtr JBool (tl_TLS11 t))],
     opt_ptr ''cert'' j_CertInfo (tl_Cert t),
     opt_int ''chain_length'' (int (tl_ChainLength t)),
     opt_str ''error'' (tl_Error t)]"

definition j_QUICResult :: "QUICResult \<Rightarrow> json" where
  "j_QUICResult q = struct [
     [(''supported'', JBool (qu_Supported q))],
     opt_str ''alpn'' (qu_ALPN q),
     opt_str ''tls_version'' (qu_TLSVersion q),
     opt_str ''server_addr'' (qu_ServerAddr q),
     [(''handshake_ms'', JInt (qu_HandshakeMs q))],
     opt_str ''reason'' (qu_Reason q),
     opt_str ''tls_alert'' (qu_TLSAlert q),
     opt_int ''tls_alert_code'' (qu_TLSAlertCode q),
     opt_str ''error'' (qu_Error q)]"

definition j_AddrWeb :: "AddrWeb \<Rightarrow> json" where
  "j_AddrWeb a = struct [
     [(''ip'', JStr (aw_IP a)), (''80'', JStr (PortState_text (aw_HTTP a))), (''443'', JStr (PortState_text (aw_HTTPS a)))],
     opt_ptr ''http'' j_HTTPResult (aw_HTTPRes a),
     opt_ptr ''https'' j_HTTPResult (aw_HTTPSRes a),
     opt_ptr ''tls'' j_TLSResult (aw_TLS a),
     opt_ptr ''tlsa'' (\<lambda>r. JStr (TLSAOutcome_text r)) (aw_TLSA a),
     opt_ptr ''quic'' j_QUICResult (aw_QUIC a),
     opt_ptr ''http_versions'' j_HTTPVersions (aw_HTTPVersions a)]"

definition j_HostWeb :: "HostWeb \<Rightarrow> json" where
  "j_HostWeb h = struct [
     opt_bool ''same_as_apex'' (hw_SameAsApex h),
     opt_bool ''via_wildcard'' (hw_ViaWildcard h),
     omit (hw_IPv4 h = []) ''ipv4'' (JArr (map j_AddrWeb (hw_IPv4 h))),
     omit (hw_IPv6 h = []) ''ipv6'' (JArr (map j_AddrWeb (hw_IPv6 h))),
     omit (hw_Redirects h = []) ''redirects'' (JMap j_RedirectChain (hw_Redirects h)),
     opt_ptr ''cert_consistent'' JBool (hw_CertConsistent h)]"

definition j_WebSection :: "WebSection \<Rightarrow> json" where
  "j_WebSection w = struct [opt_ptr ''apex'' j_HostWeb (web_Apex w), opt_ptr ''www'' j_HostWeb (web_WWW w)]"

definition j_CertNames :: "string list \<Rightarrow> json" where
  "j_CertNames sans = struct [[(''sans'', JStrs sans)]]"

section \<open>Mail and nameservers\<close>

definition j_DMARC :: "DMARC \<Rightarrow> json" where
  "j_DMARC d = struct [
     [(''present'', JBool (dm_Present d)), (''unresolved'', JBool (dm_Unresolved d))],
     opt_str ''policy'' (dm_Policy d),
     opt_str ''subdomain_policy'' (dm_SubdomainPolicy d),
     [(''pct'', JInt (dm_Pct d)), (''rua'', JBool (dm_RUA d)), (''records'', JInt (int (dm_Records d))),
      (''problems'', JStrs (dm_Problems d))]]"

definition j_SPFResult :: "SPFResult \<Rightarrow> json" where
  "j_SPFResult r = struct [
     [(''records'', JInt (int (spf_Records r))), (''lookups'', JInt (int (spf_Lookups r))),
      (''void_lookups'', JInt (int (spf_VoidLookups r)))],
     opt_int ''txt_answer_octets'' (int (spf_AnswerOctets r)),
     opt_str ''all'' (spf_All r),
     [(''includes'', JStrs (spf_Includes r)), (''problems'', JStrs (spf_Problems r))]]"

definition j_MXCheck :: "MXCheck \<Rightarrow> json" where
  "j_MXCheck m = struct [
     [(''host'', JStr (mxc_Host m)), (''preference'', JInt (mxc_Pref m)), (''addresses'', JInt (int (mxc_Addresses m))),
      (''cname'', JBool (mxc_CNAME m)), (''ip_literal'', JBool (mxc_IPLiteral m)), (''unresolved'', JBool (mxc_Unresolved m)),
      (''problems'', JStrs (mxc_Problems m))]]"

definition j_DKIMKey :: "DKIMKey \<Rightarrow> json" where
  "j_DKIMKey k = struct [
     [(''selector'', JStr (dk_Selector k)), (''type'', JStr (dk_Type k))],
     opt_int ''bits'' (int (dk_Bits k)),
     opt_str ''error'' (dk_Error k)]"

definition j_DKIMResult :: "DKIMResult \<Rightarrow> json" where
  "j_DKIMResult r = struct [
     [(''wildcard'', JBool (dkim_Wildcard r)), (''selectors_probed'', JStrs (dkim_SelectorsProbed r)),
      (''selectors_found'', JStrs (dkim_SelectorsFound r)), (''revoked'', JStrs (dkim_Revoked r)),
      (''keys'', JArr (map j_DKIMKey (dkim_Keys r))), (''dangling'', JStrs (dkim_Dangling r))]]"

definition j_MTASTS :: "MTASTS \<Rightarrow> json" where
  "j_MTASTS m = struct [
     [(''record'', JBool (sts_Record m))],
     opt_str ''id'' (sts_ID m),
     opt_str ''mode'' (sts_Mode m),
     opt_int ''max_age'' (sts_MaxAge m),
     [(''mx'', JStrs (sts_MXPattern m)), (''policy_ok'', JBool (sts_PolicyOK m)), (''mx_covered'', JBool (sts_MXCovered m))],
     opt_str ''error'' (sts_Error m)]"

definition j_MailReport :: "MailReport \<Rightarrow> json" where
  "j_MailReport m = struct [
     [(''dmarc'', j_DMARC (mail_DMARC m)), (''spf'', j_SPFResult (mail_SPF m)), (''mx'', JArr (map j_MXCheck (mail_MX m))),
      (''dkim'', j_DKIMResult (mail_DKIM m))],
     opt_ptr ''mta_sts'' j_MTASTS (mail_MTASTS m),
     [(''tls_rpt'', JBool (mail_TLSRPT m))]]"

definition j_NSServer :: "NSServer \<Rightarrow> json" where
  "j_NSServer s = struct [
     [(''name'', JStr (ns_Name s)), (''ip'', JStr (ns_IP s)), (''aa'', JBool (ns_AA s))],
     opt_str ''rcode'' (ns_Rcode s),
     opt_int ''serial'' (ns_Serial s),
     [(''tcp'', JBool (ns_TCP s)), (''edns'', JBool (ns_EDNS s))],
     opt_bool ''no_soa'' (ns_NoSOA s),
     opt_int ''retries'' (int (ns_Retries s)),
     opt_str ''reserved'' (ns_Reserved s),
     opt_str ''error'' (ns_Error s)]"

definition j_GlueReport :: "GlueReport \<Rightarrow> json" where
  "j_GlueReport g = struct [
     [(''required'', JStrs (gl_Required g)), (''missing'', JStrs (gl_Missing g)), (''mismatch'', JStrs (gl_Mismatch g))]]"

definition j_NSReport :: "NSReport \<Rightarrow> json" where
  "j_NSReport r = struct [
     [(''count'', JInt (int (nr_Count r))), (''servers'', JArr (map j_NSServer (nr_Servers r))),
      (''serials_consistent'', JPtr JBool (nr_SerialsConsistent r)),
      (''ipv4_prefixes_24'', JPtr (\<lambda>n. JInt (int n)) (nr_IPv4Prefixes24 r)),
      (''ipv6_prefixes_48'', JPtr (\<lambda>n. JInt (int n)) (nr_IPv6Prefixes48 r))],
     opt_ptr ''glue'' j_GlueReport (nr_Glue r),
     [(''ns_domains'', JStrs (nr_NSDomains r)), (''ns_cname'', JStrs (nr_NSCNAME r)),
      (''unresolvable'', JStrs (nr_Unresolvable r)), (''unresolved'', JStrs (nr_Unresolved r))]]"

section \<open>CAA, TLSA, wildcards, registration\<close>

definition j_CAAVerdict :: "CAAVerdict \<Rightarrow> json" where
  "j_CAAVerdict v = struct [
     [(''published'', JStrs (cv_Published v)), (''effective'', JStrs (cv_Effective v))],
     opt_str ''issuer'' (cv_Issuer v),
     opt_ptr ''permitted'' JBool (cv_Permitted v),
     opt_str ''note'' (cv_Note v)]"

definition j_CAAReport :: "CAAReport \<Rightarrow> json" where
  "j_CAAReport r = struct [[(''hosts'', JMap j_CAAVerdict (caa_Hosts r))]]"

definition j_TLSAReport :: "TLSAReport \<Rightarrow> json" where
  "j_TLSAReport r = struct [
     [(''apex'', JStrs (ta_Apex r))],
     opt_ptr ''www'' JStrs (ta_WWW r),
     [(''signed'', JBool (ta_Signed r)), (''result'', JStr (TLSAOutcome_text (ta_Result r)))]]"

definition j_WildcardProbe :: "WildcardProbe \<Rightarrow> json" where
  "j_WildcardProbe p = struct [
     [(''label'', JStr (wp_Label p)), (''status'', JStr (ProbeOutcome_text (wp_Status p))), (''addresses'', JStrs (wp_Addresses p))],
     opt_str ''cname'' (wp_CNAME p)]"

definition j_WildcardReport :: "WildcardReport \<Rightarrow> json" where
  "j_WildcardReport w = struct [
     [(''status'', JStr (WildcardStatus_text (wr_Status w))), (''determined_by'', JStr (wr_DeterminedBy w)),
      (''probes'', JArr (map j_WildcardProbe (wr_Probes w))), (''addresses'', JStrs (wr_Addresses w)),
      (''consistent'', JPtr JBool (wr_Consistent w)), (''www_via_wildcard'', JBool (wr_WWWViaWildcard w))]]"

definition j_RDAPRegistry :: "RDAPRegistry \<Rightarrow> json" where
  "j_RDAPRegistry r = struct [
     opt_str ''url'' (rg_URL r),
     [(''status'', JPtr JStrs (rg_Status r))],
     opt_str ''error'' (rg_Error r)]"

definition j_RDAPRegistrar :: "RDAPRegistrar \<Rightarrow> json" where
  "j_RDAPRegistrar r = struct [opt_str ''name'' (rgr_Name r), opt_str ''iana_id'' (rgr_IANAID r)]"

definition j_RDAPReport :: "RDAPReport \<Rightarrow> json" where
  "j_RDAPReport r = struct [
     [(''domain'', JStr (rd_Domain r))],
     opt_str ''server'' (rd_Server r),
     [(''registered'', JPtr JBool (rd_Registered r)), (''registry'', j_RDAPRegistry (rd_Registry r))],
     opt_ptr ''registrar'' j_RDAPRegistrar (rd_Registrar r)]"

section \<open>The report\<close>

definition j_Finding :: "Finding \<Rightarrow> json" where
  "j_Finding f = struct [
     [(''code'', JStr (fi_Code f)), (''severity'', JStr (Severity_text (fi_Severity f))), (''host'', JStr (fi_Host f)),
      (''message'', JStr (fi_Message f))]]"

definition report_fields :: "Report \<Rightarrow> (string \<times> json) list list" where
  "report_fields r = [
     [(''version'', JStr (rep_Version r)), (''timestamp'', JStr (rep_Timestamp r)), (''domain'', JStr (rep_Domain r))],
     opt_str ''unicode_domain'' (rep_UnicodeDomain r),
     opt_bool ''not_a_zone'' (rep_NotAZone r),
     opt_str ''reserved_name'' (rep_ReservedName r),
     opt_bool ''public_suffix'' (rep_PublicSuffix r),
     opt_str ''enclosing_zone'' (rep_EnclosingZone r),
     [(''resolver'', JStr (rep_Resolver r)), (''families'', JStrs (rep_Families r)), (''timeout_sec'', JInt (rep_TimeoutSec r)),
      (''tcp_timeout_sec'', JInt (rep_TCPTimeoutSec r)), (''dns_concurrency'', JInt (rep_DNSConcurrency r)),
      (''quic_timeout_sec'', JInt (rep_QuicTimeoutSec r)), (''max_time_sec'', JInt (rep_MaxTimeSec r)),
      (''redirect_log'', JBool (rep_RedirectLog r)),
      (''dns'', j_DNSSection (rep_DNS r)), (''dnssec'', j_DNSSECReport (rep_DNSSEC r)),
      (''delegation'', j_Delegation (rep_Delegation r)), (''web'', j_WebSection (rep_Web r))],
     omit (rep_Certificates r = []) ''certificates'' (JMap j_CertNames (rep_Certificates r)),
     opt_ptr ''mail'' j_MailReport (rep_Mail r),
     opt_ptr ''nameservers'' j_NSReport (rep_Nameservers r),
     opt_ptr ''caa'' j_CAAReport (rep_CAA r),
     opt_ptr ''tlsa'' j_TLSAReport (rep_TLSA r),
     opt_ptr ''wildcard'' j_WildcardReport (rep_Wildcard r),
     opt_ptr ''rdap'' j_RDAPReport (rep_RDAP r),
     opt_strs ''reserved_addresses'' (rep_ReservedAddresses r),
     opt_str ''hsts_preload'' (PreloadStatus_text (rep_HSTSPreload r)),
     opt_str ''hsts_preload_covered_by'' (rep_HSTSPreloadCoveredBy r),
     opt_str ''hsts_preload_policy'' (rep_HSTSPreloadPolicy r),
     opt_str ''hsts_preload_error'' (rep_HSTSPreloadError r),
     opt_ptr ''hsts_preload_include_subdomains'' JBool (rep_HSTSPreloadIncludeSubdomains r),
     [(''errors'', JStrs (rep_Errors r)), (''warnings'', JStrs (rep_Warnings r)),
      (''findings'', JArr (map j_Finding (rep_Findings r))), (''ok'', JBool (rep_OK r))],
     opt_bool ''deadline_reached'' (rep_DeadlineReached r),
     [(''elapsed_ms'', JInt (rep_ElapsedMs r))]]"

definition j_Report :: "Report \<Rightarrow> json" where
  "j_Report r = struct (report_fields r)"

definition writeReport :: "Report \<Rightarrow> bool \<Rightarrow> string" where
  "writeReport rep pretty = Encode pretty (j_Report rep)"


section \<open>Lemmas\<close>

named_theorems fits_rules \<open>the nesting of the printed sections\<close>

lemma fits_leaves [fits_rules]: "fits d (JInt i)" "fits (Suc d) (JStrs xs)"
  by (auto simp: JInt_def JStrs_def list_all_iff)

lemma fits_struct [fits_rules]: "fits (Suc d) (struct parts) \<longleftrightarrow> list_all (list_all (\<lambda>(k, v). fits d v)) parts"
  by (auto simp: struct_def list_all_iff)

lemma fits_omit [fits_rules]: "list_all P (omit z k j) \<longleftrightarrow> z \<or> P (k, j)"
  by (simp add: omit_def)

lemma fits_ptr [fits_rules]: "(\<And>x. fits d (f x)) \<Longrightarrow> fits d (JPtr f p)"
  by (cases p) auto

lemma fits_map [fits_rules]: "(\<And>x. fits d (f x)) \<Longrightarrow> fits (Suc d) (JMap f m)"
  by (auto simp: JMap_def list_all_iff)

lemma fits_arr [fits_rules]: "(\<And>x. fits d (f x)) \<Longrightarrow> list_all (fits d) (map f xs)"
  by (simp add: list_all_iff)

lemma fits_opt [fits_rules]:
  "list_all (\<lambda>(k, v). fits d v) (opt_str k x)" "list_all (\<lambda>(k, v). fits d v) (opt_int k i)"
  "list_all (\<lambda>(k, v). fits d v) (opt_bool k b)" "list_all (\<lambda>(k, v). fits (Suc d) v) (opt_strs k xs)"
  "(\<And>x. fits d (f x)) \<Longrightarrow> list_all (\<lambda>(k, v). fits d v) (opt_ptr k f p)"
  by (simp_all add: opt_str_def opt_int_def opt_bool_def opt_strs_def opt_ptr_def fits_rules)

lemma fits_Lookup [fits_rules]: "fits (Suc (Suc d)) (j_Lookup x)"
  by (simp add: j_Lookup_def fits_rules)

lemma fits_DNSSection [fits_rules]: "fits (Suc (Suc (Suc (Suc d)))) (j_DNSSection x)"
  by (simp add: j_DNSSection_def fits_rules)

lemma fits_DNSSECReport [fits_rules]: "fits (Suc d) (j_DNSSECReport x)"
  by (simp add: j_DNSSECReport_def fits_rules)

lemma fits_Delegation [fits_rules]: "fits (Suc (Suc d)) (j_Delegation x)"
  by (simp add: j_Delegation_def fits_rules)

lemma fits_HSTS [fits_rules]: "fits (Suc d) (j_HSTS x)"
  by (simp add: j_HSTS_def fits_rules)

lemma fits_HTTPResult [fits_rules]: "fits (Suc (Suc d)) (j_HTTPResult x)"
  by (simp add: j_HTTPResult_def fits_rules)

lemma fits_RedirectHop [fits_rules]: "fits (Suc d) (j_RedirectHop x)"
  by (simp add: j_RedirectHop_def fits_rules)

lemma fits_RedirectChain [fits_rules]: "fits (Suc (Suc (Suc d))) (j_RedirectChain x)"
  by (simp add: j_RedirectChain_def fits_rules)

lemma fits_HTTPVersions [fits_rules]: "fits (Suc d) (j_HTTPVersions x)"
  by (simp add: j_HTTPVersions_def fits_rules)

lemma fits_CertInfo [fits_rules]: "fits (Suc (Suc d)) (j_CertInfo x)"
  by (simp add: j_CertInfo_def fits_rules)

lemma fits_TLSResult [fits_rules]: "fits (Suc (Suc (Suc d))) (j_TLSResult x)"
  by (simp add: j_TLSResult_def fits_rules)

lemma fits_QUICResult [fits_rules]: "fits (Suc d) (j_QUICResult x)"
  by (simp add: j_QUICResult_def fits_rules)

lemma fits_AddrWeb [fits_rules]: "fits (Suc (Suc (Suc (Suc d)))) (j_AddrWeb x)"
  by (simp add: j_AddrWeb_def fits_rules)

lemma fits_HostWeb [fits_rules]: "fits (Suc (Suc (Suc (Suc (Suc (Suc d)))))) (j_HostWeb x)"
  by (simp add: j_HostWeb_def fits_rules)

lemma fits_WebSection [fits_rules]: "fits (Suc (Suc (Suc (Suc (Suc (Suc (Suc d))))))) (j_WebSection x)"
  by (simp add: j_WebSection_def fits_rules)

lemma fits_CertNames [fits_rules]: "fits (Suc (Suc d)) (j_CertNames x)"
  by (simp add: j_CertNames_def fits_rules)

lemma fits_DMARC [fits_rules]: "fits (Suc (Suc d)) (j_DMARC x)"
  by (simp add: j_DMARC_def fits_rules)

lemma fits_SPFResult [fits_rules]: "fits (Suc (Suc d)) (j_SPFResult x)"
  by (simp add: j_SPFResult_def fits_rules)

lemma fits_MXCheck [fits_rules]: "fits (Suc (Suc d)) (j_MXCheck x)"
  by (simp add: j_MXCheck_def fits_rules)

lemma fits_DKIMKey [fits_rules]: "fits (Suc d) (j_DKIMKey x)"
  by (simp add: j_DKIMKey_def fits_rules)

lemma fits_DKIMResult [fits_rules]: "fits (Suc (Suc (Suc d))) (j_DKIMResult x)"
  by (simp add: j_DKIMResult_def fits_rules)

lemma fits_MTASTS [fits_rules]: "fits (Suc (Suc d)) (j_MTASTS x)"
  by (simp add: j_MTASTS_def fits_rules)

lemma fits_MailReport [fits_rules]: "fits (Suc (Suc (Suc (Suc d)))) (j_MailReport x)"
  by (simp add: j_MailReport_def fits_rules)

lemma fits_NSServer [fits_rules]: "fits (Suc d) (j_NSServer x)"
  by (simp add: j_NSServer_def fits_rules)

lemma fits_GlueReport [fits_rules]: "fits (Suc (Suc d)) (j_GlueReport x)"
  by (simp add: j_GlueReport_def fits_rules)

lemma fits_NSReport [fits_rules]: "fits (Suc (Suc (Suc d))) (j_NSReport x)"
  by (simp add: j_NSReport_def fits_rules)

lemma fits_CAAVerdict [fits_rules]: "fits (Suc (Suc d)) (j_CAAVerdict x)"
  by (simp add: j_CAAVerdict_def fits_rules)

lemma fits_CAAReport [fits_rules]: "fits (Suc (Suc (Suc (Suc d)))) (j_CAAReport x)"
  by (simp add: j_CAAReport_def fits_rules)

lemma fits_TLSAReport [fits_rules]: "fits (Suc (Suc d)) (j_TLSAReport x)"
  by (simp add: j_TLSAReport_def fits_rules)

lemma fits_WildcardProbe [fits_rules]: "fits (Suc (Suc d)) (j_WildcardProbe x)"
  by (simp add: j_WildcardProbe_def fits_rules)

lemma fits_WildcardReport [fits_rules]: "fits (Suc (Suc (Suc (Suc d)))) (j_WildcardReport x)"
  by (simp add: j_WildcardReport_def fits_rules)

lemma fits_RDAPRegistry [fits_rules]: "fits (Suc (Suc d)) (j_RDAPRegistry x)"
  by (simp add: j_RDAPRegistry_def fits_rules)

lemma fits_RDAPRegistrar [fits_rules]: "fits (Suc d) (j_RDAPRegistrar x)"
  by (simp add: j_RDAPRegistrar_def fits_rules)

lemma fits_RDAPReport [fits_rules]: "fits (Suc (Suc (Suc d))) (j_RDAPReport x)"
  by (simp add: j_RDAPReport_def fits_rules)

lemma fits_Finding [fits_rules]: "fits (Suc d) (j_Finding x)"
  by (simp add: j_Finding_def fits_rules)

lemma fits_Report: "fits (Suc (Suc (Suc (Suc (Suc (Suc (Suc (Suc d)))))))) (j_Report r)"
  by (simp add: j_Report_def report_fields_def fits_rules)

text \<open>The keys of the document are ASCII, so printing leaves them as they are.\<close>

lemma valid_text_ascii: "list_all (\<lambda>c. byte c < 128) s \<Longrightarrow> valid_text s = s"
proof (induction s)
  case Nil
  show ?case by (subst valid_text.simps) simp
next
  case (Cons c s)
  then have "rune_len (c # s) = 1" by (simp add: rune_len_def Let_def)
  with Cons show ?case by (subst valid_text.simps) simp
qed

definition ascii_keys :: "(string \<times> json) list \<Rightarrow> bool" where
  "ascii_keys ms \<longleftrightarrow> list_all (\<lambda>m. list_all (\<lambda>c. byte c < 128) (fst m)) ms"

lemma map_of_valid:
  "ascii_keys ms \<Longrightarrow>
     map_of (map (\<lambda>(k, v). (valid_text k, valid_json v)) ms) key = map_option valid_json (map_of ms key)"
  by (induction ms) (auto simp: ascii_keys_def valid_text_ascii)

lemma ascii_keys_append [simp]: "ascii_keys (xs @ ys) \<longleftrightarrow> ascii_keys xs \<and> ascii_keys ys"
  by (simp add: ascii_keys_def)

lemma ascii_keys_opt [simp]:
  "list_all (\<lambda>c. byte c < 128) k \<Longrightarrow> ascii_keys (omit z k j)"
  "list_all (\<lambda>c. byte c < 128) k \<Longrightarrow> ascii_keys (opt_str k x)"
  "list_all (\<lambda>c. byte c < 128) k \<Longrightarrow> ascii_keys (opt_bool k b)"
  "list_all (\<lambda>c. byte c < 128) k \<Longrightarrow> ascii_keys (opt_strs k xs)"
  "list_all (\<lambda>c. byte c < 128) k \<Longrightarrow> ascii_keys (opt_ptr k f p)"
  by (simp_all add: ascii_keys_def opt_str_def opt_bool_def opt_strs_def opt_ptr_def omit_def)

lemma report_keys_ascii: "ascii_keys (concat (report_fields r))"
  unfolding report_fields_def concat.simps ascii_keys_append
  by (intro conjI; (simp; fail)?; simp add: ascii_keys_def)

lemma map_of_omit: "map_of (omit z k j @ ms) key = (if \<not> z \<and> k = key then Some j else map_of ms key)"
  by (simp add: omit_def)

lemma report_members:
  "map_of (concat (report_fields r)) ''ok'' = Some (JBool (rep_OK r))"
  "map_of (concat (report_fields r)) ''findings'' = Some (JArr (map j_Finding (rep_Findings r)))"
  "map_of (concat (report_fields r)) ''domain'' = Some (JStr (rep_Domain r))"
  by (simp_all add: report_fields_def opt_str_def opt_bool_def opt_strs_def opt_ptr_def map_of_omit del: map_of_append)

lemma writeReport_tree: "json_parse (writeReport rep pretty) = Some (valid_json (j_Report rep))"
proof -
  have "fits (8 + 9992) (j_Report rep)" using fits_Report [of 9992 rep] by (simp add: numeral_eq_Suc)
  then have "fits maxNestingDepth (j_Report rep)" by (simp add: maxNestingDepth_def)
  then show ?thesis unfolding writeReport_def by (rule json_parse_Encode)
qed

section \<open>Properties\<close>

text \<open>
  C10. The printed report is a JSON document, in both layouts, and says what the report says: read back, it
  is the tree of the report's tagged fields, with each byte of its texts that is not UTF-8 (a server
  may send any) replaced by the replacement character. Among its members are the domain, the verdict
  and the findings in their order.
\<close>
theorem writeReport_reads:
  "\<exists>ms. json_parse (writeReport rep pretty) = Some (JObj ms) \<and> JObj ms = valid_json (j_Report rep) \<and>
    map_of ms ''domain'' = Some (JStr (valid_text (rep_Domain rep))) \<and> map_of ms ''ok'' = Some (JBool (rep_OK rep)) \<and>
    map_of ms ''findings'' = Some (JArr (map (\<lambda>f. valid_json (j_Finding f)) (rep_Findings rep)))"
proof -
  define ms where "ms = map (\<lambda>(k, v). (valid_text k, valid_json v)) (concat (report_fields rep))"
  have "valid_json (j_Report rep) = JObj ms" by (simp add: j_Report_def struct_def ms_def)
  then show ?thesis
    by (intro exI [of _ ms]) (simp add: writeReport_tree ms_def map_of_valid [OF report_keys_ascii] report_members)
qed

end
