(* ===== verification/Preload_Share.thy ===== *)
theory Preload_Share
  imports Preload_Fetch Paths Steps
begin

text \<open>
  The preload cache shared by several processes (\<open>src/preloadlist.go\<close>): the lock and its polling, the
  cache file written through a temporary one, and the runs of \<open>loadPreloadList\<close> in many processes as
  an interleaving of their system calls. Processes are numbered; each has its own temporary file.
\<close>

section \<open>The files and the lock\<close>

text \<open>Where the files lie: the cache under the directory the operating system gives the user, unless it
  gives none, and the lock in the system's directory when that is usable.\<close>

definition defaultPreloadCachePath :: "string + string \<Rightarrow> string" where
  "defaultPreloadCachePath userCacheDir =
     (case userCacheDir of Inl err \<Rightarrow> [] | Inr dir \<Rightarrow> path_Join [dir, ''domaintest'', ''hsts-preload.tsv''])"

definition systemLockDir :: string where "systemLockDir = ''/run/lock''"

definition lockPath :: "bool \<Rightarrow> (string \<Rightarrow> bool) \<Rightarrow> string \<Rightarrow> string" where
  "lockPath isDir opens cachePath =
     (let p = path_Join [systemLockDir, ''domaintest-hsts.lock'']
      in if isDir \<and> opens p then p else cachePath @ ''.lock'')"

text \<open>One try at the lock: taken, held by another (\<open>EWOULDBLOCK\<close>), or an error. After a busy try the
  context may end (its error) before \<open>lockPoll\<close> has passed.\<close>

datatype flock = FlockOK | FlockBusy | FlockError string

record lock_env =
  le_MkdirAll :: "string option"
  le_OpenFile :: "string option"
  le_Flock :: "nat \<Rightarrow> flock"
  le_Done :: "nat \<Rightarrow> string option"

text \<open>The loop of \<open>acquireLock\<close> ends only with the lock, an error or the context, so it is partial. It
  returns the error or the number of the successful try, and whether the lock file is left open.\<close>

partial_function (option) acquire_loop ::
    "(nat \<Rightarrow> flock) \<Rightarrow> (nat \<Rightarrow> string option) \<Rightarrow> nat \<Rightarrow> ((string + nat) \<times> bool) option" where
  "acquire_loop Flock Done i =
     (case Flock i of
        FlockOK \<Rightarrow> Some (Inr i, True)
      | FlockError err \<Rightarrow> Some (Inl err, False)
      | FlockBusy \<Rightarrow> (case Done i of Some err \<Rightarrow> Some (Inl err, False) | None \<Rightarrow> acquire_loop Flock Done (i + 1)))"

definition acquireLock :: "lock_env \<Rightarrow> ((string + nat) \<times> bool) option" where
  "acquireLock e =
     (case le_MkdirAll e of
        Some err \<Rightarrow> Some (Inl err, False)
      | None \<Rightarrow>
          (case le_OpenFile e of
             Some err \<Rightarrow> Some (Inl err, False)
           | None \<Rightarrow> acquire_loop (le_Flock e) (le_Done e) 0))"

section \<open>Writing the cache file\<close>

datatype fs_call = MkdirAll | CreateTemp | WriteTemp | SyncTemp | CloseTemp | ChmodTemp | RenameTemp | RemoveTemp

text \<open>The files by name, the error each call of a write meets, the name of the temporary file, and the
  number of bytes a failing write leaves in it.\<close>

record file_system =
  fs_files :: "string \<Rightarrow> string option"
  fs_fails :: "fs_call \<Rightarrow> os_error option"
  fs_temp :: string
  fs_short :: nat

definition put_file :: "string \<Rightarrow> string option \<Rightarrow> file_system \<Rightarrow> file_system" where
  "put_file name body fs = fs\<lparr>fs_files := (fs_files fs)(name := body)\<rparr>"

definition readPreloadCache :: "time_fmt \<Rightarrow> string \<Rightarrow> file_system \<Rightarrow> string + preloadList" where
  "readPreloadCache tf path fs =
     (if path = [] \<or> path = noCachePath then Inl ''caching disabled''
      else case fs_files fs path of
             None \<Rightarrow> Inl (''open '' @ path @ '': no such file or directory'')
           | Some body \<Rightarrow> unmarshalCache tf body)"

text \<open>\<open>writePreloadCache\<close>, with every file system it passes through: the last is the one it leaves,
  after the deferred removal of the temporary file, whose own error nobody looks at. After the rename
  there is no temporary file to remove.\<close>

definition write_calls :: "fs_call list" where
  "write_calls = [SyncTemp, CloseTemp, ChmodTemp, RenameTemp]"

definition writePreloadCache ::
    "time_fmt \<Rightarrow> string \<Rightarrow> preloadList \<Rightarrow> int \<Rightarrow> file_system \<Rightarrow> os_error option \<times> file_system list" where
  "writePreloadCache tf path l now fs =
     (if path = [] \<or> path = noCachePath then (None, [fs])
      else case fs_fails fs MkdirAll of
        Some err \<Rightarrow> (Some err, [fs])
      | None \<Rightarrow>
          (case fs_fails fs CreateTemp of
             Some err \<Rightarrow> (Some err, [fs])
           | None \<Rightarrow>
               let tmp = fs_temp fs; body = marshalCache tf l now;
                   created = put_file tmp (Some []) fs;
                   written = put_file tmp (Some body) fs;
                   partly = put_file tmp (Some (take (fs_short fs) body)) fs;
                   renamed = put_file path (Some body) (put_file tmp None fs);
                   removed = (if fs_fails fs RemoveTemp = None then put_file tmp None else id)
               in case fs_fails fs WriteTemp of
                    Some err \<Rightarrow> (Some err, [fs, created, partly, removed partly])
                  | None \<Rightarrow>
                      (case List.map_filter (fs_fails fs) write_calls of
                         err # _ \<Rightarrow> (Some err, [fs, created, written, removed written])
                       | [] \<Rightarrow> (None, [fs, created, written, renamed]))))"

section \<open>Many processes\<close>

text \<open>
  Where a process is in \<open>loadPreloadList\<close>: before the first read of the cache, polling for the lock,
  holding it before the second read, about to fetch with the stale list it may fall back on, about to
  write the temporary file, about to rename it, about to release the lock, or finished.
\<close>

datatype pc =
    Load
  | Poll
  | Held
  | Fetch "preloadList option"
  | WriteFile preloadList
  | RenameFile preloadList
  | Release "string + preloadList"
  | Finished "string + preloadList"

record share =
  sh_file :: "string option"
  sh_temp :: "nat \<Rightarrow> string option"
  sh_lock :: "string \<Rightarrow> nat option"
  sh_now :: int
  sh_pc :: "nat \<Rightarrow> pc"
  sh_fetches :: nat
  sh_failures :: nat

definition share_init :: "string option \<Rightarrow> int \<Rightarrow> share" where
  "share_init file now = \<lparr>sh_file = file, sh_temp = (\<lambda>i. None), sh_lock = (\<lambda>p. None), sh_now = now, sh_pc = (\<lambda>i. Load),
     sh_fetches = 0, sh_failures = 0\<rparr>"

definition file_list :: "time_fmt \<Rightarrow> string option \<Rightarrow> preloadList option" where
  "file_list tf file =
     (case file of
        None \<Rightarrow> None
      | Some body \<Rightarrow> (case unmarshalCache tf body of Inl _ \<Rightarrow> None | Inr l \<Rightarrow> Some l))"

definition usable_list :: "time_fmt \<Rightarrow> string option \<Rightarrow> int \<Rightarrow> preloadList option" where
  "usable_list tf file now =
     (case file_list tf file of Some l \<Rightarrow> if fresh l now then Some l else None | None \<Rightarrow> None)"

definition goto :: "nat \<Rightarrow> pc \<Rightarrow> share \<Rightarrow> share" where
  "goto i p s = s\<lparr>sh_pc := (sh_pc s)(i := p)\<rparr>"

definition not_written :: "os_error \<Rightarrow> preloadList \<Rightarrow> preloadList" where
  "not_written err l = l\<lparr>pl_note := ''the preload cache could not be written: '' @ fsCause err\<rparr>"

text \<open>One step of one process, or of the clock. \<open>server n\<close> is what the \<open>n\<close>th fetch returns, and \<open>lockOf i\<close> the
  lock file that \<open>lockPath\<close> gives the process \<open>i\<close>, which need not be the same for all. After a failing write
  or rename the temporary file is removed, or stays with what it holds when that fails too; the run
  still answers.\<close>

inductive share_step :: "time_fmt \<Rightarrow> (nat \<Rightarrow> string + preloadList) \<Rightarrow> (nat \<Rightarrow> string) \<Rightarrow> share \<Rightarrow> share \<Rightarrow> bool"
  for tf :: time_fmt and server :: "nat \<Rightarrow> string + preloadList" and lockOf :: "nat \<Rightarrow> string" where
  tick: "sh_now s \<le> t \<Longrightarrow> share_step tf server lockOf s (s\<lparr>sh_now := t\<rparr>)"
| hit: "\<lbrakk>sh_pc s i = Load; usable_list tf (sh_file s) (sh_now s) = Some l\<rbrakk> \<Longrightarrow>
     share_step tf server lockOf s (goto i (Finished (Inr l)) s)"
| miss: "\<lbrakk>sh_pc s i = Load; usable_list tf (sh_file s) (sh_now s) = None\<rbrakk> \<Longrightarrow>
     share_step tf server lockOf s (goto i Poll s)"
| lock: "\<lbrakk>sh_pc s i = Poll; sh_lock s (lockOf i) = None\<rbrakk> \<Longrightarrow>
     share_step tf server lockOf s ((goto i Held s)\<lparr>sh_lock := (sh_lock s)(lockOf i := Some i)\<rparr>)"
| give_up: "sh_pc s i = Poll \<Longrightarrow>
     share_step tf server lockOf s (goto i (Finished (Inl (''waiting for the preload cache lock: '' @ err))) s)"
| hit_held: "\<lbrakk>sh_pc s i = Held; usable_list tf (sh_file s) (sh_now s) = Some l\<rbrakk> \<Longrightarrow>
     share_step tf server lockOf s (goto i (Release (Inr l)) s)"
| miss_held: "\<lbrakk>sh_pc s i = Held; usable_list tf (sh_file s) (sh_now s) = None\<rbrakk> \<Longrightarrow>
     share_step tf server lockOf s (goto i (Fetch (file_list tf (sh_file s))) s)"
| fetch: "\<lbrakk>sh_pc s i = Fetch stale; server (sh_fetches s) = Inr l\<rbrakk> \<Longrightarrow>
     share_step tf server lockOf s ((goto i (WriteFile l) s)\<lparr>sh_fetches := sh_fetches s + 1\<rparr>)"
| fetch_stale: "\<lbrakk>sh_pc s i = Fetch (Some l); server (sh_fetches s) = Inl err\<rbrakk> \<Longrightarrow>
     share_step tf server lockOf s ((goto i (Release (Inr (l\<lparr>pl_note := stale_note tf l err\<rparr>))) s)
       \<lparr>sh_fetches := sh_fetches s + 1, sh_failures := sh_failures s + 1\<rparr>)"
| fetch_fails: "\<lbrakk>sh_pc s i = Fetch None; server (sh_fetches s) = Inl err\<rbrakk> \<Longrightarrow>
     share_step tf server lockOf s ((goto i (Release (Inl err)) s)
       \<lparr>sh_fetches := sh_fetches s + 1, sh_failures := sh_failures s + 1\<rparr>)"
| write_temp: "sh_pc s i = WriteFile l \<Longrightarrow>
     share_step tf server lockOf s ((goto i (RenameFile l) s)\<lparr>sh_temp := (sh_temp s)(i := Some (marshalCache tf l (sh_now s)))\<rparr>)"
| write_fails: "sh_pc s i = WriteFile l \<Longrightarrow>
     share_step tf server lockOf s ((goto i (Release (Inr (not_written err l))) s)
       \<lparr>sh_temp := (sh_temp s)(i := left), sh_failures := sh_failures s + 1\<rparr>)"
| rename: "sh_pc s i = RenameFile l \<Longrightarrow>
     share_step tf server lockOf s ((goto i (Release (Inr l)) s)\<lparr>sh_file := sh_temp s i, sh_temp := (sh_temp s)(i := None)\<rparr>)"
| rename_fails: "\<lbrakk>sh_pc s i = RenameFile l; left = None \<or> left = sh_temp s i\<rbrakk> \<Longrightarrow>
     share_step tf server lockOf s ((goto i (Release (Inr (not_written err l))) s)
       \<lparr>sh_temp := (sh_temp s)(i := left), sh_failures := sh_failures s + 1\<rparr>)"
| release: "sh_pc s i = Release r \<Longrightarrow>
     share_step tf server lockOf s ((goto i (Finished r) s)\<lparr>sh_lock := (sh_lock s)(lockOf i := None)\<rparr>)"

inductive_cases share_stepE: "share_step tf server lockOf s t"

fun critical :: "pc \<Rightarrow> bool" where
  "critical Load = False"
| "critical Poll = False"
| "critical (Finished r) = False"
| "critical p = True"

text \<open>How far a process is from its end.\<close>

fun pc_rank :: "pc \<Rightarrow> nat" where
  "pc_rank Load = 7"
| "pc_rank Poll = 6"
| "pc_rank Held = 5"
| "pc_rank (Fetch st) = 4"
| "pc_rank (WriteFile l) = 3"
| "pc_rank (RenameFile l) = 2"
| "pc_rank (Release r) = 1"
| "pc_rank (Finished r) = 0"


section \<open>Lemmas\<close>

lemma goto_simps [simp]:
  "sh_pc (goto i p s) = (sh_pc s)(i := p)" "sh_file (goto i p s) = sh_file s" "sh_temp (goto i p s) = sh_temp s"
  "sh_lock (goto i p s) = sh_lock s" "sh_now (goto i p s) = sh_now s" "sh_fetches (goto i p s) = sh_fetches s"
  "sh_failures (goto i p s) = sh_failures s"
  by (simp_all add: goto_def)

lemma usable_list_None: "usable_list tf file now = None \<longleftrightarrow> (case file_list tf file of Some l \<Rightarrow> \<not> fresh l now | None \<Rightarrow> True)"
  by (simp add: usable_list_def split: option.split)

lemma usable_list_Some: "usable_list tf file now = Some l \<longleftrightarrow> file_list tf file = Some l \<and> fresh l now"
  by (auto simp: usable_list_def split: option.splits if_splits)

lemma cachedList_file: "cachedList tf w = file_list tf (pw_cache w)"
  by (simp add: cachedList_def file_list_def)

text \<open>The lock: its holder is the only process inside.\<close>

definition lock_ok :: "(nat \<Rightarrow> string) \<Rightarrow> share \<Rightarrow> bool" where
  "lock_ok lockOf s \<longleftrightarrow> (\<forall>p i. sh_lock s p = Some i \<longleftrightarrow> critical (sh_pc s i) \<and> lockOf i = p)"

lemma lock_ok_init: "lock_ok lockOf (share_init file now)"
  by (simp add: lock_ok_def share_init_def)

text \<open>A step moves the clock or one process, forward; the process keeps its side of the lock, takes
  it or gives it up.\<close>

lemma share_step_moves:
  assumes "share_step tf server lockOf s t"
  obtains (clock) "sh_pc t = sh_pc s" "sh_lock t = sh_lock s"
  | (inside) i q where "sh_pc t = (sh_pc s)(i := q)" "pc_rank q < pc_rank (sh_pc s i)" "sh_lock t = sh_lock s"
      "critical q = critical (sh_pc s i)"
  | (takes) i q where "sh_pc t = (sh_pc s)(i := q)" "pc_rank q < pc_rank (sh_pc s i)" "sh_lock s (lockOf i) = None"
      "sh_lock t = (sh_lock s)(lockOf i := Some i)" "critical q"
  | (gives) i q where "sh_pc t = (sh_pc s)(i := q)" "pc_rank q < pc_rank (sh_pc s i)" "critical (sh_pc s i)"
      "sh_lock t = (sh_lock s)(lockOf i := None)" "\<not> critical q"
  using assms
proof (cases rule: share_step.cases)
  case (tick u)
  then show ?thesis by (intro clock) auto
next
  case (lock i)
  then show ?thesis by (intro takes [of i Held]) auto
next
  case (release i r)
  then show ?thesis by (intro gives [of i "Finished r"]) auto
next
  case (hit i l)
  then show ?thesis by (intro inside [of i "Finished (Inr l)"]) auto
next
  case (miss i)
  then show ?thesis by (intro inside [of i Poll]) auto
next
  case (give_up i err)
  then show ?thesis by (intro inside [of i "sh_pc t i"]) auto
qed (rule inside, simp, simp_all)+

lemma lock_ok_step:
  assumes "share_step tf server lockOf s t" and "lock_ok lockOf s"
  shows "lock_ok lockOf t"
proof -
  have h: "sh_lock s p = Some i \<longleftrightarrow> critical (sh_pc s i) \<and> lockOf i = p" for p i using assms(2) by (simp add: lock_ok_def)
  from assms(1) show ?thesis
  proof (cases rule: share_step_moves)
    case (takes i q)
    have "\<not> critical (sh_pc s j)" if "lockOf j = lockOf i" for j using h [of "lockOf i" j] takes(3) that by simp
    with takes h show ?thesis by (auto simp: lock_ok_def)
  next
    case (gives i q)
    have "j = i" if "critical (sh_pc s j)" "lockOf j = lockOf i" for j
      using h [of "lockOf i" j] h [of "lockOf i" i] gives(3) that by simp
    with gives h show ?thesis by (auto simp: lock_ok_def)
  qed (use h in \<open>auto simp: lock_ok_def\<close>)
qed

text \<open>What the processes that store a list hold, and what the cache file may hold.\<close>

definition stored_at :: "time_fmt \<Rightarrow> (nat \<Rightarrow> string + preloadList) \<Rightarrow> int \<Rightarrow> int \<Rightarrow> string option \<Rightarrow> bool" where
  "stored_at tf server lo hi body \<longleftrightarrow>
     (\<exists>n l t. server n = Inr l \<and> lo \<le> t \<and> t \<le> hi \<and> body = Some (marshalCache tf l t))"

lemma stored_at_later: "stored_at tf server lo hi body \<Longrightarrow> hi \<le> hi' \<Longrightarrow> stored_at tf server lo hi' body"
  by (fastforce simp: stored_at_def)

definition files_ok :: "time_fmt \<Rightarrow> (nat \<Rightarrow> string + preloadList) \<Rightarrow> string option \<Rightarrow> int \<Rightarrow> share \<Rightarrow> bool" where
  "files_ok tf server file0 t0 s \<longleftrightarrow>
     t0 \<le> sh_now s \<and>
     (\<forall>i l. sh_pc s i = WriteFile l \<longrightarrow> (\<exists>n. server n = Inr l)) \<and>
     (\<forall>i l. sh_pc s i = RenameFile l \<longrightarrow> stored_at tf server t0 (sh_now s) (sh_temp s i)) \<and>
     (sh_file s = file0 \<or> stored_at tf server t0 (sh_now s) (sh_file s))"

lemma files_ok_init: "files_ok tf server file0 t0 (share_init file0 t0)"
  by (simp add: files_ok_def share_init_def)

lemma files_ok_step:
  assumes "share_step tf server lockOf s t" and "files_ok tf server file0 t0 s"
  shows "files_ok tf server file0 t0 t"
  using assms
proof (cases rule: share_step.cases)
  case (tick u)
  with assms(2) show ?thesis by (auto simp: files_ok_def intro: stored_at_later)
next
  case (write_temp i l)
  with assms(2) have "\<exists>n. server n = Inr l" by (auto simp: files_ok_def)
  then have "stored_at tf server t0 (sh_now s) (Some (marshalCache tf l (sh_now s)))"
    using assms(2) by (auto simp: stored_at_def files_ok_def)
  with write_temp assms(2) show ?thesis by (auto simp: files_ok_def)
qed (auto simp: files_ok_def)

text \<open>A list stored within the age of the cache is read back, and fresh.\<close>

lemma stored_usable:
  assumes "stored_at tf server lo hi file" and "now < lo + preloadCacheMaxAge"
    and "\<And>n l. server n = Inr l \<Longrightarrow> storable (pl_entries l)"
    and "\<And>t. lo \<le> t \<Longrightarrow> t \<le> hi \<Longrightarrow> time_ok tf t"
  shows "usable_list tf file now \<noteq> None"
proof -
  from assms(1) obtain n l t where *: "server n = Inr l" "lo \<le> t" "t \<le> hi" "file = Some (marshalCache tf l t)"
    by (auto simp: stored_at_def)
  then have "unmarshalCache tf (marshalCache tf l t) =
      Inr \<lparr>pl_entries = sorted_entries (pl_entries l), pl_fetched = Some t, pl_note = []\<rparr>"
    using assms(3,4) by (intro unmarshal_marshal) auto
  with * assms(2) show ?thesis by (simp add: usable_list_None file_list_def fresh_def)
qed

fun storing :: "pc \<Rightarrow> bool" where
  "storing (WriteFile l) = True"
| "storing (RenameFile l) = True"
| "storing p = False"

fun fetching :: "pc \<Rightarrow> bool" where
  "fetching (Fetch st) = True"
| "fetching p = storing p"

lemma storing_fetching: "storing p \<Longrightarrow> fetching p"
  by (cases p) auto

lemma fetching_critical: "fetching p \<Longrightarrow> critical p"
  by (cases p) auto

lemma sole_inside:
  assumes "lock_ok lockOf s" and "\<And>i. lockOf i = path" and "critical (sh_pc s i)" and "fetching (sh_pc s j)"
  shows "j = i"
proof -
  have "sh_lock s path = Some i" "sh_lock s path = Some j"
    using assms fetching_critical [OF assms(4)] by (auto simp: lock_ok_def)
  then show ?thesis by simp
qed

text \<open>Every fetch is a failure, a list in the cache file, or a list on its way there.\<close>

definition fetches_ok :: "time_fmt \<Rightarrow> (nat \<Rightarrow> string + preloadList) \<Rightarrow> int \<Rightarrow> int \<Rightarrow> share \<Rightarrow> bool" where
  "fetches_ok tf server lo hi s \<longleftrightarrow>
     (stored_at tf server lo hi (sh_file s) \<longrightarrow> (\<forall>i. \<not> fetching (sh_pc s i))) \<and>
     sh_fetches s \<le> sh_failures s +
       (if stored_at tf server lo hi (sh_file s) \<or> (\<exists>i. storing (sh_pc s i)) then 1 else 0)"

lemma fetches_ok_init: "fetches_ok tf server lo hi (share_init file now)"
  by (simp add: fetches_ok_def share_init_def)

lemma fetches_ok_quiet:
  assumes "fetches_ok tf server lo hi s" and "sh_file t = sh_file s" and "sh_fetches t = sh_fetches s"
    and "sh_failures t = sh_failures s" and "sh_pc t = (sh_pc s)(i := q)" and "\<not> fetching q" and "\<not> fetching (sh_pc s i)"
  shows "fetches_ok tf server lo hi t"
proof -
  have "(\<exists>j. storing (sh_pc t j)) = (\<exists>j. storing (sh_pc s j))"
    using assms(5-7) storing_fetching by (metis fun_upd_apply)
  with assms show ?thesis by (auto simp: fetches_ok_def)
qed

lemma fetches_ok_done:
  assumes "fetches_ok tf server lo hi s" and "lock_ok lockOf s" and "fetching (sh_pc s i)" and "sh_file t = sh_file s"
    and "sh_pc t = (sh_pc s)(i := q)" and "\<not> fetching q" and "sh_failures t = sh_failures s + 1"
    and "sh_fetches t = sh_fetches s + (if storing (sh_pc s i) then 0 else 1)" and "\<And>i. lockOf i = path"
  shows "fetches_ok tf server lo hi t"
proof -
  have others: "\<not> fetching (sh_pc s j)" if "j \<noteq> i" for j
    using sole_inside [OF assms(2,9) fetching_critical [OF assms(3)]] that by blast
  then have s: "(\<exists>j. storing (sh_pc s j)) = storing (sh_pc s i)" using storing_fetching by metis
  have t: "\<not> fetching (sh_pc t j)" for j using others assms(5,6) by simp
  have "\<not> stored_at tf server lo hi (sh_file s)" using assms(1,3) by (auto simp: fetches_ok_def)
  with assms(1,4,7,8) s t show ?thesis by (auto simp: fetches_ok_def split: if_splits)
qed

lemma fetches_ok_step:
  assumes step: "share_step tf server lockOf s t" and ok: "fetches_ok tf server t0 hi s"
    and l: "lock_ok lockOf s" and one: "\<And>i. lockOf i = path" and f: "files_ok tf server file0 t0 s"
    and hi: "sh_now t \<le> hi" "hi < t0 + preloadCacheMaxAge"
    and st: "\<And>n l. server n = Inr l \<Longrightarrow> storable (pl_entries l)"
    and tm: "\<And>t. t0 \<le> t \<Longrightarrow> t \<le> hi \<Longrightarrow> time_ok tf t"
  shows "fetches_ok tf server t0 hi t"
  using step
proof (cases rule: share_step.cases)
  case (tick u)
  with ok show ?thesis by (simp add: fetches_ok_def)
next
  case (miss_held i)
  with hi have "\<not> stored_at tf server t0 hi (sh_file s)"
    using stored_usable [of tf server t0 hi "sh_file s" "sh_now s", OF _ _ st tm] by auto
  moreover have "(\<exists>j. storing (sh_pc t j)) = (\<exists>j. storing (sh_pc s j))"
    using miss_held by (metis fun_upd_apply goto_simps(1) storing.simps(5,6))
  ultimately show ?thesis using ok miss_held by (simp add: fetches_ok_def)
next
  case (fetch i stale l)
  then have "fetching (sh_pc s i)" "critical (sh_pc s i)" by simp_all
  with ok have "\<not> stored_at tf server t0 hi (sh_file s)" by (auto simp: fetches_ok_def)
  moreover have "\<not> storing (sh_pc s j)" for j
    using sole_inside [OF l one \<open>critical (sh_pc s i)\<close>, of j] storing_fetching fetch(2) by (cases "j = i") auto
  ultimately show ?thesis using ok fetch by (auto simp: fetches_ok_def)
next
  case (write_temp i l)
  then have "fetching (sh_pc s i)" "storing (sh_pc s i)" by simp_all
  then have "\<not> stored_at tf server t0 hi (sh_file s)" "\<exists>j. storing (sh_pc s j)"
    using ok by (auto simp: fetches_ok_def)
  with ok write_temp show ?thesis by (auto simp: fetches_ok_def)
next
  case (rename i l)
  then have now: "sh_now s \<le> hi" using hi by simp
  have "stored_at tf server t0 hi (sh_temp s i)"
    using f rename stored_at_later [OF _ now] by (auto simp: files_ok_def)
  moreover have "\<not> fetching (sh_pc t j)" for j
    using sole_inside [OF l one, of i j] rename by (cases "j = i") auto
  moreover have "sh_fetches s \<le> sh_failures s + 1" using ok by (auto simp: fetches_ok_def split: if_splits)
  ultimately show ?thesis using rename by (auto simp: fetches_ok_def)
next
  case (fetch_stale i l err)
  with ok l one show ?thesis by (intro fetches_ok_done [of tf server t0 hi s lockOf i t _ path]) auto
next
  case (fetch_fails i err)
  with ok l one show ?thesis by (intro fetches_ok_done [of tf server t0 hi s lockOf i t _ path]) auto
next
  case (write_fails i l err)
  with ok l one show ?thesis by (intro fetches_ok_done [of tf server t0 hi s lockOf i t _ path]) auto
next
  case (rename_fails i l err)
  with ok l one show ?thesis by (intro fetches_ok_done [of tf server t0 hi s lockOf i t _ path]) auto
next
  case (hit i l)
  then show ?thesis by (intro fetches_ok_quiet [OF ok, of t i "sh_pc t i"]) auto
next
  case (miss i)
  then show ?thesis by (intro fetches_ok_quiet [OF ok, of t i "sh_pc t i"]) auto
next
  case (lock i)
  then show ?thesis by (intro fetches_ok_quiet [OF ok, of t i "sh_pc t i"]) auto
next
  case (give_up i err)
  then show ?thesis by (intro fetches_ok_quiet [OF ok, of t i "sh_pc t i"]) auto
next
  case (hit_held i l)
  then show ?thesis by (intro fetches_ok_quiet [OF ok, of t i "sh_pc t i"]) auto
next
  case (release i r)
  then show ?thesis by (intro fetches_ok_quiet [OF ok, of t i "sh_pc t i"]) auto
qed

definition world :: "string option \<Rightarrow> int \<Rightarrow> string + (string option \<times> int) \<Rightarrow> string + preloadList \<Rightarrow> os_error option \<Rightarrow> preload_world" where
  "world file now lock f err = \<lparr>pw_cache = file, pw_now = now, pw_lock = lock, pw_fetch = f, pw_write = err, pw_fetches = 0\<rparr>"

lemma world_simps [simp]:
  "pw_cache (world file now lock f err) = file" "pw_now (world file now lock f err) = now"
  "pw_lock (world file now lock f err) = lock" "pw_fetch (world file now lock f err) = f"
  "pw_write (world file now lock f err) = err"
  by (simp_all add: world_def)

lemma load_sequential:
  assumes "path \<noteq> []" and "path \<noteq> noCachePath"
  shows load_hit: "usable_list tf file now = Some l \<Longrightarrow> fst (loadPreloadList tf path (world file now lock f err)) = Inr l"
    and load_locked: "usable_list tf file now = None \<Longrightarrow>
      fst (loadPreloadList tf path (world file now (Inl e) f err)) = Inl (''waiting for the preload cache lock: '' @ e)"
    and load_refresh: "usable_list tf file now = None \<Longrightarrow>
      fst (loadPreloadList tf path (world file now (Inr (file1, now1)) f err)) =
        (case usable_list tf file1 now1 of
           Some l \<Rightarrow> Inr l
         | None \<Rightarrow>
             (case f of
                Inr l \<Rightarrow> Inr (case err of None \<Rightarrow> l | Some x \<Rightarrow> not_written x l)
              | Inl e \<Rightarrow> (case file_list tf file1 of Some l \<Rightarrow> Inr (l\<lparr>pl_note := stale_note tf l e\<rparr>) | None \<Rightarrow> Inl e)))"
  using assms
  by (auto simp: loadPreloadList_def cachedList_file usable_list_None usable_list_Some usable_list_def lock_world_def
      refreshPreloadList_def do_fetch_def store_fetched_def write_cache_def not_written_def world_def Let_def
      split: option.splits sum.splits if_splits)

text \<open>
  What a process saw of the others: its first read of the cache, in a state \<open>s1\<close>; when that found no fresh
  list, the state \<open>s2\<close> in which it gave up its wait, or in which it held the lock and read the cache
  again; when that found none either, the state \<open>s3\<close> of its fetch; and, when the list was written, a
  state \<open>s4\<close> in which the cache file has it.
\<close>

abbreviation share_reach :: "time_fmt \<Rightarrow> (nat \<Rightarrow> string + preloadList) \<Rightarrow> (nat \<Rightarrow> string) \<Rightarrow> share \<Rightarrow> share \<Rightarrow> bool" where
  "share_reach tf server lockOf \<equiv> rtranclp (share_step tf server lockOf)"

definition seen_write :: "time_fmt \<Rightarrow> (nat \<Rightarrow> string + preloadList) \<Rightarrow> (nat \<Rightarrow> string) \<Rightarrow> share \<Rightarrow> share \<Rightarrow> preloadList \<Rightarrow> bool" where
  "seen_write tf server lockOf s3 s l \<longleftrightarrow>
     (\<exists>s4 t. share_reach tf server lockOf s3 s4 \<and> share_reach tf server lockOf s4 s \<and> sh_now s3 \<le> t \<and> t \<le> sh_now s4 \<and>
        sh_file s4 = Some (marshalCache tf l t))"

definition seen_fetch :: "time_fmt \<Rightarrow> (nat \<Rightarrow> string + preloadList) \<Rightarrow> (nat \<Rightarrow> string) \<Rightarrow> nat \<Rightarrow> share \<Rightarrow> share \<Rightarrow> preload_world \<Rightarrow> bool" where
  "seen_fetch tf server lockOf i s2 s w \<longleftrightarrow>
     (\<exists>s3. share_reach tf server lockOf s2 s3 \<and> share_reach tf server lockOf s3 s \<and>
        sh_pc s3 i = Fetch (file_list tf (sh_file s2)) \<and> pw_fetch w = server (sh_fetches s3) \<and>
        (case pw_fetch w of Inr l \<Rightarrow> pw_write w = None \<longrightarrow> seen_write tf server lockOf s3 s l | Inl e \<Rightarrow> True))"

definition seen_lock :: "time_fmt \<Rightarrow> (nat \<Rightarrow> string + preloadList) \<Rightarrow> (nat \<Rightarrow> string) \<Rightarrow> nat \<Rightarrow> share \<Rightarrow> share \<Rightarrow> preload_world \<Rightarrow> bool" where
  "seen_lock tf server lockOf i s1 s w \<longleftrightarrow>
     (\<exists>s2. share_reach tf server lockOf s1 s2 \<and> share_reach tf server lockOf s2 s \<and>
        (case pw_lock w of
           Inl err \<Rightarrow> sh_pc s2 i = Poll
         | Inr (file, now) \<Rightarrow> sh_pc s2 i = Held \<and> sh_lock s2 (lockOf i) = Some i \<and> file = sh_file s2 \<and> now = sh_now s2 \<and>
             (usable_list tf file now = None \<longrightarrow> seen_fetch tf server lockOf i s2 s w)))"

definition seen_load :: "time_fmt \<Rightarrow> (nat \<Rightarrow> string + preloadList) \<Rightarrow> (nat \<Rightarrow> string) \<Rightarrow> nat \<Rightarrow> share \<Rightarrow> share \<Rightarrow> preload_world \<Rightarrow> bool" where
  "seen_load tf server lockOf i s0 s w \<longleftrightarrow>
     (\<exists>s1. share_reach tf server lockOf s0 s1 \<and> share_reach tf server lockOf s1 s \<and> sh_pc s1 i = Load \<and>
        pw_cache w = sh_file s1 \<and> pw_now w = sh_now s1 \<and>
        (usable_list tf (sh_file s1) (sh_now s1) = None \<longrightarrow> seen_lock tf server lockOf i s1 s w))"

lemma seen_later:
  assumes "share_reach tf server lockOf s t"
  shows "seen_write tf server lockOf s3 s l \<Longrightarrow> seen_write tf server lockOf s3 t l"
    and "seen_fetch tf server lockOf i s2 s w \<Longrightarrow> seen_fetch tf server lockOf i s2 t w"
    and "seen_lock tf server lockOf i s1 s w \<Longrightarrow> seen_lock tf server lockOf i s1 t w"
    and "seen_load tf server lockOf i s0 s w \<Longrightarrow> seen_load tf server lockOf i s0 t w"
proof -
  have R: "share_reach tf server lockOf u s \<Longrightarrow> share_reach tf server lockOf u t" for u using assms by (rule rtranclp_trans [rotated])
  show 1: "seen_write tf server lockOf s3 s l \<Longrightarrow> seen_write tf server lockOf s3 t l" for s3 l
    unfolding seen_write_def using R by blast
  show 2: "seen_fetch tf server lockOf i s2 s w \<Longrightarrow> seen_fetch tf server lockOf i s2 t w" for s2
  proof -
    assume "seen_fetch tf server lockOf i s2 s w"
    then obtain s3 where "share_reach tf server lockOf s2 s3" "share_reach tf server lockOf s3 s"
      "sh_pc s3 i = Fetch (file_list tf (sh_file s2))" "pw_fetch w = server (sh_fetches s3)"
      "case pw_fetch w of Inr l \<Rightarrow> pw_write w = None \<longrightarrow> seen_write tf server lockOf s3 s l | Inl e \<Rightarrow> True"
      unfolding seen_fetch_def by blast
    then show ?thesis unfolding seen_fetch_def using R 1 by (intro exI [of _ s3]) (auto split: sum.splits)
  qed
  show 3: "seen_lock tf server lockOf i s1 s w \<Longrightarrow> seen_lock tf server lockOf i s1 t w" for s1
  proof -
    assume "seen_lock tf server lockOf i s1 s w"
    then obtain s2 where "share_reach tf server lockOf s1 s2" "share_reach tf server lockOf s2 s"
      "case pw_lock w of Inl err \<Rightarrow> sh_pc s2 i = Poll
       | Inr (file, now) \<Rightarrow> sh_pc s2 i = Held \<and> sh_lock s2 (lockOf i) = Some i \<and> file = sh_file s2 \<and> now = sh_now s2 \<and>
           (usable_list tf file now = None \<longrightarrow> seen_fetch tf server lockOf i s2 s w)"
      unfolding seen_lock_def by blast
    then show ?thesis unfolding seen_lock_def using R 2 by (intro exI [of _ s2]) (auto split: sum.splits)
  qed
  show "seen_load tf server lockOf i s0 s w \<Longrightarrow> seen_load tf server lockOf i s0 t w"
  proof -
    assume "seen_load tf server lockOf i s0 s w"
    then obtain s1 where "share_reach tf server lockOf s0 s1" "share_reach tf server lockOf s1 s" "sh_pc s1 i = Load"
      "pw_cache w = sh_file s1" "pw_now w = sh_now s1"
      "usable_list tf (sh_file s1) (sh_now s1) = None \<longrightarrow> seen_lock tf server lockOf i s1 s w"
      unfolding seen_load_def by (elim exE conjE) (rule that; assumption)
    then show ?thesis unfolding seen_load_def using R 3 by (intro exI [of _ s1]) simp
  qed
qed

text \<open>Where a process is, and what it has seen by then.\<close>

definition past_load :: "time_fmt \<Rightarrow> (nat \<Rightarrow> string + preloadList) \<Rightarrow> (nat \<Rightarrow> string) \<Rightarrow> nat \<Rightarrow> share \<Rightarrow> share \<Rightarrow> share \<Rightarrow> bool" where
  "past_load tf server lockOf i s0 s1 s \<longleftrightarrow> share_reach tf server lockOf s0 s1 \<and> share_reach tf server lockOf s1 s \<and>
     sh_pc s1 i = Load \<and> usable_list tf (sh_file s1) (sh_now s1) = None"

definition past_held :: "time_fmt \<Rightarrow> (nat \<Rightarrow> string + preloadList) \<Rightarrow> (nat \<Rightarrow> string) \<Rightarrow> nat \<Rightarrow> share \<Rightarrow> share \<Rightarrow> share \<Rightarrow> bool" where
  "past_held tf server lockOf i s1 s2 s \<longleftrightarrow> share_reach tf server lockOf s1 s2 \<and> share_reach tf server lockOf s2 s \<and>
     sh_pc s2 i = Held \<and> sh_lock s2 (lockOf i) = Some i \<and> usable_list tf (sh_file s2) (sh_now s2) = None"

definition past_fetch :: "time_fmt \<Rightarrow> (nat \<Rightarrow> string + preloadList) \<Rightarrow> (nat \<Rightarrow> string) \<Rightarrow> nat \<Rightarrow> share \<Rightarrow> share \<Rightarrow> share \<Rightarrow> preloadList \<Rightarrow> bool" where
  "past_fetch tf server lockOf i s2 s3 s l \<longleftrightarrow> share_reach tf server lockOf s2 s3 \<and> share_reach tf server lockOf s3 s \<and>
     sh_pc s3 i = Fetch (file_list tf (sh_file s2)) \<and> server (sh_fetches s3) = Inr l"

lemmas past_defs = past_load_def past_held_def past_fetch_def

lemma past_later:
  assumes "share_reach tf server lockOf s t"
  shows "past_load tf server lockOf i s0 s1 s \<Longrightarrow> past_load tf server lockOf i s0 s1 t"
    and "past_held tf server lockOf i s1 s2 s \<Longrightarrow> past_held tf server lockOf i s1 s2 t"
    and "past_fetch tf server lockOf i s2 s3 s l \<Longrightarrow> past_fetch tf server lockOf i s2 s3 t l"
  using assms by (auto simp: past_defs intro: rtranclp_trans)

fun explained :: "time_fmt \<Rightarrow> (nat \<Rightarrow> string + preloadList) \<Rightarrow> (nat \<Rightarrow> string) \<Rightarrow> string \<Rightarrow> share \<Rightarrow> nat \<Rightarrow> pc \<Rightarrow> share \<Rightarrow> bool" where
  "explained tf server lockOf path s0 i Load s = True"
| "explained tf server lockOf path s0 i Poll s = (\<exists>s1. past_load tf server lockOf i s0 s1 s)"
| "explained tf server lockOf path s0 i Held s = (\<exists>s1. past_load tf server lockOf i s0 s1 s)"
| "explained tf server lockOf path s0 i (Fetch st) s =
     (\<exists>s1 s2. past_load tf server lockOf i s0 s1 s \<and> past_held tf server lockOf i s1 s2 s \<and> st = file_list tf (sh_file s2))"
| "explained tf server lockOf path s0 i (WriteFile l) s =
     (\<exists>s1 s2 s3. past_load tf server lockOf i s0 s1 s \<and> past_held tf server lockOf i s1 s2 s \<and> past_fetch tf server lockOf i s2 s3 s l \<and>
        sh_now s3 \<le> sh_now s)"
| "explained tf server lockOf path s0 i (RenameFile l) s =
     (\<exists>s1 s2 s3 t. past_load tf server lockOf i s0 s1 s \<and> past_held tf server lockOf i s1 s2 s \<and> past_fetch tf server lockOf i s2 s3 s l \<and>
        sh_now s3 \<le> t \<and> t \<le> sh_now s \<and> sh_temp s i = Some (marshalCache tf l t))"
| "explained tf server lockOf path s0 i (Release r) s = (\<exists>w. seen_load tf server lockOf i s0 s w \<and> fst (loadPreloadList tf path w) = r)"
| "explained tf server lockOf path s0 i (Finished r) s = (\<exists>w. seen_load tf server lockOf i s0 s w \<and> fst (loadPreloadList tf path w) = r)"

lemma explained_later:
  assumes "explained tf server lockOf path s0 i p s" and "share_reach tf server lockOf s t" and "sh_temp t i = sh_temp s i"
    and "sh_now s \<le> sh_now t"
  shows "explained tf server lockOf path s0 i p t"
proof -
  note later = past_later [OF assms(2)] seen_later(4) [OF assms(2)]
  show ?thesis
  proof (cases p)
    case (Fetch st)
    with assms(1) later(1,2) show ?thesis unfolding Fetch explained.simps by blast
  next
    case (WriteFile l)
    from assms(1) obtain s1 s2 s3 where "past_load tf server lockOf i s0 s1 s" "past_held tf server lockOf i s1 s2 s"
      "past_fetch tf server lockOf i s2 s3 s l" "sh_now s3 \<le> sh_now s" unfolding WriteFile explained.simps by blast
    then show ?thesis unfolding WriteFile explained.simps using later(1-3) order_trans [OF _ assms(4)] by blast
  next
    case (RenameFile l)
    from assms(1) obtain s1 s2 s3 u where "past_load tf server lockOf i s0 s1 s" "past_held tf server lockOf i s1 s2 s"
      "past_fetch tf server lockOf i s2 s3 s l" "sh_now s3 \<le> u" "u \<le> sh_now s" "sh_temp s i = Some (marshalCache tf l u)"
      unfolding RenameFile explained.simps by blast
    then show ?thesis unfolding RenameFile explained.simps assms(3) using later(1-3) order_trans [OF _ assms(4)] by blast
  next
    case (Release r)
    with assms(1) later(4) show ?thesis unfolding Release explained.simps by blast
  next
    case (Finished r)
    with assms(1) later(4) show ?thesis unfolding Finished explained.simps by blast
  qed (use assms(1) later in auto)
qed

text \<open>The world of a process that has seen a first read, a held lock and a fetch.\<close>

lemma seen_loadI:
  assumes "past_load tf server lockOf i s0 s1 s" and "past_held tf server lockOf i s1 s2 s"
    and "share_reach tf server lockOf s2 s3" and "share_reach tf server lockOf s3 s"
    and "sh_pc s3 i = Fetch (file_list tf (sh_file s2))"
    and "\<And>l. server (sh_fetches s3) = Inr l \<Longrightarrow> err = None \<Longrightarrow> seen_write tf server lockOf s3 s l"
  shows "seen_load tf server lockOf i s0 s
    (world (sh_file s1) (sh_now s1) (Inr (sh_file s2, sh_now s2)) (server (sh_fetches s3)) err)"
proof -
  have "seen_fetch tf server lockOf i s2 s (world (sh_file s1) (sh_now s1) (Inr (sh_file s2, sh_now s2)) (server (sh_fetches s3)) err)"
    unfolding seen_fetch_def using assms(3-6) by (intro exI [of _ s3]) (auto split: sum.split)
  then have "seen_lock tf server lockOf i s1 s (world (sh_file s1) (sh_now s1) (Inr (sh_file s2, sh_now s2)) (server (sh_fetches s3)) err)"
    unfolding seen_lock_def using assms(2) by (intro exI [of _ s2]) (simp add: past_held_def)
  then show ?thesis unfolding seen_load_def using assms(1) by (intro exI [of _ s1]) (simp add: past_load_def)
qed

lemma stored_result:
  assumes "past_load tf server lockOf i s0 s1 s" and "past_held tf server lockOf i s1 s2 s" and "past_fetch tf server lockOf i s2 s3 s l"
    and "past_load tf server lockOf i s0 s1 s \<Longrightarrow> past_load tf server lockOf i s0 s1 t"
    and "past_held tf server lockOf i s1 s2 s \<Longrightarrow> past_held tf server lockOf i s1 s2 t"
    and "past_fetch tf server lockOf i s2 s3 s l \<Longrightarrow> past_fetch tf server lockOf i s2 s3 t l"
    and "err = None \<Longrightarrow> seen_write tf server lockOf s3 t l" and p: "path \<noteq> []" "path \<noteq> noCachePath"
  shows "\<exists>w. seen_load tf server lockOf i s0 t w \<and>
    fst (loadPreloadList tf path w) = Inr (case err of None \<Rightarrow> l | Some x \<Rightarrow> not_written x l)"
proof (intro exI conjI)
  let ?w = "world (sh_file s1) (sh_now s1) (Inr (sh_file s2, sh_now s2)) (server (sh_fetches s3)) err"
  show "seen_load tf server lockOf i s0 t ?w"
    using assms(4) [OF assms(1)] assms(5) [OF assms(2)] assms(6) [OF assms(3)] assms(7) by (intro seen_loadI) (auto simp: past_fetch_def)
  show "fst (loadPreloadList tf path ?w) = Inr (case err of None \<Rightarrow> l | Some x \<Rightarrow> not_written x l)"
    using load_refresh [OF p, of tf "sh_file s1" "sh_now s1" "sh_file s2" "sh_now s2" "server (sh_fetches s3)" err] assms(1-3)
    by (simp add: past_defs)
qed

lemma explained_step:
  assumes "share_step tf server lockOf s t" and "explained tf server lockOf path s0 j (sh_pc s j) s" and "lock_ok lockOf s"
    and p: "path \<noteq> []" "path \<noteq> noCachePath" and "share_reach tf server lockOf s0 s"
  shows "explained tf server lockOf path s0 j (sh_pc t j) t"
proof -
  have st: "share_reach tf server lockOf s t" using assms(1) by blast
  have now: "sh_now s \<le> sh_now t" using assms(1) by (cases rule: share_step.cases) auto
  note later = past_later [OF st] and seen = seen_later [OF st] and refresh = load_refresh [OF p]
  have other: ?thesis if "sh_pc t j = sh_pc s j" "sh_temp t j = sh_temp s j"
    using explained_later [OF assms(2) st that(2) now] that(1) by simp
  from assms(1) show ?thesis
  proof (cases rule: share_step.cases)
    case (tick u)
    then show ?thesis by (intro other) auto
  next
    case (hit i l)
    show ?thesis
    proof (cases "j = i")
      case True
      let ?w = "world (sh_file s) (sh_now s) (Inl []) (Inl []) None"
      have "seen_load tf server lockOf i s0 t ?w"
        unfolding seen_load_def using hit assms(6) st by (intro exI [of _ s]) simp
      moreover have "fst (loadPreloadList tf path ?w) = Inr l" by (rule load_hit [OF p hit(3)])
      ultimately show ?thesis using True hit by auto
    next
      case False
      with hit show ?thesis by (intro other) simp_all
    qed
  next
    case (miss i)
    show ?thesis
    proof (cases "j = i")
      case True
      then have "past_load tf server lockOf i s0 s t" using miss assms(6) st by (simp add: past_load_def)
      with True miss show ?thesis by auto
    next
      case False
      with miss show ?thesis by (intro other) simp_all
    qed
  next
    case (lock i)
    show ?thesis
    proof (cases "j = i")
      case True
      with lock assms(2) later(1) show ?thesis by auto
    next
      case False
      with lock show ?thesis by (intro other) simp_all
    qed
  next
    case (give_up i err)
    show ?thesis
    proof (cases "j = i")
      case True
      with give_up assms(2) obtain s1 where s1: "past_load tf server lockOf i s0 s1 s" by auto
      let ?w = "world (sh_file s1) (sh_now s1) (Inl err) (Inl []) None"
      have "seen_lock tf server lockOf i s1 t ?w"
        unfolding seen_lock_def using s1 give_up st by (intro exI [of _ s]) (simp add: past_load_def)
      then have "seen_load tf server lockOf i s0 t ?w"
        unfolding seen_load_def using later(1) [OF s1] by (intro exI [of _ s1]) (simp add: past_load_def)
      moreover have "fst (loadPreloadList tf path ?w) = Inl (''waiting for the preload cache lock: '' @ err)"
        using s1 by (intro load_locked [OF p]) (simp add: past_load_def)
      ultimately show ?thesis using True give_up by auto
    next
      case False
      with give_up show ?thesis by (intro other) simp_all
    qed
  next
    case (hit_held i l)
    show ?thesis
    proof (cases "j = i")
      case True
      with hit_held assms(2) obtain s1 where s1: "past_load tf server lockOf i s0 s1 s" by auto
      have lk: "sh_lock s (lockOf i) = Some i" using assms(3) hit_held by (simp add: lock_ok_def)
      let ?w = "world (sh_file s1) (sh_now s1) (Inr (sh_file s, sh_now s)) (Inl []) None"
      have "seen_lock tf server lockOf i s1 t ?w"
        unfolding seen_lock_def using s1 hit_held st lk by (intro exI [of _ s]) (simp add: past_load_def)
      then have "seen_load tf server lockOf i s0 t ?w"
        unfolding seen_load_def using later(1) [OF s1] by (intro exI [of _ s1]) (simp add: past_load_def)
      moreover have "fst (loadPreloadList tf path ?w) = Inr l"
        using refresh [of tf "sh_file s1" "sh_now s1" "sh_file s" "sh_now s" "Inl []" None] s1 hit_held(3) by (simp add: past_load_def)
      ultimately show ?thesis using True hit_held by auto
    next
      case False
      with hit_held show ?thesis by (intro other) simp_all
    qed
  next
    case (miss_held i)
    show ?thesis
    proof (cases "j = i")
      case True
      with miss_held assms(2) obtain s1 where s1: "past_load tf server lockOf i s0 s1 s" by auto
      have "sh_lock s (lockOf i) = Some i" using assms(3) miss_held by (simp add: lock_ok_def)
      with s1 miss_held st have "past_held tf server lockOf i s1 s t" by (simp add: past_held_def past_load_def)
      with later(1) [OF s1] True miss_held show ?thesis by auto
    next
      case False
      with miss_held show ?thesis by (intro other) simp_all
    qed
  next
    case (fetch i stale l)
    show ?thesis
    proof (cases "j = i")
      case True
      with fetch assms(2) obtain s1 s2 where 2: "past_load tf server lockOf i s0 s1 s" "past_held tf server lockOf i s1 s2 s"
        "stale = file_list tf (sh_file s2)" by auto
      with fetch st have "past_fetch tf server lockOf i s2 s t l" by (simp add: past_fetch_def past_held_def)
      with later(1) [OF 2(1)] later(2) [OF 2(2)] True fetch show ?thesis by auto
    next
      case False
      with fetch show ?thesis by (intro other) simp_all
    qed
  next
    case (fetch_stale i l err)
    show ?thesis
    proof (cases "j = i")
      case True
      with fetch_stale assms(2) obtain s1 s2 where 2: "past_load tf server lockOf i s0 s1 s" "past_held tf server lockOf i s1 s2 s"
        "Some l = file_list tf (sh_file s2)" by auto
      have "seen_load tf server lockOf i s0 t (world (sh_file s1) (sh_now s1) (Inr (sh_file s2, sh_now s2)) (server (sh_fetches s)) None)"
        using later(1) [OF 2(1)] later(2) [OF 2(2)] 2(2,3) fetch_stale st by (intro seen_loadI) (auto simp: past_held_def)
      moreover have "fst (loadPreloadList tf path (world (sh_file s1) (sh_now s1) (Inr (sh_file s2, sh_now s2)) (server (sh_fetches s)) None)) =
          Inr (l\<lparr>pl_note := stale_note tf l err\<rparr>)"
        using refresh [of tf "sh_file s1" "sh_now s1" "sh_file s2" "sh_now s2" "server (sh_fetches s)" None] 2 fetch_stale(3)
        by (simp add: past_defs flip: 2(3))
      ultimately show ?thesis using True fetch_stale by auto
    next
      case False
      with fetch_stale show ?thesis by (intro other) simp_all
    qed
  next
    case (fetch_fails i err)
    show ?thesis
    proof (cases "j = i")
      case True
      with fetch_fails assms(2) obtain s1 s2 where 2: "past_load tf server lockOf i s0 s1 s" "past_held tf server lockOf i s1 s2 s"
        "None = file_list tf (sh_file s2)" by auto
      have "seen_load tf server lockOf i s0 t (world (sh_file s1) (sh_now s1) (Inr (sh_file s2, sh_now s2)) (server (sh_fetches s)) None)"
        using later(1) [OF 2(1)] later(2) [OF 2(2)] 2(2,3) fetch_fails st by (intro seen_loadI) (auto simp: past_held_def)
      moreover have "fst (loadPreloadList tf path (world (sh_file s1) (sh_now s1) (Inr (sh_file s2, sh_now s2)) (server (sh_fetches s)) None)) =
          Inl err"
        using refresh [of tf "sh_file s1" "sh_now s1" "sh_file s2" "sh_now s2" "server (sh_fetches s)" None] 2 fetch_fails(3)
        by (simp add: past_defs flip: 2(3))
      ultimately show ?thesis using True fetch_fails by auto
    next
      case False
      with fetch_fails show ?thesis by (intro other) simp_all
    qed
  next
    case (write_temp i l)
    show ?thesis
    proof (cases "j = i")
      case True
      with write_temp assms(2) obtain s1 s2 s3 where 3: "past_load tf server lockOf i s0 s1 s" "past_held tf server lockOf i s1 s2 s"
        "past_fetch tf server lockOf i s2 s3 s l" "sh_now s3 \<le> sh_now s" by auto
      with later(1) [OF 3(1)] later(2) [OF 3(2)] later(3) [OF 3(3)] True write_temp show ?thesis by fastforce
    next
      case False
      with write_temp show ?thesis by (intro other) simp_all
    qed
  next
    case (write_fails i l left err)
    show ?thesis
    proof (cases "j = i")
      case True
      with write_fails assms(2) obtain s1 s2 s3 where "past_load tf server lockOf i s0 s1 s" "past_held tf server lockOf i s1 s2 s"
        "past_fetch tf server lockOf i s2 s3 s l" by auto
      with stored_result [OF this later _ p, where err = "Some err"] True write_fails show ?thesis by auto
    next
      case False
      with write_fails show ?thesis by (intro other) simp_all
    qed
  next
    case (rename i l)
    show ?thesis
    proof (cases "j = i")
      case True
      with rename assms(2) obtain s1 s2 s3 u where 3: "past_load tf server lockOf i s0 s1 s" "past_held tf server lockOf i s1 s2 s"
        "past_fetch tf server lockOf i s2 s3 s l" "sh_now s3 \<le> u" "u \<le> sh_now s" "sh_temp s i = Some (marshalCache tf l u)" by auto
      have "seen_write tf server lockOf s3 t l"
        unfolding seen_write_def using later(3) [OF 3(3)] 3 rename now by (intro exI [of _ t] exI [of _ u]) (auto simp: past_fetch_def)
      with stored_result [OF 3(1-3) later _ p, where err = None] True rename show ?thesis by auto
    next
      case False
      with rename show ?thesis by (intro other) simp_all
    qed
  next
    case (rename_fails i l left err)
    show ?thesis
    proof (cases "j = i")
      case True
      with rename_fails assms(2) obtain s1 s2 s3 where "past_load tf server lockOf i s0 s1 s" "past_held tf server lockOf i s1 s2 s"
        "past_fetch tf server lockOf i s2 s3 s l" by auto
      with stored_result [OF this later _ p, where err = "Some err"] True rename_fails show ?thesis by auto
    next
      case False
      with rename_fails show ?thesis by (intro other) simp_all
    qed
  next
    case (release i r)
    show ?thesis
    proof (cases "j = i")
      case True
      with release assms(2) seen(4) show ?thesis by auto
    next
      case False
      with release show ?thesis by (intro other) simp_all
    qed
  qed
qed

interpretation shared: invariant_steps "share_step tf server lockOf" "\<lambda>s. lock_ok lockOf s \<and> files_ok tf server file0 t0 s"
    for tf server lockOf file0 t0
  by unfold_locales (auto intro: lock_ok_step files_ok_step)

text \<open>The loop of the lock, unrolled.\<close>

lemma acquire_loop_busy:
  assumes "\<And>k. i \<le> k \<Longrightarrow> k < i + d \<Longrightarrow> Flock k = FlockBusy \<and> Done k = None"
  shows "acquire_loop Flock Done i = acquire_loop Flock Done (i + d)"
  using assms
proof (induction d arbitrary: i)
  case (Suc d)
  from Suc.prems [of i] have "acquire_loop Flock Done i = acquire_loop Flock Done (Suc i)"
    by (subst acquire_loop.simps) simp
  also have "\<dots> = acquire_loop Flock Done (Suc i + d)" using Suc.prems by (intro Suc.IH) auto
  finally show ?case by simp
qed simp

lemma acquire_loop_least:
  assumes "Flock n \<noteq> FlockBusy \<or> Done n \<noteq> None"
  defines "k \<equiv> LEAST k. Flock k \<noteq> FlockBusy \<or> Done k \<noteq> None"
  shows "k \<le> n" and "acquire_loop Flock Done 0 =
    Some (case Flock k of FlockOK \<Rightarrow> (Inr k, True) | FlockError err \<Rightarrow> (Inl err, False)
          | FlockBusy \<Rightarrow> (Inl (the (Done k)), False))"
proof -
  show "k \<le> n" unfolding k_def by (rule Least_le) (rule assms(1))
  have k: "Flock k \<noteq> FlockBusy \<or> Done k \<noteq> None" unfolding k_def by (rule LeastI) (rule assms(1))
  have "acquire_loop Flock Done 0 = acquire_loop Flock Done (0 + k)"
    by (rule acquire_loop_busy) (auto simp: k_def dest: not_less_Least)
  also have "acquire_loop Flock Done (0 + k) = Some (case Flock k of FlockOK \<Rightarrow> (Inr k, True) | FlockError err \<Rightarrow> (Inl err, False)
          | FlockBusy \<Rightarrow> (Inl (the (Done k)), False))"
    using k by (subst acquire_loop.simps) (auto split: flock.splits option.splits)
  finally show "acquire_loop Flock Done 0 = \<dots>" by simp
qed

text \<open>A run of one process among the others, from an empty cache to its result.\<close>

definition ex_server :: "nat \<Rightarrow> string + preloadList" where "ex_server n = Inr ex_list"

definition ex_lock :: "nat \<Rightarrow> string" where "ex_lock i = ''/run/lock/domaintest-hsts.lock''"

lemma ex_run:
  "\<exists>s :: share. rtranclp (share_step ex_time ex_server ex_lock) (share_init None 7) s \<and> sh_now s = 7 \<and> sh_pc s 0 = Finished (Inr ex_list) \<and>
     sh_fetches s = 1 \<and> sh_failures s = 0"
proof -
  let ?step = "share_step ex_time ex_server ex_lock" and ?s0 = "share_init None 7"
  define s1 where "s1 = goto 0 Poll ?s0"
  define s2 where "s2 = (goto 0 Held s1)\<lparr>sh_lock := (sh_lock s1)(ex_lock 0 := Some 0)\<rparr>"
  define s3 where "s3 = goto 0 (Fetch (file_list ex_time (sh_file s2))) s2"
  define s4 where "s4 = (goto 0 (WriteFile ex_list) s3)\<lparr>sh_fetches := sh_fetches s3 + 1\<rparr>"
  define s5 where "s5 = (goto 0 (RenameFile ex_list) s4)\<lparr>sh_temp := (sh_temp s4)(0 := Some (marshalCache ex_time ex_list (sh_now s4)))\<rparr>"
  define s6 where "s6 = (goto 0 (Release (Inr ex_list)) s5)\<lparr>sh_file := sh_temp s5 0, sh_temp := (sh_temp s5)(0 := None)\<rparr>"
  define s7 where "s7 = (goto 0 (Finished (Inr ex_list)) s6)\<lparr>sh_lock := (sh_lock s6)(ex_lock 0 := None)\<rparr>"
  have 1: "?step ?s0 s1" unfolding s1_def by (rule share_step.miss) (simp_all add: share_init_def usable_list_def file_list_def)
  have 2: "?step s1 s2" unfolding s2_def by (rule share_step.lock) (simp_all add: s1_def share_init_def)
  have 3: "?step s2 s3" unfolding s3_def
    by (rule share_step.miss_held) (simp_all add: s2_def s1_def share_init_def usable_list_def file_list_def)
  have 4: "?step s3 s4" unfolding s4_def by (rule share_step.fetch) (simp_all add: s3_def ex_server_def)
  have 5: "?step s4 s5" unfolding s5_def by (rule share_step.write_temp) (simp add: s4_def)
  have 6: "?step s5 s6" unfolding s6_def by (rule share_step.rename) (simp add: s5_def)
  have 7: "?step s6 s7" unfolding s7_def by (rule share_step.release) (simp add: s6_def)
  note more_steps = rtranclp.rtrancl_into_rtrancl [where r = ?step]
  have "rtranclp ?step ?s0 s7"
    by (rule more_steps [OF more_steps [OF more_steps [OF more_steps [OF more_steps [OF more_steps [OF
          r_into_rtranclp [where r = ?step, OF 1] 2] 3] 4] 5] 6] 7])
  moreover have "sh_now s7 = 7" "sh_pc s7 0 = Finished (Inr ex_list)" "sh_fetches s7 = 1" "sh_failures s7 = 0"
    by (simp_all add: s7_def s6_def s5_def s4_def s3_def s2_def s1_def share_init_def)
  ultimately show ?thesis by blast
qed

lemma ex_digits: "c \<in> set (nat_text n) \<Longrightarrow> is_digit c"
  using nat_text_digits [of n] by (simp add: list_all_iff)

lemma ex_time_ok: "0 \<le> t \<Longrightarrow> t \<le> max_int64 \<Longrightarrow> time_ok ex_time t"
proof -
  assume "0 \<le> t" "t \<le> max_int64"
  moreover from this have "list_all (\<lambda>c. \<not> is_space c) (Itoa t)"
    by (auto simp: list_all_iff Itoa_def is_digit_def is_space_def dest!: ex_digits)
  ultimately show ?thesis using Atoi_Itoa [of t] by (simp add: time_ok_def ex_time_def min_int64_def)
qed

section \<open>Properties\<close>

text \<open>
  C32. A wait for the lock ends when the context does: if by some try the lock is no longer busy or the
  context has ended, \<open>acquireLock\<close> returns, after at most that many tries. It reports the lock only
  when the last try took it, and the lock file is left open exactly then.
\<close>
theorem acquireLock_returns:
  assumes "le_Flock e n \<noteq> FlockBusy \<or> le_Done e n \<noteq> None"
  shows "\<exists>r opened. acquireLock e = Some (r, opened) \<and> (opened \<longleftrightarrow> \<not> isl r) \<and>
    (case r of Inr k \<Rightarrow> k \<le> n \<and> le_Flock e k = FlockOK \<and> list_all (\<lambda>i. le_Flock e i = FlockBusy) [0..<k] | Inl err \<Rightarrow> True)"
proof -
  define k where "k = (LEAST k. le_Flock e k \<noteq> FlockBusy \<or> le_Done e k \<noteq> None)"
  have "le_Flock e i = FlockBusy" if "i < k" for i using that not_less_Least k_def by blast
  with acquire_loop_least [where Flock = "le_Flock e" and Done = "le_Done e", OF assms, folded k_def] show ?thesis
    by (auto simp: acquireLock_def list_all_iff split: option.split flock.split)
qed

theorem acquireLock_returns_witness:
  "\<exists>r opened. acquireLock \<lparr>le_MkdirAll = None, le_OpenFile = None, le_Flock = (\<lambda>i. FlockBusy),
      le_Done = (\<lambda>i. if i < 3 then None else Some ''deadline'')\<rparr> = Some (r, opened) \<and> (opened \<longleftrightarrow> \<not> isl r)"
  using acquireLock_returns [of "\<lparr>le_MkdirAll = None, le_OpenFile = None, le_Flock = (\<lambda>i. FlockBusy),
      le_Done = (\<lambda>i. if i < 3 then None else Some ''deadline'')\<rparr>" 3] by auto

text \<open>
  C14. The cache file is replaced as a whole: at every moment of a write, and whichever of its calls fails
  after however many bytes, the cache file has its old contents or the new ones. A write that succeeds
  has changed that file alone. One that fails has changed nothing but the temporary file, which is gone
  unless its removal failed as well. To a load the write is one step.
\<close>
theorem writePreloadCache_atomic:
  assumes "path \<noteq> []" and "path \<noteq> noCachePath" and "fs_temp fs \<noteq> path" and "fs_files fs (fs_temp fs) = None"
    and "writePreloadCache tf path l now fs = (err, states)"
  shows "(\<forall>f \<in> set states. fs_files f path \<in> {fs_files fs path, Some (marshalCache tf l now)}) \<and>
    fs_files (last states) =
      (if err = None then (fs_files fs)(path := Some (marshalCache tf l now))
       else if fs_fails fs RemoveTemp = None then fs_files fs
       else (fs_files fs)(fs_temp fs := fs_files (last states) (fs_temp fs))) \<and>
    write_cache tf l (w\<lparr>pw_cache := fs_files fs path, pw_now := now, pw_write := err\<rparr>) =
      (err, w\<lparr>pw_cache := fs_files (last states) path, pw_now := now, pw_write := err\<rparr>)"
proof -
  have gone: "(fs_files fs)(fs_temp fs := None) = fs_files fs" using assms(4) by auto
  have "set states \<subseteq> {f. fs_files f path \<in> {fs_files fs path, Some (marshalCache tf l now)}}"
    using assms by (auto simp: writePreloadCache_def put_file_def Let_def split: option.splits list.splits if_splits)
  moreover have last: "fs_files (last states) =
      (if err = None then (fs_files fs)(path := Some (marshalCache tf l now))
       else if fs_fails fs RemoveTemp = None then fs_files fs
       else (fs_files fs)(fs_temp fs := fs_files (last states) (fs_temp fs)))"
    using assms(1-3,5) gone
    by (auto simp: writePreloadCache_def put_file_def Let_def fun_upd_twist split: option.splits list.splits if_splits)
  moreover have "fs_files (last states) path = (if err = None then Some (marshalCache tf l now) else fs_files fs path)"
    using last assms(3) by (metis fun_upd_apply)
  ultimately show ?thesis by (auto simp: write_cache_def split: option.split)
qed

definition ex_fs :: file_system where
  "ex_fs = \<lparr>fs_files = (\<lambda>n. if n = ''c'' then Some ''old'' else None),
     fs_fails = (\<lambda>c. if c = RenameTemp then Some (LinkError ''rename'' ''c.tmp1'' ''c'' ''denied'') else None),
     fs_temp = ''c.tmp1'', fs_short = 4\<rparr>"

theorem writePreloadCache_atomic_witness:
  "fs_files (last (snd (writePreloadCache ex_time ''c'' ex_list 7 ex_fs))) = fs_files ex_fs"
proof -
  have "writePreloadCache ex_time ''c'' ex_list 7 ex_fs =
      (Some (LinkError ''rename'' ''c.tmp1'' ''c'' ''denied''), snd (writePreloadCache ex_time ''c'' ex_list 7 ex_fs))"
    by (simp add: writePreloadCache_def ex_fs_def noCachePath_def write_calls_def map_filter_simps Let_def)
  then have "fs_files (last (snd (writePreloadCache ex_time ''c'' ex_list 7 ex_fs))) =
      (if Some (LinkError ''rename'' ''c.tmp1'' ''c'' ''denied'') = None
       then (fs_files ex_fs)(''c'' := Some (marshalCache ex_time ex_list 7))
       else if fs_fails ex_fs RemoveTemp = None then fs_files ex_fs
       else (fs_files ex_fs)(fs_temp ex_fs := fs_files (last (snd (writePreloadCache ex_time ''c'' ex_list 7 ex_fs))) (fs_temp ex_fs)))"
    by (intro writePreloadCache_atomic [where w = ex_world, THEN conjunct2, THEN conjunct1])
      (simp_all add: ex_fs_def noCachePath_def)
  then show ?thesis by (simp add: ex_fs_def)
qed

text \<open>
  C8. Any number of processes may load the list at once, with the same lock file or with several. In every
  state they can reach, the process that holds a lock is the only one of those that use it between taking
  and releasing it, and the cache file has either the contents it started with or a list some fetch
  returned, complete and dated when it was written: no process can read a file that is half written.
\<close>
theorem share_safe:
  assumes "rtranclp (share_step tf server lockOf) (share_init file0 t0) s"
  shows "{i. critical (sh_pc s i) \<and> lockOf i = p} = set_option (sh_lock s p) \<and>
    (sh_file s = file0 \<or> stored_at tf server t0 (sh_now s) (sh_file s))"
proof -
  have "lock_ok lockOf s \<and> files_ok tf server file0 t0 s"
    by (rule shared.reach_inv [OF assms]) (simp add: lock_ok_init files_ok_init)
  then show ?thesis by (auto simp: lock_ok_def files_ok_def set_eq_iff)
qed

theorem share_safe_witness:
  "\<exists>s :: share. sh_pc s 0 = Finished (Inr ex_list) \<and>
     {i. critical (sh_pc s i) \<and> ex_lock i = ex_lock 0} = set_option (sh_lock s (ex_lock 0)) \<and>
     (sh_file s = None \<or> stored_at ex_time ex_server 7 (sh_now s) (sh_file s))"
  using ex_run share_safe [of ex_time ex_server ex_lock None 7] by blast

text \<open>A name with a tab in it, which \<open>parsePreloadJSON\<close> does not refuse, makes a cache file that is not read back: a list
  with such a name is fetched again by every process.\<close>

lemma tab_name_unreadable:
  "usable_list ex_time (Some (marshalCache ex_time \<lparr>pl_entries = [(''a'' @ [CHR 0x09] @ ''b'', \<lparr>pl_includeSubdomains = True, pl_policy = []\<rparr>)],
     pl_fetched = None, pl_note = []\<rparr> 7)) 7 = None"
  by code_simp

text \<open>
  C7. The lock and the second read keep the processes from fetching twice: when they all use one lock
  file, every list the server gives can be stored (its names and policies have none of the separators of
  the cache file, and it is not empty) and the times are ones that the date format reads back, then in the
  seven days after the start of the first process the number of fetches in all processes is at most one
  more than the number of failures (a fetch that failed, or a list that could not be written).
\<close>
theorem share_one_fetch:
  assumes "rtranclp (share_step tf server lockOf) (share_init file0 t0) s" and "sh_now s < t0 + preloadCacheMaxAge"
    and "\<And>i. lockOf i = path"
    and "\<And>n l. server n = Inr l \<Longrightarrow> storable (pl_entries l)"
    and "\<And>t. t0 \<le> t \<Longrightarrow> t < t0 + preloadCacheMaxAge \<Longrightarrow> time_ok tf t"
  shows "sh_fetches s \<le> sh_failures s + 1"
proof -
  define hi where "hi = t0 + preloadCacheMaxAge - 1"
  have "lock_ok lockOf s \<and> files_ok tf server file0 t0 s \<and> fetches_ok tf server t0 hi s"
    using assms(1,2)
  proof (induction rule: rtranclp_induct)
    case base
    show ?case by (simp add: lock_ok_init files_ok_init fetches_ok_init)
  next
    case (step y z)
    have "sh_now y \<le> sh_now z" using step.hyps(2) by (cases rule: share_step.cases) auto
    with step.IH step.prems have ok: "lock_ok lockOf y" "files_ok tf server file0 t0 y" "fetches_ok tf server t0 hi y" by auto
    then have "fetches_ok tf server t0 hi z"
      using step.prems assms(3-5) by (intro fetches_ok_step [OF step.hyps(2)]) (auto simp: hi_def)
    with ok show ?case using lock_ok_step files_ok_step step.hyps(2) by blast
  qed
  then show ?thesis by (auto simp: fetches_ok_def split: if_splits)
qed

theorem share_one_fetch_witness:
  "\<exists>s :: share. sh_pc s 0 = Finished (Inr ex_list) \<and> sh_fetches s \<le> sh_failures s + 1"
proof -
  obtain s where s: "rtranclp (share_step ex_time ex_server ex_lock) (share_init None 7) s" "sh_now s = 7"
      "sh_pc s 0 = Finished (Inr ex_list)" using ex_run by blast
  have "sh_fetches s \<le> sh_failures s + 1"
  proof (rule share_one_fetch [OF s(1)])
    show "ex_lock i = ''/run/lock/domaintest-hsts.lock''" for i by (simp add: ex_lock_def)
    show "sh_now s < 7 + preloadCacheMaxAge" by (simp add: s(2) preloadCacheMaxAge_def)
    show "storable (pl_entries l)" if "ex_server n = Inr l" for n l
    proof -
      have "storable (pl_entries ex_list)" by code_simp
      with that show ?thesis by (simp add: ex_server_def)
    qed
    show "time_ok ex_time t" if "7 \<le> t" "t < 7 + preloadCacheMaxAge" for t
      using that by (intro ex_time_ok) (simp_all add: preloadCacheMaxAge_def max_int64_def)
  qed
  with s(3) show ?thesis by blast
qed

text \<open>
  C15. What a process among many gets is what \<open>loadPreloadList\<close> gives when it runs alone in the world it saw:
  the cache file and the time at its first read; when that read found no fresh list, either its wait for
  the lock ended, or it held the lock and saw the cache file and the time at its second read; when that
  found none either, the answer of the server to a fetch it made with the stale list of that second read
  in hand; and, if that world has the list written, the cache file did hold it.
\<close>
theorem share_refines_load:
  assumes "rtranclp (share_step tf server lockOf) (share_init file0 t0) s" and "sh_pc s i = Finished r"
    and "path \<noteq> []" and "path \<noteq> noCachePath"
  shows "\<exists>w. seen_load tf server lockOf i (share_init file0 t0) s w \<and> fst (loadPreloadList tf path w) = r"
proof -
  have "explained tf server lockOf path (share_init file0 t0) i (sh_pc s i) s \<and> lock_ok lockOf s"
    using assms(1)
  proof (induction rule: rtranclp_induct)
    case base
    show ?case by (simp add: share_init_def lock_ok_def)
  next
    case (step y z)
    then show ?case using explained_step [OF step.hyps(2) _ _ assms(3,4) step.hyps(1)] lock_ok_step by blast
  qed
  with assms(2) show ?thesis by simp
qed

theorem share_refines_load_witness:
  "\<exists>s w. rtranclp (share_step ex_time ex_server ex_lock) (share_init None 7) s \<and>
     seen_load ex_time ex_server ex_lock 0 (share_init None 7) s w \<and> fst (loadPreloadList ex_time ''c'' w) = Inr ex_list"
proof -
  obtain s where s: "rtranclp (share_step ex_time ex_server ex_lock) (share_init None 7) s"
      "sh_pc s 0 = Finished (Inr ex_list)" using ex_run by blast
  have "\<exists>w. seen_load ex_time ex_server ex_lock 0 (share_init None 7) s w \<and> fst (loadPreloadList ex_time ''c'' w) = Inr ex_list"
    by (rule share_refines_load [OF s]) (simp_all add: noCachePath_def)
  with s(1) show ?thesis by blast
qed

end
