(* ===== verification/Cli.thy ===== *)
theory Cli
  imports Run Output Preload_Share
begin

text \<open>
  The command line (\<open>src/main.go\<close>) and the build version (\<open>src/version.go\<close>): splitting the arguments,
  the flags as package flag parses them, the checks of the configuration, and the exit status. The
  environment of the process (the user cache directory, the number of CPUs, the search path) is an
  argument.
\<close>

section \<open>Flags\<close>

datatype flag_kind = FlagBool | FlagInt | FlagString

definition flags :: "(string \<times> flag_kind) list" where
  "flags = [(''4'', FlagBool), (''6'', FlagBool), (''no-hsts-preload'', FlagBool), (''no-rdap'', FlagBool),
     (''t'', FlagInt), (''quic-timeout'', FlagInt), (''tcp-timeout'', FlagInt), (''max-time'', FlagInt),
     (''dns-concurrency'', FlagInt), (''pretty'', FlagBool), (''hsts-cache'', FlagString), (''redirectlog'', FlagBool),
     (''warm-hsts-cache'', FlagBool), (''version'', FlagBool), (''quicprobe'', FlagString), (''dog'', FlagString),
     (''dig'', FlagString), (''rdap'', FlagString)]"

text \<open>The values parsed so far: the fields of the configuration and the four flags that are not.\<close>

record flag_state =
  fl_cfg :: config
  fl_only4 :: bool
  fl_only6 :: bool
  fl_noPreload :: bool
  fl_noRDAP :: bool

definition defaultDNSConcurrency :: "int \<Rightarrow> int" where
  "defaultDNSConcurrency cpus = maxInt 4 (2 * cpus)"

definition newFlagSet :: "int \<Rightarrow> config \<Rightarrow> flag_state" where
  "newFlagSet cpus cfg =
     \<lparr>fl_cfg = cfg\<lparr>cfg_TimeoutSec := 3, cfg_QuicTimeoutSec := 2, cfg_TCPTimeoutSec := 2, cfg_MaxTimeSec := 18,
        cfg_DNSConcurrency := defaultDNSConcurrency cpus, cfg_Pretty := False, cfg_HSTSCache := [], cfg_RedirectLog := False,
        cfg_WarmHSTSCache := False, cfg_ShowVersion := False, cfg_QuicPath := [], cfg_DogPath := [], cfg_DigPath := [],
        cfg_RDAPPath := []\<rparr>,
      fl_only4 = False, fl_only6 = False, fl_noPreload = False, fl_noRDAP = False\<rparr>"

definition set_bool :: "string \<Rightarrow> bool \<Rightarrow> flag_state \<Rightarrow> flag_state" where
  "set_bool name b s =
     (if name = ''4'' then s\<lparr>fl_only4 := b\<rparr> else if name = ''6'' then s\<lparr>fl_only6 := b\<rparr>
      else if name = ''no-hsts-preload'' then s\<lparr>fl_noPreload := b\<rparr> else if name = ''no-rdap'' then s\<lparr>fl_noRDAP := b\<rparr>
      else if name = ''pretty'' then s\<lparr>fl_cfg := (fl_cfg s)\<lparr>cfg_Pretty := b\<rparr>\<rparr>
      else if name = ''redirectlog'' then s\<lparr>fl_cfg := (fl_cfg s)\<lparr>cfg_RedirectLog := b\<rparr>\<rparr>
      else if name = ''warm-hsts-cache'' then s\<lparr>fl_cfg := (fl_cfg s)\<lparr>cfg_WarmHSTSCache := b\<rparr>\<rparr>
      else if name = ''version'' then s\<lparr>fl_cfg := (fl_cfg s)\<lparr>cfg_ShowVersion := b\<rparr>\<rparr> else s)"

definition set_int :: "string \<Rightarrow> int \<Rightarrow> config \<Rightarrow> config" where
  "set_int name n c =
     (if name = ''t'' then c\<lparr>cfg_TimeoutSec := n\<rparr> else if name = ''quic-timeout'' then c\<lparr>cfg_QuicTimeoutSec := n\<rparr>
      else if name = ''tcp-timeout'' then c\<lparr>cfg_TCPTimeoutSec := n\<rparr> else if name = ''max-time'' then c\<lparr>cfg_MaxTimeSec := n\<rparr>
      else if name = ''dns-concurrency'' then c\<lparr>cfg_DNSConcurrency := n\<rparr> else c)"

definition set_string :: "string \<Rightarrow> string \<Rightarrow> config \<Rightarrow> config" where
  "set_string name v c =
     (if name = ''hsts-cache'' then c\<lparr>cfg_HSTSCache := v\<rparr> else if name = ''quicprobe'' then c\<lparr>cfg_QuicPath := v\<rparr>
      else if name = ''dog'' then c\<lparr>cfg_DogPath := v\<rparr> else if name = ''dig'' then c\<lparr>cfg_DigPath := v\<rparr>
      else if name = ''rdap'' then c\<lparr>cfg_RDAPPath := v\<rparr> else c)"

definition ParseBool :: "string \<Rightarrow> bool option" where
  "ParseBool v =
     (if v \<in> {''1'', ''t'', ''T'', ''true'', ''TRUE'', ''True''} then Some True
      else if v \<in> {''0'', ''f'', ''F'', ''false'', ''FALSE'', ''False''} then Some False else None)"

text \<open>An \<open>IntVar\<close> reads its value with \<open>strconv.ParseInt\<close> in base 0; the model takes decimal
  numbers, and leaves the other bases and the underscores to the parameter \<open>base0\<close>.\<close>

definition decimal :: "string \<Rightarrow> bool" where
  "decimal v \<longleftrightarrow> (let d = (case v of c # r \<Rightarrow> if c = CHR ''-'' \<or> c = CHR ''+'' then r else v | [] \<Rightarrow> v)
     in d \<noteq> [] \<and> list_all is_digit d \<and> (length d = 1 \<or> hd d \<noteq> CHR ''0''))"

definition parse_int :: "(string \<Rightarrow> int option) \<Rightarrow> string \<Rightarrow> int option" where
  "parse_int base0 v =
     (if decimal v then (case Atoi v of (n, ok) \<Rightarrow> if ok then Some n else None) else base0 v)"

definition set_flag :: "(string \<Rightarrow> int option) \<Rightarrow> string \<Rightarrow> flag_kind \<Rightarrow> string \<Rightarrow> flag_state \<Rightarrow> flag_state option" where
  "set_flag base0 name kind v s =
     (case kind of
        FlagBool \<Rightarrow> map_option (\<lambda>b. set_bool name b s) (ParseBool v)
      | FlagInt \<Rightarrow> map_option (\<lambda>n. s\<lparr>fl_cfg := set_int name n (fl_cfg s)\<rparr>) (parse_int base0 v)
      | FlagString \<Rightarrow> Some (s\<lparr>fl_cfg := set_string name v (fl_cfg s)\<rparr>))"

text \<open>\<open>FlagSet.Parse\<close>: parsing stops at the first argument that is not a flag and after \<open>--\<close>; what is
  left is not looked at. The texts of its errors are not told apart, but for the request for help.\<close>

definition flag_name :: "string \<Rightarrow> (string \<times> string option) option" where
  "flag_name a =
     (let n = (case a of c # d # _ \<Rightarrow> if c = CHR ''-'' \<and> d = CHR ''-'' then 2 else 1 | _ \<Rightarrow> 1); body = drop n a
      in if body = [] \<or> hd body = CHR ''-'' \<or> hd body = CHR ''='' then None
         else case Cut CHR ''='' body of (name, v) \<Rightarrow> Some (name, v))"

fun flags_Parse :: "(string \<Rightarrow> int option) \<Rightarrow> string list \<Rightarrow> flag_state \<Rightarrow> string + flag_state" where
  "flags_Parse base0 [] s = Inr s"
| "flags_Parse base0 (a # as) s =
     (if length a < 2 \<or> hd a \<noteq> CHR ''-'' then Inr s
      else if a = ''--'' then Inr s
      else case flag_name a of
        None \<Rightarrow> Inl (''bad flag syntax: '' @ a)
      | Some (name, v) \<Rightarrow>
          (case map_of flags name of
             None \<Rightarrow> if name = ''help'' \<or> name = ''h'' then Inl ''flag: help requested''
                     else Inl (''flag provided but not defined: -'' @ name)
           | Some kind \<Rightarrow>
               (case (v, kind) of
                  (None, FlagBool) \<Rightarrow>
                    (case set_flag base0 name kind ''true'' s of
                       None \<Rightarrow> Inl (''invalid boolean flag '' @ name)
                     | Some s1 \<Rightarrow> flags_Parse base0 as s1)
                | (Some x, _) \<Rightarrow>
                    (case set_flag base0 name kind x s of
                       None \<Rightarrow> Inl (''invalid value '' @ Quote x @ '' for flag -'' @ name)
                     | Some s1 \<Rightarrow> flags_Parse base0 as s1)
                | (None, _) \<Rightarrow>
                    (case as of
                       [] \<Rightarrow> Inl (''flag needs an argument: -'' @ name)
                     | x # rest \<Rightarrow>
                         (case set_flag base0 name kind x s of
                            None \<Rightarrow> Inl (''invalid value '' @ Quote x @ '' for flag -'' @ name)
                          | Some s1 \<Rightarrow> flags_Parse base0 rest s1)))))"

section \<open>Splitting the arguments\<close>

definition takesValue :: "string \<Rightarrow> bool" where
  "takesValue a =
     (if CHR ''='' \<in> set a then False
      else case map_of flags (dropWhile (\<lambda>c. c = CHR ''-'') a) of None \<Rightarrow> False | Some kind \<Rightarrow> kind \<noteq> FlagBool)"

record split_state =
  sp_flags :: "string list"
  sp_positional :: "string list"
  sp_server :: string

fun split_loop :: "string list \<Rightarrow> split_state \<Rightarrow> string + split_state" where
  "split_loop [] s = Inr s"
| "split_loop (a # as) s =
     (if HasPrefix a ''@'' then
        (if sp_server s \<noteq> [] then Inl ''only one @server may be given''
         else if TrimPrefix a ''@'' = [] then Inl ''empty @server''
         else split_loop as (s\<lparr>sp_server := TrimPrefix a ''@''\<rparr>))
      else if HasPrefix a ''-'' \<and> length a > 1 then
        (case as of
           v # rest \<Rightarrow> if takesValue a then split_loop rest (s\<lparr>sp_flags := sp_flags s @ [a, v]\<rparr>)
                       else split_loop as (s\<lparr>sp_flags := sp_flags s @ [a]\<rparr>)
         | [] \<Rightarrow> split_loop [] (s\<lparr>sp_flags := sp_flags s @ [a]\<rparr>))
      else split_loop as (s\<lparr>sp_positional := sp_positional s @ [a]\<rparr>))"

definition splitArgs :: "string list \<Rightarrow> string + split_state" where
  "splitArgs args = split_loop args \<lparr>sp_flags = [], sp_positional = [], sp_server = []\<rparr>"

definition is_hyphen_domain :: "string \<Rightarrow> bool" where
  "is_hyphen_domain a \<longleftrightarrow> \<not> (length a < 2 \<or> hd a \<noteq> CHR ''-'' \<or> a = ''--'') \<and>
     map_of flags (fst (Cut CHR ''='' (dropWhile (\<lambda>c. c = CHR ''-'') a))) = None \<and> Contains a ''.''"

definition hyphenDomain :: "string list \<Rightarrow> string option" where
  "hyphenDomain args =
     map_option (\<lambda>a. ''invalid domain '' @ Quote a @ '': a label must not start with a hyphen'') (find is_hyphen_domain args)"

section \<open>The configuration\<close>

definition chooseFamilies :: "bool \<Rightarrow> bool \<Rightarrow> string list" where
  "chooseFamilies only4 only6 =
     (if only4 \<and> \<not> only6 then [familyIPv4] else if only6 \<and> \<not> only4 then [familyIPv6] else [familyIPv4, familyIPv6])"

definition validateTimeouts :: "config \<Rightarrow> string option" where
  "validateTimeouts cfg =
     (case find (\<lambda>c. snd c \<le> 0) [(''-t'', cfg_TimeoutSec cfg), (''-tcp-timeout'', cfg_TCPTimeoutSec cfg),
        (''-quic-timeout'', cfg_QuicTimeoutSec cfg)] of
        Some (flg, secs) \<Rightarrow> Some (flg @ '' must be a positive number of seconds'')
      | None \<Rightarrow> if cfg_MaxTimeSec cfg < 0 then Some ''-max-time must be zero (no deadline) or a positive number of seconds''
                else None)"

definition normalizeDomain :: "dp_lib \<Rightarrow> string \<Rightarrow> string + string \<times> string" where
  "normalizeDomain lib input =
     (case dnsName lib input of
        Inl err \<Rightarrow> Inl (''invalid domain '' @ Quote input @ '': '' @ err)
      | Inr n \<Rightarrow> Inr (ASCII n, if Unicode n \<noteq> ASCII n then Unicode n else []))"

definition domainConfig :: "dp_lib \<Rightarrow> config \<Rightarrow> string list \<Rightarrow> string + config" where
  "domainConfig lib cfg positional =
     (if length positional \<noteq> 1 then Inl ''exactly one domain is required''
      else case validateTimeouts cfg of
             Some err \<Rightarrow> Inl err
           | None \<Rightarrow>
               if cfg_DNSConcurrency cfg < 0 then Inl ''-dns-concurrency must be zero (unlimited) or positive''
               else case normalizeDomain lib (hd positional) of
                      Inl err \<Rightarrow> Inl err
                    | Inr (a, u) \<Rightarrow> Inr (cfg\<lparr>cfg_Domain := a, cfg_UnicodeDomain := u\<rparr>))"

definition warmConfig :: "config \<Rightarrow> string list \<Rightarrow> string + config" where
  "warmConfig cfg positional = (if positional \<noteq> [] then Inl ''-warm-hsts-cache takes no domain'' else Inr cfg)"

definition finishConfig :: "dp_lib \<Rightarrow> config \<Rightarrow> string list \<Rightarrow> string + config" where
  "finishConfig lib cfg positional =
     (if cfg_ShowVersion cfg \<and> positional \<noteq> [] then Inl ''-version takes no domain''
      else if cfg_ShowVersion cfg then Inr cfg
      else if cfg_WarmHSTSCache cfg then warmConfig cfg positional
      else domainConfig lib cfg positional)"

text \<open>The environment of a parse: the user's cache directory, the number of CPUs, and the numbers in other
  bases.\<close>

record cli_env =
  ce_lib :: dp_lib
  ce_UserCacheDir :: "string + string"
  ce_cpus :: int
  ce_base0 :: "string \<Rightarrow> int option"

definition parseArgs :: "cli_env \<Rightarrow> string list \<Rightarrow> string + config" where
  "parseArgs ce args =
     (case splitArgs args of
        Inl err \<Rightarrow> Inl err
      | Inr sp \<Rightarrow>
          (case (if sp_server sp \<noteq> [] then parseResolver (sp_server sp) else Inr (cfg_Resolver zero_config)) of
             Inl err \<Rightarrow> Inl err
           | Inr res \<Rightarrow>
               (case hyphenDomain (sp_flags sp) of
                  Some err \<Rightarrow> Inl err
                | None \<Rightarrow>
                    (case flags_Parse (ce_base0 ce) (sp_flags sp)
                            (newFlagSet (ce_cpus ce) (zero_config\<lparr>cfg_Resolver := res\<rparr>)) of
                       Inl err \<Rightarrow> Inl err
                     | Inr s \<Rightarrow>
                         let c = fl_cfg s;
                             cfg = c\<lparr>cfg_HSTSCache := (if cfg_HSTSCache c = [] then defaultPreloadCachePath (ce_UserCacheDir ce) else cfg_HSTSCache c),
                                     cfg_Families := chooseFamilies (fl_only4 s) (fl_only6 s),
                                     cfg_HSTSPreload := \<not> fl_noPreload s, cfg_RDAP := \<not> fl_noRDAP s,
                                     cfg_dnsFamily := serverFamily (res_Host res)\<rparr>
                         in finishConfig (ce_lib ce) cfg (sp_positional sp)))))"

section \<open>The version\<close>

definition vcs_step :: "string \<times> string \<Rightarrow> string \<times> bool \<Rightarrow> string \<times> bool" where
  "vcs_step st r =
     (if fst st = ''vcs.revision'' then (snd st, snd r)
      else if fst st = ''vcs.modified'' then (fst r, snd st = ''true'') else r)"

definition vcsVersion :: "string \<Rightarrow> (string \<times> string) list \<Rightarrow> string" where
  "vcsVersion version settings =
     (case fold vcs_step settings ([], False) of (revision, dirty) \<Rightarrow>
        if revision = [] then version else if dirty then revision @ ''-dirty'' else revision)"

definition buildVersion :: "string \<Rightarrow> (string \<times> string) list option \<Rightarrow> string" where
  "buildVersion version build =
     (if version \<noteq> ''devel'' then version
      else case build of None \<Rightarrow> version | Some settings \<Rightarrow> vcsVersion version settings)"

section \<open>The process\<close>

record tool_env =
  te_LookPath :: "string \<Rightarrow> string + string"
  te_os :: os_env
  te_lockDir :: bool
  te_lockOpens :: "string \<Rightarrow> bool"

definition resolveTools :: "tool_env \<Rightarrow> config \<Rightarrow> string + config" where
  "resolveTools te cfg =
     (case requireTool (te_LookPath te) (cfg_DogPath cfg) ''dog'' of
        Inl err \<Rightarrow> Inl err
      | Inr dog \<Rightarrow>
          (case requireTool (te_LookPath te) (cfg_DigPath cfg) ''dig'' of
             Inl err \<Rightarrow> Inl err
           | Inr dig \<Rightarrow>
               (case findQuicprobe (te_LookPath te) (te_os te) (cfg_QuicPath cfg) of
                  Inl err \<Rightarrow> Inl err
                | Inr quic \<Rightarrow>
                    let c = cfg\<lparr>cfg_DogPath := dog, cfg_DigPath := dig, cfg_QuicPath := quic\<rparr>
                    in if cfg_RDAP cfg then map_sum id (\<lambda>p. c\<lparr>cfg_RDAPPath := p\<rparr>) (findRDAP (te_LookPath te) (cfg_RDAPPath cfg))
                       else Inr c)))"

definition warmMain :: "tool_env \<Rightarrow> run_env \<Rightarrow> config \<Rightarrow> int" where
  "warmMain te env cfg =
     (case fst (warmPreloadCache (env_tf env) (cfg_HSTSCache cfg)
             (lockPath (te_lockDir te) (te_lockOpens te) (cfg_HSTSCache cfg)) (env_preload env)) of Inl err \<Rightarrow> 2 | Inr msg \<Rightarrow> 0)"

text \<open>What reached the standard output: nothing, the line of \<open>-version\<close>, or the report.\<close>

datatype stdout = NoOutput | VersionLine string | Document string

text \<open>\<open>realMain\<close>: the exit status and the standard output; \<open>printed\<close> says whether writing the report to it
  succeeded. The texts on the standard error are left out.\<close>

definition realMain ::
    "cli_env \<Rightarrow> tool_env \<Rightarrow> run_env \<Rightarrow> bool \<Rightarrow> string list \<Rightarrow> int \<times> stdout" where
  "realMain ce te env printed args =
     (case parseArgs ce args of
        Inl err \<Rightarrow> (2, NoOutput)
      | Inr cfg \<Rightarrow>
          if cfg_ShowVersion cfg then (0, VersionLine (env_version env))
          else if cfg_WarmHSTSCache cfg then (warmMain te env cfg, NoOutput)
          else case resolveTools te cfg of
                 Inl err \<Rightarrow> (2, NoOutput)
               | Inr cfg1 \<Rightarrow>
                   let rep = run env cfg1
                   in if \<not> printed then (2, NoOutput)
                      else (if rep_OK rep then 0 else 1, Document (writeReport rep (cfg_Pretty cfg1))))"


section \<open>Lemmas\<close>

lemma validateTimeouts_iff:
  "validateTimeouts cfg = None \<longleftrightarrow>
     0 < cfg_TimeoutSec cfg \<and> 0 < cfg_TCPTimeoutSec cfg \<and> 0 < cfg_QuicTimeoutSec cfg \<and> 0 \<le> cfg_MaxTimeSec cfg"
  by (auto simp: validateTimeouts_def)

lemma domainConfig_ok:
  "domainConfig lib cfg positional = Inr c \<longleftrightarrow>
     validateTimeouts cfg = None \<and> 0 \<le> cfg_DNSConcurrency cfg \<and>
     (\<exists>d n. positional = [d] \<and> dnsName lib d = Inr n \<and>
       c = cfg\<lparr>cfg_Domain := ASCII n, cfg_UnicodeDomain := (if Unicode n \<noteq> ASCII n then Unicode n else [])\<rparr>)"
  by (auto simp: domainConfig_def normalizeDomain_def length_Suc_conv split: option.splits sum.splits)

definition usable :: "dp_lib \<Rightarrow> config \<Rightarrow> bool" where
  "usable lib cfg \<longleftrightarrow>
     0 < cfg_TimeoutSec cfg \<and> 0 < cfg_TCPTimeoutSec cfg \<and> 0 < cfg_QuicTimeoutSec cfg \<and> 0 \<le> cfg_MaxTimeSec cfg \<and>
     0 \<le> cfg_DNSConcurrency cfg \<and> (\<exists>d n. dnsName lib d = Inr n \<and> cfg_Domain cfg = ASCII n)"

lemma finishConfig_usable:
  assumes "finishConfig lib cfg positional = Inr c"
  shows "(cfg_ShowVersion c \<or> cfg_WarmHSTSCache c \<or> usable lib c) \<and> cfg_Families c = cfg_Families cfg \<and>
    cfg_dnsFamily c = cfg_dnsFamily cfg \<and> cfg_Resolver c = cfg_Resolver cfg"
proof (cases "cfg_ShowVersion cfg \<or> cfg_WarmHSTSCache cfg")
  case True
  with assms show ?thesis by (auto simp: finishConfig_def warmConfig_def split: if_splits)
next
  case False
  with assms have "domainConfig lib cfg positional = Inr c" by (simp add: finishConfig_def)
  then show ?thesis unfolding domainConfig_ok usable_def validateTimeouts_iff using False by fastforce
qed

lemma set_int_keeps: "cfg_Resolver (set_int name n c) = cfg_Resolver c"
  by (simp add: set_int_def)

lemma set_string_keeps: "cfg_Resolver (set_string name v c) = cfg_Resolver c"
  by (simp add: set_string_def)

lemma set_bool_keeps: "cfg_Resolver (fl_cfg (set_bool name b s)) = cfg_Resolver (fl_cfg s)"
  by (simp add: set_bool_def)

lemma set_flag_keeps:
  "set_flag base0 name kind v s = Some s' \<Longrightarrow> cfg_Resolver (fl_cfg s') = cfg_Resolver (fl_cfg s)"
  by (cases kind) (auto simp: set_flag_def set_int_keeps set_string_keeps set_bool_keeps)

lemma flags_Parse_keeps:
  "flags_Parse base0 as s = Inr s' \<Longrightarrow> cfg_Resolver (fl_cfg s') = cfg_Resolver (fl_cfg s)"
proof (induction as arbitrary: s rule: length_induct)
  case (1 as)
  have step: "cfg_Resolver (fl_cfg s') = cfg_Resolver (fl_cfg s)"
    if "set_flag base0 name kind v s = Some s1" "flags_Parse base0 rest s1 = Inr s'" "length rest < length as"
    for rest name kind v s1
    using "1.IH" that set_flag_keeps by metis
  show ?case
  proof (cases as)
    case Nil
    with "1.prems" show ?thesis by simp
  next
    case (Cons a rest)
    show ?thesis
      using "1.prems" unfolding Cons flags_Parse.simps
      by (auto split: if_splits option.splits flag_kind.splits list.splits)
        (rule step, assumption, assumption, simp add: Cons)+
  qed
qed

text \<open>The verdict of a run, and how it shows in the document.\<close>

lemma run_OK: "rep_OK (run env cfg) \<longleftrightarrow> SeverityFail \<notin> fi_Severity ` set (rep_Findings (run env cfg))"
  using run_finished [of env cfg] run_finish_verdict [of env cfg] buildFindings_mirror by (metis (no_types, lifting))

lemma writeReport_parsed:
  "json_parse (writeReport rep pretty) = Some (JObj (map (\<lambda>(k, v). (valid_text k, valid_json v)) (concat (report_fields rep))))"
  by (simp add: writeReport_tree j_Report_def struct_def)

fun failing :: "json \<Rightarrow> bool" where
  "failing (JObj ms) \<longleftrightarrow> map_of ms ''severity'' = Some (JStr ''fail'')"
| "failing j = False"

lemma failing_finding: "failing (valid_json (j_Finding f)) \<longleftrightarrow> fi_Severity f = SeverityFail"
  by (cases "fi_Severity f") (simp_all add: j_Finding_def struct_def valid_text_ascii)

lemma failing_findings:
  "list_ex failing (map (valid_json \<circ> j_Finding) fs) \<longleftrightarrow> SeverityFail \<in> fi_Severity ` set fs"
  by (induction fs) (auto simp: failing_finding eq_commute [of SeverityFail])

section \<open>Properties\<close>

text \<open>
  C16. An invocation that is accepted is one a run can work with: unless it only prints the version or warms
  the cache, every timeout is positive, the deadline and the concurrency are not negative, and the
  domain is the normal form of a valid name. At least one address family is enabled, and a literal
  resolver address pins the family of the lookups.
\<close>
theorem parseArgs_usable:
  assumes "parseArgs ce args = Inr cfg"
  shows "(cfg_ShowVersion cfg \<or> cfg_WarmHSTSCache cfg \<or> usable (ce_lib ce) cfg) \<and>
    cfg_Families cfg \<in> {[familyIPv4], [familyIPv6], [familyIPv4, familyIPv6]} \<and>
    cfg_dnsFamily cfg = serverFamily (res_Host (cfg_Resolver cfg))"
proof -
  from assms obtain res s and sp :: split_state where
    p: "flags_Parse (ce_base0 ce) (sp_flags sp) (newFlagSet (ce_cpus ce) (zero_config\<lparr>cfg_Resolver := res\<rparr>)) = Inr s"
    and f: "finishConfig (ce_lib ce) ((fl_cfg s)\<lparr>cfg_HSTSCache := (if cfg_HSTSCache (fl_cfg s) = [] then defaultPreloadCachePath (ce_UserCacheDir ce)
         else cfg_HSTSCache (fl_cfg s)), cfg_Families := chooseFamilies (fl_only4 s) (fl_only6 s),
       cfg_HSTSPreload := \<not> fl_noPreload s, cfg_RDAP := \<not> fl_noRDAP s,
       cfg_dnsFamily := serverFamily (res_Host res)\<rparr>) (sp_positional sp) = Inr cfg"
    unfolding parseArgs_def Let_def by (auto split: sum.splits option.splits)
  from flags_Parse_keeps [OF p] have "cfg_Resolver (fl_cfg s) = res" by (simp add: newFlagSet_def)
  with finishConfig_usable [OF f] show ?thesis by (auto simp: chooseFamilies_def)
qed

definition ex_cli :: cli_env where
  "ex_cli = \<lparr>ce_lib = ex_lib, ce_UserCacheDir = Inr ''/c'', ce_cpus = 2, ce_base0 = (\<lambda>v. None)\<rparr>"

definition ex_cfg :: config where
  "ex_cfg = (case parseArgs ex_cli [''-t'', ''5'', ''d.org'', ''@192.0.2.1''] of Inr c \<Rightarrow> c | Inl _ \<Rightarrow> zero_config)"

lemma ex_parse: "parseArgs ex_cli [''-t'', ''5'', ''d.org'', ''@192.0.2.1''] = Inr ex_cfg"
  by code_simp

theorem parseArgs_usable_witness:
  "cfg_dnsFamily ex_cfg = serverFamily (res_Host (cfg_Resolver ex_cfg))"
  using parseArgs_usable [OF ex_parse] by blast

text \<open>
  C3. The exit status tells the verdict, and the printed document carries it: when a report is printed,
  the standard output is a JSON object whose member \<open>ok\<close> is true exactly when the status is 0, and the
  status is 1 exactly when an entry of its array \<open>findings\<close> has the severity \<open>fail\<close>. Without a report
  the status is 0 or 2, never 1.
\<close>
theorem realMain_exit:
  "case realMain ce te env printed args of (code, out) \<Rightarrow>
     (case out of
        Document text \<Rightarrow>
          (\<exists>ms fs. json_parse text = Some (JObj ms) \<and> map_of ms ''ok'' = Some (JBool (code = 0)) \<and>
             map_of ms ''findings'' = Some (JArr fs) \<and> (code = 1 \<longleftrightarrow> list_ex failing fs) \<and> code \<in> {0, 1})
      | VersionLine v \<Rightarrow> code = 0
      | NoOutput \<Rightarrow> code \<in> {0, 2})"
proof -
  have doc: "\<exists>ms fs. json_parse (writeReport (run env cfg) pretty) = Some (JObj ms) \<and>
      map_of ms ''ok'' = Some (JBool (rep_OK (run env cfg))) \<and> map_of ms ''findings'' = Some (JArr fs) \<and>
      (\<not> rep_OK (run env cfg) \<longleftrightarrow> list_ex failing fs)" for cfg pretty
    unfolding writeReport_parsed run_OK
    by (intro exI [of _ "map (valid_json \<circ> j_Finding) (rep_Findings (run env cfg))"] exI conjI; (rule refl)?)
      (simp_all add: map_of_valid report_keys_ascii report_members run_OK failing_findings)
  have good: "\<exists>ms. json_parse (writeReport (run env cfg) pretty) = Some (JObj ms) \<and> map_of ms ''ok'' = Some (JBool True) \<and>
      (\<exists>fs. map_of ms ''findings'' = Some (JArr fs) \<and> \<not> list_ex failing fs)" if "rep_OK (run env cfg)" for cfg pretty
    using doc [of cfg pretty] that by auto
  have bad: "\<exists>ms. json_parse (writeReport (run env cfg) pretty) = Some (JObj ms) \<and> map_of ms ''ok'' = Some (JBool False) \<and>
      (\<exists>fs. map_of ms ''findings'' = Some (JArr fs) \<and> list_ex failing fs)" if "\<not> rep_OK (run env cfg)" for cfg pretty
    using doc [of cfg pretty] that by auto
  show ?thesis
    by (auto simp: realMain_def warmMain_def Let_def split: sum.split intro!: good bad)
qed

text \<open>
  Flags after a double hyphen are dropped without a word: \<open>-- -t 9 d.org\<close> is the same invocation as
  \<open>d.org\<close>, with the default timeout. The splitting of the arguments takes \<open>--\<close> for a flag and keeps
  collecting flags after it, and the parsing of the flags stops there.
\<close>
theorem flags_after_dashes_dropped:
  "parseArgs ce [''--'', ''-t'', ''9'', ''d.org''] = parseArgs ce [''d.org''] \<and>
   splitArgs [''--'', ''-t'', ''9'', ''d.org''] =
     Inr \<lparr>sp_flags = [''--'', ''-t'', ''9''], sp_positional = [''d.org''], sp_server = []\<rparr>"
proof -
  have s1: "splitArgs [''--'', ''-t'', ''9'', ''d.org''] =
      Inr \<lparr>sp_flags = [''--'', ''-t'', ''9''], sp_positional = [''d.org''], sp_server = []\<rparr>" by code_simp
  have s2: "splitArgs [''d.org''] = Inr \<lparr>sp_flags = [], sp_positional = [''d.org''], sp_server = []\<rparr>" by code_simp
  have h: "hyphenDomain [''--'', ''-t'', ''9''] = None" "hyphenDomain [] = None" by code_simp+
  show ?thesis by (simp add: parseArgs_def s1 s2 h)
qed

end
