(* ===== verification/Lookups.thy ===== *)
theory Lookups
  imports Resolver Steps Runner
begin

text \<open>
  The lookup cache under concurrent calls (\<open>lookupCache\<close> of \<open>src/run.go\<close>): a call of \<open>get\<close> looks at the
  cache under the mutex, looks at its context, asks the resolver without the mutex, and stores the answer
  under the mutex again. The calls of a run interleave at these points, with each other and with the run,
  which moves the context from phase to phase and may drop the trust of everything that is kept.
\<close>

section \<open>The calls\<close>

text \<open>A call: not begun, past a miss, waiting for the answer to the question of the given number, returned.\<close>

datatype lookup_call =
    CallWaiting
  | CallMissed "string \<times> string"
  | CallAsking "string \<times> string" nat
  | CallReturned Lookup

record lookup_pool =
  lp_cache :: lookupCache
  lp_expired :: bool
  lp_calls :: "lookup_call list"

definition lookups_start :: "(string \<times> string) list \<Rightarrow> lookup_pool" where
  "lookups_start qs = \<lparr>lp_cache = newLookupCache, lp_expired = False, lp_calls = replicate (length qs) CallWaiting\<rparr>"

definition call_to :: "nat \<Rightarrow> lookup_call \<Rightarrow> lookup_pool \<Rightarrow> lookup_pool" where
  "call_to i x s = s\<lparr>lp_calls := (lp_calls s)[i := x]\<rparr>"

inductive lookup_step :: "dp_lib \<Rightarrow> (nat \<Rightarrow> lookupFn) \<Rightarrow> (string \<times> string) list \<Rightarrow> lookup_pool \<Rightarrow> lookup_pool \<Rightarrow> bool"
  for lib :: dp_lib and query :: "nat \<Rightarrow> lookupFn" and qs :: "(string \<times> string) list" where
  kept: "\<lbrakk>i < length (lp_calls s); lp_calls s ! i = CallWaiting; cache_look lib (qs ! i) (lp_cache s) = Inl l\<rbrakk> \<Longrightarrow>
     lookup_step lib query qs s (call_to i (CallReturned l) s)"
| missed: "\<lbrakk>i < length (lp_calls s); lp_calls s ! i = CallWaiting; cache_look lib (qs ! i) (lp_cache s) = Inr q\<rbrakk> \<Longrightarrow>
     lookup_step lib query qs s (call_to i (CallMissed q) s)"
| too_late: "\<lbrakk>i < length (lp_calls s); lp_calls s ! i = CallMissed q; lp_expired s\<rbrakk> \<Longrightarrow>
     lookup_step lib query qs s (call_to i (CallReturned (timed_out_lookup (fst q) (snd q))) s)"
| asks: "\<lbrakk>i < length (lp_calls s); lp_calls s ! i = CallMissed q; \<not> lp_expired s\<rbrakk> \<Longrightarrow>
     lookup_step lib query qs s ((call_to i (CallAsking q (length (lc_asked (lp_cache s)))) s)\<lparr>lp_cache := cache_ask q (lp_cache s)\<rparr>)"
| stores: "\<lbrakk>i < length (lp_calls s); lp_calls s ! i = CallAsking q n; l = query n (fst q) (snd q)\<rbrakk> \<Longrightarrow>
     lookup_step lib query qs s ((call_to i (CallReturned l) s)\<lparr>lp_cache := cache_store q l (lp_cache s)\<rparr>)"
| set_context: "lookup_step lib query qs s (s\<lparr>lp_expired := b\<rparr>)"
| drop_trust: "lookup_step lib query qs s (s\<lparr>lp_cache := cache_dropTrust (lp_cache s)\<rparr>)"

inductive_cases lookup_stepE: "lookup_step lib query qs s t"

section \<open>Lemmas\<close>

lemma call_to_simps [simp]:
  "lp_calls (call_to i x s) = (lp_calls s)[i := x]" "lp_cache (call_to i x s) = lp_cache s" "lp_expired (call_to i x s) = lp_expired s"
  by (simp_all add: call_to_def)

lemma cache_simps [simp]:
  "lc_asked (cache_ask q c) = lc_asked c @ [q]" "lc_done (cache_ask q c) = lc_done c"
  "lc_asked (cache_store q l c) = lc_asked c" "lc_asked (cache_dropTrust c) = lc_asked c"
  "map_of (lc_done (cache_store q l c)) = (map_of (lc_done c))(cache_key q \<mapsto> l)"
  "map_of (lc_done (cache_dropTrust c)) = map_option untrusted \<circ> map_of (lc_done c)"
proof -
  show "map_of (lc_done (cache_dropTrust c)) = map_option untrusted \<circ> map_of (lc_done c)"
    by (simp add: cache_dropTrust_def map_of_map)
qed (simp_all add: cache_ask_def cache_store_def cache_dropTrust_def)

lemma cache_key_inj:
  assumes "cache_key (n, t) = cache_key (m, u)" and "CHR ''/'' \<notin> set t" and "CHR ''/'' \<notin> set u"
  shows "n = m \<and> t = u"
proof -
  have "rev t @ CHR ''/'' # rev n = rev u @ CHR ''/'' # rev m"
    using arg_cong [OF assms(1), of rev] by (simp add: cache_key_def)
  moreover have "takeWhile (\<lambda>c. c \<noteq> CHR ''/'') (rev x @ CHR ''/'' # y) = rev x" if "CHR ''/'' \<notin> set x" for x y :: string
    using that by (subst takeWhile_append2) auto
  ultimately have "rev t = rev u" using assms(2,3) by metis
  with assms(1) show ?thesis by (simp add: cache_key_def)
qed

text \<open>What an answer to a question may be: what the resolver gave to it, perhaps without its trust.\<close>

definition answered_by :: "(nat \<Rightarrow> lookupFn) \<Rightarrow> (string \<times> string) list \<Rightarrow> string \<times> string \<Rightarrow> Lookup \<Rightarrow> bool" where
  "answered_by query asked q l \<longleftrightarrow>
     (\<exists>n < length asked. asked ! n = q \<and> l \<in> {query n (fst q) (snd q), untrusted (query n (fst q) (snd q))})"

lemma answered_by_later: "answered_by query asked q l \<Longrightarrow> answered_by query (asked @ later) q l"
  by (force simp: answered_by_def nth_append)

lemma untrusted_idem [simp]: "untrusted (untrusted l) = untrusted l"
  by (simp add: untrusted_def)

lemma answered_by_untrusted: "answered_by query asked q l \<Longrightarrow> answered_by query asked q (untrusted l)"
  by (auto simp: answered_by_def)

text \<open>Whether a call is where its question may have brought it.\<close>

definition asked_of :: "dp_lib \<Rightarrow> string \<times> string \<Rightarrow> string \<times> string \<Rightarrow> bool" where
  "asked_of lib q k = (case dnsName lib (fst q) of Inl err \<Rightarrow> False | Inr n \<Rightarrow> k = (ASCII n, snd q))"

definition call_ok :: "dp_lib \<Rightarrow> (nat \<Rightarrow> lookupFn) \<Rightarrow> (string \<times> string) list \<Rightarrow> string \<times> string \<Rightarrow> lookup_call \<Rightarrow> bool" where
  "call_ok lib query asked q x =
     (case x of
        CallWaiting \<Rightarrow> True
      | CallMissed k \<Rightarrow> asked_of lib q k
      | CallAsking k n \<Rightarrow> asked_of lib q k \<and> n < length asked \<and> asked ! n = k
      | CallReturned l \<Rightarrow>
          (case dnsName lib (fst q) of
             Inl err \<Rightarrow> lk_Status l = StatusFailure \<and> lk_Error l = ''not a valid DNS name: '' @ err
           | Inr n \<Rightarrow> l = timed_out_lookup (ASCII n) (snd q) \<or> answered_by query asked (ASCII n, snd q) l))"

lemma call_ok_later: "call_ok lib query asked q x \<Longrightarrow> call_ok lib query (asked @ later) q x"
  by (auto simp: call_ok_def nth_append answered_by_later split: lookup_call.splits sum.splits)

definition slashless :: "string \<times> string \<Rightarrow> bool" where
  "slashless q \<longleftrightarrow> CHR ''/'' \<notin> set (snd q)"

definition cache_ok :: "(nat \<Rightarrow> lookupFn) \<Rightarrow> lookupCache \<Rightarrow> bool" where
  "cache_ok query c \<longleftrightarrow> (\<forall>k l. map_of (lc_done c) k = Some l \<longrightarrow>
     (\<exists>q. slashless q \<and> k = cache_key q \<and> answered_by query (lc_asked c) q l))"

definition asking :: "lookup_call \<Rightarrow> bool" where
  "asking x = (case x of CallWaiting \<Rightarrow> False | CallMissed q \<Rightarrow> False | _ \<Rightarrow> True)"

definition pool_ok :: "dp_lib \<Rightarrow> (nat \<Rightarrow> lookupFn) \<Rightarrow> (string \<times> string) list \<Rightarrow> lookup_pool \<Rightarrow> bool" where
  "pool_ok lib query qs s \<longleftrightarrow> cache_ok query (lp_cache s) \<and>
     list_all2 (call_ok lib query (lc_asked (lp_cache s))) qs (lp_calls s) \<and>
     length (lc_asked (lp_cache s)) \<le> length (filter asking (lp_calls s))"

lemma cache_look_Inr: "cache_look lib q c = Inr k \<Longrightarrow> asked_of lib q k \<and> map_of (lc_done c) (cache_key k) = None"
  by (auto simp: cache_look_def asked_of_def split: sum.splits option.splits)

lemma cache_look_Inl:
  assumes "cache_look lib q c = Inl l" and "cache_ok query c" and "slashless q"
  shows "call_ok lib query (lc_asked c) q (CallReturned l)"
proof (cases "dnsName lib (fst q)")
  case (Inl err)
  with assms(1) show ?thesis by (auto simp: call_ok_def cache_look_def)
next
  case (Inr n)
  with assms(1) have "map_of (lc_done c) (cache_key (ASCII n, snd q)) = Some l" by (auto simp: cache_look_def split: option.splits)
  with assms(2) obtain k where "slashless k" "cache_key (ASCII n, snd q) = cache_key k" "answered_by query (lc_asked c) k l"
    unfolding cache_ok_def by blast
  with assms(3) Inr show ?thesis
    using cache_key_inj [of "ASCII n" "snd q" "fst k" "snd k"] by (auto simp: call_ok_def slashless_def)
qed

lemma asked_of_slashless: "asked_of lib q k \<Longrightarrow> slashless q \<Longrightarrow> slashless k"
  by (auto simp: asked_of_def slashless_def split: sum.splits)

lemma asking_update:
  assumes "i < length xs" and "\<not> asking (xs ! i) \<or> asking x"
  shows "length (filter asking xs) + (if asking x \<and> \<not> asking (xs ! i) then 1 else 0) \<le> length (filter asking (xs[i := x]))"
proof -
  have a: "length (filter asking xs) = length (filter asking (take i xs)) + (if asking (xs ! i) then 1 else 0) +
      length (filter asking (drop (Suc i) xs))"
    by (subst id_take_nth_drop [OF assms(1)]) simp
  have b: "length (filter asking (xs[i := x])) = length (filter asking (take i xs)) + (if asking x then 1 else 0) +
      length (filter asking (drop (Suc i) xs))"
    using assms(1) by (simp add: upd_conv_take_nth_drop)
  show ?thesis using a b assms(2) by auto
qed

lemma pool_ok_start: "pool_ok lib query qs (lookups_start qs)"
proof -
  have "list_all2 (call_ok lib query []) qs (replicate (length qs) CallWaiting)"
    by (simp add: list_all2_conv_all_nth call_ok_def)
  then show ?thesis by (simp add: pool_ok_def lookups_start_def newLookupCache_def cache_ok_def)
qed

text \<open>A call that moves to a place its question allows, in a cache that has heard of more questions.\<close>

lemma pool_ok_call:
  assumes "pool_ok lib query qs s" and "i < length (lp_calls s)" and "\<not> asking (lp_calls s ! i) \<or> asking x"
    and "lp_calls t = (lp_calls s)[i := x]" and "lc_asked (lp_cache t) = lc_asked (lp_cache s) @ later"
    and "call_ok lib query (lc_asked (lp_cache t)) (qs ! i) x" and "cache_ok query (lp_cache t)"
    and "length later \<le> (if asking x \<and> \<not> asking (lp_calls s ! i) then 1 else 0)"
  shows "pool_ok lib query qs t"
proof -
  have old: "list_all2 (call_ok lib query (lc_asked (lp_cache t))) qs (lp_calls s)"
    using assms(1,5) call_ok_later by (auto simp: pool_ok_def list_all2_conv_all_nth)
  then have "i < length qs" using assms(2) by (simp add: list_all2_lengthD)
  then have "list_all2 (call_ok lib query (lc_asked (lp_cache t))) qs (lp_calls t)"
    using old assms(2,4,6) by (auto simp: list_all2_conv_all_nth nth_list_update)
  moreover have "length (lc_asked (lp_cache t)) \<le> length (filter asking (lp_calls t))"
    using asking_update [OF assms(2,3)] assms(1,4,5,8) by (simp add: pool_ok_def)
  ultimately show ?thesis using assms(7) by (simp add: pool_ok_def)
qed

lemma pool_ok_step:
  assumes "lookup_step lib query qs s t" and "pool_ok lib query qs s" and "list_all slashless qs"
  shows "pool_ok lib query qs t"
proof -
  have c: "cache_ok query (lp_cache s)" and calls: "list_all2 (call_ok lib query (lc_asked (lp_cache s))) qs (lp_calls s)"
    using assms(2) by (auto simp: pool_ok_def)
  have at: "call_ok lib query (lc_asked (lp_cache s)) (qs ! i) (lp_calls s ! i) \<and> slashless (qs ! i)" if "i < length (lp_calls s)" for i
    using that calls assms(3) by (auto simp: list_all2_conv_all_nth list_all_length)
  from assms(1) show ?thesis
  proof (cases rule: lookup_step.cases)
    case (kept i l)
    with cache_look_Inl [OF kept(4) c] at [of i] c show ?thesis
      by (intro pool_ok_call [OF assms(2), of i "CallReturned l" t "[]"]) (auto simp: asking_def)
  next
    case (missed i q)
    with cache_look_Inr [OF missed(4)] c show ?thesis
      by (intro pool_ok_call [OF assms(2), of i "CallMissed q" t "[]"]) (auto simp: asking_def call_ok_def)
  next
    case (too_late i q)
    then have "asked_of lib (qs ! i) q" using at [of i] by (simp add: call_ok_def)
    with too_late c show ?thesis
      by (intro pool_ok_call [OF assms(2), of i _ t "[]"]) (auto simp: asking_def call_ok_def asked_of_def split: sum.splits)
  next
    case (asks i q)
    then have "asked_of lib (qs ! i) q" using at [of i] by (simp add: call_ok_def)
    moreover have "cache_ok query (cache_ask q (lp_cache s))" using c answered_by_later by (fastforce simp: cache_ok_def)
    ultimately show ?thesis using asks
      by (intro pool_ok_call [OF assms(2), of i _ t "[q]"]) (auto simp: asking_def call_ok_def nth_append)
  next
    case (stores i q n l)
    then have ok: "asked_of lib (qs ! i) q" "n < length (lc_asked (lp_cache s))" "lc_asked (lp_cache s) ! n = q"
      using at [of i] by (simp_all add: call_ok_def)
    then have ans: "answered_by query (lc_asked (lp_cache s)) q l" using stores by (auto simp: answered_by_def)
    have "slashless q" using ok(1) at [of i] stores asked_of_slashless by blast
    with ans c have "cache_ok query (cache_store q l (lp_cache s))"
      unfolding cache_ok_def cache_simps fun_upd_apply by (metis option.inject)
    with stores ans ok(1) show ?thesis
      by (intro pool_ok_call [OF assms(2), of i _ t "[]"]) (auto simp: asking_def call_ok_def asked_of_def split: sum.splits)
  next
    case (set_context b)
    with assms(2) show ?thesis by (simp add: pool_ok_def)
  next
    case drop_trust
    have "cache_ok query (cache_dropTrust (lp_cache s))" using c answered_by_untrusted by (fastforce simp: cache_ok_def)
    with drop_trust assms(2) show ?thesis by (simp add: pool_ok_def)
  qed
qed

interpretation pooled: invariant_steps "lookup_step lib query qs" "\<lambda>s. pool_ok lib query qs s \<and> list_all slashless qs"
    for lib query qs
  by unfold_locales (auto intro: pool_ok_step)

text \<open>An answer that is kept stays, and only the calls that missed it before can still ask.\<close>

definition settled :: "string \<times> string \<Rightarrow> nat \<Rightarrow> lookup_pool \<Rightarrow> bool" where
  "settled q k s \<longleftrightarrow> map_of (lc_done (lp_cache s)) (cache_key q) \<noteq> None \<and>
     count_list (lc_asked (lp_cache s)) q + count_list (lp_calls s) (CallMissed q) \<le> k"

lemma settled_step:
  assumes "lookup_step lib query qs s t" and "settled q k s"
  shows "settled q k t"
  using assms(1)
proof (cases rule: lookup_step.cases)
  case (kept i l)
  with count_list_update [OF kept(2,3), of "CallReturned l" "CallMissed q"] assms(2) show ?thesis by (simp add: settled_def)
next
  case (missed i p)
  then have "p \<noteq> q" using cache_look_Inr [OF missed(4)] assms(2) by (auto simp: settled_def)
  with missed count_list_update [OF missed(2,3), of "CallMissed p" "CallMissed q"] assms(2) show ?thesis by (simp add: settled_def)
next
  case (too_late i p)
  with count_list_update [OF too_late(2,3), of "CallReturned (timed_out_lookup (fst p) (snd p))" "CallMissed q"] assms(2)
  show ?thesis by (auto simp: settled_def split: if_splits)
next
  case (asks i p)
  with count_list_update [OF asks(2,3), of "CallAsking p (length (lc_asked (lp_cache s)))" "CallMissed q"] assms(2)
  show ?thesis by (auto simp: settled_def split: if_splits)
next
  case (stores i p n l)
  with count_list_update [OF stores(2,3), of "CallReturned l" "CallMissed q"] assms(2) show ?thesis by (simp add: settled_def)
qed (use assms(2) in \<open>simp_all add: settled_def\<close>)

interpretation kept: invariant_steps "lookup_step lib query qs" "settled q k" for lib query qs q k
  by unfold_locales (rule settled_step)

section \<open>Properties\<close>


text \<open>Two calls of one question that overlap, and the pool after both: the resolver is asked twice, and
  each call returns the answer to its own question.\<close>

definition ex_answers :: "nat \<Rightarrow> lookupFn" where
  "ex_answers i name qtype = zero_Lookup\<lparr>lk_Retries := i\<rparr>"

definition ex_twice :: "(string \<times> string) list" where
  "ex_twice = [(''a'', ''A''), (''a'', ''A'')]"

definition ex_after :: lookup_pool where
  "ex_after = \<lparr>lp_cache = \<lparr>lc_done = [(''a/A'', zero_Lookup\<lparr>lk_Retries := 1\<rparr>)], lc_asked = ex_twice\<rparr>, lp_expired = False,
     lp_calls = [CallReturned zero_Lookup, CallReturned (zero_Lookup\<lparr>lk_Retries := 1\<rparr>)]\<rparr>"

lemma asked_twice: "rtranclp (lookup_step ex_lib ex_answers ex_twice) (lookups_start ex_twice) ex_after"
proof -
  let ?step = "lookup_step ex_lib ex_answers ex_twice" and ?q = "(''a'', ''A'')"
  define s0 where "s0 = lookups_start ex_twice"
  define s1 where "s1 = call_to 0 (CallMissed ?q) s0"
  define s2 where "s2 = call_to 1 (CallMissed ?q) s1"
  define s3 where "s3 = (call_to 0 (CallAsking ?q 0) s2)\<lparr>lp_cache := cache_ask ?q (lp_cache s2)\<rparr>"
  define s4 where "s4 = (call_to 1 (CallAsking ?q 1) s3)\<lparr>lp_cache := cache_ask ?q (lp_cache s3)\<rparr>"
  define s5 where "s5 = (call_to 0 (CallReturned zero_Lookup) s4)\<lparr>lp_cache := cache_store ?q zero_Lookup (lp_cache s4)\<rparr>"
  define s6 where "s6 = (call_to 1 (CallReturned (zero_Lookup\<lparr>lk_Retries := 1\<rparr>)) s5)
     \<lparr>lp_cache := cache_store ?q (zero_Lookup\<lparr>lk_Retries := 1\<rparr>) (lp_cache s5)\<rparr>"
  note defs = s0_def s1_def s2_def s3_def s4_def s5_def s6_def lookups_start_def ex_twice_def newLookupCache_def
  have look: "cache_look ex_lib ?q newLookupCache = Inr ?q" by (simp add: cache_look_def dnsName_def ex_lib_def newLookupCache_def)
  have 1: "?step s0 s1" unfolding s1_def by (rule lookup_step.missed) (use look in \<open>simp_all add: defs\<close>)
  have 2: "?step s1 s2" unfolding s2_def by (rule lookup_step.missed) (use look in \<open>simp_all add: defs\<close>)
  have 3: "?step s2 s3" unfolding s3_def using lookup_step.asks [of 0 s2 ?q] by (simp add: defs)
  have 4: "?step s3 s4" unfolding s4_def using lookup_step.asks [of 1 s3 ?q] by (simp add: defs)
  have zero: "zero_Lookup\<lparr>lk_Retries := 0\<rparr> = zero_Lookup" by (simp add: zero_Lookup_def)
  have 5: "?step s4 s5" unfolding s5_def by (rule lookup_step.stores [where n = 0]) (simp_all add: defs ex_answers_def zero)
  have 6: "?step s5 s6" unfolding s6_def by (rule lookup_step.stores [where n = 1]) (simp_all add: defs ex_answers_def)
  have "s6 = ex_after" by (simp add: defs ex_after_def call_to_def cache_ask_def cache_store_def cache_key_def)
  moreover note more_steps = rtranclp.rtrancl_into_rtrancl [where r = ?step]
  have "rtranclp ?step s0 s6"
    by (rule more_steps [OF more_steps [OF more_steps [OF more_steps [OF more_steps [OF r_into_rtranclp [where r = ?step, OF 1] 2] 3] 4] 5] 6])
  ultimately show ?thesis by (simp add: s0_def)
qed


end
