(* ===== verification/Deadlines.thy ===== *)
theory Deadlines
  imports Schedule Cli Lookups
begin

text \<open>
  The deadlines of a run (\<open>runContext\<close> of \<open>src/main.go\<close>, the budgets and contexts of \<open>src/run.go\<close>,
  \<open>src/rdap.go\<close> and \<open>src/runner.go\<close>): the goroutines of the theory Schedule with a clock. Times are in
  nanoseconds. Computing takes no time; an operation started under a context that has already ended
  returns at once, and one that is running when its context ends returns within \<open>toolWaitDelay\<close>, the
  time a killed tool has to close its pipes. A cancel is not counted on to end anything: the handshakes of
  the web probes end at the deadline of their connection, which is that of their context.
\<close>

section \<open>Durations and contexts\<close>

text \<open>A \<open>time.Duration\<close> is an \<open>int64\<close>, and its arithmetic wraps around.\<close>

definition int64 :: "int \<Rightarrow> int" where
  "int64 n = (n + 2 ^ 63) mod 2 ^ 64 - 2 ^ 63"

definition timeout :: "config \<Rightarrow> int" where
  "timeout cfg = int64 (cfg_TimeoutSec cfg * second)"

definition tcpTimeout :: "config \<Rightarrow> int" where
  "tcpTimeout cfg = int64 (cfg_TCPTimeoutSec cfg * second)"

definition probeBudget :: "config \<Rightarrow> int" where
  "probeBudget cfg =
     (let b = int64 (3 * tcpTimeout cfg); q = int64 (int64 (cfg_QuicTimeoutSec cfg * second) + second)
      in int64 ((if q > b then q else b) + second))"

definition toolWaitDelay :: int where "toolWaitDelay = 500000000"

text \<open>A context is its deadline, if it has one; the deadline of a derived context is never later.\<close>

type_synonym ctx = "int option"

definition WithTimeout :: "ctx \<Rightarrow> int \<Rightarrow> int \<Rightarrow> int" where
  "WithTimeout parent now d = (case parent of None \<Rightarrow> now + d | Some p \<Rightarrow> min p (now + d))"

definition ctx_Err :: "ctx \<Rightarrow> int \<Rightarrow> bool" where
  "ctx_Err c now = (case c of None \<Rightarrow> False | Some d \<Rightarrow> d \<le> now)"

definition runContext :: "config \<Rightarrow> int \<Rightarrow> ctx" where
  "runContext cfg now =
     (if cfg_MaxTimeSec cfg = 0 then None else Some (WithTimeout None now (int64 (cfg_MaxTimeSec cfg * second))))"

text \<open>When an operation started now under a derived context has returned.\<close>

definition returns_by :: "ctx \<Rightarrow> int \<Rightarrow> int \<Rightarrow> int" where
  "returns_by parent now d =
     (let deadline = WithTimeout parent now d in if deadline \<le> now then now else deadline + toolWaitDelay)"

section \<open>The lookup cache and its phases\<close>

text \<open>The cache with the context of the current phase, which the run advances: a question that misses
  it is asked only while that context lasts.\<close>

record phase_cache =
  ph_cache :: lookupCache
  ph_ctx :: ctx

definition setContext :: "ctx \<Rightarrow> phase_cache \<Rightarrow> phase_cache" where
  "setContext c p = p\<lparr>ph_ctx := c\<rparr>"

definition phase_get ::
    "dp_lib \<Rightarrow> (nat \<Rightarrow> lookupFn) \<Rightarrow> int \<Rightarrow> string \<times> string \<Rightarrow> phase_cache \<Rightarrow> Lookup \<times> phase_cache" where
  "phase_get lib query now q p =
     (case cache_get lib query (ctx_Err (ph_ctx p) now) q (ph_cache p) of (l, c) \<Rightarrow> (l, p\<lparr>ph_cache := c\<rparr>))"

section \<open>The clock of a run\<close>

text \<open>When the trace, the wave of lookups in flight, the operation of the run itself, the web probes
  and the registration lookup have returned at the latest.\<close>

record dues =
  du_trace :: int
  du_wave :: int
  du_main :: int
  du_web :: int
  du_rdap :: int

record timed =
  tm_run :: run_state
  tm_now :: int
  tm_dues :: dues

definition timed_start :: "run_env \<Rightarrow> config \<Rightarrow> int \<Rightarrow> timed" where
  "timed_start env cfg t0 =
     (let c = runContext cfg t0
      in \<lparr>tm_run = run_start env cfg, tm_now = t0,
          tm_dues = \<lparr>du_trace = returns_by c t0 (int64 (2 * timeout cfg)), du_wave = returns_by c t0 (timeout cfg), du_main = t0,
            du_web = t0, du_rdap = returns_by c t0 (int64 (timeout cfg + second))\<rparr>\<rparr>)"

text \<open>The contexts made at a step: the second wave and the web probes after the first wave, the bogus
  probe of \<open>classifyZone\<close>, the audit ahead of the probes, the last phase.\<close>

definition new_dues :: "config \<Rightarrow> ctx \<Rightarrow> int \<Rightarrow> run_pc \<Rightarrow> run_pc \<Rightarrow> dues \<Rightarrow> dues" where
  "new_dues cfg c now p p' d =
     (case p' of
        Gathering b n \<Rightarrow>
          if n = 1 \<and> p = Gathering b 0
          then d\<lparr>du_wave := returns_by c now (timeout cfg), du_web := returns_by c now (probeBudget cfg)\<rparr>
          else if b \<and> n = 2 then d\<lparr>du_main := returns_by c now (timeout cfg)\<rparr> else d
      | Classified \<Rightarrow> d\<lparr>du_main := returns_by c now (probeBudget cfg)\<rparr>
      | Probing a D \<Rightarrow> if D = {} then d\<lparr>du_main := returns_by c now (probeBudget cfg)\<rparr> else d
      | _ \<Rightarrow> d)"

text \<open>What is running: the latest returns of the operations in progress.\<close>

fun main_dues :: "run_pc \<Rightarrow> dues \<Rightarrow> int list" where
  "main_dues (Gathering b n) d =
     (if b then [] else [du_trace d]) @ (if n < 2 then [du_wave d] else []) @ (if b \<and> n = 2 then [du_main d] else [])"
| "main_dues Classified d = [du_main d]"
| "main_dues (Probing a D) d = (if {1, 2, 3} \<subseteq> D then [] else [du_main d])"
| "main_dues p d = []"

definition running_dues :: "run_state \<Rightarrow> dues \<Rightarrow> int list" where
  "running_dues s d = main_dues (rs_pc s) d @ (if web_running (rs_web s) then [du_web d] else []) @
     (if rs_rdap s = None then [du_rdap d] else [])"

text \<open>Whether the run has nothing to wait for, and so goes on at once.\<close>

fun wait_over :: "run_state \<Rightarrow> run_pc \<Rightarrow> bool" where
  "wait_over s Classified \<longleftrightarrow> \<not> delegationSilent (rep_Delegation (rs_rep s)) (at (dn_apex (rs_dns s)) ''NS'')"
| "wait_over s Draining \<longleftrightarrow> \<not> web_running (rs_web s)"
| "wait_over s (Probing a D) \<longleftrightarrow> D = {0, 1, 2, 3} \<or> 0 \<notin> D \<and> \<not> web_running (rs_web s)"
| "wait_over s Joining \<longleftrightarrow> rs_rdap s \<noteq> None"
| "wait_over s (Gathering b n) \<longleftrightarrow> False"
| "wait_over s p \<longleftrightarrow> True"

text \<open>A goroutine takes a step, or time passes. A step sees the clock: whether the context of the run has
  ended and the milliseconds since its start, which \<open>finishReport\<close> writes into the report.\<close>

definition env_at :: "run_env \<Rightarrow> config \<Rightarrow> int \<Rightarrow> int \<Rightarrow> run_env" where
  "env_at env cfg t0 now = env\<lparr>env_deadline := ctx_Err (runContext cfg t0) now, env_elapsed := (now - t0) div 1000000\<rparr>"

inductive timed_step :: "run_env \<Rightarrow> config \<Rightarrow> int \<Rightarrow> timed \<Rightarrow> timed \<Rightarrow> bool"
  for env :: run_env and cfg :: config and t0 :: int where
  act: "\<lbrakk>run_step (env_at env cfg t0 (tm_now x)) cfg (tm_run x) s; rs_pc s = rs_pc (tm_run x)\<rbrakk> \<Longrightarrow>
     timed_step env cfg t0 x (x\<lparr>tm_run := s\<rparr>)"
| move: "\<lbrakk>run_step (env_at env cfg t0 (tm_now x)) cfg (tm_run x) s; rs_pc s \<noteq> rs_pc (tm_run x)\<rbrakk> \<Longrightarrow>
     timed_step env cfg t0 x (x\<lparr>tm_run := s,
       tm_dues := new_dues cfg (runContext cfg t0) (tm_now x) (rs_pc (tm_run x)) (rs_pc s) (tm_dues x)\<rparr>)"
| tick: "\<lbrakk>tm_now x \<le> t; \<not> wait_over (tm_run x) (rs_pc (tm_run x));
       list_all (\<lambda>d. t \<le> d) (running_dues (tm_run x) (tm_dues x))\<rbrakk> \<Longrightarrow> timed_step env cfg t0 x (x\<lparr>tm_now := t\<rparr>)"

inductive_cases timed_stepE: "timed_step env cfg t0 x y"

section \<open>Lemmas\<close>

lemma int64_id: "- (2 ^ 63) \<le> n \<Longrightarrow> n < 2 ^ 63 \<Longrightarrow> int64 n = n"
  by (simp add: int64_def)

lemma WithTimeout_le: "WithTimeout (Some p) now d \<le> p" "WithTimeout c now d \<le> now + d"
  by (auto simp: WithTimeout_def split: option.split)

lemma returns_by_bounds:
  "returns_by (Some p) now d \<le> max now (p + toolWaitDelay)"
  "0 \<le> d \<Longrightarrow> returns_by c now d \<le> now + d + toolWaitDelay"
  using WithTimeout_le(1) [of p now d] WithTimeout_le(2) [of c now d] by (auto simp: returns_by_def Let_def toolWaitDelay_def)

lemma something_runs:
  assumes "pc_inv env cfg (rs_pc s) s" and "\<not> wait_over s (rs_pc s)"
  shows "running_dues s d \<noteq> []"
proof (cases "rs_pc s")
  case (Gathering b n)
  with assms(1) have "n \<le> 2" by simp
  then show ?thesis using Gathering by (cases b; cases "n < 2") (auto simp: running_dues_def)
next
  case (Probing a D)
  with assms have D: "D \<subseteq> {0, 1, 2, 3}" "D \<noteq> {0, 1, 2, 3}" "0 \<in> D \<or> web_running (rs_web s)" by (simp_all del: One_nat_def)
  show ?thesis
  proof (cases "{1, 2, 3} \<subseteq> D")
    case True
    with D have "web_running (rs_web s)" by blast
    then show ?thesis by (simp add: running_dues_def)
  qed (simp add: running_dues_def Probing del: One_nat_def insert_subset)
qed (use assms(2) in \<open>auto simp: running_dues_def\<close>)

text \<open>What the clock says matters to one step only, the last one of the report: every other step, and what
  holds before it, is the same at every time.\<close>

lemma env_at_fields [simp]:
  "env_lib (env_at env cfg t0 now) = env_lib env" "env_sha (env_at env cfg t0 now) = env_sha env"
  "env_tf (env_at env cfg t0 now) = env_tf env" "env_version (env_at env cfg t0 now) = env_version env"
  "env_start (env_at env cfg t0 now) = env_start env" "env_dig (env_at env cfg t0 now) = env_dig env"
  "env_traceAlive (env_at env cfg t0 now) = env_traceAlive env" "env_conf (env_at env cfg t0 now) = env_conf env"
  "env_lookupIP (env_at env cfg t0 now) = env_lookupIP env" "env_dog (env_at env cfg t0 now) = env_dog env"
  "env_dog2 (env_at env cfg t0 now) = env_dog2 env" "env_dogAlive (env_at env cfg t0 now) = env_dogAlive env"
  "env_get1 (env_at env cfg t0 now) = env_get1 env" "env_get2 (env_at env cfg t0 now) = env_get2 env"
  "env_get3 (env_at env cfg t0 now) = env_get3 env" "env_get4 (env_at env cfg t0 now) = env_get4 env"
  "env_cache (env_at env cfg t0 now) = env_cache env" "env_labels (env_at env cfg t0 now) = env_labels env"
  "env_dig2 (env_at env cfg t0 now) = env_dig2 env" "env_auditAlive (env_at env cfg t0 now) = env_auditAlive env"
  "env_x509 (env_at env cfg t0 now) = env_x509 env" "env_issuer (env_at env cfg t0 now) = env_issuer env"
  "env_net (env_at env cfg t0 now) = env_net env" "env_quic (env_at env cfg t0 now) = env_quic env"
  "env_connect (env_at env cfg t0 now) = env_connect env" "env_mail (env_at env cfg t0 now) = env_mail env"
  "env_preload (env_at env cfg t0 now) = env_preload env" "env_rdap (env_at env cfg t0 now) = env_rdap env"
  "env_jsonErr (env_at env cfg t0 now) = env_jsonErr env"
  "env_deadline (env_at env cfg t0 now) = ctx_Err (runContext cfg t0) now"
  "env_elapsed (env_at env cfg t0 now) = (now - t0) div 1000000"
  by (simp_all add: env_at_def)

lemma env_at_calls [simp]:
  "run_ask (env_at env cfg t0 now) = run_ask env" "audit_one (env_at env cfg t0 now) = audit_one env"
  "probe_one (env_at env cfg t0 now) = probe_one env"
  by (simp_all add: fun_eq_iff run_ask_def audit_one_def probe_one_def)

lemma env_at_phases [simp]:
  "run_dns (env_at env cfg t0 now) = run_dns env" "run_web (env_at env cfg t0 now) = run_web env"
  "run_gather (env_at env cfg t0 now) = run_gather env" "runTrace (env_at env cfg t0 now) = runTrace env"
  "is_reserved (env_at env cfg t0 now) = is_reserved env" "auditFirst (env_at env cfg t0 now) = auditFirst env"
  "probe_tasks (env_at env cfg t0 now) = probe_tasks env" "assemble (env_at env cfg t0 now) = assemble env"
  by (simp_all add: fun_eq_iff run_dns_def run_web_def run_gather_def runTrace_def is_reserved_def auditFirst_def
      probe_tasks_def assemble_def Let_def)

lemma env_at_inv [simp]:
  "silent_zone (env_at env cfg t0 now) = silent_zone env" "goroutines_ok (env_at env cfg t0 now) = goroutines_ok env"
  "run_start (env_at env cfg t0 now) = run_start env"
  by (simp_all add: fun_eq_iff silent_zone_def goroutines_ok_def run_start_def)

fun finished_pc :: "run_pc \<Rightarrow> bool" where
  "finished_pc Deferred = True"
| "finished_pc Exiting = True"
| "finished_pc Over = True"
| "finished_pc p = False"

lemma finished_wait: "finished_pc (rs_pc s) \<Longrightarrow> wait_over s (rs_pc s)"
  by (cases "rs_pc s") simp_all

lemma run_step_any_time:
  assumes "run_step (env_at env cfg t0 now) cfg s t" and "\<not> finished_pc (rs_pc t)"
  shows "run_step (env_at env cfg t0 now') cfg s t"
proof -
  note same = run_step.intros [where env = "env_at env cfg t0 now'" and cfg = cfg, unfolded env_at_phases env_at_fields]
  from assms(1) show ?thesis
  proof (cases rule: run_step.cases)
    case (join_rdap rdap)
    with assms(2) show ?thesis by simp
  qed (simp_all only: env_at_phases env_at_fields, (blast intro: same)+)
qed

text \<open>So the invariant of a run holds of a timed one: at every time until the report is made, and from then
  on at the time it was made, which is the present since no time passes any more.\<close>

definition timed_ok :: "run_env \<Rightarrow> config \<Rightarrow> int \<Rightarrow> timed \<Rightarrow> bool" where
  "timed_ok env cfg t0 x \<longleftrightarrow> goroutines_ok env cfg (tm_run x) \<and>
     (\<forall>now. (finished_pc (rs_pc (tm_run x)) \<longrightarrow> now = tm_now x) \<longrightarrow>
        pc_inv (env_at env cfg t0 now) cfg (rs_pc (tm_run x)) (tm_run x))"

lemma finished_stays: "run_step env cfg s t \<Longrightarrow> finished_pc (rs_pc s) \<Longrightarrow> finished_pc (rs_pc t)"
  by (cases rule: run_step.cases) auto

lemma timed_ok_run:
  assumes "timed_ok env cfg t0 x" and "run_step (env_at env cfg t0 (tm_now x)) cfg (tm_run x) s"
    and "tm_run y = s" and "tm_now y = tm_now x"
  shows "timed_ok env cfg t0 y"
proof -
  have ok: "goroutines_ok env cfg (tm_run x)" using assms(1) by (simp add: timed_ok_def)
  have inv: "pc_inv (env_at env cfg t0 now) cfg (rs_pc (tm_run x)) (tm_run x)" if "finished_pc (rs_pc (tm_run x)) \<Longrightarrow> now = tm_now x" for now
    using assms(1) that by (simp add: timed_ok_def)
  have "pc_inv (env_at env cfg t0 now) cfg (rs_pc s) s" if t: "finished_pc (rs_pc s) \<longrightarrow> now = tm_now x" for now
  proof -
    have step: "run_step (env_at env cfg t0 now) cfg (tm_run x) s"
      using t assms(2) run_step_any_time [OF assms(2)] by blast
    have "pc_inv (env_at env cfg t0 now) cfg (rs_pc (tm_run x)) (tm_run x)"
      by (rule inv) (use t finished_stays [OF assms(2)] in blast)
    with step show ?thesis by (rule pc_inv_step) (simp add: ok)
  qed
  moreover have "goroutines_ok env cfg s" using goroutines_step [OF assms(2)] ok inv [of "tm_now x"] by simp
  ultimately show ?thesis using assms(3,4) by (simp add: timed_ok_def)
qed

lemma timed_ok_step:
  assumes "timed_ok env cfg t0 x" and "timed_step env cfg t0 x y"
  shows "timed_ok env cfg t0 y"
  using assms(2)
proof (cases rule: timed_step.cases)
  case (tick t)
  then have "\<not> finished_pc (rs_pc (tm_run x))" using finished_wait by blast
  with assms(1) tick show ?thesis by (simp add: timed_ok_def)
qed (rule timed_ok_run [OF assms(1)]; simp)+

lemma timed_ok_start: "timed_ok env cfg t0 (timed_start env cfg t0)"
  using run_start_inv [of "env_at env cfg t0 now" cfg for now] by (simp add: timed_ok_def timed_start_def Let_def)

interpretation timed: invariant_steps "timed_step env cfg t0" "timed_ok env cfg t0" for env cfg t0
  by unfold_locales (rule timed_ok_step)

lemma timed_pc_inv:
  assumes "timed_ok env cfg t0 x"
  shows "pc_inv (env_at env cfg t0 (tm_now x)) cfg (rs_pc (tm_run x)) (tm_run x)"
  using assms by (simp add: timed_ok_def)

text \<open>A goroutine of a timed run can take a step until the run is over, and each takes it nearer to its end.\<close>

lemma timed_rank:
  assumes "timed_step env cfg t0 x y"
  shows "tm_run y = tm_run x \<or> tm_now y = tm_now x \<and> run_left (tm_run y) < run_left (tm_run x)"
  using assms run_step_left by (cases rule: timed_step.cases) auto

lemma run_start_left: "run_left (run_start env cfg) \<le> 20"
  by (simp add: run_left_def run_start_def)

lemma timed_rank_bound:
  assumes "rtranclp (timed_step env cfg t0) (timed_start env cfg t0) x"
  shows "run_left (tm_run x) \<le> 20"
  using assms
proof (induction rule: rtranclp_induct)
  case base
  show ?case using run_start_left by (simp add: timed_start_def Let_def)
next
  case (step x y)
  with timed_rank [OF step.hyps(2)] show ?case by auto
qed

lemma run_step_timed:
  assumes "run_step (env_at env cfg t0 (tm_now x)) cfg (tm_run x) s"
  shows "\<exists>y. timed_step env cfg t0 x y \<and> tm_run y = s \<and> tm_now y = tm_now x"
proof (cases "rs_pc s = rs_pc (tm_run x)")
  case True
  with assms have "timed_step env cfg t0 x (x\<lparr>tm_run := s\<rparr>)" by (rule timed_step.act)
  then show ?thesis by (intro exI [of _ "x\<lparr>tm_run := s\<rparr>"]) simp
next
  case False
  with assms timed_step.move [of env cfg t0 x s] show ?thesis by (intro exI conjI) (assumption, simp_all)
qed

lemma timed_progress:
  assumes "timed_ok env cfg t0 x" and "rs_pc (tm_run x) \<noteq> Over"
  shows "\<exists>y. timed_step env cfg t0 x y \<and> tm_now y = tm_now x \<and> run_left (tm_run y) < run_left (tm_run x)"
  using run_progress [OF timed_pc_inv [OF assms(1)] assms(2)] run_step_timed run_step_left by metis

text \<open>So it can be carried to its end from every state, in no time.\<close>

lemma timed_completes:
  assumes "timed_ok env cfg t0 x"
  shows "\<exists>y. rtranclp (timed_step env cfg t0) x y \<and> rs_pc (tm_run y) = Over \<and> tm_now y = tm_now x"
  using assms
proof (induction "run_left (tm_run x)" arbitrary: x rule: less_induct)
  case less
  show ?case
  proof (cases "rs_pc (tm_run x) = Over")
    case False
    then obtain y where y: "timed_step env cfg t0 x y" "tm_now y = tm_now x" "run_left (tm_run y) < run_left (tm_run x)"
      using timed_progress less.prems by blast
    with less.hyps [OF y(3)] timed_ok_step [OF less.prems y(1)] show ?thesis
      by (metis converse_rtranclp_into_rtranclp)
  qed blast
qed

text \<open>The deadline of the run: nothing returns later than the grace after it.\<close>

definition dues_le :: "int \<Rightarrow> dues \<Rightarrow> bool" where
  "dues_le l d \<longleftrightarrow> du_trace d \<le> l \<and> du_wave d \<le> l \<and> du_main d \<le> l \<and> du_web d \<le> l \<and> du_rdap d \<le> l"

lemma running_dues_le: "dues_le l d \<Longrightarrow> list_all (\<lambda>x. x \<le> l) (running_dues s d)"
  by (cases "rs_pc s") (auto simp: running_dues_def dues_le_def)

lemma tick_below:
  fixes l t :: int
  assumes "list_all (\<lambda>x. x \<le> l) ds" and "list_all (\<lambda>x. t \<le> x) ds" and "ds \<noteq> []"
  shows "t \<le> l"
  using assms by (cases ds) auto

lemma deadline_step:
  assumes "timed_step env cfg t0 x y" and c: "runContext cfg t0 = Some p" and "timed_ok env cfg t0 x"
    and "tm_now x \<le> p + toolWaitDelay \<and> dues_le (p + toolWaitDelay) (tm_dues x)"
  shows "tm_now y \<le> p + toolWaitDelay \<and> dues_le (p + toolWaitDelay) (tm_dues y)"
  using assms(1)
proof (cases rule: timed_step.cases)
  case (move s)
  have "returns_by (Some p) (tm_now x) d \<le> p + toolWaitDelay" for d
    using returns_by_bounds(1) [of p "tm_now x" d] assms(4) by linarith
  with move assms(4) show ?thesis by (auto simp: new_dues_def dues_le_def c split: run_pc.split)
next
  case (tick t)
  have "t \<le> p + toolWaitDelay"
    using tick_below [OF running_dues_le tick(4) something_runs [OF timed_pc_inv]] assms(3,4) tick(3) by blast
  with tick assms(4) show ?thesis by simp
qed (use assms(4) in simp)

text \<open>The budgets of the phases, for timeouts whose durations do not overflow: how far each may be after the
  start.\<close>

definition in_range :: "config \<Rightarrow> bool" where
  "in_range cfg \<longleftrightarrow> 0 < cfg_TimeoutSec cfg \<and> cfg_TimeoutSec cfg \<le> 10 ^ 9 \<and> 0 < cfg_TCPTimeoutSec cfg \<and> cfg_TCPTimeoutSec cfg \<le> 10 ^ 9 \<and>
     0 < cfg_QuicTimeoutSec cfg \<and> cfg_QuicTimeoutSec cfg \<le> 10 ^ 9"

lemma durations:
  assumes "in_range cfg"
  shows "timeout cfg = cfg_TimeoutSec cfg * second"
    and "probeBudget cfg = (max (3 * cfg_TCPTimeoutSec cfg) (cfg_QuicTimeoutSec cfg + 1) + 1) * second"
    and "int64 (2 * timeout cfg) = 2 * timeout cfg" and "int64 (timeout cfg + second) = timeout cfg + second"
proof -
  have t: "timeout cfg = cfg_TimeoutSec cfg * second" unfolding timeout_def
    by (rule int64_id) (use assms in \<open>simp_all add: in_range_def second_def\<close>)
  have tcp: "tcpTimeout cfg = cfg_TCPTimeoutSec cfg * second" unfolding tcpTimeout_def
    by (rule int64_id) (use assms in \<open>simp_all add: in_range_def second_def\<close>)
  have b: "int64 (3 * tcpTimeout cfg) = 3 * cfg_TCPTimeoutSec cfg * second"
    unfolding tcp by (subst int64_id) (use assms in \<open>simp_all add: in_range_def second_def\<close>)
  have q: "int64 (int64 (cfg_QuicTimeoutSec cfg * second) + second) = (cfg_QuicTimeoutSec cfg + 1) * second"
    using assms by (simp add: in_range_def second_def int64_id)
  have "int64 ((cfg_QuicTimeoutSec cfg + 1) * second + second) = (cfg_QuicTimeoutSec cfg + 1) * second + second"
    "int64 (3 * cfg_TCPTimeoutSec cfg * second + second) = 3 * cfg_TCPTimeoutSec cfg * second + second"
    by (rule int64_id; use assms in \<open>simp add: in_range_def second_def\<close>)+
  then show "probeBudget cfg = (max (3 * cfg_TCPTimeoutSec cfg) (cfg_QuicTimeoutSec cfg + 1) + 1) * second"
    by (simp add: probeBudget_def Let_def b q) (simp add: second_def max_def)
  show "timeout cfg = cfg_TimeoutSec cfg * second" by (rule t)
  show "int64 (2 * timeout cfg) = 2 * timeout cfg" "int64 (timeout cfg + second) = timeout cfg + second"
    unfolding t by (rule int64_id; use assms in \<open>simp add: in_range_def second_def\<close>)+
qed

lemma budgets_positive:
  assumes "in_range cfg" shows "0 \<le> timeout cfg" and "second \<le> probeBudget cfg" and "0 \<le> probeBudget cfg" and "0 \<le> timeout cfg + second"
  using assms by (auto simp: durations in_range_def second_def max_def)

definition last_phase :: "run_env \<Rightarrow> config \<Rightarrow> int" where
  "last_phase env cfg =
     3 * timeout cfg + probeBudget cfg + 4 * toolWaitDelay +
     (if silent_zone env cfg then probeBudget cfg + toolWaitDelay else 0)"

fun phase_limit :: "run_env \<Rightarrow> config \<Rightarrow> run_pc \<Rightarrow> int" where
  "phase_limit env cfg (Gathering b n) =
     (if n = 0 then timeout cfg + toolWaitDelay
      else if n = 1 \<or> \<not> b then 2 * timeout cfg + 2 * toolWaitDelay else 3 * timeout cfg + 3 * toolWaitDelay)"
| "phase_limit env cfg Classified =
     3 * timeout cfg + 3 * toolWaitDelay + (if silent_zone env cfg then probeBudget cfg + toolWaitDelay else 0)"
| "phase_limit env cfg Audited = 3 * timeout cfg + probeBudget cfg + 4 * toolWaitDelay"
| "phase_limit env cfg Draining = 3 * timeout cfg + probeBudget cfg + 4 * toolWaitDelay"
| "phase_limit env cfg p = last_phase env cfg"

fun main_limit :: "run_env \<Rightarrow> config \<Rightarrow> run_pc \<Rightarrow> int \<Rightarrow> dues \<Rightarrow> bool" where
  "main_limit env cfg (Gathering b n) t0 d \<longleftrightarrow>
     (n < 2 \<longrightarrow> du_wave d \<le> t0 + phase_limit env cfg (Gathering b n)) \<and>
     (b \<and> n = 2 \<longrightarrow> du_main d \<le> t0 + phase_limit env cfg (Gathering b n))"
| "main_limit env cfg Classified t0 d \<longleftrightarrow>
     du_main d \<le> t0 + 3 * timeout cfg + 3 * toolWaitDelay + probeBudget cfg + toolWaitDelay"
| "main_limit env cfg (Probing a D) t0 d \<longleftrightarrow> du_main d \<le> t0 + last_phase env cfg"
| "main_limit env cfg p t0 d \<longleftrightarrow> True"

definition on_time :: "run_env \<Rightarrow> config \<Rightarrow> int \<Rightarrow> timed \<Rightarrow> bool" where
  "on_time env cfg t0 x \<longleftrightarrow> tm_now x \<le> t0 + phase_limit env cfg (rs_pc (tm_run x)) \<and>
     main_limit env cfg (rs_pc (tm_run x)) t0 (tm_dues x) \<and>
     du_trace (tm_dues x) \<le> t0 + 2 * timeout cfg + toolWaitDelay \<and>
     du_web (tm_dues x) \<le> t0 + timeout cfg + probeBudget cfg + 2 * toolWaitDelay \<and>
     du_rdap (tm_dues x) \<le> t0 + timeout cfg + second + toolWaitDelay"

lemma grace_positive: "0 \<le> toolWaitDelay"
  by (simp add: toolWaitDelay_def)

lemma on_time_start: "in_range cfg \<Longrightarrow> on_time env cfg t0 (timed_start env cfg t0)"
  using returns_by_bounds(2) [of "2 * timeout cfg" "runContext cfg t0" t0] returns_by_bounds(2) [of "timeout cfg" "runContext cfg t0" t0]
    returns_by_bounds(2) [of "timeout cfg + second" "runContext cfg t0" t0] budgets_positive [of cfg] grace_positive
  by (simp add: on_time_def timed_start_def run_start_def Let_def durations(3,4) add.assoc)

lemma on_time_tick:
  assumes "in_range cfg" and x: "on_time env cfg t0 x" and inv: "pc_inv (env_at env cfg t0 (tm_now x)) cfg (rs_pc (tm_run x)) (tm_run x)"
    and w: "\<not> wait_over (tm_run x) (rs_pc (tm_run x))" and due: "list_all (\<lambda>d. t \<le> d) (running_dues (tm_run x) (tm_dues x))"
  shows "t \<le> t0 + phase_limit env cfg (rs_pc (tm_run x))"
proof (cases "rs_pc (tm_run x)")
  case (Gathering b n)
  with inv have "n = 0 \<or> n = 1 \<or> n = 2" by auto
  with Gathering due x budgets_positive [OF assms(1)] grace_positive show ?thesis
    by (cases b) (auto simp: running_dues_def on_time_def)
next
  case Classified
  with w inv have "silent_zone env cfg" by (simp add: silent_zone_def)
  with Classified due x show ?thesis by (simp add: running_dues_def on_time_def)
next
  case Draining
  with w due x budgets_positive [OF assms(1)] grace_positive show ?thesis
    by (auto simp: running_dues_def on_time_def)
next
  case (Probing a D)
  show ?thesis
  proof (cases "{1, 2, 3} \<subseteq> D")
    case True
    with w inv Probing have "web_running (rs_web (tm_run x))" by (auto simp del: One_nat_def)
    with due x budgets_positive [OF assms(1)] grace_positive Probing show ?thesis
      by (auto simp: running_dues_def on_time_def last_phase_def)
  next
    case False
    then have "du_main (tm_dues x) \<in> set (running_dues (tm_run x) (tm_dues x))"
      using Probing by (simp add: running_dues_def del: insert_subset One_nat_def)
    with due have "t \<le> du_main (tm_dues x)" by (simp add: list_all_iff)
    with x Probing show ?thesis by (simp add: on_time_def)
  qed
next
  case Joining
  with w due x budgets_positive [OF assms(1)] grace_positive show ?thesis
    by (auto simp: running_dues_def on_time_def last_phase_def)
qed (use w in simp_all)

lemma on_time_move:
  assumes "in_range cfg" and x: "on_time env cfg t0 x" and inv: "pc_inv (env_at env cfg t0 (tm_now x)) cfg (rs_pc (tm_run x)) (tm_run x)"
    and step: "run_step (env_at env cfg t0 (tm_now x)) cfg (tm_run x) s" and ne: "rs_pc s \<noteq> rs_pc (tm_run x)"
  shows "on_time env cfg t0 (x\<lparr>tm_run := s,
    tm_dues := new_dues cfg (runContext cfg t0) (tm_now x) (rs_pc (tm_run x)) (rs_pc s) (tm_dues x)\<rparr>)"
proof -
  note pos = budgets_positive [OF assms(1)] grace_positive
  note by_t = returns_by_bounds(2) [where c = "runContext cfg t0" and now = "tm_now x", OF pos(1)]
  note by_p = returns_by_bounds(2) [where c = "runContext cfg t0" and now = "tm_now x", OF pos(3)]
  note facts = on_time_def new_dues_def
  show ?thesis using step
  proof (cases rule: run_step.cases)
    case (trace n)
    with inv have "n = 0 \<or> n = 1 \<or> n = 2" by auto
    with trace x pos by_t show ?thesis by (auto simp: facts)
  next
    case (first_wave b)
    with x pos by_t by_p show ?thesis by (auto simp: facts)
  next
    case (second_wave b)
    with x pos by_t show ?thesis by (cases b) (auto simp: facts)
  next
    case (classify rep dns)
    with x pos by_p show ?thesis by (auto simp: facts)
  next
    case audit_first
    with inv have "silent_zone env cfg" by (simp add: silent_zone_def)
    with audit_first x pos show ?thesis by (simp add: facts)
  next
    case audit_later
    with inv have "\<not> silent_zone env cfg" by (simp add: silent_zone_def)
    with audit_later x pos by_p show ?thesis by (auto simp: facts last_phase_def)
  next
    case live_zone
    with inv x pos by_p show ?thesis by (auto simp: facts last_phase_def)
  next
    case dead_zone
    with x pos show ?thesis by (auto simp: facts)
  next
    case drained
    with x pos show ?thesis by (auto simp: facts last_phase_def)
  next
    case (web_wait a D)
    with x show ?thesis by (auto simp: facts)
  next
    case (probe a D i)
    with x show ?thesis by (auto simp: facts)
  qed (use ne x in \<open>auto simp: facts\<close>)
qed

lemma on_time_step:
  assumes "in_range cfg" and "on_time env cfg t0 x" and "timed_ok env cfg t0 x" and "timed_step env cfg t0 x y"
  shows "on_time env cfg t0 y"
proof -
  note inv = timed_pc_inv [OF assms(3)]
  from assms(4) show ?thesis
  proof (cases rule: timed_step.cases)
    case (act s)
    with assms(2) show ?thesis by (simp add: on_time_def)
  next
    case (move s)
    with on_time_move [OF assms(1,2) inv] show ?thesis by blast
  next
    case (tick t)
    with on_time_tick [OF assms(1,2) inv] assms(2) show ?thesis by (simp add: on_time_def)
  qed
qed

lemma timed_inv:
  assumes "rtranclp (timed_step env cfg t0) (timed_start env cfg t0) x"
  shows "timed_ok env cfg t0 x" and "in_range cfg \<Longrightarrow> on_time env cfg t0 x" and "t0 \<le> tm_now x"
    and "runContext cfg t0 = Some p \<Longrightarrow> t0 \<le> p \<Longrightarrow> tm_now x \<le> p + toolWaitDelay"
proof -
  have "timed_ok env cfg t0 x \<and> (in_range cfg \<longrightarrow> on_time env cfg t0 x) \<and> t0 \<le> tm_now x \<and>
      (runContext cfg t0 = Some p \<longrightarrow> t0 \<le> p \<longrightarrow>
        tm_now x \<le> p + toolWaitDelay \<and> dues_le (p + toolWaitDelay) (tm_dues x))"
    using assms
  proof (induction rule: rtranclp_induct)
    case base
    have "returns_by (Some p) t0 d \<le> p + toolWaitDelay" if "t0 \<le> p" for d
      using returns_by_bounds(1) [of p t0 d] that grace_positive by linarith
    with on_time_start timed_ok_start grace_positive show ?case
      by (auto simp: dues_le_def) (auto simp: timed_start_def run_start_def Let_def)
  next
    case (step x y)
    have "t0 \<le> tm_now y" using step.hyps(2) step.IH by (cases rule: timed_step.cases) auto
    with step.IH on_time_step [OF _ _ _ step.hyps(2)] timed_ok_step [OF _ step.hyps(2)] deadline_step [OF step.hyps(2)]
    show ?case by blast
  qed
  then show "timed_ok env cfg t0 x" "in_range cfg \<Longrightarrow> on_time env cfg t0 x" "t0 \<le> tm_now x"
    "runContext cfg t0 = Some p \<Longrightarrow> t0 \<le> p \<Longrightarrow> tm_now x \<le> p + toolWaitDelay"
    by blast+
qed

lemma phase_limit_le: "in_range cfg \<Longrightarrow> phase_limit env cfg p \<le> last_phase env cfg"
  using budgets_positive [of cfg] grace_positive by (cases p) (auto simp: last_phase_def)

lemma run_stamp: "rep_DeadlineReached (run env cfg) = env_deadline env" "rep_ElapsedMs (run env cfg) = env_elapsed env"
proof -
  have "rep_DeadlineReached (run_finish env cfg rep) = env_deadline env" "rep_ElapsedMs (run_finish env cfg rep) = env_elapsed env" for rep
    by (simp_all add: run_finish_def finishReport_def Let_def buildFindings_alt finish_def split: prod.split)
  with run_finished [of env cfg] show "rep_DeadlineReached (run env cfg) = env_deadline env" "rep_ElapsedMs (run env cfg) = env_elapsed env"
    by auto
qed

text \<open>
  The product of \<open>timeout\<close> overflows: a \<open>-t\<close> that the flags and \<open>validateTimeouts\<close> accept gives a negative
  duration, and every lookup made under it has ended before it starts.
\<close>

lemma returns_at_once: "d \<le> 0 \<Longrightarrow> returns_by c now d = now"
  using WithTimeout_le(2) [of c now d] by (simp add: returns_by_def)

lemma timeout_overflow:
  "\<exists>cfg. parseArgs ex_cli [''-t'', ''9223372037'', ''d.org''] = Inr cfg \<and> timeout cfg < 0 \<and>
     (\<forall>c now. returns_by c now (timeout cfg) = now)"
proof -
  obtain cfg where c: "parseArgs ex_cli [''-t'', ''9223372037'', ''d.org''] = Inr cfg \<and> timeout cfg < 0"
  proof -
    have "(case parseArgs ex_cli [''-t'', ''9223372037'', ''d.org''] of Inr cfg \<Rightarrow> timeout cfg < 0 | Inl _ \<Rightarrow> False)"
      by code_simp
    then show ?thesis using that by (auto split: sum.splits)
  qed
  with returns_at_once [of "timeout cfg"] show ?thesis by auto
qed

text \<open>So does that of \<open>-max-time\<close>: the context of the run has then ended before it starts, and the report, in
  which every lookup is a timeout, says that the deadline was reached.\<close>

lemma max_time_overflow:
  "\<exists>cfg. parseArgs ex_cli [''-max-time'', ''9223372037'', ''d.org''] = Inr cfg \<and>
     (\<forall>env t0. env_deadline (env_at env cfg t0 t0))"
proof -
  obtain cfg where c: "parseArgs ex_cli [''-max-time'', ''9223372037'', ''d.org''] = Inr cfg" "int64 (cfg_MaxTimeSec cfg * second) < 0"
  proof -
    have "(case parseArgs ex_cli [''-max-time'', ''9223372037'', ''d.org''] of
        Inr cfg \<Rightarrow> int64 (cfg_MaxTimeSec cfg * second) < 0 | Inl _ \<Rightarrow> False)"
      by code_simp
    then show ?thesis using that by (auto split: sum.splits)
  qed
  then have "cfg_MaxTimeSec cfg \<noteq> 0" by (auto simp: int64_id)
  with c show ?thesis by (intro exI [of _ cfg]) (simp add: ctx_Err_def runContext_def WithTimeout_def)
qed

definition ex_limits :: config where
  "ex_limits = zero_config\<lparr>cfg_Domain := ''localhost'', cfg_TimeoutSec := 3, cfg_TCPTimeoutSec := 2, cfg_QuicTimeoutSec := 2,
     cfg_MaxTimeSec := 18\<rparr>"

lemma ex_timed_run:
  "\<exists>x. rtranclp (timed_step ex_env ex_limits 0) (timed_start ex_env ex_limits 0) x \<and> rs_pc (tm_run x) = Over"
  using timed_completes [OF timed_ok_start] by blast

section \<open>Properties\<close>

text \<open>
  C5. Whatever hangs, a run is never further on than the sum of its phases: three times \<open>-t\<close> for the
  delegation trace, the two waves of lookups and the probe for a bogus answer, one allowance
  \<open>max(3 \<times> -tcp-timeout, -quic-timeout + 1) + 1\<close> for the probes, a second one for the audit ahead of
  them in a zone whose nameservers were silent, and half a second after each of them for the tools that
  are killed. Until it is over one of its goroutines can take a step, and each step leaves one fewer of at
  most twenty. This is for timeouts from one second to \<open>10 ^ 9\<close> seconds, whose durations do not overflow.
\<close>
theorem run_wall_time:
  assumes "rtranclp (timed_step env cfg t0) (timed_start env cfg t0) x" and "in_range cfg"
    and "B = max (3 * cfg_TCPTimeoutSec cfg) (cfg_QuicTimeoutSec cfg + 1) + 1"
  shows "t0 \<le> tm_now x \<and> tm_now x \<le> t0 + (3 * cfg_TimeoutSec cfg + B) * second + 4 * toolWaitDelay +
    (if silent_zone env cfg then B * second + toolWaitDelay else 0) \<and> run_left (tm_run x) \<le> 20 \<and>
    (rs_pc (tm_run x) = Over \<or> (\<exists>y. timed_step env cfg t0 x y \<and> run_left (tm_run y) < run_left (tm_run x)))"
proof -
  have "tm_now x \<le> t0 + last_phase env cfg"
    using timed_inv(2) [OF assms(1,2)] phase_limit_le [OF assms(2), of env "rs_pc (tm_run x)"] by (simp add: on_time_def)
  moreover have "last_phase env cfg = (3 * cfg_TimeoutSec cfg + B) * second + 4 * toolWaitDelay +
      (if silent_zone env cfg then B * second + toolWaitDelay else 0)"
    by (simp add: last_phase_def durations [OF assms(2)] assms(3) algebra_simps)
  ultimately show ?thesis
    using timed_inv(3) [OF assms(1)] timed_rank_bound [OF assms(1)] timed_progress [OF timed_inv(1) [OF assms(1)]]
    by (auto simp: algebra_simps)
qed

theorem run_wall_time_witness:
  "\<exists>x. rtranclp (timed_step ex_env ex_limits 0) (timed_start ex_env ex_limits 0) x \<and> rs_pc (tm_run x) = Over \<and>
     tm_now x \<le> (16 + (if silent_zone ex_env ex_limits then 7 else 0)) * second + 5 * toolWaitDelay"
proof -
  obtain x where x: "rtranclp (timed_step ex_env ex_limits 0) (timed_start ex_env ex_limits 0) x" "rs_pc (tm_run x) = Over"
    using ex_timed_run by blast
  have "in_range ex_limits" by (simp add: in_range_def ex_limits_def)
  from run_wall_time [OF x(1) this refl] have "tm_now x \<le> (16 + (if silent_zone ex_env ex_limits then 7 else 0)) * second + 5 * toolWaitDelay"
    by (simp add: ex_limits_def second_def toolWaitDelay_def split: if_splits)
  with x show ?thesis by blast
qed

text \<open>
  C6. With a \<open>-max-time\<close> of at most 9223372036 seconds, the most that a duration holds, no run gets further
  than half a second after it, whatever hangs and however the goroutines interleave: the clock of every
  state it can reach is within that bound, and until it is over one of its goroutines can take a step, of
  which there are at most twenty. The report of a run that is over is the report of \<open>run\<close> at that time:
  its elapsed time is within the bound, and it is marked as cut off by the deadline exactly when the
  deadline had passed.
\<close>
theorem run_deadline:
  assumes "rtranclp (timed_step env cfg t0) (timed_start env cfg t0) x"
    and "0 < cfg_MaxTimeSec cfg" and "cfg_MaxTimeSec cfg \<le> 9223372036"
  shows "tm_now x \<le> t0 + cfg_MaxTimeSec cfg * second + toolWaitDelay \<and> run_left (tm_run x) \<le> 20 \<and>
    (if rs_pc (tm_run x) = Over
     then rs_rep (tm_run x) = run (env_at env cfg t0 (tm_now x)) cfg \<and>
       rep_ElapsedMs (rs_rep (tm_run x)) \<le> 1000 * cfg_MaxTimeSec cfg + 500 \<and>
       (rep_DeadlineReached (rs_rep (tm_run x)) \<longleftrightarrow> t0 + cfg_MaxTimeSec cfg * second \<le> tm_now x)
     else \<exists>y. timed_step env cfg t0 x y \<and> run_left (tm_run y) < run_left (tm_run x))"
proof -
  have "int64 (cfg_MaxTimeSec cfg * second) = cfg_MaxTimeSec cfg * second"
    by (rule int64_id) (use assms(2,3) in \<open>simp_all add: second_def\<close>)
  then have c: "runContext cfg t0 = Some (t0 + cfg_MaxTimeSec cfg * second)"
    using assms(2) by (simp add: runContext_def WithTimeout_def)
  have r: "rs_rep (tm_run x) = run (env_at env cfg t0 (tm_now x)) cfg" if "rs_pc (tm_run x) = Over"
    using timed_pc_inv [OF timed_inv(1) [OF assms(1)]] that by simp
  have now: "tm_now x \<le> t0 + cfg_MaxTimeSec cfg * second + toolWaitDelay"
    using timed_inv(4) [OF assms(1) c] assms(2) by (simp add: second_def)
  then have "(tm_now x - t0) div 1000000 \<le> (1000 * cfg_MaxTimeSec cfg + 500) * 1000000 div 1000000"
    by (intro zdiv_mono1) (simp_all add: second_def toolWaitDelay_def)
  with r now timed_rank_bound [OF assms(1)] timed_progress [OF timed_inv(1) [OF assms(1)]] show ?thesis
    by (auto simp: run_stamp c ctx_Err_def)
qed

theorem run_deadline_witness:
  "\<exists>x. rtranclp (timed_step ex_env ex_limits 0) (timed_start ex_env ex_limits 0) x \<and> rs_pc (tm_run x) = Over \<and>
     rs_rep (tm_run x) = run (env_at ex_env ex_limits 0 (tm_now x)) ex_limits \<and> rep_ElapsedMs (rs_rep (tm_run x)) \<le> 18500"
proof -
  obtain x where x: "rtranclp (timed_step ex_env ex_limits 0) (timed_start ex_env ex_limits 0) x" "rs_pc (tm_run x) = Over"
    using ex_timed_run by blast
  have "cfg_MaxTimeSec ex_limits = 18" by (simp add: ex_limits_def)
  with run_deadline [OF x(1)] x(2) have "rs_rep (tm_run x) = run (env_at ex_env ex_limits 0 (tm_now x)) ex_limits"
    "rep_ElapsedMs (rs_rep (tm_run x)) \<le> 18500" by auto
  with x show ?thesis by blast
qed


definition ex_phase :: phase_cache where
  "ex_phase = \<lparr>ph_cache = newLookupCache, ph_ctx = Some (WithTimeout (runContext ex_limits 0) 0 (timeout ex_limits))\<rparr>"


end
