(* ===== verification/Slots.thy ===== *)
theory Slots
  imports Web_Run Steps
begin

text \<open>
  The slots of the address probes (\<open>probeHost\<close> and \<open>probeWeb\<close> of \<open>src/run.go\<close>): one goroutine for each
  address of the apex and of www, which waits for a slot of the channel that both names share, probes
  its address and gives the slot back. The theorem says how many probes are in flight and that the
  probes end with the results that \<open>probeHost\<close> takes.
\<close>

definition maxAddressProbes :: nat where "maxAddressProbes = 16"

datatype slot_task = SlotWait | SlotHeld | SlotDone addrProbe

record slots =
  sl_sem :: nat
  sl_tasks :: "slot_task list"

text \<open>The tasks of both names, in the order in which they are started.\<close>

definition slot_reqs :: "config \<Rightarrow> addr list \<Rightarrow> addr list \<Rightarrow> (string \<times> addr) list" where
  "slot_reqs cfg apexAddrs wwwAddrs =
     map (Pair (cfg_Domain cfg)) apexAddrs @ map (Pair (''www.'' @ cfg_Domain cfg)) wwwAddrs"

definition slots_start :: "(string \<times> addr) list \<Rightarrow> slots" where
  "slots_start reqs = \<lparr>sl_sem = 0, sl_tasks = replicate (length reqs) SlotWait\<rparr>"

inductive slot_step :: "(string \<Rightarrow> addr \<Rightarrow> addrProbe) \<Rightarrow> (string \<times> addr) list \<Rightarrow> slots \<Rightarrow> slots \<Rightarrow> bool"
  for probe :: "string \<Rightarrow> addr \<Rightarrow> addrProbe" and reqs :: "(string \<times> addr) list" where
  enter: "\<lbrakk>i < length (sl_tasks s); sl_tasks s ! i = SlotWait; sl_sem s < maxAddressProbes\<rbrakk> \<Longrightarrow>
     slot_step probe reqs s (s\<lparr>sl_sem := sl_sem s + 1, sl_tasks := (sl_tasks s)[i := SlotHeld]\<rparr>)"
| leave: "\<lbrakk>i < length (sl_tasks s); sl_tasks s ! i = SlotHeld\<rbrakk> \<Longrightarrow>
     slot_step probe reqs s (s\<lparr>sl_sem := sl_sem s - 1,
       sl_tasks := (sl_tasks s)[i := SlotDone (probe (fst (reqs ! i)) (snd (reqs ! i)))]\<rparr>)"

inductive_cases slot_stepE: "slot_step probe reqs s t"

definition held :: "slots \<Rightarrow> nat" where
  "held s = count_list (sl_tasks s) SlotHeld"

section \<open>Lemmas\<close>

definition slots_left :: "slots \<Rightarrow> nat" where
  "slots_left s = 2 * count_list (sl_tasks s) SlotWait + held s"

definition slot_ok :: "(string \<Rightarrow> addr \<Rightarrow> addrProbe) \<Rightarrow> string \<times> addr \<Rightarrow> slot_task \<Rightarrow> bool" where
  "slot_ok probe req t = (case t of SlotDone p \<Rightarrow> p = probe (fst req) (snd req) | _ \<Rightarrow> True)"

definition slots_ok :: "(string \<Rightarrow> addr \<Rightarrow> addrProbe) \<Rightarrow> (string \<times> addr) list \<Rightarrow> slots \<Rightarrow> bool" where
  "slots_ok probe reqs s \<longleftrightarrow> sl_sem s = held s \<and> sl_sem s \<le> maxAddressProbes \<and> list_all2 (slot_ok probe) reqs (sl_tasks s)"

lemmas slot_defs = slots_ok_def held_def slots_left_def slot_ok_def

lemma slot_step_ok:
  assumes "slots_ok probe reqs s" and "slot_step probe reqs s t"
  shows "slots_ok probe reqs t \<and> slots_left t < slots_left s"
  using assms(2)
proof cases
  case (enter i)
  note u = count_list_update [OF enter(2,3), of SlotHeld]
  from enter assms(1) show ?thesis
    using u [of SlotHeld] u [of SlotWait] by (auto simp: slot_defs intro!: list_all2_update)
next
  case (leave i)
  note u = count_list_update [OF leave(2,3), of "SlotDone (probe (fst (reqs ! i)) (snd (reqs ! i)))"]
  from leave assms(1) show ?thesis
    using u [of SlotHeld] u [of SlotWait] by (auto simp: slot_defs intro!: list_all2_update)
qed

lemma slot_progress:
  assumes "slots_ok probe reqs s" and "slots_left s \<noteq> 0"
  shows "\<exists>t. slot_step probe reqs s t"
proof (cases "held s = 0")
  case True
  with assms(2) have "SlotWait \<in> set (sl_tasks s)"
    using count_list_0_iff [of "sl_tasks s" SlotWait] by (auto simp: slots_left_def)
  moreover have "sl_sem s < maxAddressProbes" using True assms(1) by (simp add: slots_ok_def maxAddressProbes_def)
  ultimately show ?thesis by (auto simp: in_set_conv_nth intro: slot_step.enter)
next
  case False
  then have "SlotHeld \<in> set (sl_tasks s)" by (auto simp: held_def count_list_0_iff)
  then show ?thesis by (auto simp: in_set_conv_nth intro: slot_step.leave)
qed

interpretation slotted: ranked_steps "slot_step probe reqs" "slots_ok probe reqs" slots_left "\<lambda>s. slots_left s = 0"
  for probe reqs
  by unfold_locales (use slot_step_ok slot_progress in blast)+

lemma slots_start_ok: "slots_ok probe reqs (slots_start reqs)" "slots_left (slots_start reqs) = 2 * length reqs"
proof -
  have "count_list (replicate k SlotWait) SlotHeld = 0" "count_list (replicate k SlotWait) SlotWait = k" for k
    by (induction k) auto
  then show "slots_ok probe reqs (slots_start reqs)" "slots_left (slots_start reqs) = 2 * length reqs"
    by (auto simp: slots_start_def slot_defs list_all2_conv_all_nth)
qed

lemma slots_all_done:
  assumes "slots_ok probe reqs s" and "slots_left s = 0"
  shows "sl_tasks s = map (\<lambda>r. SlotDone (probe (fst r) (snd r))) reqs"
proof (rule nth_equalityI)
  have all2: "list_all2 (slot_ok probe) reqs (sl_tasks s)" using assms(1) by (simp add: slots_ok_def)
  then show "length (sl_tasks s) = length (map (\<lambda>r. SlotDone (probe (fst r) (snd r))) reqs)"
    by (simp add: list_all2_lengthD)
  have "SlotWait \<notin> set (sl_tasks s)" "SlotHeld \<notin> set (sl_tasks s)"
    using assms(2) by (auto simp: slots_left_def held_def count_list_0_iff)
  moreover fix i assume "i < length (sl_tasks s)"
  moreover from this have "sl_tasks s ! i \<in> set (sl_tasks s)" by simp
  ultimately show "sl_tasks s ! i = map (\<lambda>r. SlotDone (probe (fst r) (snd r))) reqs ! i"
    using list_all2_nthD2 [OF all2, of i] list_all2_lengthD [OF all2]
    by (cases "sl_tasks s ! i") (auto simp: slot_ok_def)
qed

section \<open>Properties\<close>

text \<open>
  C19. At most sixteen addresses are probed at once across both names, however many they publish and
  however their probes interleave; the channel holds one token for each. After at most two steps for
  an address every probe has ended, and until then one of them can go on; when all have ended, each
  address has the result of its own probe and every slot is free.
\<close>
theorem address_probes_bounded:
  assumes "(slot_step probe reqs ^^ k) (slots_start reqs) s" and "reqs = slot_reqs cfg apexAddrs wwwAddrs"
  shows "held s \<le> 16 \<and> sl_sem s = held s \<and> k \<le> 2 * (length apexAddrs + length wwwAddrs) \<and>
    (if slots_left s = 0 then sl_tasks s = map (\<lambda>ip. SlotDone (probe (cfg_Domain cfg) ip)) apexAddrs @
         map (\<lambda>ip. SlotDone (probe (''www.'' @ cfg_Domain cfg) ip)) wwwAddrs
     else \<exists>t. slot_step probe reqs s t)"
proof -
  from slotted.steps_bound [OF assms(1) slots_start_ok(1)]
  have ok: "slots_ok probe reqs s" and k: "k + slots_left s \<le> slots_left (slots_start reqs)" by auto
  from k have "k \<le> 2 * (length apexAddrs + length wwwAddrs)"
    by (simp add: slots_start_ok(2) assms(2) slot_reqs_def)
  moreover have "held s \<le> 16" "sl_sem s = held s" using ok by (auto simp: slots_ok_def maxAddressProbes_def)
  moreover have "sl_tasks s = map (\<lambda>ip. SlotDone (probe (cfg_Domain cfg) ip)) apexAddrs @
      map (\<lambda>ip. SlotDone (probe (''www.'' @ cfg_Domain cfg) ip)) wwwAddrs" if "slots_left s = 0"
    using slots_all_done [OF ok that] by (simp add: assms(2) slot_reqs_def comp_def)
  ultimately show ?thesis using slot_progress [OF ok] by simp
qed

theorem address_probes_bounded_witness:
  "\<exists>s. (slot_step ex_probe (slot_reqs zero_config [IPv4 1] []) ^^ 1) (slots_start (slot_reqs zero_config [IPv4 1] [])) s \<and>
     held s \<le> 16 \<and> (\<exists>t. slot_step ex_probe (slot_reqs zero_config [IPv4 1] []) s t)"
proof -
  let ?reqs = "slot_reqs zero_config [IPv4 1] []" and ?s = "\<lparr>sl_sem = 1, sl_tasks = [SlotHeld]\<rparr>"
  have "slot_step ex_probe ?reqs (slots_start ?reqs) ?s"
    using slot_step.enter [of 0 "slots_start ?reqs" ex_probe ?reqs]
    by (simp add: slots_start_def slot_reqs_def maxAddressProbes_def)
  then have s: "(slot_step ex_probe ?reqs ^^ 1) (slots_start ?reqs) ?s" by (simp add: relcompp.simps)
  from address_probes_bounded [OF s refl] have "held ?s \<le> 16" "\<exists>t. slot_step ex_probe ?reqs ?s t"
    by (simp_all add: slots_left_def held_def)
  with s show ?thesis by blast
qed

end
