(* ===== verification/Ports.thy ===== *)
theory Ports
  imports Probe Parallel
begin

text \<open>
  The bare reachability check of \<open>src/tcp.go\<close>: one dial for every address and port, in parallel. A dial
  takes the port as 16 bits.
\<close>

definition dialOnce :: "(addr \<Rightarrow> addr_net) \<Rightarrow> addr \<times> int \<Rightarrow> PortState" where
  "dialOnce net k = dialPort (net (fst k)) (nat (snd k mod 2 ^ 16))"

definition port_task :: "(addr \<Rightarrow> addr_net) \<Rightarrow> addr \<times> int \<Rightarrow> (addr \<times> int, PortState) go_map \<Rightarrow> (addr \<times> int, PortState) go_map" where
  "port_task net k results = map_put k (dialOnce net k) results"

text \<open>The relation between the arguments of \<open>probePorts\<close> and the map it may return.\<close>

definition probePorts :: "(addr \<Rightarrow> addr_net) \<Rightarrow> addr list \<Rightarrow> int list \<Rightarrow> (addr \<times> int, PortState) go_map \<Rightarrow> bool" where
  "probePorts net ips ports results \<longleftrightarrow> parallel (map (port_task net) (uniquePortKeys ips ports)) [] results"

section \<open>Lemmas\<close>

interpretation ports: independent_tasks "map (port_task net) keys" map_of for net keys
  by unfold_locales (simp_all add: port_task_def upd_swap)

lemma fold_port_task: "fold (\<lambda>f. f) (map (port_task net) keys) m = fold (\<lambda>k. map_put k (dialOnce net k)) keys m"
  by (induction keys arbitrary: m) (simp_all add: port_task_def)

lemma set_fold_append_once: "set (fold (\<lambda>p. append_once (f p)) ps keys) = f ` set ps \<union> set keys"
  by (induction ps arbitrary: keys) (auto simp: append_once_def)

lemma set_uniquePortKeys: "set (uniquePortKeys ips ports) = (Unmap ` set ips) \<times> set ports"
proof -
  have "set (fold (\<lambda>a keys. fold (\<lambda>p. append_once (Unmap a, p)) ports keys) as keys) =
      (Unmap ` set as) \<times> set ports \<union> set keys" for as keys
    by (induction as arbitrary: keys) (auto simp: set_fold_append_once)
  then show ?thesis by (simp add: uniquePortKeys_def)
qed

section \<open>Properties\<close>

text \<open>
  \<open>probePorts\<close> returns the state of every pair of an address and a port, and of nothing else, in
  whatever order the dials end: the state is open exactly when the dial of that address succeeded on
  the port, and addresses that differ only in being mapped into IPv6 are one.
\<close>
theorem probePorts_states:
  assumes "probePorts net ips ports results"
  shows "map_of results = (\<lambda>k. if fst k \<in> Unmap ` set ips \<and> snd k \<in> set ports
      then Some (dialPort (net (fst k)) (nat (snd k mod 65536))) else None)"
proof -
  have "map_of results = map_of (fold (\<lambda>f. f) (map (port_task net) (uniquePortKeys ips ports)) [])"
    using assms ports.any_order unfolding probePorts_def by blast
  also have "\<dots> = (\<lambda>k. if k \<in> set (uniquePortKeys ips ports) then Some (dialOnce net k) else None)"
    by (simp add: fold_port_task map_of_fold_put)
  finally show ?thesis by (auto simp: set_uniquePortKeys dialOnce_def mem_Times_iff fun_eq_iff)
qed

end
