(* ===== verification/Spec2Isabelle.thy ===== *)
theory Spec2Isabelle
  imports Deadlines Slots Ports Lookups
begin

text \<open>
  \<^bold>\<open>domaintest, a verification development.\<close>

  The program (one Go package, \<open>src/*.go\<close>) examines one domain name: it asks a resolver for the
  records of the name and of its \<open>www\<close> host, traces the delegation, audits the nameservers, probes the
  web addresses over TCP, TLS, HTTP and QUIC, checks the mail records, the registration and the HSTS
  preload list, and prints a report whose findings decide its exit status.

  \<^bold>\<open>Parts and their theories.\<close> Every definition is a translation of the Go function it is named after;
  the manifest of the development gives the lines.

  \<^item> \<open>Go_Prelude\<close>, \<open>Go_Text\<close>, \<open>Netip\<close>, \<open>Url\<close>, \<open>Paths\<close>, \<open>Json\<close>, \<open>Json_Print\<close>: what the code uses of Go's
    library: package strings on char lists (a string is its bytes), strconv, fmt, sort, maps as association lists in the
    order of insertion, net/netip on words, net/url, path/filepath, and encoding/json with its case-insensitive and
    last-wins decoding of objects and its escaping encoder. The collections \<open>go_string\<close>, \<open>go_defs\<close> and \<open>emits_rules\<close> hold the shared rules.
  \<^item> \<open>Names\<close> (names.go, publicsuffix.go, reserved.go, addr.go), \<open>Records\<close> (records.go), \<open>Config\<close> (the
    types of main.go and runner.go that every check reads).
  \<^item> \<open>Runner\<close> (runner.go): the capped output of a tool, the result of a run, and the limited runner as a
    step relation on a pool of calls. \<open>Dog\<close> (dog.go), \<open>Dig\<close> (dig.go), \<open>Quic\<close> (quic.go), \<open>Rdap\<close> and
    \<open>Rdap_Lookup\<close> (rdap.go): the four tools, their arguments and the reading of their output.
  \<^item> \<open>Dnssec\<close> (dnssec.go), \<open>Trace\<close> (trace.go), \<open>Nsaudit\<close> (nsaudit.go), \<open>Wildcard\<close> (wildcard.go), \<open>Caa\<close>
    (caa.go), \<open>Tlsa\<close> (tlsa.go): the verdicts on the zone.
  \<^item> \<open>Spf\<close>, \<open>Mail\<close>, \<open>Scrub\<close> (mail.go): the SPF evaluator, DMARC, MX, DKIM, MTA-STS, and the removal of
    addresses from error texts.
  \<^item> \<open>X509\<close>, \<open>Tlsprobe\<close> (tlsprobe.go), \<open>Web\<close> (httpprobe.go, httpversions.go, tcp.go), \<open>Hosts\<close> (the host
    types of report.go, webconsistency.go), \<open>Probe\<close> (the probe of one address, aia.go): the web.
  \<^item> \<open>Ports\<close> (tcp.go): the parallel check of ports.
  \<^item> \<open>Preload\<close>, \<open>Preload_Fetch\<close>, \<open>Preload_Share\<close> (preloadlist.go): the list, its cache file, the download;
    the lock, the atomic write and the loads of many processes at once, each with its lock file, as a step relation.
  \<^item> \<open>Memo\<close>: the contract of a memoising lookup, a locale that the cache of aia.go satisfies. \<open>Parallel\<close>: \<open>parallel\<close> of run.go, and the locale of tasks whose order does not
    show, which the first wave of lookups, the last phase of a run and the check of ports satisfy.
    \<open>Steps\<close>: two locales on step relations, an invariant, and an invariant with a measure that every
    step lowers; the limited runner, the calls of the lookup cache, the processes that share a preload
    cache, the slots of the address probes and the goroutines of a run satisfy them.
  \<^item> \<open>Findings\<close>, \<open>Report\<close>, \<open>Web_Report\<close>, \<open>Http_Report\<close>, \<open>Mail_Report\<close>, \<open>Zone_Report\<close>, \<open>Verdict\<close>
    (report.go): the report, the passes that turn it into findings, and their order. \<open>Output\<close>: the
    report as JSON by its struct tags (\<open>writeReport\<close> of main.go).
  \<^item> \<open>Resolver\<close>, \<open>Gather\<close>, \<open>Web_Run\<close>, \<open>Run\<close> (run.go): the resolver and its cache, the two waves of
    lookups, the web phase, and the run that puts them together. \<open>Lookups\<close>
    (\<open>lookupCache\<close> of run.go): the calls of the cache, which overlap, as a step relation. \<open>Schedule\<close> (run.go): the goroutines of
    a run, the early web probes with their \<open>start\<close>, \<open>wait\<close> and \<open>stop\<close>, as a step relation. \<open>Cli\<close> (main.go,
    version.go): the arguments, the tools, the document printed and the exit status.
  \<^item> \<open>Slots\<close> (\<open>probeHost\<close> and \<open>probeWeb\<close> of run.go): the channel that bounds the address probes of both names.
    \<open>Deadlines\<close> (\<open>runContext\<close> and the durations of main.go, \<open>toolWaitDelay\<close> of runner.go, \<open>probeBudget\<close>,
    \<open>setContext\<close> and the contexts of run.go): the goroutines of a run with a clock, and the lookup cache
    with the context of its phase.

  \<^bold>\<open>How the parts interact.\<close> \<open>realMain\<close> parses the arguments into a \<open>config\<close>, resolves the tools and
  calls \<open>run\<close>. A run gathers the lookups through the cache, classifies the zone, asks the nameservers
  first when the delegation was silent, and otherwise probes the web, the nameservers, the mail and the
  preload list in parallel, each writing its own fields of the \<open>Report\<close>; then \<open>buildFindings\<close> reads the
  finished report. What the program learns from outside is an argument: the record \<open>dp_lib\<close> for package
  dpdomain, a \<open>runner\<close> for a tool, a \<open>lookupFn\<close> for the cached lookups, the records \<open>addr_net\<close>,
  \<open>exchange\<close> and the type \<open>connector\<close> for sockets, \<open>x509_lib\<close>, \<open>x509_keys\<close> and \<open>sha_lib\<close> for package
  crypto, \<open>time_fmt\<close> for package time, \<open>preload_world\<close> for the cache file and its lock, and \<open>run_env\<close>
  for all of these in a run. Goroutines are an arbitrary order of completion where the order could show
  (\<open>dialFirst\<close>, the limited runner, the calls of the lookup cache, the tasks of \<open>parallel\<close>). The functions
  of \<open>Gather\<close> and \<open>Run\<close> take one order, and the theory \<open>Schedule\<close> shows that every other gives the same. The
  lookups of a wave are a function of name and type; those that come after the waves, of the audit and of
  the mail section, go through the cache as the waves and \<open>dropTrust\<close> left it.

  \<^bold>\<open>What is shown.\<close>

  \<^item> The verdict: the errors and warnings are the messages of the findings, a report passes exactly when
    no finding fails, every finding has a code and a severity of a fixed catalogue, and the exit status
    says which. A dead zone ends the run early and fails; for a reserved name nothing but the
    resolver and the HSTS list is asked; www is never asked about below a name that is not registrable, and
    what a resolver would say of it is not in the report.
  \<^item> The document: the JSON the program prints is read back as the report, and its \<open>ok\<close> and \<open>findings\<close>
    agree with the exit status, from the command line to the last byte.
  \<^item> DNS: a lookup's status and its records agree; the lookup cache answers a question only with
    what the resolver said to it, and an answer that is kept ends the questions (calls that overlap may still
    ask twice); no DNSSEC verdict is made from a resolver that does not validate or from a lookup without
    an answer; a zone is called secure only with validated keys; the comparison of the delegation, the
    audit, the glue, the diversity and the serials against their specifications.
  \<^item> Mail: the SPF evaluation asks a bounded number of questions, reports the limits it exceeds and lets
    the record's own \<open>all\<close> win; every problem it can raise has a class; MX, DMARC, DKIM and MTA-STS
    verdicts follow from the records.
  \<^item> Web: redirects end, chains are valid exactly when the verifier says so, issuers are fetched only
    from public addresses and once, reserved addresses are never dialled, the sections of an address are
    consistent with the states of its ports.
  \<^item> Formats: the cache file, the TXT presentation format, HSTS headers and tags are read back as they were
    written; the reading of the tools' JSON is characterised field by field.
  \<^item> Concurrency: at most the configured number of tools runs at once, and every call returns. Every
    schedule of a run gives the report of \<open>run\<close>, ends after at most twenty steps of its goroutines and
    leaves none of them behind. At most sixteen addresses are probed at once. Processes that share a
    preload cache never see a file half written; of those with one lock file one holds it, and they fetch a
    list that can be stored once; each process gets what a load on its own would give in the world it saw.
  \<^item> Time: whatever hangs, the clock of a run stays within the sum of the allowances of its phases, and with
    \<open>-max-time\<close> within half a second after it, and until the run is over some goroutine can go on (for
    timeouts whose durations do not overflow 64 bits; \<open>timeout_overflow\<close> and \<open>max_time_overflow\<close> are the
    others); the report is marked as cut off exactly when the
    deadline had passed; a lookup that came too late for its phase is asked in the next.

  \<^bold>\<open>Bounds and fuel.\<close> Nothing is cut short by the model: every recursion is structural or has a
  termination proof from the bounds of the code itself: at most 10 redirect hops, 3 issuer fetches, 3
  attempts at the preload list, an include path of 20 names and 30 SPF lookups, 8 interim responses. The
  JSON parser runs on a fuel of twice the length of its input plus one, which is enough for every document
  (\<open>json_parse_render\<close>, \<open>json_parse_Encode\<close>); the loops that draw random labels and wait for a lock may run forever and are
  each a \<open>partial_function\<close>.

  \<^bold>\<open>Not modelled.\<close> The execution of processes, sockets, TLS, cryptography and system calls (their results
  are arguments); how long an operation takes within its context (in \<open>Deadlines\<close> any time up to its
  deadline, and half a second more for a tool that is killed; computing takes none); lookups of one question
  in one phase that get different answers because they overlap (in \<open>Gather\<close> and \<open>Run\<close>; \<open>Lookups\<close> has them);
  letters and spaces beyond ASCII in \<open>ToLower\<close>, \<open>TrimSpace\<close> and \<open>Fields\<close>; the entry point
  \<open>main\<close>, which exits with the status of \<open>realMain\<close>; the texts on the standard error.
\<close>

end
